(* ===== verification/Surf_Prelude.thy ===== *)
theory Surf_Prelude
  imports Main "HOL-Library.Word"
begin

text \<open>
  Shared vocabulary of the Surf development: machine words and byte strings, Go slices and
  the \<^verbatim>\<open>encoding/binary\<close> big-endian helpers, Go's \<^verbatim>\<open>time.Time\<close>, buffered channels, and the
  generic facts about lists and finite maps the component theories share.

  The named collections are
  \<^item> \<open>go_slice\<close>: rewriting with slices and in-place stores at fixed offsets;
  \<^item> \<open>go_chan\<close>: rewriting with non-blocking channel operations;
  \<^item> \<open>go_time\<close>: unfolding of the time operations.
\<close>

named_theorems go_slice "slices and stores at fixed offsets"
named_theorems go_chan "non-blocking operations on buffered channels"
named_theorems go_time "operations of Go's time package"

section \<open>Bytes and slices\<close>

type_synonym byte = "8 word"
type_synonym bytes = "byte list"
type_synonym uint16 = "16 word"
type_synonym uint32 = "32 word"
type_synonym uint64 = "64 word"

definition sub_slice :: "nat \<Rightarrow> nat \<Rightarrow> 'a list \<Rightarrow> 'a list" where
  \<comment> \<open>\<^verbatim>\<open>xs[i:j]\<close>\<close>
  "sub_slice i j xs = take (j - i) (drop i xs)"

definition store_at :: "nat \<Rightarrow> 'a list \<Rightarrow> 'a list \<Rightarrow> 'a list" where
  \<comment> \<open>\<^verbatim>\<open>copy(out[i:], ys)\<close>: at most \<^verbatim>\<open>len(out) - i\<close> elements are copied\<close>
  "store_at i ys out =
     take i out @ take (length out - i) ys @ drop (i + length ys) out"

fun be_put :: "nat \<Rightarrow> nat \<Rightarrow> bytes" where
  \<comment> \<open>\<^verbatim>\<open>binary.BigEndian.PutUint\<close>\<open>8k\<close>: the \<open>k\<close> low bytes, most significant first\<close>
  "be_put 0 n = []"
| "be_put (Suc k) n = be_put k (n div 256) @ [word_of_nat (n mod 256)]"

definition be_get :: "bytes \<Rightarrow> nat" where
  \<comment> \<open>\<^verbatim>\<open>binary.BigEndian.Uint\<close>\<open>8k\<close>\<close>
  "be_get bs = foldl (\<lambda>acc b. acc * 256 + unat b) 0 bs"

lemma length_be_put [simp]: "length (be_put k n) = k"
  by (induction k arbitrary: n) auto

lemma be_get_snoc [simp]: "be_get (bs @ [b]) = be_get bs * 256 + unat b"
  by (simp add: be_get_def)

lemma unat_byte_mod [simp]: "unat (word_of_nat (n mod 256) :: byte) = n mod 256"
  by (simp add: unat_of_nat)

theorem be_get_be_put: "be_get (be_put k n) = n mod 256 ^ k"
proof (induction k arbitrary: n)
  case 0
  then show ?case by (simp add: be_get_def)
next
  case (Suc k)
  have "be_get (be_put (Suc k) n) = (n div 256 mod 256 ^ k) * 256 + n mod 256"
    by (simp add: Suc.IH)
  also have "\<dots> = n mod (256 * 256 ^ k)"
    by (simp add: mod_mult2_eq)
  finally show ?case by simp
qed

lemma be_get_be_put_unat [simp]:
  fixes w :: "'a::len word"
  assumes "LENGTH('a) = 8 * k"
  shows "be_get (be_put k (unat w)) = unat w"
proof -
  have "unat w < 2 ^ (8 * k)"
    using unsigned_less [of w] assms by metis
  then have "unat w < 256 ^ k"
    by (simp add: power_mult)
  then show ?thesis
    by (simp add: be_get_be_put)
qed

lemma length_sub_slice [simp]: "length (sub_slice i j xs) = min (j - i) (length xs - i)"
  by (simp add: sub_slice_def)

lemma length_store_at [simp]: "length (store_at i ys out) = length out"
  by (simp add: store_at_def)

lemma nth_store_at:
  assumes "i + length ys \<le> length out" "k < length out"
  shows "store_at i ys out ! k = (if i \<le> k \<and> k < i + length ys then ys ! (k - i) else out ! k)"
  using assms by (auto simp: store_at_def nth_append min_def)

lemma sub_slice_store_at_same [go_slice]:
  assumes "i + length ys \<le> length out" "j = i + length ys"
  shows "sub_slice i j (store_at i ys out) = ys"
  using assms by (simp add: sub_slice_def store_at_def)

lemma sub_slice_store_at_other [go_slice]:
  assumes "i + length ys \<le> length out" "b \<le> i \<or> i + length ys \<le> a"
  shows "sub_slice a b (store_at i ys out) = sub_slice a b out"
proof (rule nth_equalityI)
  show "length (sub_slice a b (store_at i ys out)) = length (sub_slice a b out)"
    using assms by simp
next
  fix k
  assume k: "k < length (sub_slice a b (store_at i ys out))"
  then have "a + k < b" "a + k < length out"
    using assms by auto
  then show "sub_slice a b (store_at i ys out) ! k = sub_slice a b out ! k"
    using assms k by (auto simp: sub_slice_def nth_store_at)
qed

lemma nth_store_at_other [go_slice]:
  assumes "i + length ys \<le> length out" "k < i \<or> i + length ys \<le> k" "k < length out"
  shows "store_at i ys out ! k = out ! k"
  using assms by (auto simp: nth_store_at)

lemma drop_store_at_after [go_slice]:
  "i + length ys \<le> n \<Longrightarrow> n \<le> length out \<Longrightarrow> drop n (store_at i ys out) = drop n out"
  by (simp add: store_at_def)

section \<open>Time\<close>

text \<open>
  A \<^verbatim>\<open>time.Time\<close> is the number of nanoseconds since Go's zero time (January 1, year 1, UTC),
  so that \<^verbatim>\<open>IsZero\<close> is equality with \<open>0\<close> and \<^verbatim>\<open>Before\<close>, \<^verbatim>\<open>After\<close> are the orders of \<^typ>\<open>int\<close>.
  A \<^verbatim>\<open>time.Duration\<close> is a signed 64-bit count of nanoseconds and \<^verbatim>\<open>Sub\<close> saturates at its ends.
\<close>

type_synonym gotime = int
type_synonym duration = int

definition time_sub :: "gotime \<Rightarrow> gotime \<Rightarrow> duration" where
  "time_sub t u = max (- (2 ^ 63)) (min (2 ^ 63 - 1) (t - u))"

abbreviation is_zero :: "gotime \<Rightarrow> bool" where
  "is_zero t \<equiv> t = 0"

abbreviation millisecond :: duration where
  "millisecond \<equiv> 1000000"

abbreviation second :: duration where
  "second \<equiv> 1000000000"

abbreviation minute :: duration where
  "minute \<equiv> 60000000000"

lemma time_sub_ge_iff [go_time]:
  "- (2 ^ 63) < d \<Longrightarrow> d < 2 ^ 63 \<Longrightarrow> d \<le> time_sub t u \<longleftrightarrow> u + d \<le> t"
  by (auto simp: time_sub_def)

lemma time_sub_less_iff [go_time]:
  "- (2 ^ 63) < d \<Longrightarrow> d < 2 ^ 63 \<Longrightarrow> time_sub t u < d \<longleftrightarrow> t < u + d"
  by (auto simp: time_sub_def)

lemma time_sub_gt_iff [go_time]:
  "- (2 ^ 63) \<le> d \<Longrightarrow> d < 2 ^ 63 - 1 \<Longrightarrow> d < time_sub t u \<longleftrightarrow> u + d < t"
  by (auto simp: time_sub_def)

section \<open>Buffered channels\<close>

text \<open>
  A buffered channel of capacity \<open>c\<close> is the list of its queued elements, oldest first.
  \<open>chan_send\<close> is \<^verbatim>\<open>select { case ch <- x: ... default: ... }\<close>.
\<close>

definition chan_send :: "nat \<Rightarrow> 'a \<Rightarrow> 'a list \<Rightarrow> 'a list option" where
  "chan_send c x q = (if length q < c then Some (q @ [x]) else None)"

lemma chan_send_None [go_chan]: "chan_send c x q = None \<longleftrightarrow> c \<le> length q"
  by (auto simp: chan_send_def)

lemma chan_send_Some [go_chan]: "chan_send c x q = Some q' \<longleftrightarrow> length q < c \<and> q' = q @ [x]"
  by (auto simp: chan_send_def)

section \<open>Maps\<close>

definition map_keep :: "('k \<Rightarrow> 'v \<Rightarrow> bool) \<Rightarrow> ('k \<rightharpoonup> 'v) \<Rightarrow> ('k \<rightharpoonup> 'v)" where
  \<comment> \<open>\<^verbatim>\<open>for k, v := range m { if !P(k, v) { delete(m, k) } }\<close>\<close>
  "map_keep P m = (\<lambda>k. case m k of None \<Rightarrow> None | Some v \<Rightarrow> if P k v then Some v else None)"

lemma map_keep_Some [simp]: "map_keep P m k = Some v \<longleftrightarrow> m k = Some v \<and> P k v"
  by (auto simp: map_keep_def split: option.splits)

lemma map_keep_None: "map_keep P m k = None \<longleftrightarrow> (\<forall>v. m k = Some v \<longrightarrow> \<not> P k v)"
  by (auto simp: map_keep_def split: option.splits)

lemma map_keep_empty [simp]: "map_keep P Map.empty = Map.empty"
  by (simp add: map_keep_def fun_eq_iff)

lemma map_keep_upd [simp]:
  "map_keep P (m(k \<mapsto> v)) = (if P k v then (map_keep P m)(k \<mapsto> v) else (map_keep P m)(k := None))"
  by (auto simp: map_keep_def fun_eq_iff)

lemma dom_map_keep: "dom (map_keep P m) \<subseteq> dom m"
  by (auto simp: dom_def)

lemma finite_dom_map_keep [simp, intro]: "finite (dom m) \<Longrightarrow> finite (dom (map_keep P m))"
  by (rule finite_subset [OF dom_map_keep])

lemma ran_map_keep: "ran (map_keep P m) \<subseteq> ran m"
  by (auto simp: ran_def)

lemma map_upd_None_Some [simp]: "(m(k := None)) j = Some v \<longleftrightarrow> j \<noteq> k \<and> m j = Some v"
  by auto

definition map_all :: "('k \<Rightarrow> 'v \<Rightarrow> bool) \<Rightarrow> ('k \<rightharpoonup> 'v) \<Rightarrow> bool" where
  "map_all P m \<longleftrightarrow> (\<forall>k v. m k = Some v \<longrightarrow> P k v)"

lemma map_allI [intro?]: "(\<And>k v. m k = Some v \<Longrightarrow> P k v) \<Longrightarrow> map_all P m"
  by (simp add: map_all_def)

lemma map_allD: "map_all P m \<Longrightarrow> m k = Some v \<Longrightarrow> P k v"
  by (simp add: map_all_def)

lemma map_all_empty [simp]: "map_all P Map.empty"
  by (simp add: map_all_def)

lemma map_all_upd [intro]: "map_all P m \<Longrightarrow> P k v \<Longrightarrow> map_all P (m(k \<mapsto> v))"
  by (simp add: map_all_def)

lemma map_all_upd_iff: "map_all P (m(k \<mapsto> v)) \<longleftrightarrow> P k v \<and> map_all P (m(k := None))"
  by (auto simp: map_all_def)

lemma map_all_delete [intro]: "map_all P m \<Longrightarrow> map_all P (m(k := None))"
  by (simp add: map_all_def)

lemma map_all_keep [intro]: "map_all P m \<Longrightarrow> map_all P (map_keep Q m)"
  by (simp add: map_all_def)

lemma map_all_mono: "map_all P m \<Longrightarrow> (\<And>k v. m k = Some v \<Longrightarrow> P k v \<Longrightarrow> Q k v) \<Longrightarrow> map_all Q m"
  by (simp add: map_all_def)

section \<open>Bit length\<close>

fun bit_len :: "nat \<Rightarrow> nat" where
  \<comment> \<open>\<^verbatim>\<open>big.Int.BitLen\<close>\<close>
  "bit_len n = (if n = 0 then 0 else Suc (bit_len (n div 2)))"

declare bit_len.simps [simp del]

lemma bit_len_power: "bit_len (2 ^ k) = Suc k"
proof (induction k)
  case 0
  have "bit_len 1 = Suc (bit_len 0)" by (subst bit_len.simps) simp
  moreover have "bit_len 0 = 0" by (subst bit_len.simps) simp
  ultimately show ?case by simp
next
  case (Suc k)
  have "bit_len (2 ^ Suc k) = Suc (bit_len (2 ^ Suc k div 2))" by (subst bit_len.simps) simp
  then show ?case using Suc by simp
qed

lemma bit_len_bounds: "0 < n \<Longrightarrow> 2 ^ (bit_len n - 1) \<le> n \<and> n < 2 ^ bit_len n"
proof (induction n rule: bit_len.induct)
  case (1 n)
  have len: "bit_len n = Suc (bit_len (n div 2))" using 1(2) by (subst bit_len.simps) simp
  show ?case
  proof (cases "n div 2 = 0")
    case True
    then have "n = 1" using 1(2) by linarith
    then show ?thesis using len by (simp add: bit_len.simps)
  next
    case False
    then have IH: "2 ^ (bit_len (n div 2) - 1) \<le> n div 2" "n div 2 < 2 ^ bit_len (n div 2)" using 1 by auto
    have "0 < bit_len (n div 2)" using False by (subst bit_len.simps) simp
    then have "2 ^ bit_len (n div 2) = 2 * (2 ^ (bit_len (n div 2) - 1) :: nat)" by (cases "bit_len (n div 2)") auto
    then show ?thesis using len IH by simp linarith
  qed
qed

end
