(* ===== verification/Go_Text.thy ===== *)
theory Go_Text
  imports Surf_Prelude
begin

text \<open>
  The part of Go's string library the components use. A Go string is a byte string, and a
  \<^typ>\<open>char\<close> is a byte, so \<^typ>\<open>string\<close> is Go's type. Modelled here are UTF-8 decoding and
  encoding with Go's treatment of invalid input (each bad byte is one \<^verbatim>\<open>RuneError\<close>), the space
  and control classes of \<^verbatim>\<open>unicode\<close>, \<^verbatim>\<open>strings.Split\<close>, \<^verbatim>\<open>Join\<close>, \<^verbatim>\<open>TrimSpace\<close>, \<^verbatim>\<open>Contains\<close>,
  \<^verbatim>\<open>HasPrefix\<close>, \<^verbatim>\<open>hex.EncodeToString\<close>, decimal formatting and \<^verbatim>\<open>strconv.ParseInt\<close>.
\<close>

section \<open>UTF-8\<close>

type_synonym rune = nat

definition RuneError :: rune where "RuneError = 0xFFFD"

definition valid_rune :: "rune \<Rightarrow> bool" where
  "valid_rune r \<longleftrightarrow> r < 0xD800 \<or> 0xE000 \<le> r \<and> r \<le> 0x10FFFF"

definition encode_rune :: "rune \<Rightarrow> nat list" where
  \<comment> \<open>\<^verbatim>\<open>utf8.AppendRune\<close>, on byte values\<close>
  "encode_rune r0 = (let r = (if valid_rune r0 then r0 else RuneError) in
     if r < 0x80 then [r]
     else if r < 0x800 then [0xC0 + r div 64, 0x80 + r mod 64]
     else if r < 0x10000 then [0xE0 + r div 4096, 0x80 + r div 64 mod 64, 0x80 + r mod 64]
     else [0xF0 + r div 262144, 0x80 + r div 4096 mod 64, 0x80 + r div 64 mod 64,
           0x80 + r mod 64])"

definition is_cont :: "nat \<Rightarrow> bool" where
  "is_cont b \<longleftrightarrow> 0x80 \<le> b \<and> b \<le> 0xBF"

fun decode_rune :: "nat list \<Rightarrow> rune \<times> nat" where
  \<comment> \<open>\<^verbatim>\<open>utf8.DecodeRune\<close>: the first rune and its width; invalid input is one byte wide\<close>
  "decode_rune [] = (RuneError, 0)"
| "decode_rune (b0 # bs) =
    (if b0 < 0x80 then (b0, 1)
     else case bs of
       [] \<Rightarrow> (RuneError, 1)
     | b1 # bs1 \<Rightarrow>
        if 0xC2 \<le> b0 \<and> b0 \<le> 0xDF then
          (if is_cont b1 then ((b0 - 0xC0) * 64 + (b1 - 0x80), 2) else (RuneError, 1))
        else case bs1 of
          [] \<Rightarrow> (RuneError, 1)
        | b2 # bs2 \<Rightarrow>
           if 0xE0 \<le> b0 \<and> b0 \<le> 0xEF then
             (if is_cont b1 \<and> is_cont b2 \<and> (b0 = 0xE0 \<longrightarrow> 0xA0 \<le> b1) \<and> (b0 = 0xED \<longrightarrow> b1 \<le> 0x9F)
              then ((b0 - 0xE0) * 4096 + (b1 - 0x80) * 64 + (b2 - 0x80), 3) else (RuneError, 1))
           else case bs2 of
             [] \<Rightarrow> (RuneError, 1)
           | b3 # bs3 \<Rightarrow>
              if 0xF0 \<le> b0 \<and> b0 \<le> 0xF4 then
                (if is_cont b1 \<and> is_cont b2 \<and> is_cont b3 \<and> (b0 = 0xF0 \<longrightarrow> 0x90 \<le> b1)
                    \<and> (b0 = 0xF4 \<longrightarrow> b1 \<le> 0x8F)
                 then ((b0 - 0xF0) * 262144 + (b1 - 0x80) * 4096 + (b2 - 0x80) * 64 + (b3 - 0x80), 4)
                 else (RuneError, 1))
              else (RuneError, 1))"

lemma decode_rune_width: "bs \<noteq> [] \<Longrightarrow> 0 < snd (decode_rune bs)"
  by (cases bs) (auto split: list.splits)

function decode_runes :: "nat list \<Rightarrow> rune list" where
  "decode_runes bs =
     (if bs = [] then [] else fst (decode_rune bs) # decode_runes (drop (snd (decode_rune bs)) bs))"
  by pat_completeness auto
termination
  by (relation "measure length") (auto simp: decode_rune_width intro!: diff_less)

declare decode_runes.simps [simp del]

definition runes :: "string \<Rightarrow> rune list" where
  \<comment> \<open>\<^verbatim>\<open>[]rune(s)\<close>\<close>
  "runes s = decode_runes (map of_char s)"

definition string_of_runes :: "rune list \<Rightarrow> string" where
  \<comment> \<open>\<^verbatim>\<open>string(rs)\<close>\<close>
  "string_of_runes rs = map char_of (concat (map encode_rune rs))"

function valid_utf8 :: "nat list \<Rightarrow> bool" where
  \<comment> \<open>\<^verbatim>\<open>utf8.Valid\<close>: no byte decodes as a one-byte \<^verbatim>\<open>RuneError\<close>\<close>
  "valid_utf8 bs =
     (if bs = [] then True
      else decode_rune bs \<noteq> (RuneError, 1) \<and> valid_utf8 (drop (snd (decode_rune bs)) bs))"
  by pat_completeness auto
termination
  by (relation "measure length") (auto simp: decode_rune_width intro!: diff_less)

declare valid_utf8.simps [simp del]

section \<open>Character classes\<close>

definition is_control :: "rune \<Rightarrow> bool" where
  \<comment> \<open>\<^verbatim>\<open>unicode.IsControl\<close>\<close>
  "is_control r \<longleftrightarrow> r < 0x20 \<or> 0x7F \<le> r \<and> r < 0xA0"

definition is_space :: "rune \<Rightarrow> bool" where
  \<comment> \<open>\<^verbatim>\<open>unicode.IsSpace\<close>\<close>
  "is_space r \<longleftrightarrow> 0x09 \<le> r \<and> r \<le> 0x0D \<or> r = 0x20 \<or> r = 0x85 \<or> r = 0xA0 \<or> r = 0x1680
     \<or> 0x2000 \<le> r \<and> r \<le> 0x200A \<or> r = 0x2028 \<or> r = 0x2029 \<or> r = 0x202F \<or> r = 0x205F \<or> r = 0x3000"

definition trim_runes :: "rune list \<Rightarrow> rune list" where
  "trim_runes rs = rev (dropWhile is_space (rev (dropWhile is_space rs)))"

section \<open>Splitting, joining, searching\<close>

fun split_on :: "'a \<Rightarrow> 'a list \<Rightarrow> 'a list list" where
  \<comment> \<open>\<^verbatim>\<open>strings.Split(s, c)\<close> with a one-byte separator\<close>
  "split_on c [] = [[]]"
| "split_on c (x # xs) =
     (if x = c then [] # split_on c xs
      else case split_on c xs of [] \<Rightarrow> [[x]] | p # ps \<Rightarrow> (x # p) # ps)"

fun join_with :: "'a list \<Rightarrow> 'a list list \<Rightarrow> 'a list" where
  \<comment> \<open>\<^verbatim>\<open>strings.Join\<close>\<close>
  "join_with sep [] = []"
| "join_with sep [x] = x"
| "join_with sep (x # y # ys) = x @ sep @ join_with sep (y # ys)"

fun has_prefix :: "'a list \<Rightarrow> 'a list \<Rightarrow> bool" where
  \<comment> \<open>\<^verbatim>\<open>strings.HasPrefix(s, p)\<close>\<close>
  "has_prefix s [] = True"
| "has_prefix [] (p # ps) = False"
| "has_prefix (x # xs) (p # ps) = (x = p \<and> has_prefix xs ps)"

fun contains :: "'a list \<Rightarrow> 'a list \<Rightarrow> bool" where
  \<comment> \<open>\<^verbatim>\<open>strings.Contains(s, q)\<close>\<close>
  "contains [] q = (q = [])"
| "contains (x # xs) q = (has_prefix (x # xs) q \<or> contains xs q)"

fun index_of :: "'a \<Rightarrow> 'a list \<Rightarrow> nat option" where
  \<comment> \<open>\<^verbatim>\<open>bytes.IndexByte\<close>; \<open>None\<close> is \<open>-1\<close>\<close>
  "index_of c [] = None"
| "index_of c (x # xs) = (if x = c then Some 0 else map_option Suc (index_of c xs))"

section \<open>Numbers\<close>

fun dec_nat :: "nat \<Rightarrow> string" where
  "dec_nat n = (if n < 10 then [char_of (48 + n)] else dec_nat (n div 10) @ [char_of (48 + n mod 10)])"

declare dec_nat.simps [simp del]

definition dec_int :: "int \<Rightarrow> string" where
  \<comment> \<open>\<^verbatim>\<open>%d\<close>\<close>
  "dec_int i = (if i < 0 then CHR ''-'' # dec_nat (nat (- i)) else dec_nat (nat i))"

definition is_digit :: "char \<Rightarrow> bool" where
  "is_digit c \<longleftrightarrow> 48 \<le> (of_char c :: nat) \<and> (of_char c :: nat) \<le> 57"

definition digits_value :: "string \<Rightarrow> nat" where
  "digits_value s = foldl (\<lambda>n c. n * 10 + (of_char c - 48)) 0 s"

definition parse_int64 :: "string \<Rightarrow> int option" where
  \<comment> \<open>\<^verbatim>\<open>strconv.ParseInt(s, 10, 64)\<close>; \<open>None\<close> is a syntax or range error\<close>
  "parse_int64 s =
    (let neg = (s \<noteq> [] \<and> hd s = CHR ''-'');
         body = (if s \<noteq> [] \<and> (hd s = CHR ''-'' \<or> hd s = CHR ''+'') then tl s else s);
         v = int (digits_value body)
     in if body = [] \<or> \<not> list_all is_digit body then None
        else if neg then (if v > 2 ^ 63 then None else Some (- v))
        else if v > 2 ^ 63 - 1 then None else Some v)"

definition hex_digit :: "nat \<Rightarrow> char" where
  "hex_digit n = (if n < 10 then char_of (48 + n) else char_of (87 + n))"

definition hex_encode :: "bytes \<Rightarrow> string" where
  \<comment> \<open>\<^verbatim>\<open>hex.EncodeToString\<close>\<close>
  "hex_encode bs = concat (map (\<lambda>b. [hex_digit (unat b div 16), hex_digit (unat b mod 16)]) bs)"

definition bytes_of :: "string \<Rightarrow> bytes" where
  \<comment> \<open>\<^verbatim>\<open>[]byte(s)\<close>\<close>
  "bytes_of s = map (\<lambda>c. word_of_nat (of_char c)) s"

section \<open>Facts\<close>

lemma decode_runes_Nil [simp]: "decode_runes [] = []"
  by (simp add: decode_runes.simps)

lemma valid_utf8_Nil [simp]: "valid_utf8 []"
  by (simp add: valid_utf8.simps)

lemma encode_rune_bytes: "b \<in> set (encode_rune r) \<Longrightarrow> b < 256"
  by (auto simp: encode_rune_def valid_rune_def RuneError_def Let_def split: if_splits)

lemma sextets:
  fixes r :: nat
  obtains d c b a where "r = d * 262144 + c * 4096 + b * 64 + a" "c < 64" "b < 64" "a < 64"
    "r mod 64 = a" "r div 64 mod 64 = b" "r div 4096 mod 64 = c" "r div 262144 = d"
    "r div 4096 = d * 64 + c" "r div 64 = d * 4096 + c * 64 + b"
proof
  have e: "r div 4096 = r div 64 div 64" "r div 262144 = r div 64 div 64 div 64"
    by (simp_all add: div_mult2_eq [symmetric])
  let ?q = "r div 64" and ?p = "r div 64 div 64"
  have 1: "r = ?q * 64 + r mod 64" "?q = ?p * 64 + ?q mod 64" "?p = ?p div 64 * 64 + ?p mod 64"
    by (simp_all only: div_mult_mod_eq)
  show "r = r div 262144 * 262144 + r div 4096 mod 64 * 4096 + ?q mod 64 * 64 + r mod 64"
    unfolding e using 1 by linarith
  show "r div 4096 = r div 262144 * 64 + r div 4096 mod 64"
    unfolding e using 1 by linarith
  show "?q = r div 262144 * 4096 + r div 4096 mod 64 * 64 + ?q mod 64"
    unfolding e using 1 by linarith
qed simp_all

lemma decode_encode_rune:
  assumes "valid_rune r"
  shows "decode_rune (encode_rune r @ bs) = (r, length (encode_rune r))"
proof -
  obtain d c b a where r: "r = d * 262144 + c * 4096 + b * 64 + a" "c < 64" "b < 64" "a < 64"
    and parts: "r mod 64 = a" "r div 64 mod 64 = b" "r div 4096 mod 64 = c" "r div 262144 = d"
      "r div 4096 = d * 64 + c" "r div 64 = d * 4096 + c * 64 + b"
    by (rule sextets)
  have v: "r \<le> 0x10FFFF" "r < 0xD800 \<or> 0xE000 \<le> r"
    using assms by (auto simp: valid_rune_def)
  note enc = encode_rune_def Let_def is_cont_def assms
  consider "r < 0x80" | "0x80 \<le> r" "r < 0x800" | "0x800 \<le> r" "r < 0x10000" | "0x10000 \<le> r"
    by linarith
  then show ?thesis
  proof cases
    case 1
    then show ?thesis using assms by (simp add: encode_rune_def)
  next
    case 2
    then have "d = 0" using r by linarith
    moreover from this have "c = 0" using 2 r by linarith
    moreover from calculation have "2 \<le> b" "b < 32" using 2 r by linarith+
    moreover have "b * 64 + a = r" using r calculation by simp
    ultimately show ?thesis using 2 r(2-4) by (simp add: enc parts)
  next
    case 3
    then have "d = 0" using r by linarith
    moreover from this have "c < 16" using 3 r by linarith
    moreover have "32 \<le> b" if "c = 0" using that \<open>d = 0\<close> 3 r by linarith
    moreover have "b \<le> 31" if "c = 13" using that \<open>d = 0\<close> 3 r v(2) by linarith
    moreover have "c * 4096 + b * 64 + a = r" using r \<open>d = 0\<close> by simp
    ultimately show ?thesis using 3 r(2-4) by (simp add: enc parts)
  next
    case 4
    have "d < 5" using r v by linarith
    moreover have "16 \<le> c" if "d = 0" using that 4 r by linarith
    moreover have "c \<le> 15" if "d = 4" using that r v by linarith
    moreover from r have "d * 262144 + c * 4096 + b * 64 + a = r" by simp
    ultimately show ?thesis using 4 r(2-4) by (simp add: enc parts(1-4))
  qed
qed

lemma encode_rune_nonempty [simp]: "encode_rune r \<noteq> []"
  by (simp add: encode_rune_def Let_def)

lemma decode_runes_encode:
  "list_all valid_rune rs \<Longrightarrow> decode_runes (concat (map encode_rune rs)) = rs"
proof (induction rs)
  case (Cons r rs)
  then show ?case
    by (subst decode_runes.simps) (simp add: decode_encode_rune)
qed simp

lemma map_of_char_char_of:
  "\<forall>b\<in>set bs. b < 256 \<Longrightarrow> map of_char (map char_of bs :: string) = (bs :: nat list)"
  by (induction bs) auto

theorem runes_string_of_runes: "list_all valid_rune rs \<Longrightarrow> runes (string_of_runes rs) = rs"
  unfolding runes_def string_of_runes_def
  by (subst map_of_char_char_of) (auto dest: encode_rune_bytes simp: decode_runes_encode)

lemma valid_rune_2:
  "b0 \<le> 0xDF \<Longrightarrow> is_cont b1 \<Longrightarrow> valid_rune ((b0 - 0xC0) * 64 + (b1 - 0x80))"
  unfolding valid_rune_def is_cont_def by arith

lemma valid_rune_3:
  assumes "0xE0 \<le> b0" "b0 \<le> 0xEF" "is_cont b1" "is_cont b2" "b0 = 0xED \<Longrightarrow> b1 \<le> 0x9F"
  shows "valid_rune ((b0 - 0xE0) * 4096 + (b1 - 0x80) * 64 + (b2 - 0x80))"
proof -
  consider "b0 \<le> 0xEC" | "b0 = 0xED" | "0xEE \<le> b0" by linarith
  then show ?thesis
    using assms unfolding valid_rune_def is_cont_def by cases arith+
qed

lemma valid_rune_4:
  assumes "0xF0 \<le> b0" "b0 \<le> 0xF4" "is_cont b1" "is_cont b2" "is_cont b3"
    "b0 = 0xF0 \<Longrightarrow> 0x90 \<le> b1" "b0 = 0xF4 \<Longrightarrow> b1 \<le> 0x8F"
  shows "valid_rune ((b0 - 0xF0) * 262144 + (b1 - 0x80) * 4096 + (b2 - 0x80) * 64 + (b3 - 0x80))"
proof -
  consider "b0 = 0xF0" | "0xF1 \<le> b0" "b0 \<le> 0xF3" | "b0 = 0xF4" using assms by linarith
  then show ?thesis
    using assms unfolding valid_rune_def is_cont_def by cases arith+
qed

lemma valid_rune_basic [simp]: "valid_rune RuneError" "b < 0x80 \<Longrightarrow> valid_rune b"
  by (simp_all add: valid_rune_def RuneError_def)

lemma decode_rune_valid: "valid_rune (fst (decode_rune bs))"
  by (cases bs rule: decode_rune.cases)
     (simp_all add: valid_rune_2 valid_rune_3 valid_rune_4 split: list.split)

lemma decode_runes_valid: "list_all valid_rune (decode_runes bs)"
proof (induction bs rule: decode_runes.induct)
  case (1 bs)
  then show ?case
    by (subst decode_runes.simps) (simp add: decode_rune_valid)
qed

lemma runes_valid [simp]: "list_all valid_rune (runes s)"
  by (simp add: runes_def decode_runes_valid)

lemma list_all_valid_filter [simp]: "list_all valid_rune rs \<Longrightarrow> list_all valid_rune (filter P rs)"
  by (auto simp: list_all_iff)

lemma set_trim_runes: "set (trim_runes rs) \<subseteq> set rs"
  unfolding trim_runes_def by (fastforce dest: set_dropWhileD)

lemma list_all_trim_runes [simp]: "list_all P rs \<Longrightarrow> list_all P (trim_runes rs)"
  using set_trim_runes by (fastforce simp: list_all_iff)

lemma length_trim_runes: "length (trim_runes rs) \<le> length rs"
  unfolding trim_runes_def
  by (metis length_dropWhile_le length_rev order_trans)

lemma list_all_take [simp]: "list_all P xs \<Longrightarrow> list_all P (take n xs)"
  by (auto simp: list_all_iff dest: in_set_takeD)

subsection \<open>Split and join\<close>

lemma split_on_ne [simp]: "split_on c xs \<noteq> []"
  by (induction xs) (auto split: list.splits)

lemma split_on_no_sep: "c \<notin> set xs \<Longrightarrow> split_on c xs = [xs]"
  by (induction xs) auto

lemma split_on_sep: "c \<notin> set xs \<Longrightarrow> split_on c (xs @ c # ys) = xs # split_on c ys"
  by (induction xs) auto

lemma split_on_join: "\<forall>p\<in>set ps. c \<notin> set p \<Longrightarrow> ps \<noteq> [] \<Longrightarrow> split_on c (join_with [c] ps) = ps"
proof (induction "[c]" ps rule: join_with.induct)
  case (2 x)
  then show ?case by (simp add: split_on_no_sep)
next
  case (3 x y ys)
  then show ?case by (simp add: split_on_sep)
qed simp

lemma join_split_on: "join_with [c] (split_on c xs) = xs"
proof (induction xs)
  case (Cons x xs)
  obtain p ps where "split_on c xs = p # ps"
    by (cases "split_on c xs") auto
  with Cons show ?case by (cases ps) auto
qed simp

lemma split_on_parts: "p \<in> set (split_on c xs) \<Longrightarrow> c \<notin> set p"
proof (induction xs arbitrary: p)
  case (Cons x xs)
  then show ?case by (fastforce split: if_splits list.splits)
qed simp

subsection \<open>Decimal and hexadecimal\<close>

lemma of_char_digit [simp]: "n < 10 \<Longrightarrow> (of_char (char_of (48 + n) :: char) :: nat) = 48 + n"
  by simp

lemma dec_nat_digits: "list_all is_digit (dec_nat n)"
proof (induction n rule: dec_nat.induct)
  case (1 n)
  then show ?case
    by (subst dec_nat.simps) (cases "n < 10", simp_all add: is_digit_def [of "char_of _"])
qed

lemma dec_nat_ne [simp]: "dec_nat n \<noteq> []"
  by (subst dec_nat.simps) simp

lemma digits_value_snoc: "digits_value (s @ [c]) = digits_value s * 10 + (of_char c - 48)"
  by (simp add: digits_value_def)

lemma digits_value_dec_nat: "digits_value (dec_nat n) = n"
proof (induction n rule: dec_nat.induct)
  case (1 n)
  then show ?case
    by (subst dec_nat.simps) (auto simp: digits_value_snoc digits_value_def)
qed

lemma is_digit_not_sign: "is_digit c \<Longrightarrow> c \<noteq> CHR ''-'' \<and> c \<noteq> CHR ''+'' \<and> c \<noteq> CHR ''.''"
  by (auto simp: is_digit_def)

lemma hd_dec_nat: "is_digit (hd (dec_nat n))"
  using dec_nat_digits [of n] dec_nat_ne [of n] by (cases "dec_nat n") auto

theorem parse_int64_dec_int: "- (2 ^ 63) \<le> i \<Longrightarrow> i < 2 ^ 63 \<Longrightarrow> parse_int64 (dec_int i) = Some i"
  using is_digit_not_sign [OF hd_dec_nat [of "nat i"]]
  by (auto simp: parse_int64_def dec_int_def Let_def dec_nat_digits digits_value_dec_nat)

lemma dec_int_no_dot: "CHR ''.'' \<notin> set (dec_int i)"
  using dec_nat_digits [of "nat i"] dec_nat_digits [of "nat (- i)"]
  by (auto simp: dec_int_def list_all_iff dest: is_digit_not_sign)

lemma hex_digit_no_dot: "n < 16 \<Longrightarrow> hex_digit n \<noteq> CHR ''.''"
proof -
  assume "n < 16"
  then have "(of_char (hex_digit n) :: nat) \<noteq> of_char CHR ''.''"
    by (auto simp: hex_digit_def)
  then show ?thesis by auto
qed

lemma hex_encode_no_dot: "CHR ''.'' \<notin> set (hex_encode bs)"
proof -
  have "unat b < 2 ^ 8" for b :: byte
    using unsigned_less [of b] by (metis len_bit0 len_num1 mult_2 numeral_Bit0 numeral_One)
  then have "hex_digit (unat b div 16) \<noteq> CHR ''.''" "hex_digit (unat b mod 16) \<noteq> CHR ''.''"
    for b :: byte
    by (simp_all add: hex_digit_no_dot less_mult_imp_div_less)
  then show ?thesis
    by (auto simp: hex_encode_def eq_commute [of "CHR ''.''"])
qed

end
