(* ===== verification/Auth.thy ===== *)
theory Auth
  imports Go_Text
begin

text \<open>
  Device authentication, \<^verbatim>\<open>backend/internal/auth/auth.go\<close>: the registry of paired devices, the
  owner-initiated pairing session, challenge-response login, signed session cookies, one-shot
  WebSocket tickets and the per-peer rate limits. The mutex-protected \<^verbatim>\<open>Manager\<close> is a record and
  each method a function from the state (and the values it draws from the environment: the
  clock, fresh random strings, the outcome of writing \<^verbatim>\<open>devices.json\<close>) to the next state and the
  method's results. \<^verbatim>\<open>CompleteChallenge\<close> releases the lock while it checks the signature, so it
  is two functions, and a state may change between them. The primitives of Go's crypto and net
  packages are the fields of \<open>stdlib\<close>, an argument of every definition that uses them.
\<close>

unbundle bit_operations_syntax

section \<open>Library primitives\<close>

type_synonym rsa_key = "nat \<times> nat"  \<comment> \<open>modulus and exponent\<close>

record stdlib =
  b64_encode :: "bytes \<Rightarrow> string"            \<comment> \<open>\<^verbatim>\<open>base64.RawURLEncoding\<close>\<close>
  b64_decode :: "string \<Rightarrow> bytes option"
  parse_pkcs1 :: "bytes \<Rightarrow> rsa_key option"
  parse_pkix :: "bytes \<Rightarrow> rsa_key option option"  \<comment> \<open>\<open>Some None\<close>: a key that is not RSA\<close>
  sha256 :: "bytes \<Rightarrow> bytes"
  hmac_sha256 :: "bytes \<Rightarrow> bytes \<Rightarrow> bytes"      \<comment> \<open>secret, message\<close>
  rsa_verify :: "rsa_key \<Rightarrow> bytes \<Rightarrow> bytes \<Rightarrow> bool" \<comment> \<open>key, digest, signature\<close>
  split_host_port :: "string \<Rightarrow> string option" \<comment> \<open>the host of \<^verbatim>\<open>net.SplitHostPort\<close>\<close>
  parse_ip :: "string \<Rightarrow> string option"        \<comment> \<open>\<^verbatim>\<open>net.ParseIP\<close> followed by \<^verbatim>\<open>String\<close>\<close>

section \<open>State\<close>

datatype auth_error =
    ErrPairingClosed | ErrPairingCode | ErrPairingLocked | ErrPairingUsed | ErrPairingNotFound
  | ErrAlreadyPaired | ErrChallengeExpired | ErrUnknownDevice | ErrBadSignature
  | ErrDecodeKey | ErrParseKey | ErrKeyNotRSA | ErrKeyNotRSA2048 | ErrSaveDevices

definition SessionTTL :: duration where "SessionTTL = 24 * 60 * minute"
definition ChallengeTTL :: duration where "ChallengeTTL = 30 * second"
definition WSTicketTTL :: duration where "WSTicketTTL = 30 * second"
definition CompletedPairTTL :: duration where "CompletedPairTTL = 10 * minute"
definition MaxRateLimitPeers :: nat where "MaxRateLimitPeers = 4096"
definition MaxPairingAttempts :: nat where "MaxPairingAttempts = 5"

record device =
  dev_ID :: string
  dev_Name :: string
  dev_PublicKey :: string
  dev_PairedAt :: gotime
  dev_LastSeen :: gotime

record pairing_status =
  ps_ID :: string
  ps_DeviceID :: string
  ps_DeviceName :: string
  ps_Phrase :: string
  ps_RequestedAt :: gotime
  ps_ClientConfirmed :: bool
  ps_ServerApproved :: bool
  ps_Paired :: bool

record pairing_candidate = pairing_status +
  pc_publicKey :: string
  pc_sourceIP :: string
  pc_sessionID :: string
  pc_completedAt :: gotime

record pairing_session =
  se_ID :: string
  se_Code :: string
  se_QRToken :: string
  se_CreatedAt :: gotime
  se_Attempts :: nat
  se_CandidateID :: string

record rate_window =
  rw_hits :: "gotime list"
  rw_last :: gotime

record challenge =
  ch_ID :: string
  ch_DeviceID :: string
  ch_Nonce :: string
  ch_ExpiresAt :: gotime

record ws_ticket =
  wt_deviceID :: string
  wt_expires :: gotime

record manager =
  mg_serverID :: string
  mg_secret :: bytes
  mg_devices :: "string \<rightharpoonup> device"
  mg_candidates :: "string \<rightharpoonup> pairing_candidate"
  mg_challenges :: "string \<rightharpoonup> challenge"
  mg_tickets :: "string \<rightharpoonup> ws_ticket"
  mg_pairing :: "pairing_session option"
  mg_pairAttempts :: "string \<rightharpoonup> rate_window"
  mg_authAttempts :: "string \<rightharpoonup> rate_window"
  mg_onRevoke :: bool  \<comment> \<open>whether a revoke handler is installed\<close>
  mg_file :: "string \<rightharpoonup> device"  \<comment> \<open>the devices stored in \<^verbatim>\<open>devices.json\<close>\<close>

section \<open>Registry file\<close>

fun loadDevices :: "device option list \<Rightarrow> (string \<rightharpoonup> device) \<Rightarrow> (string \<rightharpoonup> device)" where
  \<comment> \<open>the loop over the decoded registry; a missing or quarantined file is the empty list\<close>
  "loadDevices [] devices = devices"
| "loadDevices (d # ds) devices =
     (case d of
        Some device \<Rightarrow>
          if dev_ID device \<noteq> [] then loadDevices ds (devices(dev_ID device \<mapsto> device))
          else loadDevices ds devices
      | None \<Rightarrow> loadDevices ds devices)"

definition New :: "string \<Rightarrow> bytes \<Rightarrow> device option list \<Rightarrow> manager" where
  "New serverID secret registry =
     \<lparr>mg_serverID = serverID, mg_secret = secret, mg_devices = loadDevices registry Map.empty,
      mg_candidates = Map.empty, mg_challenges = Map.empty, mg_tickets = Map.empty,
      mg_pairing = None, mg_pairAttempts = Map.empty, mg_authAttempts = Map.empty,
      mg_onRevoke = False, mg_file = loadDevices registry Map.empty\<rparr>"

definition saveDevicesLocked :: "bool \<Rightarrow> manager \<Rightarrow> manager \<times> auth_error option" where
  \<comment> \<open>\<open>ok\<close> is the outcome of writing and renaming the temporary file; a failed write leaves the
     file as it was\<close>
  "saveDevicesLocked ok m =
     (if ok then (m\<lparr>mg_file := mg_devices m\<rparr>, None) else (m, Some ErrSaveDevices))"

section \<open>Randomness and addresses\<close>

definition readOrCreateSecret :: "bytes option \<Rightarrow> nat \<Rightarrow> bytes \<Rightarrow> bool \<Rightarrow> bytes option" where
  \<comment> \<open>\<open>stored\<close> is the file's content if it can be read, \<open>fresh\<close> the bytes \<^verbatim>\<open>randomBytes\<close> draws, \<open>ok\<close> the
     outcome of creating the directory and the file\<close>
  "readOrCreateSecret stored n fresh ok =
     (case stored of
        Some value \<Rightarrow> if length value = n then Some value else if ok then Some fresh else None
      | None \<Rightarrow> if ok then Some fresh else None)"

definition randomHex :: "bytes \<Rightarrow> string" where
  \<comment> \<open>of the bytes \<^verbatim>\<open>randomBytes\<close> draws\<close>
  "randomHex value = hex_encode value"

definition trim_brackets :: "string \<Rightarrow> string" where
  \<comment> \<open>\<^verbatim>\<open>strings.Trim(ip, "[]")\<close>\<close>
  "trim_brackets s = (let p = \<lambda>c. c \<in> {CHR ''['', CHR '']''} in rev (dropWhile p (rev (dropWhile p s))))"

definition normalizeIP :: "stdlib \<Rightarrow> string \<Rightarrow> string" where
  "normalizeIP std remoteAddr =
    (let ip = (case split_host_port std remoteAddr of Some host \<Rightarrow> host | None \<Rightarrow> remoteAddr)
     in case parse_ip std (trim_brackets ip) of Some parsed \<Rightarrow> parsed | None \<Rightarrow> ''unknown'')"

section \<open>Pairing\<close>

definition SetRevokeHandler :: "bool \<Rightarrow> manager \<Rightarrow> manager" where
  "SetRevokeHandler present m = m\<lparr>mg_onRevoke := present\<rparr>"

definition randomPairingCode :: "nat \<Rightarrow> string" where
  \<comment> \<open>\<^verbatim>\<open>fmt.Sprintf("%06d", v)\<close> for the random \<open>v < 1000000\<close>\<close>
  "randomPairingCode v = replicate (6 - length (dec_nat v)) (CHR ''0'') @ dec_nat v"

definition OpenPairing ::
  "gotime \<Rightarrow> string \<Rightarrow> string \<Rightarrow> string \<Rightarrow> manager \<Rightarrow> manager \<times> pairing_session" where
  "OpenPairing now newID code qr m =
    (let cands = map_keep (\<lambda>_ c. ps_Paired c) (mg_candidates m);
         session = \<lparr>se_ID = newID, se_Code = code, se_QRToken = qr, se_CreatedAt = now,
                    se_Attempts = 0, se_CandidateID = []\<rparr>
     in (m\<lparr>mg_candidates := cands, mg_pairing := Some session\<rparr>, session))"

definition PairingSession :: "manager \<Rightarrow> pairing_session option" where
  "PairingSession m = mg_pairing m"

definition PairingAvailable :: "manager \<Rightarrow> bool" where
  "PairingAvailable m \<longleftrightarrow> mg_pairing m \<noteq> None"

definition drop_unpaired ::
  "string \<Rightarrow> (string \<rightharpoonup> pairing_candidate) \<Rightarrow> (string \<rightharpoonup> pairing_candidate)" where
  \<comment> \<open>\<^verbatim>\<open>if candidate := m.candidates[id]; candidate != nil && !candidate.Paired { delete(m.candidates, candidate.ID) }\<close>\<close>
  "drop_unpaired cid cands =
     (case cands cid of
        Some c \<Rightarrow> if \<not> ps_Paired c then cands(ps_ID c := None) else cands
      | None \<Rightarrow> cands)"

definition ClosePairing :: "manager \<Rightarrow> manager \<times> bool" where
  "ClosePairing m =
     (case mg_pairing m of
        None \<Rightarrow> (m, False)
      | Some p \<Rightarrow> (m\<lparr>mg_candidates := drop_unpaired (se_CandidateID p) (mg_candidates m),
                     mg_pairing := None\<rparr>, True))"

definition pruneLocked :: "gotime \<Rightarrow> manager \<Rightarrow> manager" where
  "pruneLocked now m =
     m\<lparr>mg_candidates := map_keep (\<lambda>_ c. \<not> (ps_Paired c \<and> \<not> is_zero (pc_completedAt c)
           \<and> time_sub now (pc_completedAt c) > CompletedPairTTL)) (mg_candidates m),
       mg_challenges := map_keep (\<lambda>_ c. \<not> now > ch_ExpiresAt c) (mg_challenges m),
       mg_tickets := map_keep (\<lambda>_ t. \<not> now > wt_expires t) (mg_tickets m)\<rparr>"

definition sanitizeDeviceName :: "string \<Rightarrow> string" where
  "sanitizeDeviceName value =
    (let value = string_of_runes (filter (\<lambda>r. \<not> is_control r) (runes value));
         value = string_of_runes (trim_runes (runes value));
         rs = runes value;
         value = (if length rs > 80
                  then string_of_runes (trim_runes (runes (string_of_runes (take 80 rs)))) else value)
     in if value = [] then ''Surf device'' else value)"

definition parsePublicKey :: "stdlib \<Rightarrow> string \<Rightarrow> auth_error + bytes \<times> rsa_key" where
  "parsePublicKey std encoded =
     (case b64_decode std encoded of
        None \<Rightarrow> Inl ErrDecodeKey
      | Some der \<Rightarrow>
         (case parse_pkcs1 std der of
            Some key \<Rightarrow> Inr (der, key)
          | None \<Rightarrow>
             (case parse_pkix std der of
                None \<Rightarrow> Inl ErrParseKey
              | Some None \<Rightarrow> Inl ErrKeyNotRSA
              | Some (Some key) \<Rightarrow> Inr (der, key))))"

definition phraseWords :: "string list" where
  "phraseWords = [
    ''amber'', ''anchor'', ''apple'', ''april'', ''arrow'', ''atlas'', ''bamboo'', ''beacon'',
    ''birch'', ''bloom'', ''blue'', ''bridge'', ''brook'', ''canyon'', ''cedar'', ''cloud'',
    ''coral'', ''crane'', ''dawn'', ''delta'', ''drift'', ''eagle'', ''ember'', ''fern'',
    ''field'', ''finch'', ''forest'', ''frost'', ''garden'', ''glade'', ''gold'', ''harbor'',
    ''hazel'', ''heron'', ''island'', ''jade'', ''lake'', ''leaf'', ''lilac'', ''luna'',
    ''maple'', ''meadow'', ''mist'', ''moon'', ''north'', ''ocean'', ''olive'', ''orchid'',
    ''pearl'', ''pine'', ''quartz'', ''rain'', ''reed'', ''river'', ''robin'', ''sage'',
    ''shore'', ''silver'', ''sky'', ''stone'', ''sun'', ''tide'', ''willow'', ''wren'']"

definition phrase_values :: "bytes \<Rightarrow> byte list" where
  "phrase_values s = [
     drop_bit 2 (s ! 0),
     push_bit 4 (s ! 0 AND 3) OR drop_bit 4 (s ! 1),
     push_bit 2 (s ! 1 AND 15) OR drop_bit 6 (s ! 2),
     s ! 2 AND 63,
     drop_bit 2 (s ! 3),
     push_bit 4 (s ! 3 AND 3) OR drop_bit 4 (s ! 4)]"

definition pairingPhrase :: "stdlib \<Rightarrow> string \<Rightarrow> bytes \<Rightarrow> string" where
  "pairingPhrase std serverID publicDER =
    (let digest = sha256 std (bytes_of ''SURF-PAIR-V1'' @ [0] @ bytes_of serverID @ publicDER)
     in join_with '' '' (map (\<lambda>v. phraseWords ! unat v) (phrase_values digest)))"

definition credential_matches :: "string \<Rightarrow> string \<Rightarrow> pairing_session \<Rightarrow> bool" where
  "credential_matches code qrToken p \<longleftrightarrow>
     (code \<noteq> [] \<and> qrToken = [] \<and> code = se_Code p) \<or>
     (qrToken \<noteq> [] \<and> code = [] \<and> qrToken = se_QRToken p)"

definition status_of :: "pairing_candidate \<Rightarrow> pairing_status" where
  "status_of c = pairing_status.truncate c"

definition RequestPair ::
  "stdlib \<Rightarrow> gotime \<Rightarrow> string \<Rightarrow> string \<Rightarrow> string \<Rightarrow> string \<Rightarrow> string \<Rightarrow> string \<Rightarrow> manager
     \<Rightarrow> manager \<times> (auth_error + pairing_status)" where
  \<comment> \<open>\<open>newID\<close> is the value \<^verbatim>\<open>randomHex(16)\<close> draws\<close>
  "RequestPair std now newID deviceName publicKey remoteAddr code qrToken m =
    (case parsePublicKey std publicKey of
       Inl e \<Rightarrow> (m, Inl e)
     | Inr (der, key) \<Rightarrow>
       if bit_len (fst key) \<noteq> 2048 then (m, Inl ErrKeyNotRSA2048)
       else
        let deviceID = hex_encode (sha256 std der);
            deviceName = sanitizeDeviceName deviceName;
            m = pruneLocked now m
        in case mg_pairing m of
             None \<Rightarrow> (m, Inl ErrPairingClosed)
           | Some p \<Rightarrow>
             if \<not> credential_matches code qrToken p then
               let p = p\<lparr>se_Attempts := se_Attempts p + 1\<rparr>
               in if se_Attempts p \<ge> MaxPairingAttempts
                  then (m\<lparr>mg_candidates := drop_unpaired (se_CandidateID p) (mg_candidates m),
                          mg_pairing := None\<rparr>, Inl ErrPairingLocked)
                  else (m\<lparr>mg_pairing := Some p\<rparr>, Inl ErrPairingCode)
             else if se_CandidateID p \<noteq> [] then
               (case mg_candidates m (se_CandidateID p) of
                  Some c \<Rightarrow>
                    if ps_DeviceID c = deviceID
                    then let c = c\<lparr>ps_DeviceName := deviceName\<rparr>
                         in (m\<lparr>mg_candidates := (mg_candidates m)(se_CandidateID p \<mapsto> c)\<rparr>,
                             Inr (status_of c))
                    else (m, Inl ErrPairingUsed)
                | None \<Rightarrow> (m, Inl ErrPairingUsed))
             else if mg_devices m deviceID \<noteq> None then (m, Inl ErrAlreadyPaired)
             else
               let c = \<lparr>ps_ID = newID, ps_DeviceID = deviceID, ps_DeviceName = deviceName,
                        ps_Phrase = pairingPhrase std (mg_serverID m) der, ps_RequestedAt = now,
                        ps_ClientConfirmed = False, ps_ServerApproved = True, ps_Paired = False,
                        pc_publicKey = publicKey, pc_sourceIP = normalizeIP std remoteAddr,
                        pc_sessionID = se_ID p, pc_completedAt = 0\<rparr>
               in (m\<lparr>mg_candidates := (mg_candidates m)(newID \<mapsto> c),
                     mg_pairing := Some (p\<lparr>se_CandidateID := newID\<rparr>)\<rparr>,
                   Inr (status_of c)))"

definition close_session_of :: "string \<Rightarrow> manager \<Rightarrow> manager" where
  \<comment> \<open>\<^verbatim>\<open>if m.pairing != nil && candidate.sessionID == m.pairing.ID { m.pairing = nil }\<close>\<close>
  "close_session_of sid m =
     (case mg_pairing m of
        Some p \<Rightarrow> if sid = se_ID p then m\<lparr>mg_pairing := None\<rparr> else m
      | None \<Rightarrow> m)"

definition ConfirmPair ::
  "bool \<Rightarrow> gotime \<Rightarrow> string \<Rightarrow> manager \<Rightarrow> manager \<times> (auth_error + pairing_status)" where
  \<comment> \<open>\<^verbatim>\<open>ConfirmPair\<close> is \<^verbatim>\<open>updatePair\<close>; \<open>ok\<close> is the outcome of saving the registry\<close>
  "ConfirmPair ok now cid m =
    (let m = pruneLocked now m in
     case mg_candidates m cid of
       None \<Rightarrow> (m, Inl ErrPairingNotFound)
     | Some c \<Rightarrow>
       let c = c\<lparr>ps_ClientConfirmed := True\<rparr> in
       if ps_ServerApproved c \<and> \<not> ps_Paired c then
         let c = c\<lparr>ps_Paired := True, pc_completedAt := now\<rparr>;
             m1 = m\<lparr>mg_candidates := (mg_candidates m)(cid \<mapsto> c),
                    mg_devices := (mg_devices m)(ps_DeviceID c \<mapsto>
                      \<lparr>dev_ID = ps_DeviceID c, dev_Name = ps_DeviceName c,
                       dev_PublicKey = pc_publicKey c, dev_PairedAt = now, dev_LastSeen = 0\<rparr>)\<rparr>
         in case saveDevicesLocked ok m1 of
              (m2, Some e) \<Rightarrow>
                (m2\<lparr>mg_candidates := (mg_candidates m2)(cid \<mapsto> c\<lparr>ps_Paired := False\<rparr>),
                    mg_devices := (mg_devices m2)(ps_DeviceID c := None)\<rparr>, Inl e)
            | (m2, None) \<Rightarrow> (close_session_of (pc_sessionID c) m2, Inr (status_of c))
       else (m\<lparr>mg_candidates := (mg_candidates m)(cid \<mapsto> c)\<rparr>, Inr (status_of c)))"

definition RejectPair :: "string \<Rightarrow> manager \<Rightarrow> manager \<times> bool" where
  "RejectPair cid m =
     (case mg_candidates m cid of
        None \<Rightarrow> (m, False)
      | Some c \<Rightarrow>
         if ps_Paired c then (m, False)
         else (close_session_of (pc_sessionID c) (m\<lparr>mg_candidates := (mg_candidates m)(cid := None)\<rparr>),
               True))"

definition AckPair :: "string \<Rightarrow> manager \<Rightarrow> manager \<times> bool" where
  "AckPair cid m =
     (case mg_candidates m cid of
        None \<Rightarrow> (m, False)
      | Some c \<Rightarrow>
         if \<not> ps_Paired c then (m, False)
         else (m\<lparr>mg_candidates := (mg_candidates m)(cid := None)\<rparr>, True))"

definition PairStatus :: "gotime \<Rightarrow> string \<Rightarrow> manager \<Rightarrow> manager \<times> pairing_status option" where
  "PairStatus now cid m =
     (let m = pruneLocked now m in (m, map_option status_of (mg_candidates m cid)))"

definition ListCandidates :: "gotime \<Rightarrow> string list \<Rightarrow> manager \<Rightarrow> manager \<times> pairing_status list" where
  \<comment> \<open>\<open>order\<close> is the order in which \<^verbatim>\<open>range\<close> visits the map's keys\<close>
  "ListCandidates now order m =
    (let m = pruneLocked now m
     in (m, sort_key ps_RequestedAt (map status_of (List.map_filter (mg_candidates m) order))))"

section \<open>Devices\<close>

definition DeviceCount :: "manager \<Rightarrow> nat" where
  "DeviceCount m = card (dom (mg_devices m))"

definition ListDevices :: "string list \<Rightarrow> manager \<Rightarrow> device list" where
  \<comment> \<open>\<open>order\<close> is the order in which \<^verbatim>\<open>range\<close> visits the map's keys\<close>
  "ListDevices order m = sort_key dev_PairedAt (List.map_filter (mg_devices m) order)"

definition Revoke :: "bool \<Rightarrow> string \<Rightarrow> manager \<Rightarrow> manager \<times> string list \<times> bool" where
  \<comment> \<open>the list holds the arguments of the calls to the revoke handler\<close>
  "Revoke ok deviceID m =
     (case mg_devices m deviceID of
        None \<Rightarrow> (m, [], False)
      | Some device \<Rightarrow>
         let m1 = m\<lparr>mg_devices := (mg_devices m)(deviceID := None),
                    mg_challenges := map_keep (\<lambda>_ c. ch_DeviceID c \<noteq> deviceID) (mg_challenges m),
                    mg_tickets := map_keep (\<lambda>_ t. wt_deviceID t \<noteq> deviceID) (mg_tickets m)\<rparr>
         in case saveDevicesLocked ok m1 of
              (m2, Some e) \<Rightarrow> (m2\<lparr>mg_devices := (mg_devices m2)(deviceID \<mapsto> device)\<rparr>, [], False)
            | (m2, None) \<Rightarrow> (m2, if mg_onRevoke m2 then [deviceID] else [], True))"

section \<open>Challenges, cookies, tickets\<close>

definition NewChallenge ::
  "gotime \<Rightarrow> string \<Rightarrow> string \<Rightarrow> string \<Rightarrow> manager \<Rightarrow> manager \<times> (auth_error + challenge)" where
  "NewChallenge now newID nonce deviceID m =
    (let m = pruneLocked now m in
     if mg_devices m deviceID = None then (m, Inl ErrUnknownDevice)
     else let c = \<lparr>ch_ID = newID, ch_DeviceID = deviceID, ch_Nonce = nonce,
                   ch_ExpiresAt = now + ChallengeTTL\<rparr>
          in (m\<lparr>mg_challenges := (mg_challenges m)(newID \<mapsto> c)\<rparr>, Inr c))"

definition authDigest :: "stdlib \<Rightarrow> string \<Rightarrow> challenge \<Rightarrow> bytes" where
  "authDigest std serverID c =
     sha256 std (bytes_of ''SURF-AUTH-V1'' @ [0] @ bytes_of serverID @ [0] @ bytes_of (ch_DeviceID c)
       @ [0] @ bytes_of (ch_ID c) @ [0] @ bytes_of (ch_Nonce c))"

definition challenge_take ::
  "gotime \<Rightarrow> string \<Rightarrow> manager \<Rightarrow> manager \<times> (auth_error + challenge \<times> string)" where
  \<comment> \<open>\<^verbatim>\<open>CompleteChallenge\<close> up to the first unlock: the challenge and the device's public key\<close>
  "challenge_take now challengeID m =
    (let found = mg_challenges m challengeID;
         m = m\<lparr>mg_challenges := (mg_challenges m)(challengeID := None)\<rparr>
     in case found of
          None \<Rightarrow> (m, Inl ErrChallengeExpired)
        | Some c \<Rightarrow>
           if now > ch_ExpiresAt c then (m, Inl ErrChallengeExpired)
           else case mg_devices m (ch_DeviceID c) of
                  None \<Rightarrow> (m, Inl ErrUnknownDevice)
                | Some d \<Rightarrow> (m, Inr (c, dev_PublicKey d)))"

definition signature_valid ::
  "stdlib \<Rightarrow> string \<Rightarrow> challenge \<Rightarrow> string \<Rightarrow> string \<Rightarrow> auth_error option" where
  \<comment> \<open>the unlocked middle of \<^verbatim>\<open>CompleteChallenge\<close>\<close>
  "signature_valid std serverID c publicKey signature =
     (case parsePublicKey std publicKey of
        Inl e \<Rightarrow> Some e
      | Inr (_, key) \<Rightarrow>
         (case b64_decode std signature of
            None \<Rightarrow> Some ErrBadSignature
          | Some sig \<Rightarrow>
             if rsa_verify std key (authDigest std serverID c) sig then None
             else Some ErrBadSignature))"

definition challenge_finish ::
  "challenge \<Rightarrow> string \<Rightarrow> manager \<Rightarrow> manager \<times> (auth_error + string)" where
  \<comment> \<open>\<^verbatim>\<open>CompleteChallenge\<close> from the second lock on\<close>
  "challenge_finish c publicKey m =
     (case mg_devices m (ch_DeviceID c) of
        None \<Rightarrow> (m, Inl ErrUnknownDevice)
      | Some d \<Rightarrow>
         if dev_PublicKey d \<noteq> publicKey then (m, Inl ErrUnknownDevice)
         else (m\<lparr>mg_candidates := map_keep (\<lambda>_ k. \<not> (ps_DeviceID k = ch_DeviceID c \<and> ps_Paired k))
                   (mg_candidates m)\<rparr>, Inr (ch_DeviceID c)))"

definition CompleteChallenge ::
  "stdlib \<Rightarrow> gotime \<Rightarrow> string \<Rightarrow> string \<Rightarrow> (manager \<Rightarrow> manager) \<Rightarrow> manager
     \<Rightarrow> manager \<times> (auth_error + string)" where
  \<comment> \<open>\<open>others\<close> is what other goroutines do to the state while the lock is released\<close>
  "CompleteChallenge std now challengeID signature others m =
     (case challenge_take now challengeID m of
        (m1, Inl e) \<Rightarrow> (m1, Inl e)
      | (m1, Inr (c, publicKey)) \<Rightarrow>
         (case signature_valid std (mg_serverID m1) c publicKey signature of
            Some e \<Rightarrow> (others m1, Inl e)
          | None \<Rightarrow> challenge_finish c publicKey (others m1)))"

definition sign :: "stdlib \<Rightarrow> manager \<Rightarrow> string \<Rightarrow> string" where
  "sign std m value = hex_encode (hmac_sha256 std (mg_secret m) (bytes_of value))"

definition unix_seconds :: "gotime \<Rightarrow> int" where
  \<comment> \<open>\<^verbatim>\<open>Unix\<close>: whole seconds since 1970, 62135596800 seconds after the zero time\<close>
  "unix_seconds t = t div second - 62135596800"

definition SetCookie :: "stdlib \<Rightarrow> gotime \<Rightarrow> string \<Rightarrow> manager \<Rightarrow> string" where
  \<comment> \<open>the cookie's value; the attributes are constants\<close>
  "SetCookie std now deviceID m =
    (let exp = unix_seconds (now + SessionTTL);
         value = ''v1.'' @ deviceID @ ''.'' @ dec_int exp
     in value @ ''.'' @ sign std m value)"

definition Valid ::
  "stdlib \<Rightarrow> bool \<Rightarrow> gotime \<Rightarrow> string option \<Rightarrow> manager \<Rightarrow> manager \<times> string \<times> bool" where
  \<comment> \<open>the cookie's value if the request carries one; \<open>ok\<close> is the outcome of saving \<^verbatim>\<open>LastSeen\<close>\<close>
  "Valid std ok now cookie m =
     (case cookie of
        None \<Rightarrow> (m, [], False)
      | Some value \<Rightarrow>
         let parts = split_on CHR ''.'' value in
         if length parts \<noteq> 4 \<or> parts ! 0 \<noteq> ''v1'' then (m, [], False)
         else
           let unsigned = join_with ''.'' (take 3 parts) in
           case parse_int64 (parts ! 2) of
             None \<Rightarrow> (m, [], False)
           | Some exp \<Rightarrow>
              if exp < unix_seconds now \<or> parts ! 3 \<noteq> sign std m unsigned then (m, [], False)
              else case mg_devices m (parts ! 1) of
                     None \<Rightarrow> (m, parts ! 1, False)
                   | Some d \<Rightarrow>
                      ((if time_sub now (dev_LastSeen d) > minute
                        then fst (saveDevicesLocked ok
                          (m\<lparr>mg_devices := (mg_devices m)(parts ! 1 \<mapsto> d\<lparr>dev_LastSeen := now\<rparr>)\<rparr>))
                        else m), parts ! 1, True))"

definition WSTicket :: "gotime \<Rightarrow> string \<Rightarrow> string \<Rightarrow> manager \<Rightarrow> manager \<times> string" where
  "WSTicket now ticket deviceID m =
     (m\<lparr>mg_tickets := (mg_tickets m)(ticket \<mapsto>
         \<lparr>wt_deviceID = deviceID, wt_expires = now + WSTicketTTL\<rparr>)\<rparr>, ticket)"

definition VerifyWSTicket :: "gotime \<Rightarrow> string \<Rightarrow> manager \<Rightarrow> manager \<times> string \<times> bool" where
  "VerifyWSTicket now ticket m =
    (let m = pruneLocked now m;
         found = mg_tickets m ticket;
         m = m\<lparr>mg_tickets := (mg_tickets m)(ticket := None)\<rparr>
     in case found of
          None \<Rightarrow> (m, [], False)
        | Some t \<Rightarrow>
           if mg_devices m (wt_deviceID t) = None then (m, [], False)
           else (m, wt_deviceID t, True))"

section \<open>Rate limits\<close>

definition allowRate ::
  "(string \<rightharpoonup> rate_window) \<Rightarrow> string \<Rightarrow> nat \<Rightarrow> gotime \<Rightarrow> (string \<rightharpoonup> rate_window) \<times> bool" where
  "allowRate windows ip limit now =
    (let cutoff = now - minute;
         windows = map_keep (\<lambda>_ w. \<not> rw_last w < cutoff) windows
     in if windows ip = None \<and> card (dom windows) \<ge> MaxRateLimitPeers then (windows, False)
        else
          let window = (case windows ip of None \<Rightarrow> \<lparr>rw_hits = [], rw_last = 0\<rparr> | Some w \<Rightarrow> w);
              kept = filter (\<lambda>hit. hit > cutoff) (rw_hits window);
              window = \<lparr>rw_hits = kept, rw_last = now\<rparr>
          in if length kept \<ge> limit then (windows(ip \<mapsto> window), False)
             else (windows(ip \<mapsto> window\<lparr>rw_hits := kept @ [now]\<rparr>), True))"

definition AllowPair :: "stdlib \<Rightarrow> gotime \<Rightarrow> string \<Rightarrow> manager \<Rightarrow> manager \<times> bool" where
  "AllowPair std now remoteAddr m =
    (let (w, b) = allowRate (mg_pairAttempts m) (normalizeIP std remoteAddr) 10 now
     in (m\<lparr>mg_pairAttempts := w\<rparr>, b))"

definition AllowAuth :: "stdlib \<Rightarrow> gotime \<Rightarrow> string \<Rightarrow> manager \<Rightarrow> manager \<times> bool" where
  "AllowAuth std now remoteAddr m =
    (let (w, b) = allowRate (mg_authAttempts m) (normalizeIP std remoteAddr) 60 now
     in (m\<lparr>mg_authAttempts := w\<rparr>, b))"

section \<open>The manager as a state machine\<close>

text \<open>One constructor per method that changes the state, with the values it draws from outside.\<close>

datatype auth_call =
    COpen gotime string string string            \<comment> \<open>now, session ID, code, QR token\<close>
  | CClose
  | CRequest gotime string string string string string string
      \<comment> \<open>now, candidate ID, device name, public key, remote address, code, QR token\<close>
  | CConfirm bool gotime string
  | CReject string
  | CAck string
  | CStatus gotime string
  | CRevoke bool string
  | CChallenge gotime string string string       \<comment> \<open>now, challenge ID, nonce, device ID\<close>
  | CTake gotime string
  | CFinish challenge string
  | CValid bool gotime "string option"
  | CTicket gotime string string                 \<comment> \<open>now, ticket, device ID\<close>
  | CVerifyTicket gotime string
  | CAllowPair gotime string
  | CAllowAuth gotime string

fun auth_step :: "stdlib \<Rightarrow> manager \<Rightarrow> auth_call \<Rightarrow> manager" where
  "auth_step std m (COpen now i code qr) = fst (OpenPairing now i code qr m)"
| "auth_step std m CClose = fst (ClosePairing m)"
| "auth_step std m (CRequest now i name key addr code qr) =
     fst (RequestPair std now i name key addr code qr m)"
| "auth_step std m (CConfirm ok now i) = fst (ConfirmPair ok now i m)"
| "auth_step std m (CReject i) = fst (RejectPair i m)"
| "auth_step std m (CAck i) = fst (AckPair i m)"
| "auth_step std m (CStatus now i) = fst (PairStatus now i m)"
| "auth_step std m (CRevoke ok d) = fst (Revoke ok d m)"
| "auth_step std m (CChallenge now i nonce d) = fst (NewChallenge now i nonce d m)"
| "auth_step std m (CTake now i) = fst (challenge_take now i m)"
| "auth_step std m (CFinish c key) = fst (challenge_finish c key m)"
| "auth_step std m (CValid ok now cookie) = fst (Valid std ok now cookie m)"
| "auth_step std m (CTicket now t d) = fst (WSTicket now t d m)"
| "auth_step std m (CVerifyTicket now t) = fst (VerifyWSTicket now t m)"
| "auth_step std m (CAllowPair now addr) = fst (AllowPair std now addr m)"
| "auth_step std m (CAllowAuth now addr) = fst (AllowAuth std now addr m)"

fun auth_run :: "stdlib \<Rightarrow> manager \<Rightarrow> auth_call list \<Rightarrow> manager" where
  "auth_run std m [] = m"
| "auth_run std m (c # cs) = auth_run std (auth_step std m c) cs"

lemma auth_run_append: "auth_run std m (xs @ ys) = auth_run std (auth_run std m xs) ys"
  by (induction xs arbitrary: m) auto

end
