(* ===== verification/Auth_Security.thy ===== *)
theory Auth_Security
  imports Auth
begin

text \<open>
  What \<^verbatim>\<open>auth.go\<close> promises. The invariant \<open>auth_inv\<close> ties the registry, the pairing session, the
  candidates and the challenges together and is kept by every method; on it rest the
  theorems that a device enters the registry only through a credential of an open session,
  that a session tolerates five wrong guesses, that revocation cuts off every way in, that
  challenges and tickets are used once and that the rate limiter bounds every minute.
\<close>

lemmas auth_ops =
  OpenPairing_def ClosePairing_def RequestPair_def ConfirmPair_def RejectPair_def AckPair_def
  PairStatus_def Revoke_def NewChallenge_def challenge_take_def challenge_finish_def Valid_def
  WSTicket_def VerifyWSTicket_def AllowPair_def AllowAuth_def

section \<open>The invariant\<close>

definition fresh_id :: "auth_call \<Rightarrow> bool" where
  \<comment> \<open>a random candidate ID is not the empty string\<close>
  "fresh_id c \<longleftrightarrow> (case c of CRequest _ i _ _ _ _ _ \<Rightarrow> i \<noteq> [] | _ \<Rightarrow> True)"

definition cand_open ::
  "pairing_session option \<Rightarrow> (string \<rightharpoonup> device) \<Rightarrow> string \<Rightarrow> pairing_candidate \<Rightarrow> bool" where
  \<comment> \<open>an unpaired candidate is the one of the open session and its device is not registered\<close>
  "cand_open pairing devs i c \<longleftrightarrow> devs (ps_DeviceID c) = None \<and>
     (case pairing of None \<Rightarrow> False | Some p \<Rightarrow> se_CandidateID p = i \<and> pc_sessionID c = se_ID p)"

definition cand_inv ::
  "pairing_session option \<Rightarrow> (string \<rightharpoonup> device) \<Rightarrow> string \<Rightarrow> pairing_candidate \<Rightarrow> bool" where
  "cand_inv pairing devs i c \<longleftrightarrow>
     i \<noteq> [] \<and> ps_ID c = i \<and> ps_ServerApproved c \<and> (ps_Paired c \<or> cand_open pairing devs i c)"

definition session_inv :: "(string \<rightharpoonup> pairing_candidate) \<Rightarrow> pairing_session option \<Rightarrow> bool" where
  "session_inv cands pairing \<longleftrightarrow>
     (case pairing of
        None \<Rightarrow> True
      | Some p \<Rightarrow> se_Attempts p < MaxPairingAttempts \<and>
          (case cands (se_CandidateID p) of None \<Rightarrow> True | Some c \<Rightarrow> \<not> ps_Paired c))"

definition ch_inv :: "(string \<rightharpoonup> device) \<Rightarrow> string \<Rightarrow> challenge \<Rightarrow> bool" where
  "ch_inv devs i c \<longleftrightarrow> ch_ID c = i \<and> devs (ch_DeviceID c) \<noteq> None"

definition auth_inv :: "manager \<Rightarrow> bool" where
  "auth_inv m \<longleftrightarrow>
     map_all (cand_inv (mg_pairing m) (mg_devices m)) (mg_candidates m) \<and>
     session_inv (mg_candidates m) (mg_pairing m) \<and>
     map_all (\<lambda>i d. dev_ID d = i) (mg_devices m) \<and>
     map_all (ch_inv (mg_devices m)) (mg_challenges m)"

lemma auth_invI [intro]:
  "map_all (cand_inv (mg_pairing m) (mg_devices m)) (mg_candidates m) \<Longrightarrow>
   session_inv (mg_candidates m) (mg_pairing m) \<Longrightarrow>
   map_all (\<lambda>i d. dev_ID d = i) (mg_devices m) \<Longrightarrow>
   map_all (ch_inv (mg_devices m)) (mg_challenges m) \<Longrightarrow>
   auth_inv m"
  by (simp add: auth_inv_def)

lemma auth_invD:
  assumes "auth_inv m"
  shows "map_all (cand_inv (mg_pairing m) (mg_devices m)) (mg_candidates m)"
    "session_inv (mg_candidates m) (mg_pairing m)"
    "map_all (\<lambda>i d. dev_ID d = i) (mg_devices m)"
    "map_all (ch_inv (mg_devices m)) (mg_challenges m)"
  using assms by (simp_all add: auth_inv_def)

lemma session_inv_delete [intro]: "session_inv cands p \<Longrightarrow> session_inv (cands(i := None)) p"
  by (auto simp: session_inv_def split: option.splits)

lemma session_inv_keep [intro]: "session_inv cands p \<Longrightarrow> session_inv (map_keep P cands) p"
  by (auto simp: session_inv_def split: option.splits)

lemma session_inv_None [simp]: "session_inv cands None"
  by (simp add: session_inv_def)

lemma loadDevices_ids: "map_all (\<lambda>i d. dev_ID d = i) devs \<Longrightarrow> map_all (\<lambda>i d. dev_ID d = i) (loadDevices ds devs)"
  by (induction ds devs rule: loadDevices.induct) (auto split: option.split)

lemma auth_inv_New: "auth_inv (New sid secret reg)"
  by (rule auth_invI) (simp_all add: New_def loadDevices_ids)

lemma auth_inv_prune: "auth_inv m \<Longrightarrow> auth_inv (pruneLocked now m)"
  by (rule auth_invI) (auto simp: pruneLocked_def dest: auth_invD)

lemma auth_inv_Open: "auth_inv m \<Longrightarrow> auth_inv (fst (OpenPairing now i code qr m))"
proof (rule auth_invI)
  assume inv: "auth_inv m"
  let ?m = "fst (OpenPairing now i code qr m)"
  have "map_all (cand_inv (mg_pairing ?m) (mg_devices m)) (map_keep (\<lambda>_ c. ps_Paired c) (mg_candidates m))"
    by (rule map_allI) (auto simp: cand_inv_def dest: map_allD [OF auth_invD(1) [OF inv]])
  then show "map_all (cand_inv (mg_pairing ?m) (mg_devices ?m)) (mg_candidates ?m)"
    by (simp add: OpenPairing_def Let_def)
  show "session_inv (mg_candidates ?m) (mg_pairing ?m)"
    using map_allD [OF auth_invD(1) [OF inv], of "[]"]
    by (auto simp: OpenPairing_def Let_def session_inv_def MaxPairingAttempts_def cand_inv_def
        split: option.splits)
qed (auto simp: OpenPairing_def Let_def dest: auth_invD)

lemma cand_inv_closed:
  assumes "auth_inv m" "mg_pairing m = Some p"
  shows "map_all (cand_inv None (mg_devices m)) (drop_unpaired (se_CandidateID p) (mg_candidates m))"
proof (rule map_allI)
  fix i c
  assume c: "drop_unpaired (se_CandidateID p) (mg_candidates m) i = Some c"
  then have i: "mg_candidates m i = Some c"
    by (auto simp: drop_unpaired_def split: option.splits if_splits)
  then have "cand_inv (Some p) (mg_devices m) i c"
    using assms by (metis auth_invD(1) map_allD)
  then show "cand_inv None (mg_devices m) i c"
    using c i by (auto simp: cand_inv_def cand_open_def drop_unpaired_def split: option.splits if_splits)
qed

lemma auth_inv_drop:
  assumes "auth_inv m" "mg_pairing m = Some p"
  shows "auth_inv (m\<lparr>mg_candidates := drop_unpaired (se_CandidateID p) (mg_candidates m), mg_pairing := None\<rparr>)"
  by (rule auth_invI) (simp_all add: cand_inv_closed [OF assms] auth_invD [OF assms(1)])

lemma auth_inv_Close: "auth_inv m \<Longrightarrow> auth_inv (fst (ClosePairing m))"
  by (simp add: ClosePairing_def auth_inv_drop split: option.split)

lemma auth_inv_frame:
  "auth_inv m \<Longrightarrow> mg_candidates m' = mg_candidates m \<Longrightarrow> mg_pairing m' = mg_pairing m \<Longrightarrow>
   mg_devices m' = mg_devices m \<Longrightarrow> mg_challenges m' = mg_challenges m \<Longrightarrow> auth_inv m'"
  by (simp add: auth_inv_def)

lemma auth_inv_attempt:
  "auth_inv m \<Longrightarrow> mg_pairing m = Some p \<Longrightarrow> Suc (se_Attempts p) < MaxPairingAttempts \<Longrightarrow>
   auth_inv (m\<lparr>mg_pairing := Some (p\<lparr>se_Attempts := Suc (se_Attempts p)\<rparr>)\<rparr>)"
  by (rule auth_invI)
     (auto simp: auth_inv_def session_inv_def cand_inv_def cand_open_def elim: map_all_mono)

lemma auth_inv_rename:
  assumes "auth_inv m" "mg_candidates m i = Some c"
  shows "auth_inv (m\<lparr>mg_candidates := (mg_candidates m)(i \<mapsto> c\<lparr>ps_DeviceName := n\<rparr>)\<rparr>)"
  using map_allD [OF auth_invD(1) [OF assms(1)] assms(2)] assms
  by (intro auth_invI)
     (auto simp: auth_inv_def session_inv_def cand_inv_def cand_open_def split: option.splits)

lemma auth_inv_candidate:
  assumes inv: "auth_inv m" and p: "mg_pairing m = Some p" "se_CandidateID p = []"
    and c: "ps_ID c = i" "i \<noteq> []" "ps_ServerApproved c" "\<not> ps_Paired c"
      "mg_devices m (ps_DeviceID c) = None" "pc_sessionID c = se_ID p"
  shows "auth_inv (m\<lparr>mg_candidates := (mg_candidates m)(i \<mapsto> c),
                     mg_pairing := Some (p\<lparr>se_CandidateID := i\<rparr>)\<rparr>)"
proof -
  have "map_all (cand_inv (Some (p\<lparr>se_CandidateID := i\<rparr>)) (mg_devices m)) (mg_candidates m)"
    by (rule map_all_mono [OF auth_invD(1) [OF inv]]) (use p in \<open>auto simp: cand_inv_def cand_open_def\<close>)
  moreover have "cand_inv (Some (p\<lparr>se_CandidateID := i\<rparr>)) (mg_devices m) i c"
    using c by (simp add: cand_inv_def cand_open_def)
  ultimately show ?thesis
    using auth_invD [OF inv] p c by (simp add: auth_inv_def map_all_upd session_inv_def)
qed

lemma pruneLocked_simps [simp]:
  "mg_devices (pruneLocked now m) = mg_devices m"
  "mg_pairing (pruneLocked now m) = mg_pairing m"
  "mg_secret (pruneLocked now m) = mg_secret m"
  "mg_serverID (pruneLocked now m) = mg_serverID m"
  "mg_onRevoke (pruneLocked now m) = mg_onRevoke m"
  "mg_file (pruneLocked now m) = mg_file m"
  by (simp_all add: pruneLocked_def)

definition credential_accepted ::
  "stdlib \<Rightarrow> manager \<Rightarrow> string \<Rightarrow> string \<Rightarrow> string \<Rightarrow> string \<Rightarrow> bool" where
  \<comment> \<open>the key is a 2048-bit RSA key of device \<open>d\<close> and the credential is the open session's\<close>
  "credential_accepted std m key code qr d \<longleftrightarrow>
     (case parsePublicKey std key of
        Inl _ \<Rightarrow> False
      | Inr (der, rsa) \<Rightarrow> bit_len (fst rsa) = 2048 \<and> d = hex_encode (sha256 std der)) \<and>
     (case mg_pairing m of None \<Rightarrow> False | Some p \<Rightarrow> credential_matches code qr p)"

lemma RequestPair_cases [case_names badkey closed locked wrong again used already accepted]:
  \<comment> \<open>the outcomes of a pairing request, \<open>p\<close> the open session and \<open>m'\<close> the pruned state\<close>
  fixes std now i name key addr code qr m
  defines "m' \<equiv> pruneLocked now m"
    and "r \<equiv> RequestPair std now i name key addr code qr m"
  obtains
    e where "r = (m, Inl e)" "e \<in> {ErrDecodeKey, ErrParseKey, ErrKeyNotRSA, ErrKeyNotRSA2048}"
  | "mg_pairing m = None" "r = (m', Inl ErrPairingClosed)"
  | p where "mg_pairing m = Some p" "\<not> credential_matches code qr p" "MaxPairingAttempts \<le> se_Attempts p + 1"
      "r = (m'\<lparr>mg_candidates := drop_unpaired (se_CandidateID p) (mg_candidates m'), mg_pairing := None\<rparr>,
            Inl ErrPairingLocked)"
  | p where "mg_pairing m = Some p" "\<not> credential_matches code qr p" "se_Attempts p + 1 < MaxPairingAttempts"
      "r = (m'\<lparr>mg_pairing := Some (p\<lparr>se_Attempts := se_Attempts p + 1\<rparr>)\<rparr>, Inl ErrPairingCode)"
  | p c where "mg_pairing m = Some p" "credential_matches code qr p" "se_CandidateID p \<noteq> []"
      "mg_candidates m' (se_CandidateID p) = Some c"
      "r = (m'\<lparr>mg_candidates := (mg_candidates m')(se_CandidateID p \<mapsto>
              c\<lparr>ps_DeviceName := sanitizeDeviceName name\<rparr>)\<rparr>,
            Inr (status_of (c\<lparr>ps_DeviceName := sanitizeDeviceName name\<rparr>)))"
  | p where "mg_pairing m = Some p" "credential_matches code qr p" "r = (m', Inl ErrPairingUsed)"
  | p where "mg_pairing m = Some p" "credential_matches code qr p" "r = (m', Inl ErrAlreadyPaired)"
  | p c where "mg_pairing m = Some p" "credential_matches code qr p" "se_CandidateID p = []"
      "ps_ID c = i" "ps_ServerApproved c" "\<not> ps_Paired c" "mg_devices m (ps_DeviceID c) = None"
      "pc_sessionID c = se_ID p" "pc_publicKey c = key"
      "credential_accepted std m key code qr (ps_DeviceID c)"
      "r = (m'\<lparr>mg_candidates := (mg_candidates m')(i \<mapsto> c),
               mg_pairing := Some (p\<lparr>se_CandidateID := i\<rparr>)\<rparr>, Inr (status_of c))"
proof (cases "parsePublicKey std key")
  case (Inl e)
  then have "e \<in> {ErrDecodeKey, ErrParseKey, ErrKeyNotRSA, ErrKeyNotRSA2048}"
    by (auto simp: parsePublicKey_def split: option.splits)
  then show thesis using Inl that(1) by (simp add: r_def RequestPair_def)
next
  case (Inr k)
  obtain der rsa where k: "k = (der, rsa)" by (cases k)
  note R = r_def m'_def RequestPair_def Let_def Inr k
  show thesis
  proof (cases "bit_len (fst rsa) = 2048")
    case False
    then show thesis using that(1) by (simp add: R)
  next
    case True
    show thesis
    proof (cases "mg_pairing m")
      case None
      then show thesis using that(2) True by (simp add: R)
    next
      case (Some p)
      show thesis
      proof (cases "credential_matches code qr p")
        case False
        then show thesis
          using that(3,4) [OF Some False] True Some by (cases "MaxPairingAttempts \<le> se_Attempts p + 1") (simp_all add: R)
      next
        case match: True
        show thesis
        proof (cases "se_CandidateID p = []")
          case False
          note * = that(5) [OF Some match False] that(6) [OF Some match] True Some match False
          show thesis
          proof (cases "mg_candidates m' (se_CandidateID p)")
            case None
            then show thesis using * by (simp add: R)
          next
            case c: (Some c)
            then show thesis using * by (cases "ps_DeviceID c = hex_encode (sha256 std der)") (simp_all add: R)
          qed
        next
          case fresh: True
          show thesis
          proof (cases "mg_devices m (hex_encode (sha256 std der)) = None")
            case False
            then show thesis using that(7) [OF Some match] True Some match fresh by (simp add: R)
          next
            case new: True
            show thesis
              by (rule that(8) [OF Some match fresh]) (use True Some match fresh new in
                  \<open>simp_all add: R credential_accepted_def\<close>)
          qed
        qed
      qed
    qed
  qed
qed

lemma auth_inv_Request:
  assumes inv: "auth_inv m" and i: "i \<noteq> []"
  shows "auth_inv (fst (RequestPair std now i name key addr code qr m))"
proof -
  note prune = auth_inv_prune [OF inv, of now]
  show ?thesis
    by (cases rule: RequestPair_cases [of std now i name key addr code qr m])
       (use inv i prune auth_inv_candidate [OF prune] in \<open>simp_all add: auth_inv_drop auth_inv_attempt auth_inv_rename\<close>)
qed

lemma auth_inv_close_session:
  assumes "auth_inv m" "\<And>i c. mg_candidates m i = Some c \<Longrightarrow> \<not> ps_Paired c \<Longrightarrow> pc_sessionID c \<noteq> sid"
  shows "auth_inv (close_session_of sid m)"
proof (cases "\<exists>p. mg_pairing m = Some p \<and> se_ID p = sid")
  case False
  then show ?thesis using assms(1) by (auto simp: close_session_of_def split: option.split)
next
  case True
  then obtain p where p: "mg_pairing m = Some p" "se_ID p = sid" by blast
  have "map_all (cand_inv None (mg_devices m)) (mg_candidates m)"
    by (rule map_all_mono [OF auth_invD(1) [OF assms(1)]])
       (use p assms(2) in \<open>auto simp: cand_inv_def cand_open_def\<close>)
  then show ?thesis
    using p auth_invD [OF assms(1)] by (simp add: auth_inv_def close_session_of_def)
qed

lemma unpaired_session:
  assumes "auth_inv m" "mg_candidates m i = Some c" "\<not> ps_Paired c"
  obtains p where "mg_pairing m = Some p" "se_CandidateID p = i" "pc_sessionID c = se_ID p"
    "mg_devices m (ps_DeviceID c) = None"
  using map_allD [OF auth_invD(1) [OF assms(1)] assms(2)] assms(3)
  by (auto simp: cand_inv_def cand_open_def split: option.splits)

lemma unpaired_unique:
  assumes "auth_inv m" "mg_candidates m i = Some c" "\<not> ps_Paired c"
    "mg_candidates m j = Some d" "\<not> ps_Paired d"
  shows "i = j"
  using unpaired_session [OF assms(1-3)] unpaired_session [OF assms(1,4,5)] by (metis option.inject)

lemma auth_inv_Reject: "auth_inv m \<Longrightarrow> auth_inv (fst (RejectPair i m))"
proof (cases "\<exists>c. mg_candidates m i = Some c \<and> \<not> ps_Paired c")
  case True
  assume inv: "auth_inv m"
  obtain c where c: "mg_candidates m i = Some c" "\<not> ps_Paired c" using True by blast
  have "auth_inv (m\<lparr>mg_candidates := (mg_candidates m)(i := None)\<rparr>)"
    using auth_invD [OF inv] by (simp add: auth_inv_def map_all_delete session_inv_delete)
  then have "auth_inv (close_session_of (pc_sessionID c) (m\<lparr>mg_candidates := (mg_candidates m)(i := None)\<rparr>))"
    by (rule auth_inv_close_session) (auto split: if_splits dest: unpaired_unique [OF inv c])
  then show ?thesis using c by (simp add: RejectPair_def)
qed (auto simp: RejectPair_def split: option.split)

lemma auth_inv_Ack: "auth_inv m \<Longrightarrow> auth_inv (fst (AckPair i m))"
  by (auto simp: AckPair_def auth_inv_def map_all_delete session_inv_delete split: option.split)

lemma auth_inv_confirm_fail:
  assumes inv: "auth_inv m" and c: "mg_candidates m i = Some c" "\<not> ps_Paired c"
  shows "auth_inv (m\<lparr>mg_candidates := (mg_candidates m)(i \<mapsto> c\<lparr>ps_ClientConfirmed := True,
      pc_completedAt := now, ps_Paired := False\<rparr>), mg_devices := (mg_devices m)(ps_DeviceID c := None)\<rparr>)"
proof -
  obtain p where p: "mg_pairing m = Some p" "se_CandidateID p = i" "pc_sessionID c = se_ID p"
    "mg_devices m (ps_DeviceID c) = None" using unpaired_session [OF inv c] .
  then have "(mg_devices m)(ps_DeviceID c := None) = mg_devices m" by auto
  moreover have "cand_inv (mg_pairing m) (mg_devices m) i (c\<lparr>ps_ClientConfirmed := True,
      pc_completedAt := now, ps_Paired := False\<rparr>)"
    using map_allD [OF auth_invD(1) [OF inv] c(1)] c p by (simp add: cand_inv_def cand_open_def)
  ultimately show ?thesis
    using auth_invD [OF inv] p by (simp add: auth_inv_def map_all_upd session_inv_def)
qed

lemma auth_inv_confirm_ok:
  assumes inv: "auth_inv m" and c: "mg_candidates m i = Some c" "\<not> ps_Paired c"
    and d: "dev_ID d = ps_DeviceID c"
  shows "auth_inv (m\<lparr>mg_candidates := (mg_candidates m)(i \<mapsto> c\<lparr>ps_ClientConfirmed := True,
      ps_Paired := True, pc_completedAt := now\<rparr>),
      mg_devices := (mg_devices m)(ps_DeviceID c \<mapsto> d), mg_file := f, mg_pairing := None\<rparr>)"
proof -
  have "cand_inv None ((mg_devices m)(ps_DeviceID c \<mapsto> d)) j k"
    if k: "((mg_candidates m)(i \<mapsto> c\<lparr>ps_ClientConfirmed := True, ps_Paired := True, pc_completedAt := now\<rparr>)) j = Some k" for j k
  proof (cases "j = i")
    case True
    then show ?thesis
      using k map_allD [OF auth_invD(1) [OF inv] c(1)] by (auto simp: cand_inv_def)
  next
    case False
    then have j: "mg_candidates m j = Some k" using k by simp
    then have "ps_Paired k" using unpaired_unique [OF inv c] False by blast
    then show ?thesis using map_allD [OF auth_invD(1) [OF inv] j] by (simp add: cand_inv_def)
  qed
  then have "map_all (cand_inv None ((mg_devices m)(ps_DeviceID c \<mapsto> d)))
    ((mg_candidates m)(i \<mapsto> c\<lparr>ps_ClientConfirmed := True, ps_Paired := True, pc_completedAt := now\<rparr>))"
    by (rule map_allI)
  moreover have "map_all (ch_inv ((mg_devices m)(ps_DeviceID c \<mapsto> d))) (mg_challenges m)"
    by (rule map_all_mono [OF auth_invD(4) [OF inv]]) (simp add: ch_inv_def)
  ultimately show ?thesis
    using auth_invD [OF inv] d by (simp add: auth_inv_def map_all_upd)
qed

lemma auth_inv_confirmed:
  assumes "auth_inv m" "mg_candidates m i = Some c" "ps_Paired c"
  shows "auth_inv (m\<lparr>mg_candidates := (mg_candidates m)(i \<mapsto> c\<lparr>ps_ClientConfirmed := True\<rparr>)\<rparr>)"
  using map_allD [OF auth_invD(1) [OF assms(1)] assms(2)] assms
  by (intro auth_invI) (auto simp: auth_inv_def session_inv_def cand_inv_def split: option.splits)

lemma ConfirmPair_cases [consumes 1, case_names missing again unsaved paired]:
  \<comment> \<open>the outcomes of a confirmation in a state of the invariant\<close>
  assumes "auth_inv m"
  obtains
    (missing) "mg_candidates (pruneLocked now m) i = None"
      "ConfirmPair ok now i m = (pruneLocked now m, Inl ErrPairingNotFound)"
  | (again) c where "mg_candidates (pruneLocked now m) i = Some c" "ps_Paired c"
      "ConfirmPair ok now i m =
        ((pruneLocked now m)\<lparr>mg_candidates := (mg_candidates (pruneLocked now m))(i \<mapsto> c\<lparr>ps_ClientConfirmed := True\<rparr>)\<rparr>,
         Inr (status_of (c\<lparr>ps_ClientConfirmed := True\<rparr>)))"
  | (unsaved) c where "\<not> ok" "mg_candidates (pruneLocked now m) i = Some c" "\<not> ps_Paired c"
      "ConfirmPair ok now i m =
        ((pruneLocked now m)\<lparr>mg_candidates := (mg_candidates (pruneLocked now m))(i \<mapsto> c\<lparr>ps_ClientConfirmed := True,
            pc_completedAt := now, ps_Paired := False\<rparr>),
          mg_devices := (mg_devices (pruneLocked now m))(ps_DeviceID c := None)\<rparr>, Inl ErrSaveDevices)"
  | (paired) c d where "ok" "mg_candidates (pruneLocked now m) i = Some c" "\<not> ps_Paired c"
      "d = \<lparr>dev_ID = ps_DeviceID c, dev_Name = ps_DeviceName c, dev_PublicKey = pc_publicKey c,
            dev_PairedAt = now, dev_LastSeen = 0\<rparr>"
      "ConfirmPair ok now i m =
        ((pruneLocked now m)\<lparr>mg_candidates := (mg_candidates (pruneLocked now m))(i \<mapsto> c\<lparr>ps_ClientConfirmed := True,
            ps_Paired := True, pc_completedAt := now\<rparr>),
          mg_devices := (mg_devices (pruneLocked now m))(ps_DeviceID c \<mapsto> d),
          mg_file := (mg_devices (pruneLocked now m))(ps_DeviceID c \<mapsto> d), mg_pairing := None\<rparr>,
         Inr (status_of (c\<lparr>ps_ClientConfirmed := True, ps_Paired := True, pc_completedAt := now\<rparr>)))"
proof (cases "mg_candidates (pruneLocked now m) i")
  case None
  then show thesis using missing by (simp add: ConfirmPair_def Let_def)
next
  case (Some c)
  note inv = auth_inv_prune [OF assms, of now]
  have app: "ps_ServerApproved c"
    using map_allD [OF auth_invD(1) [OF inv] Some] by (simp add: cand_inv_def)
  show thesis
  proof (cases "ps_Paired c")
    case True
    then show thesis using again [OF Some] Some by (simp add: ConfirmPair_def Let_def)
  next
    case False
    obtain p where p: "mg_pairing (pruneLocked now m) = Some p" "pc_sessionID c = se_ID p"
      using unpaired_session [OF inv Some False] by blast
    show thesis
      using Some False app p unsaved [OF _ Some] paired [OF _ Some]
      by (cases ok) (simp_all add: ConfirmPair_def Let_def saveDevicesLocked_def close_session_of_def)
  qed
qed

lemma auth_inv_Confirm:
  assumes "auth_inv m"
  shows "auth_inv (fst (ConfirmPair ok now i m))"
  using assms
proof (cases rule: ConfirmPair_cases [where now = now and i = i and ok = ok])
  case (paired c d)
  from auth_inv_confirm_ok [OF auth_inv_prune [OF assms] paired(2,3)] show ?thesis
    using paired(4,5) by simp
next
  case (unsaved c)
  then show ?thesis
    using auth_inv_confirm_fail [OF auth_inv_prune [OF assms] unsaved(2,3)] by simp
qed (simp_all add: auth_inv_prune auth_inv_confirmed assms)

lemma auth_inv_Revoke: "auth_inv m \<Longrightarrow> auth_inv (fst (Revoke ok d m))"
proof (cases "mg_devices m d")
  case (Some dev)
  assume inv: "auth_inv m"
  have "map_all (cand_inv (mg_pairing m) ((mg_devices m)(d := None))) (mg_candidates m)"
    by (rule map_all_mono [OF auth_invD(1) [OF inv]]) (auto simp: cand_inv_def cand_open_def split: option.splits)
  moreover have "map_all (ch_inv ((mg_devices m)(d := None)))
      (map_keep (\<lambda>_ c. ch_DeviceID c \<noteq> d) (mg_challenges m))"
    by (rule map_allI) (auto simp: ch_inv_def dest: map_allD [OF auth_invD(4) [OF inv]])
  moreover have "(mg_devices m)(d := Some dev) = mg_devices m" using Some by auto
  ultimately show ?thesis
    using Some auth_invD [OF inv]
    by (simp add: Revoke_def Let_def saveDevicesLocked_def auth_inv_def map_all_delete map_all_keep)
qed (simp add: Revoke_def)

lemma auth_inv_Challenge: "auth_inv m \<Longrightarrow> auth_inv (fst (NewChallenge now i nonce d m))"
  using auth_inv_prune [of m now]
  by (auto simp: NewChallenge_def Let_def auth_inv_def ch_inv_def intro!: map_all_upd)

lemma auth_inv_Take: "auth_inv m \<Longrightarrow> auth_inv (fst (challenge_take now i m))"
  by (auto simp: challenge_take_def Let_def auth_inv_def map_all_delete split: option.split)

lemma auth_inv_Finish: "auth_inv m \<Longrightarrow> auth_inv (fst (challenge_finish c key m))"
  by (auto simp: challenge_finish_def auth_inv_def map_all_keep session_inv_keep split: option.split)

lemma auth_inv_seen:
  assumes inv: "auth_inv m" and d: "mg_devices m i = Some d"
  shows "auth_inv (m\<lparr>mg_devices := (mg_devices m)(i \<mapsto> d\<lparr>dev_LastSeen := now\<rparr>), mg_file := f\<rparr>)"
    "auth_inv (m\<lparr>mg_devices := (mg_devices m)(i \<mapsto> d\<lparr>dev_LastSeen := now\<rparr>)\<rparr>)"
proof -
  let ?devs = "(mg_devices m)(i \<mapsto> d\<lparr>dev_LastSeen := now\<rparr>)"
  have None: "?devs k = None \<longleftrightarrow> mg_devices m k = None" for k using d by auto
  have "map_all (cand_inv (mg_pairing m) ?devs) (mg_candidates m)"
    by (rule map_all_mono [OF auth_invD(1) [OF inv]]) (simp add: cand_inv_def cand_open_def None del: fun_upd_apply)
  moreover have "map_all (ch_inv ?devs) (mg_challenges m)"
    by (rule map_all_mono [OF auth_invD(4) [OF inv]]) (simp add: ch_inv_def None del: fun_upd_apply)
  moreover have "map_all (\<lambda>i d. dev_ID d = i) ?devs"
    using auth_invD(3) [OF inv] map_allD [OF auth_invD(3) [OF inv] d] by (simp add: map_all_upd)
  ultimately show "auth_inv (m\<lparr>mg_devices := ?devs, mg_file := f\<rparr>)" "auth_inv (m\<lparr>mg_devices := ?devs\<rparr>)"
    using auth_invD(2) [OF inv] by (simp_all add: auth_inv_def)
qed

lemma auth_inv_Valid: "auth_inv m \<Longrightarrow> auth_inv (fst (Valid std ok now cookie m))"
  by (auto simp: Valid_def Let_def saveDevicesLocked_def auth_inv_seen split: option.split)

lemma auth_inv_Ticket:
  "auth_inv m \<Longrightarrow> auth_inv (fst (WSTicket now t d m))"
  "auth_inv m \<Longrightarrow> auth_inv (fst (VerifyWSTicket now t m))"
  "auth_inv m \<Longrightarrow> auth_inv (fst (AllowPair std now addr m))"
  "auth_inv m \<Longrightarrow> auth_inv (fst (AllowAuth std now addr m))"
  using auth_inv_prune [of m now]
  by (auto simp: WSTicket_def VerifyWSTicket_def AllowPair_def AllowAuth_def Let_def auth_inv_def
      split: option.split prod.split)

lemmas auth_inv_ops =
  auth_inv_Open auth_inv_Close auth_inv_Request auth_inv_Confirm auth_inv_Reject auth_inv_Ack
  auth_inv_prune auth_inv_Revoke auth_inv_Challenge auth_inv_Take auth_inv_Finish auth_inv_Valid
  auth_inv_Ticket

lemma auth_inv_step: "auth_inv m \<Longrightarrow> fresh_id c \<Longrightarrow> auth_inv (auth_step std m c)"
  by (cases c) (simp_all add: auth_inv_ops fresh_id_def PairStatus_def Let_def)

lemma auth_inv_run: "auth_inv m \<Longrightarrow> list_all fresh_id cs \<Longrightarrow> auth_inv (auth_run std m cs)"
  by (induction cs arbitrary: m) (auto intro: auth_inv_step)

section \<open>What one call can change\<close>

lemma pruneLocked_SomeD [dest]:
  "mg_candidates (pruneLocked now m) i = Some c \<Longrightarrow> mg_candidates m i = Some c"
  "mg_challenges (pruneLocked now m) j = Some h \<Longrightarrow> mg_challenges m j = Some h"
  "mg_tickets (pruneLocked now m) k = Some t \<Longrightarrow> mg_tickets m k = Some t"
  by (simp_all add: pruneLocked_def)

lemma close_session_simps [simp]:
  "mg_devices (close_session_of sid m) = mg_devices m"
  "mg_candidates (close_session_of sid m) = mg_candidates m"
  "mg_challenges (close_session_of sid m) = mg_challenges m"
  "mg_tickets (close_session_of sid m) = mg_tickets m"
  "mg_secret (close_session_of sid m) = mg_secret m"
  by (simp_all add: close_session_of_def split: option.split)

lemma close_session_SomeD [dest]: "mg_pairing (close_session_of sid m) = Some p \<Longrightarrow> mg_pairing m = Some p"
  by (auto simp: close_session_of_def split: option.splits if_splits)

lemma drop_unpaired_SomeD [dest]: "drop_unpaired i cands j = Some c \<Longrightarrow> cands j = Some c"
  by (auto simp: drop_unpaired_def split: option.splits if_splits)

definition candidate_kept :: "manager \<Rightarrow> string \<Rightarrow> pairing_candidate \<Rightarrow> bool" where
  \<comment> \<open>the candidate is one of \<open>m\<close>, for the same device and key, and was paired if it is not now\<close>
  "candidate_kept m i c \<longleftrightarrow> (\<exists>c'. mg_candidates m i = Some c' \<and> ps_DeviceID c = ps_DeviceID c' \<and>
     pc_publicKey c = pc_publicKey c' \<and> (ps_Paired c' \<longrightarrow> ps_Paired c))"

lemma candidate_keptI [intro]:
  "mg_candidates m i = Some c' \<Longrightarrow> ps_DeviceID c = ps_DeviceID c' \<Longrightarrow> pc_publicKey c = pc_publicKey c' \<Longrightarrow>
   (ps_Paired c' \<Longrightarrow> ps_Paired c) \<Longrightarrow> candidate_kept m i c"
  by (auto simp: candidate_kept_def)

definition request_by :: "stdlib \<Rightarrow> manager \<Rightarrow> auth_call \<Rightarrow> string \<Rightarrow> string \<Rightarrow> bool" where
  \<comment> \<open>the call is a pairing request of device \<open>d\<close> with public key \<open>key\<close> that the open session accepts\<close>
  "request_by std m c d key \<longleftrightarrow>
     (case c of CRequest now i name k addr code qr \<Rightarrow> k = key \<and> credential_accepted std m key code qr d
      | _ \<Rightarrow> False)"

lemma step_candidates:
  assumes "mg_candidates (auth_step std m c) i = Some k"
  shows "candidate_kept m i k \<or> request_by std m c (ps_DeviceID k) (pc_publicKey k)"
proof (cases c)
  case (CRequest now j name key addr code qr)
  show ?thesis
    by (cases rule: RequestPair_cases [of std now j name key addr code qr m])
       (use assms CRequest in \<open>auto simp: request_by_def split: if_splits\<close>)
next
  case (CConfirm ok now j)
  then show ?thesis using assms
    by (auto simp: ConfirmPair_def Let_def saveDevicesLocked_def split: option.splits if_splits)
qed (use assms in \<open>auto simp: OpenPairing_def ClosePairing_def RejectPair_def AckPair_def PairStatus_def
   Revoke_def NewChallenge_def challenge_take_def challenge_finish_def Valid_def WSTicket_def
   VerifyWSTicket_def AllowPair_def AllowAuth_def Let_def saveDevicesLocked_def
   split: option.splits if_splits prod.splits\<close>)

lemma RequestPair_devices [simp]:
  "mg_devices (fst (RequestPair std now i name key addr code qr m)) = mg_devices m"
  by (cases rule: RequestPair_cases [of std now i name key addr code qr m]) auto

definition device_kept :: "manager \<Rightarrow> string \<Rightarrow> device \<Rightarrow> bool" where
  "device_kept m d dev \<longleftrightarrow> (\<exists>dev'. mg_devices m d = Some dev' \<and> dev_PublicKey dev = dev_PublicKey dev')"

lemma device_keptI [intro]:
  "mg_devices m d = Some dev' \<Longrightarrow> dev_PublicKey dev = dev_PublicKey dev' \<Longrightarrow> device_kept m d dev"
  by (auto simp: device_kept_def)

definition candidate_for :: "manager \<Rightarrow> string \<Rightarrow> string \<Rightarrow> bool" where
  "candidate_for m d key \<longleftrightarrow>
     (\<exists>i k. mg_candidates m i = Some k \<and> \<not> ps_Paired k \<and> ps_DeviceID k = d \<and> pc_publicKey k = key)"

lemma candidate_forI [intro]:
  "mg_candidates m i = Some k \<Longrightarrow> \<not> ps_Paired k \<Longrightarrow> candidate_for m (ps_DeviceID k) (pc_publicKey k)"
  by (auto simp: candidate_for_def)

lemma step_devices:
  assumes "mg_devices (auth_step std m c) d = Some dev"
  shows "device_kept m d dev \<or> candidate_for m d (dev_PublicKey dev)"
proof (cases c)
  case (CConfirm ok now i)
  then show ?thesis using assms
    by (auto simp: ConfirmPair_def Let_def saveDevicesLocked_def split: option.splits if_splits
        dest!: pruneLocked_SomeD)
qed (use assms in \<open>auto simp: OpenPairing_def ClosePairing_def RejectPair_def AckPair_def PairStatus_def
   Revoke_def NewChallenge_def challenge_take_def challenge_finish_def Valid_def WSTicket_def
   VerifyWSTicket_def AllowPair_def AllowAuth_def Let_def saveDevicesLocked_def
   split: option.splits if_splits prod.splits\<close>)

lemmas step_simple =
  OpenPairing_def ClosePairing_def RejectPair_def AckPair_def PairStatus_def Revoke_def
  NewChallenge_def challenge_take_def challenge_finish_def Valid_def WSTicket_def
  VerifyWSTicket_def AllowPair_def AllowAuth_def Let_def saveDevicesLocked_def

definition session_kept :: "manager \<Rightarrow> pairing_session \<Rightarrow> bool" where
  "session_kept m p \<longleftrightarrow>
     (\<exists>p'. mg_pairing m = Some p' \<and> se_Code p = se_Code p' \<and> se_QRToken p = se_QRToken p')"

lemma session_keptI [intro]:
  "mg_pairing m = Some p' \<Longrightarrow> se_Code p = se_Code p' \<Longrightarrow> se_QRToken p = se_QRToken p' \<Longrightarrow> session_kept m p"
  by (auto simp: session_kept_def)

definition opened_by :: "auth_call \<Rightarrow> pairing_session \<Rightarrow> bool" where
  "opened_by c p \<longleftrightarrow> (case c of COpen now i code qr \<Rightarrow> code = se_Code p \<and> qr = se_QRToken p | _ \<Rightarrow> False)"

lemma step_pairing:
  assumes "mg_pairing (auth_step std m c) = Some p"
  shows "session_kept m p \<or> opened_by c p"
proof (cases c)
  case (CRequest now j name key addr code qr)
  show ?thesis
    by (cases rule: RequestPair_cases [of std now j name key addr code qr m])
       (use assms CRequest in auto)
next
  case (CConfirm ok now j)
  then show ?thesis using assms
    by (auto simp: ConfirmPair_def Let_def saveDevicesLocked_def split: option.splits if_splits
        dest!: close_session_SomeD)
qed (use assms in \<open>auto simp: step_simple opened_by_def split: option.splits if_splits prod.splits
   dest!: close_session_SomeD\<close>)

section \<open>Who is in the registry\<close>

definition invited :: "stdlib \<Rightarrow> manager \<Rightarrow> auth_call list \<Rightarrow> string \<Rightarrow> string \<Rightarrow> bool" where
  \<comment> \<open>among the calls \<open>cs\<close> made from \<open>m\<close>, the owner opened a session and device \<open>d\<close> later requested
     pairing with the session's credential while that session was open\<close>
  "invited std m cs d key \<longleftrightarrow>
     (\<exists>xs c ys p opener. cs = xs @ c # ys \<and> request_by std (auth_run std m xs) c d key \<and>
        mg_pairing (auth_run std m xs) = Some p \<and> opener \<in> set xs \<and> opened_by opener p)"

lemma invited_snoc [intro]: "invited std m cs d key \<Longrightarrow> invited std m (cs @ [c]) d key"
  unfolding invited_def by (metis append_Cons append_assoc)

lemma auth_run_snoc [simp]: "auth_run std m (cs @ [c]) = auth_step std (auth_run std m cs) c"
  by (simp add: auth_run_append)

lemma session_opened:
  assumes "mg_pairing m = None" "mg_pairing (auth_run std m cs) = Some p"
  shows "\<exists>c\<in>set cs. opened_by c p"
  using assms(2)
proof (induction cs arbitrary: p rule: rev_induct)
  case Nil
  then show ?case using assms(1) by simp
next
  case (snoc c cs)
  have "opened_by c p \<or> (\<exists>p'. mg_pairing (auth_run std m cs) = Some p' \<and>
      se_Code p = se_Code p' \<and> se_QRToken p = se_QRToken p')"
    using step_pairing [of std "auth_run std m cs" c p] snoc.prems by (auto simp: session_kept_def)
  moreover have "opened_by c' p' \<Longrightarrow> se_Code p = se_Code p' \<Longrightarrow> se_QRToken p = se_QRToken p' \<Longrightarrow> opened_by c' p"
    for c' p' by (auto simp: opened_by_def split: auth_call.splits)
  ultimately show ?case using snoc.IH by (metis Un_iff list.set_intros(1) set_append)
qed

lemma invited_now:
  assumes "mg_pairing m = None" "request_by std (auth_run std m cs) c d key"
  shows "invited std m (cs @ [c]) d key"
proof -
  obtain p where p: "mg_pairing (auth_run std m cs) = Some p"
    using assms(2) by (auto simp: request_by_def credential_accepted_def split: auth_call.splits option.splits)
  then show ?thesis
    using session_opened [OF assms(1) p] assms(2) unfolding invited_def by blast
qed

lemma candidates_invited:
  assumes "mg_pairing m = None" "mg_candidates m = Map.empty"
    "mg_candidates (auth_run std m cs) i = Some k"
  shows "invited std m cs (ps_DeviceID k) (pc_publicKey k)"
  using assms(3)
proof (induction cs arbitrary: i k rule: rev_induct)
  case Nil
  then show ?case using assms(2) by simp
next
  case (snoc c cs)
  have "candidate_kept (auth_run std m cs) i k \<or>
      request_by std (auth_run std m cs) c (ps_DeviceID k) (pc_publicKey k)"
    using step_candidates [of std _ c i k] snoc.prems by simp
  then show ?case
    using snoc.IH invited_now [OF assms(1)] by (fastforce simp: candidate_kept_def)
qed

lemma devices_invited:
  assumes "mg_pairing m = None" "mg_candidates m = Map.empty"
    "mg_devices (auth_run std m cs) d = Some dev"
  shows "device_kept m d dev \<or> invited std m cs d (dev_PublicKey dev)"
  using assms(3)
proof (induction cs arbitrary: dev rule: rev_induct)
  case Nil
  then show ?case by auto
next
  case (snoc c cs)
  have "device_kept (auth_run std m cs) d dev \<or> candidate_for (auth_run std m cs) d (dev_PublicKey dev)"
    using step_devices [of std _ c d dev] snoc.prems by simp
  then show ?case
  proof
    assume "device_kept (auth_run std m cs) d dev"
    then show ?thesis using snoc.IH by (fastforce simp: device_kept_def)
  next
    assume "candidate_for (auth_run std m cs) d (dev_PublicKey dev)"
    then show ?thesis using candidates_invited [OF assms(1,2)] by (metis candidate_for_def invited_snoc)
  qed
qed

section \<open>Wrong guesses\<close>

definition guess_failed :: "stdlib \<Rightarrow> manager \<Rightarrow> auth_call \<Rightarrow> bool" where
  "guess_failed std m c \<longleftrightarrow>
     (case c of
        CRequest now i name key addr code qr \<Rightarrow>
          snd (RequestPair std now i name key addr code qr m) \<in> {Inl ErrPairingCode, Inl ErrPairingLocked}
      | _ \<Rightarrow> False)"

fun failed_guesses :: "stdlib \<Rightarrow> manager \<Rightarrow> auth_call list \<Rightarrow> nat" where
  "failed_guesses std m [] = 0"
| "failed_guesses std m (c # cs) =
     (if guess_failed std m c then 1 else 0) + failed_guesses std (auth_step std m c) cs"

definition opens :: "auth_call \<Rightarrow> bool" where
  "opens c \<longleftrightarrow> (case c of COpen _ _ _ _ \<Rightarrow> True | _ \<Rightarrow> False)"

definition guesses_left :: "manager \<Rightarrow> nat" where
  "guesses_left m = (case mg_pairing m of None \<Rightarrow> 0 | Some p \<Rightarrow> MaxPairingAttempts - se_Attempts p)"

lemma guesses_left_session:
  "mg_pairing m = Some p \<Longrightarrow> guesses_left m = MaxPairingAttempts - se_Attempts p"
  "mg_pairing m = None \<Longrightarrow> guesses_left m = 0"
  by (simp_all add: guesses_left_def)

lemma guesses_left_close_session [simp]: "guesses_left (close_session_of sid m) \<le> guesses_left m"
  by (simp add: guesses_left_def close_session_of_def split: option.split)

lemma guesses_left_cong: "mg_pairing m = mg_pairing m' \<Longrightarrow> guesses_left m = guesses_left m'"
  by (simp add: guesses_left_def)

lemma guesses_left_step:
  assumes "auth_inv m" "\<not> opens c"
  shows "(if guess_failed std m c then 1 else 0) + guesses_left (auth_step std m c) \<le> guesses_left m"
proof (cases c)
  case (CRequest now i name key addr code qr)
  show ?thesis
    by (cases rule: RequestPair_cases [of std now i name key addr code qr m])
       (use CRequest auth_invD(2) [OF assms(1)] in
         \<open>auto simp: guess_failed_def guesses_left_def session_inv_def MaxPairingAttempts_def\<close>)
next
  case (CConfirm ok now i)
  have "guesses_left (fst (ConfirmPair ok now i m)) \<le> guesses_left m"
    using assms(1) by (cases rule: ConfirmPair_cases [where now = now and i = i and ok = ok])
      (simp_all add: guesses_left_def)
  then show ?thesis using CConfirm by (simp add: guess_failed_def)
next
  case (CReject i)
  have "guesses_left (fst (RejectPair i m)) \<le> guesses_left m"
    by (auto simp: RejectPair_def guesses_left_def close_session_of_def split: option.split)
  then show ?thesis using CReject by (simp add: guess_failed_def)
qed (use assms in \<open>auto simp: guess_failed_def opens_def guesses_left_def step_simple
   split: option.splits prod.splits if_splits\<close>)

lemma failed_guesses_left:
  assumes "auth_inv m" "list_all fresh_id cs" "list_all (\<lambda>c. \<not> opens c) cs"
  shows "failed_guesses std m cs + guesses_left (auth_run std m cs) \<le> guesses_left m"
  using assms
proof (induction cs arbitrary: m)
  case (Cons c cs)
  then show ?case
    using guesses_left_step [of m c std] Cons.IH [OF auth_inv_step [of m c std]] by simp
qed simp

section \<open>Revocation\<close>

definition barred :: "string \<Rightarrow> manager \<Rightarrow> bool" where
  \<comment> \<open>device \<open>d\<close> is not registered and no pending candidate can register it\<close>
  "barred d m \<longleftrightarrow> mg_devices m d = None \<and> map_all (\<lambda>_ c. ps_DeviceID c = d \<longrightarrow> ps_Paired c) (mg_candidates m)"

lemma barred_not_candidate: "barred d m \<Longrightarrow> \<not> candidate_for m d key"
  by (auto simp: barred_def candidate_for_def map_all_def)

definition requests_for :: "stdlib \<Rightarrow> string \<Rightarrow> auth_call \<Rightarrow> bool" where
  \<comment> \<open>the call is a pairing request with a public key of device \<open>d\<close>\<close>
  "requests_for std d c \<longleftrightarrow>
     (case c of CRequest now i name key addr code qr \<Rightarrow>
        (case parsePublicKey std key of Inl _ \<Rightarrow> False | Inr (der, rsa) \<Rightarrow> d = hex_encode (sha256 std der))
      | _ \<Rightarrow> False)"

lemma request_by_requests_for: "request_by std m c d key \<Longrightarrow> requests_for std d c"
  by (auto simp: request_by_def requests_for_def credential_accepted_def split: auth_call.splits sum.splits)

lemma barred_step:
  assumes "barred d m" "\<not> requests_for std d c"
  shows "barred d (auth_step std m c)"
proof -
  have "mg_devices (auth_step std m c) d \<noteq> Some dev" for dev
    using step_devices [of std m c d dev] assms(1) barred_not_candidate
    by (auto simp: device_kept_def barred_def)
  moreover have "ps_Paired k" if "mg_candidates (auth_step std m c) i = Some k" "ps_DeviceID k = d" for i k
    using step_candidates [OF that(1)] that(2) assms request_by_requests_for
    by (force simp: candidate_kept_def barred_def map_all_def)
  ultimately show ?thesis by (auto simp: barred_def map_all_def)
qed

lemma barred_run:
  "barred d m \<Longrightarrow> list_all (\<lambda>c. \<not> requests_for std d c) cs \<Longrightarrow> barred d (auth_run std m cs)"
  by (induction cs arbitrary: m) (auto intro: barred_step)

lemma barred_Revoke:
  assumes inv: "auth_inv m" and r: "Revoke ok d m = (m', calls, True)"
  shows "barred d m'"
proof -
  obtain dev where dev: "mg_devices m d = Some dev" using r by (auto simp: Revoke_def split: option.splits)
  have "ps_Paired k" if k: "mg_candidates m i = Some k" and d: "ps_DeviceID k = d" for i k
    using unpaired_session [OF inv k] dev d by auto
  then show ?thesis
    using r dev by (auto simp: Revoke_def Let_def saveDevicesLocked_def barred_def map_all_def split: if_splits)
qed

lemma barred_rejected:
  assumes "barred d m"
  shows "snd (Valid std ok now cookie m) \<noteq> (d, True)"
    "snd (VerifyWSTicket now ticket m) \<noteq> (d, True)"
    "snd (challenge_finish c key m) \<noteq> Inr d"
    "snd (NewChallenge now i nonce d m) = Inl ErrUnknownDevice"
  using assms
  by (auto simp: barred_def Valid_def VerifyWSTicket_def challenge_finish_def NewChallenge_def Let_def
      split: option.splits if_splits)

section \<open>Tickets\<close>

definition spends :: "string \<Rightarrow> auth_call \<Rightarrow> bool" where
  "spends tk c \<longleftrightarrow> (case c of CVerifyTicket _ t \<Rightarrow> t = tk | _ \<Rightarrow> False)"

definition issued :: "auth_call list \<Rightarrow> string \<Rightarrow> ws_ticket \<Rightarrow> bool" where
  \<comment> \<open>the ticket was issued by one of the calls and not presented since\<close>
  "issued cs tk w \<longleftrightarrow> (\<exists>xs now ys. cs = xs @ CTicket now tk (wt_deviceID w) # ys \<and>
      wt_expires w = now + WSTicketTTL \<and> list_all (\<lambda>c. \<not> spends tk c) ys)"

lemma issued_snoc: "issued cs tk w \<Longrightarrow> \<not> spends tk c \<Longrightarrow> issued (cs @ [c]) tk w"
  unfolding issued_def by (metis append_Cons append_assoc list.pred_inject list_all_append)

lemma RequestPair_tickets:
  "mg_tickets (fst (RequestPair std now i name key addr code qr m)) tk = Some w \<Longrightarrow> mg_tickets m tk = Some w"
  by (cases rule: RequestPair_cases [of std now i name key addr code qr m]) auto

lemma ConfirmPair_tickets:
  "mg_tickets (fst (ConfirmPair ok now i m)) tk = Some w \<Longrightarrow> mg_tickets m tk = Some w"
  by (auto simp: ConfirmPair_def Let_def saveDevicesLocked_def split: option.splits if_splits)

lemma step_tickets:
  assumes "mg_tickets (auth_step std m c) tk = Some w"
  shows "(mg_tickets m tk = Some w \<and> \<not> spends tk c) \<or>
    (\<exists>now. c = CTicket now tk (wt_deviceID w) \<and> wt_expires w = now + WSTicketTTL)"
  using assms
  by (cases c) (auto simp: step_simple spends_def split: option.splits if_splits prod.splits
    dest: RequestPair_tickets ConfirmPair_tickets)

lemma tickets_issued:
  assumes "mg_tickets m = Map.empty" "mg_tickets (auth_run std m cs) tk = Some w"
  shows "issued cs tk w"
  using assms(2)
proof (induction cs arbitrary: w rule: rev_induct)
  case Nil
  then show ?case using assms(1) by simp
next
  case (snoc c cs)
  then consider "mg_tickets (auth_run std m cs) tk = Some w" "\<not> spends tk c"
    | now where "c = CTicket now tk (wt_deviceID w)" "wt_expires w = now + WSTicketTTL"
    using step_tickets [of std "auth_run std m cs" c tk w] by auto
  then show ?case
  proof cases
    case 1
    then show ?thesis using snoc.IH issued_snoc by blast
  next
    case (2 now)
    then have "cs @ [c] = cs @ CTicket now tk (wt_deviceID w) # []" by simp
    then show ?thesis using 2 unfolding issued_def by (metis list.pred_inject(1))
  qed
qed

lemma ticket_accepted:
  assumes "snd (VerifyWSTicket now tk m) = (d, True)"
  obtains w where "mg_tickets m tk = Some w" "wt_deviceID w = d" "now \<le> wt_expires w" "mg_devices m d \<noteq> None"
  using assms by (auto simp: VerifyWSTicket_def Let_def pruneLocked_def split: option.splits if_splits)

section \<open>A concrete environment\<close>

text \<open>
  Primitives for the closed examples: text encodings that keep the bytes, a hash that keeps its
  first byte, one 2048-bit key.
\<close>

definition sample_modulus :: nat where
  "sample_modulus = 2 ^ 2047"

definition sample_std :: stdlib where
  "sample_std = \<lparr>b64_encode = map (\<lambda>b. char_of (unat b)), b64_decode = (\<lambda>s. Some (bytes_of s)),
     parse_pkcs1 = (\<lambda>_. Some (sample_modulus, 65537)), parse_pkix = (\<lambda>_. None), sha256 = take 1,
     hmac_sha256 = (\<lambda>k msg. [foldl (+) 0 msg]), rsa_verify = (\<lambda>_ _ _. True), 
     split_host_port = Some, parse_ip = Some\<rparr>"

lemma sample_modulus_bits: "bit_len sample_modulus = 2048"
  unfolding sample_modulus_def bit_len_power by simp

lemma sample_chars: "char_of (52 :: nat) = CHR ''4''" "char_of (98 :: nat) = CHR ''b''"
  by code_simp+

lemma sample_id: "hex_encode (sha256 sample_std (bytes_of ''K'')) = ''4b''"
  by (simp add: sample_std_def bytes_of_def hex_encode_def hex_digit_def sample_chars)

lemma sample_key: "parsePublicKey sample_std s = Inr (bytes_of s, sample_modulus, 65537)"
  by (simp add: parsePublicKey_def sample_std_def)

lemmas sample_simps = sample_key sample_modulus_bits sample_id

definition sample_calls :: "auth_call list" where
  \<comment> \<open>the owner opens a session, a device requests pairing with its code and confirms\<close>
  "sample_calls = [COpen 5 ''s1'' ''123456'' ''qr'',
     CRequest 6 ''c1'' ''Phone'' ''K'' ''10.0.0.9'' ''123456'' [], CConfirm True 7 ''c1'']"

lemma sample_paired_device: "mg_devices (auth_run sample_std (New ''srv'' [1] []) sample_calls) ''4b'' =
    Some \<lparr>dev_ID = ''4b'', dev_Name = sanitizeDeviceName ''Phone'', dev_PublicKey = ''K'', dev_PairedAt = 7, dev_LastSeen = 0\<rparr>"
  by (simp add: sample_calls_def sample_simps OpenPairing_def RequestPair_def ConfirmPair_def New_def Let_def
      pruneLocked_def credential_matches_def saveDevicesLocked_def close_session_of_def)

lemma sample_calls_fresh: "list_all fresh_id sample_calls"
  by (simp add: sample_calls_def fresh_id_def)

section \<open>Properties\<close>

text \<open>
  In every state that method calls reach from a freshly started manager, an
  unpaired candidate belongs to the one open pairing session and its device is not registered,
  a session has used fewer than five attempts, registry entries are filed under their own
  device ID and pending challenges are for registered devices only.
\<close>
theorem auth_inv_reachable:
  assumes "list_all fresh_id calls"
  shows "auth_inv (auth_run std (New serverID secret registry) calls)"
  using assms by (rule auth_inv_run [OF auth_inv_New])

theorem auth_inv_reachable_witness:
  "auth_inv (auth_run sample_std (New ''srv'' [1] []) sample_calls)"
  by (rule auth_inv_reachable [OF sample_calls_fresh])

text \<open>
  C1 (safety). A device is in the registry only if \<^verbatim>\<open>devices.json\<close> listed it with the same public
  key at start-up, or if the owner opened a pairing session and, while it was open, a request
  with that very key presented the session's code or QR token; its ID is the hash of the key.
\<close>
theorem registry_provenance:
  assumes "mg_devices (auth_run std (New serverID secret registry) calls) d = Some dev"
  shows "device_kept (New serverID secret registry) d dev \<or>
    invited std (New serverID secret registry) calls d (dev_PublicKey dev)"
  by (rule devices_invited [OF _ _ assms]) (simp_all add: New_def)

theorem registry_provenance_witness:
  "invited sample_std (New ''srv'' [1] []) sample_calls ''4b'' ''K''"
  using registry_provenance [OF sample_paired_device] by (simp add: device_kept_def New_def)

text \<open>
  C11 (safety). From the moment the owner opens a pairing session until the next one is opened,
  at most five requests are answered with a wrong-credential error, whatever other calls are
  interleaved; after the fifth the session is closed.
\<close>
theorem pairing_guess_limit:
  assumes "auth_inv m" "list_all fresh_id calls" "list_all (\<lambda>c. \<not> opens c) calls"
  shows "failed_guesses std (fst (OpenPairing now i code qr m)) calls \<le> 5 \<and>
    (failed_guesses std (fst (OpenPairing now i code qr m)) calls = 5 \<longrightarrow>
     \<not> PairingAvailable (auth_run std (fst (OpenPairing now i code qr m)) calls))"
proof -
  let ?m = "fst (OpenPairing now i code qr m)"
  have "guesses_left ?m = 5"
    by (simp add: guesses_left_def OpenPairing_def Let_def MaxPairingAttempts_def)
  then have le: "failed_guesses std ?m calls + guesses_left (auth_run std ?m calls) \<le> 5"
    using failed_guesses_left [OF auth_inv_Open [OF assms(1)] assms(2,3)] by metis
  have "guesses_left (auth_run std ?m calls) = 0 \<Longrightarrow> \<not> PairingAvailable (auth_run std ?m calls)"
    using auth_invD(2) [OF auth_inv_run [OF auth_inv_Open [OF assms(1)] assms(2)], of std now i code qr]
    by (auto simp: guesses_left_def PairingAvailable_def session_inv_def split: option.splits)
  then show ?thesis using le by linarith
qed

theorem pairing_guess_limit_witness:
  "failed_guesses sample_std (fst (OpenPairing 1 ''s'' ''123456'' ''qr'' (New ''srv'' [] [])))
     [CRequest 2 ''c1'' ''Phone'' ''K'' ''ip'' ''000000'' [], CClose] \<le> 5"
  using pairing_guess_limit [OF auth_inv_New, of "[CRequest 2 ''c1'' ''Phone'' ''K'' ''ip'' ''000000'' [], CClose]"
      sample_std 1 "''s''" "''123456''" "''qr''" "''srv''" "[]" "[]"]
  by (simp add: fresh_id_def opens_def)

text \<open>
  C10 (safety). Once \<^verbatim>\<open>Revoke\<close> reports success, the device cannot come back on its own: as long as
  no new pairing request carries its key, no cookie, no ticket and no challenge response is
  accepted for it and no challenge is issued to it, whatever else happens.
\<close>
theorem revoke_is_final:
  assumes "auth_inv m" "Revoke ok d m = (m', notified, True)"
    "list_all (\<lambda>c. \<not> requests_for std d c) calls"
  shows "mg_devices (auth_run std m' calls) d = None \<and>
    snd (Valid std saved now cookie (auth_run std m' calls)) \<noteq> (d, True) \<and>
    snd (VerifyWSTicket now ticket (auth_run std m' calls)) \<noteq> (d, True) \<and>
    snd (challenge_finish c key (auth_run std m' calls)) \<noteq> Inr d \<and>
    snd (NewChallenge now i nonce d (auth_run std m' calls)) = Inl ErrUnknownDevice"
  using barred_run [OF barred_Revoke [OF assms(1,2)] assms(3)] barred_rejected
  by (auto simp: barred_def)

theorem revoke_is_final_witness:
  "mg_devices (auth_run sample_std
     (fst (Revoke True ''4b'' (auth_run sample_std (New ''srv'' [1] []) sample_calls)))
     [COpen 9 ''s2'' ''654321'' ''qr2'', CConfirm True 10 ''c1'']) ''4b'' = None"
proof -
  let ?m = "auth_run sample_std (New ''srv'' [1] []) sample_calls"
  have inv: "auth_inv ?m" by (rule auth_inv_run [OF auth_inv_New sample_calls_fresh])
  have rev: "Revoke True ''4b'' ?m = (fst (Revoke True ''4b'' ?m), fst (snd (Revoke True ''4b'' ?m)), True)"
    using sample_paired_device by (simp add: Revoke_def Let_def saveDevicesLocked_def)
  have "list_all (\<lambda>c. \<not> requests_for sample_std ''4b'' c) [COpen 9 ''s2'' ''654321'' ''qr2'', CConfirm True 10 ''c1'']"
    by (simp add: requests_for_def)
  then show ?thesis
    using revoke_is_final [OF inv rev] by blast
qed

text \<open>
  A WebSocket ticket is accepted for a device only if it was issued to that device
  at most 30 seconds ago, has not been presented since, and the device is registered.
\<close>
theorem ticket_single_use:
  assumes "snd (VerifyWSTicket now ticket (auth_run std (New serverID secret registry) calls)) = (d, True)"
  shows "\<exists>xs t ys. calls = xs @ CTicket t ticket d # ys \<and> now \<le> t + 30 * second \<and>
      list_all (\<lambda>c. \<not> spends ticket c) ys \<and>
      mg_devices (auth_run std (New serverID secret registry) calls) d \<noteq> None"
proof -
  obtain w where w: "mg_tickets (auth_run std (New serverID secret registry) calls) ticket = Some w"
    "wt_deviceID w = d" "now \<le> wt_expires w"
    "mg_devices (auth_run std (New serverID secret registry) calls) d \<noteq> None"
    using ticket_accepted [OF assms] .
  have "issued calls ticket w"
    by (rule tickets_issued [OF _ w(1)]) (simp add: New_def)
  then show ?thesis
    using w unfolding issued_def WSTicketTTL_def by metis
qed

theorem ticket_single_use_witness:
  "\<exists>xs t ys. sample_calls @ [CTicket 8 ''tk'' ''4b''] = xs @ CTicket t ''tk'' ''4b'' # ys \<and> 9 \<le> t + 30 * second \<and>
      list_all (\<lambda>c. \<not> spends ''tk'' c) ys \<and>
      mg_devices (auth_run sample_std (New ''srv'' [1] []) (sample_calls @ [CTicket 8 ''tk'' ''4b''])) ''4b'' \<noteq> None"
  by (rule ticket_single_use)
     (use sample_paired_device in \<open>simp add: VerifyWSTicket_def WSTicket_def Let_def pruneLocked_def WSTicketTTL_def\<close>)

end
