(* ===== verification/Auth_Limits.thy ===== *)
theory Auth_Limits
  imports Auth_Security
begin

text \<open>
  Session cookies, rate limits and the text the pairing dialogue shows: what \<^verbatim>\<open>SetCookie\<close> and
  \<^verbatim>\<open>Valid\<close> agree on, how many attempts a peer gets per minute and how many peers are tracked,
  and the shape of device names, pairing codes and pairing phrases.
\<close>

section \<open>Cookies\<close>

lemma split_cookie:
  "CHR ''.'' \<notin> set d \<Longrightarrow> CHR ''.'' \<notin> set e \<Longrightarrow> CHR ''.'' \<notin> set s \<Longrightarrow>
   split_on CHR ''.'' (''v1.'' @ d @ ''.'' @ e @ ''.'' @ s) = [''v1'', d, e, s]"
  using split_on_join [of "[''v1'', d, e, s]" "CHR ''.''"] by simp

lemma sign_no_dot: "CHR ''.'' \<notin> set (sign std m v)"
  by (simp add: sign_def hex_encode_no_dot)

lemma Valid_accepts:
  assumes d: "CHR ''.'' \<notin> set d" "mg_devices m d \<noteq> None"
    and e: "parse_int64 e = Some exp" "CHR ''.'' \<notin> set e" "unix_seconds now \<le> exp"
  shows "snd (Valid std ok now (Some (''v1.'' @ d @ ''.'' @ e @ ''.'' @ sign std m (''v1.'' @ d @ ''.'' @ e))) m)
         = (d, True)"
proof -
  let ?v = "''v1.'' @ d @ ''.'' @ e @ ''.'' @ sign std m (''v1.'' @ d @ ''.'' @ e)"
  have parts: "split_on CHR ''.'' ?v = [''v1'', d, e, sign std m (''v1.'' @ d @ ''.'' @ e)]"
    by (rule split_cookie [OF d(1) e(2) sign_no_dot])
  have "length (split_on CHR ''.'' ?v) = 4" "split_on CHR ''.'' ?v ! 0 = ''v1''"
    "split_on CHR ''.'' ?v ! 1 = d" "split_on CHR ''.'' ?v ! 2 = e"
    "split_on CHR ''.'' ?v ! 3 = sign std m (''v1.'' @ d @ ''.'' @ e)"
    "join_with ''.'' (take 3 (split_on CHR ''.'' ?v)) = ''v1.'' @ d @ ''.'' @ e"
    unfolding parts by simp_all
  then show ?thesis
    using d(2) e(1,3) by (simp add: Valid_def Let_def del: append.simps split: option.split)
qed

lemma join_take3:
  "length ps = 4 \<Longrightarrow> join_with [c] ps = join_with [c] (take 3 ps) @ c # ps ! 3"
  by (cases ps rule: remdups_adj.cases; auto simp: numeral_eq_Suc length_Suc_conv)

lemma Valid_sound:
  assumes "snd (Valid std ok now (Some v) m) = (d, True)"
  obtains e exp where "v = ''v1.'' @ d @ ''.'' @ e @ ''.'' @ sign std m (''v1.'' @ d @ ''.'' @ e)"
    "parse_int64 e = Some exp" "unix_seconds now \<le> exp" "mg_devices m d \<noteq> None"
proof -
  let ?p = "split_on CHR ''.'' v"
  have len: "length ?p = 4" "?p ! 0 = ''v1''" and d: "?p ! 1 = d"
    and sig: "?p ! 3 = sign std m (join_with ''.'' (take 3 ?p))" and dev: "mg_devices m d \<noteq> None"
    using assms by (auto simp: Valid_def Let_def split: option.splits if_splits)
  obtain exp where exp: "parse_int64 (?p ! 2) = Some exp" "unix_seconds now \<le> exp"
    using assms by (auto simp: Valid_def Let_def not_less split: option.splits if_splits)
  obtain a b e s where p: "?p = [a, b, e, s]"
    using len(1) by (auto simp: numeral_eq_Suc length_Suc_conv)
  have "v = join_with ''.'' [a, b, e, s]"
    using join_split_on [of "CHR ''.''" v] p by simp
  then have "v = ''v1.'' @ d @ ''.'' @ e @ ''.'' @ sign std m (''v1.'' @ d @ ''.'' @ e)"
    using p len(2) d sig by simp
  then show thesis using that exp dev p by simp
qed

section \<open>Rate limits\<close>

text \<open>
  A run of the limiter on one of the two tables: the attempts that were allowed, oldest first.
\<close>

fun rate_run ::
  "nat \<Rightarrow> (string \<rightharpoonup> rate_window) \<Rightarrow> (string \<times> gotime) list \<Rightarrow> (string \<rightharpoonup> rate_window) \<times> (string \<times> gotime) list" where
  "rate_run limit w [] = (w, [])"
| "rate_run limit w ((ip, now) # calls) =
     (let (w', allowed) = allowRate w ip limit now;
          (w'', hits) = rate_run limit w' calls
      in (w'', if allowed then (ip, now) # hits else hits))"

definition hits_of :: "string \<Rightarrow> (string \<times> gotime) list \<Rightarrow> gotime list" where
  "hits_of ip hits = map snd (filter (\<lambda>h. fst h = ip) hits)"

definition window_hits :: "(string \<rightharpoonup> rate_window) \<Rightarrow> string \<Rightarrow> gotime list" where
  "window_hits w ip = (case w ip of None \<Rightarrow> [] | Some v \<Rightarrow> rw_hits v)"

definition windows_ok :: "gotime \<Rightarrow> (string \<rightharpoonup> rate_window) \<Rightarrow> bool" where
  \<comment> \<open>no hit is later than its window's last use, and no window was used after \<open>now\<close>\<close>
  "windows_ok now w \<longleftrightarrow> map_all (\<lambda>_ v. rw_last v \<le> now \<and> list_all (\<lambda>h. h \<le> rw_last v) (rw_hits v)) w"

definition recent :: "gotime \<Rightarrow> gotime list \<Rightarrow> gotime list" where
  "recent cutoff hs = filter (\<lambda>h. h > cutoff) hs"

lemma recent_recent: "a \<le> b \<Longrightarrow> recent b (recent a hs) = recent b hs"
  by (auto simp: recent_def intro: filter_cong)

lemma recent_Nil [simp]: "recent c [] = []"
  by (simp add: recent_def)

lemma recent_append [simp]: "recent c (xs @ ys) = recent c xs @ recent c ys"
  by (simp add: recent_def)

lemma window_hits_keep:
  assumes "windows_ok t w" "c \<le> cutoff"
  shows "recent cutoff (window_hits (map_keep (\<lambda>_ v. \<not> rw_last v < c) w) ip) = recent cutoff (window_hits w ip)"
  using assms map_allD [of _ w ip] unfolding windows_ok_def
  by (fastforce simp: window_hits_def map_keep_def recent_def filter_empty_conv empty_filter_conv list_all_iff
      split: option.splits)

lemma allowRate_hits:
  assumes "windows_ok t w" "t \<le> now" "now - minute \<le> cutoff"
  shows "recent cutoff (window_hits (fst (allowRate w ip limit now)) j) =
    recent cutoff (window_hits w j) @ (if snd (allowRate w ip limit now) \<and> j = ip then recent cutoff [now] else [])"
proof -
  let ?w = "map_keep (\<lambda>_ v. \<not> rw_last v < now - minute) w"
  note keep = window_hits_keep [OF assms(1,3), of j, symmetric]
  show ?thesis
    unfolding keep using recent_recent [OF assms(3)]
    by (auto simp: allowRate_def Let_def window_hits_def recent_def map_keep_None split: option.splits)
qed

lemma allowRate_limit:
  assumes "windows_ok t w" "t \<le> now" "snd (allowRate w ip limit now)"
  shows "length (recent (now - minute) (window_hits w ip)) < limit"
proof -
  have "length (recent (now - minute) (window_hits (map_keep (\<lambda>_ v. \<not> rw_last v < now - minute) w) ip)) < limit"
    using assms(3) by (auto simp: allowRate_def Let_def window_hits_def recent_def map_keep_None
        split: option.splits if_splits)
  then show ?thesis using window_hits_keep [OF assms(1) order_refl] by simp
qed

lemma windows_ok_allowRate:
  assumes "windows_ok t w" "t \<le> now"
  shows "windows_ok now (fst (allowRate w ip limit now))"
proof -
  have "windows_ok now (map_keep P w)" for P
    using assms unfolding windows_ok_def by (intro map_all_keep) (auto elim!: map_all_mono)
  moreover have "list_all (\<lambda>h. h \<le> now) (rw_hits v)" if "map_keep P w ip = Some v" for v P
    using that assms unfolding windows_ok_def map_all_def list_all_iff by force
  ultimately show ?thesis
    unfolding allowRate_def Let_def windows_ok_def
    by (auto intro!: map_all_upd simp: list_all_iff split: option.split)
qed

lemma length_recent_mono: "a \<le> b \<Longrightarrow> length (recent b hs) \<le> length (recent a hs)"
  by (metis length_filter_le recent_def recent_recent)

definition within :: "gotime \<Rightarrow> gotime list \<Rightarrow> gotime list" where
  \<comment> \<open>the hits of the minute that ends at \<open>t\<close>\<close>
  "within t hs = filter (\<lambda>h. t - minute < h \<and> h \<le> t) hs"

lemma rate_run_bound_aux:
  assumes "windows_ok t w" "sorted (map snd calls)" "\<forall>c\<in>set calls. t \<le> snd c"
    and past: "\<And>u. length (within u past) \<le> limit"
    and rec: "\<And>cutoff. t - minute \<le> cutoff \<Longrightarrow> recent cutoff past = recent cutoff (window_hits w ip)"
    and le: "\<forall>h\<in>set past. h \<le> t"
  shows "length (within u (past @ hits_of ip (snd (rate_run limit w calls)))) \<le> limit"
  using assms
proof (induction calls arbitrary: t w past)
  case Nil
  then show ?case by (simp add: hits_of_def)
next
  case (Cons c calls)
  obtain j now where c: "c = (j, now)" by (cases c)
  obtain w' a where r: "allowRate w j limit now = (w', a)" by (cases "allowRate w j limit now")
  have t: "t \<le> now" using Cons.prems(3) c by simp
  define past' where "past' = past @ (if a \<and> j = ip then [now] else [])"
  have ok': "windows_ok now w'" using windows_ok_allowRate [OF Cons.prems(1) t, of j limit] r by simp
  have rec': "recent cutoff past' = recent cutoff (window_hits w' ip)" if "now - minute \<le> cutoff" for cutoff
    using allowRate_hits [OF Cons.prems(1) t that, of j limit ip] r Cons.prems(5) [of cutoff] t that
    by (auto simp: past'_def)
  have le': "\<forall>h\<in>set past'. h \<le> now" using Cons.prems(6) t by (auto simp: past'_def)
  have bound': "length (within u past') \<le> limit" for u
  proof (cases "a \<and> j = ip \<and> u - minute < now \<and> now \<le> u")
    case False
    then show ?thesis using Cons.prems(4) [of u] by (auto simp: past'_def within_def)
  next
    case True
    then have "length (recent (now - minute) past) < limit"
      using allowRate_limit [OF Cons.prems(1) t, of j limit] r Cons.prems(5) [of "now - minute"] t by simp
    moreover have "length (within u past) \<le> length (recent (now - minute) past)"
    proof -
      have "within u past = filter (\<lambda>h. u - minute < h) (recent (now - minute) past)"
        using True Cons.prems(6) t by (auto simp: within_def recent_def intro!: filter_cong)
      then show ?thesis by simp
    qed
    ultimately show ?thesis using True by (simp add: past'_def within_def)
  qed
  have "length (within u (past' @ hits_of ip (snd (rate_run limit w' calls)))) \<le> limit"
    by (rule Cons.IH [OF ok' _ _ bound' rec' le']) (use Cons.prems(2) c in auto)
  then show ?case by (auto simp: c r past'_def hits_of_def split: prod.split)
qed

lemma allowRate_peers:
  assumes "finite (dom w)" "card (dom w) \<le> MaxRateLimitPeers"
  shows "finite (dom (fst (allowRate w ip limit now))) \<and> card (dom (fst (allowRate w ip limit now))) \<le> MaxRateLimitPeers"
proof -
  let ?w = "map_keep (\<lambda>_ v. \<not> rw_last v < now - minute) w"
  have fin: "finite (dom ?w)" and card: "card (dom ?w) \<le> MaxRateLimitPeers"
    using assms card_mono [OF assms(1) dom_map_keep] by (auto intro: order_trans)
  have "card (insert ip (dom ?w)) \<le> MaxRateLimitPeers" if "\<not> (?w ip = None \<and> MaxRateLimitPeers \<le> card (dom ?w))"
    using that fin card by (cases "ip \<in> dom ?w") (auto simp: insert_absorb domIff)
  then show ?thesis
    using fin card by (auto simp: allowRate_def Let_def)
qed

section \<open>Names, codes and phrases\<close>

definition device_name_ok :: "string \<Rightarrow> bool" where
  \<comment> \<open>between one and 80 printable characters\<close>
  "device_name_ok s \<longleftrightarrow> s \<noteq> [] \<and> length (runes s) \<le> 80 \<and> list_all (\<lambda>r. \<not> is_control r) (runes s)"

lemma surf_device_ok: "device_name_ok ''Surf device''"
  unfolding device_name_ok_def by code_simp

lemma device_name_ok_runes:
  assumes "list_all valid_rune rs" "list_all (\<lambda>r. \<not> is_control r) rs" "length rs \<le> 80" "string_of_runes rs \<noteq> []"
  shows "device_name_ok (string_of_runes rs)"
  using assms by (simp add: device_name_ok_def runes_string_of_runes)

lemma byte_high_bits [simp]: "8 \<le> n \<Longrightarrow> \<not> bit (b :: byte) n"
  using bit_imp_le_length [of b n] by auto

lemma byte_small:
  fixes v :: byte
  assumes "\<not> bit v 6" "\<not> bit v 7"
  shows "unat v < 64"
proof -
  have "n \<in> {6, 7}" if "n < 8" "\<not> n < 6" for n :: nat using that by auto
  then have "take_bit 6 v = v"
    using assms by (intro bit_word_eqI) (auto simp: bit_take_bit_iff)
  then have "unat v = take_bit 6 (unat v)" by (metis unsigned_take_bit_eq)
  also have "\<dots> < 2 ^ 6" by (rule take_bit_nat_less_exp)
  finally show ?thesis by simp
qed

lemma phrase_values_bound: "v \<in> set (phrase_values s) \<Longrightarrow> unat v < length phraseWords"
  unfolding phrase_values_def phraseWords_def
  by (rule less_le_trans [OF byte_small]) (auto simp: bit_simps)

lemma pairingPhrase_words:
  "\<exists>ws. length ws = 6 \<and> set ws \<subseteq> set phraseWords \<and> pairingPhrase std serverID der = join_with '' '' ws"
  unfolding pairingPhrase_def Let_def
  by (rule exI, intro conjI; (rule refl)?)
     (auto simp: phrase_values_def [of _] intro!: nth_mem phrase_values_bound)

lemma dec_nat_length: "n < 10 ^ k \<Longrightarrow> 0 < k \<Longrightarrow> length (dec_nat n) \<le> k"
proof (induction n arbitrary: k rule: dec_nat.induct)
  case (1 n)
  show ?case
  proof (cases "n < 10")
    case True
    then show ?thesis using 1 by (simp add: dec_nat.simps)
  next
    case False
    then obtain k' where k: "k = Suc k'" "0 < k'"
      using 1(2) by (cases k; cases "k - 1") auto
    then have "n div 10 < 10 ^ k'" using 1(2) by (simp add: less_mult_imp_div_less mult.commute)
    then show ?thesis using 1(1) [OF False _ k(2)] False k by (subst dec_nat.simps) simp
  qed
qed

lemma randomPairingCode_digits:
  "v < 1000000 \<Longrightarrow> length (randomPairingCode v) = 6 \<and> list_all is_digit (randomPairingCode v)"
  using dec_nat_length [of v 6] dec_nat_digits [of v]
  by (auto simp: randomPairingCode_def list_all_iff is_digit_def)

section \<open>Properties\<close>

text \<open>
  C12 (roundtrip). The cookie \<^verbatim>\<open>SetCookie\<close> hands to a registered device is accepted by \<^verbatim>\<open>Valid\<close>, as
  that device's, at every time up to its expiry 24 hours later.
\<close>
theorem session_cookie_roundtrip:
  assumes "CHR ''.'' \<notin> set d" "mg_devices m d \<noteq> None"
    "unix_seconds later \<le> unix_seconds (now + SessionTTL)"
    "0 \<le> now" "now < 2 ^ 63 * second"
  shows "snd (Valid std ok later (Some (SetCookie std now d m)) m) = (d, True)"
proof -
  let ?e = "unix_seconds (now + SessionTTL)"
  have "parse_int64 (dec_int ?e) = Some ?e"
    using assms(4,5) by (intro parse_int64_dec_int) (simp_all add: unix_seconds_def SessionTTL_def)
  then show ?thesis
    using Valid_accepts [OF assms(1,2) _ dec_int_no_dot assms(3)]
    by (simp add: SetCookie_def Let_def)
qed

theorem session_cookie_roundtrip_witness:
  "snd (Valid sample_std True 20 (Some (SetCookie sample_std 10 ''4b''
      (auth_run sample_std (New ''srv'' [1] []) sample_calls)))
      (auth_run sample_std (New ''srv'' [1] []) sample_calls)) = (''4b'', True)"
  by (rule session_cookie_roundtrip)
     (simp_all add: sample_paired_device unix_seconds_def SessionTTL_def)

text \<open>
  C14 (safety). Whatever cookie \<^verbatim>\<open>Valid\<close> accepts is \<^verbatim>\<open>v1.<device>.<expiry>\<close> followed by the HMAC of
  exactly that text under the server's secret, has not expired and names a registered device.
\<close>
theorem session_cookie_sound:
  assumes "snd (Valid std ok now cookie m) = (d, True)"
  shows "\<exists>e exp. cookie = Some (''v1.'' @ d @ ''.'' @ e @ ''.'' @ sign std m (''v1.'' @ d @ ''.'' @ e)) \<and>
    parse_int64 e = Some exp \<and> unix_seconds now \<le> exp \<and> mg_devices m d \<noteq> None"
proof (cases cookie)
  case None
  then show ?thesis using assms by (simp add: Valid_def)
next
  case (Some v)
  then show ?thesis using assms Valid_sound [of std ok now v m d] by metis
qed

theorem session_cookie_sound_witness:
  "\<exists>e exp. Some (SetCookie sample_std 10 ''4b'' (auth_run sample_std (New ''srv'' [1] []) sample_calls)) =
      Some (''v1.'' @ ''4b'' @ ''.'' @ e @ ''.'' @
        sign sample_std (auth_run sample_std (New ''srv'' [1] []) sample_calls) (''v1.'' @ ''4b'' @ ''.'' @ e)) \<and>
    parse_int64 e = Some exp \<and> unix_seconds 20 \<le> exp \<and>
    mg_devices (auth_run sample_std (New ''srv'' [1] []) sample_calls) ''4b'' \<noteq> None"
  by (rule session_cookie_sound [where ok = True], unfold SetCookie_def Let_def append_assoc,
      subst Valid_accepts [OF _ _ parse_int64_dec_int dec_int_no_dot])
     (simp_all add: sample_paired_device unix_seconds_def SessionTTL_def)

text \<open>
  C15 (bounds). Whatever the sequence of attempts, as long as the clock does not run backwards,
  the limiter lets through at most \<open>limit\<close> attempts of one address in any window of one minute.
\<close>
theorem rate_limit_per_minute:
  assumes "sorted (map snd calls)"
  shows "length (within t (hits_of ip (snd (rate_run limit Map.empty calls)))) \<le> limit"
proof (cases calls)
  case Nil
  then show ?thesis by (simp add: within_def hits_of_def)
next
  case (Cons c cs)
  have "length (within t ([] @ hits_of ip (snd (rate_run limit Map.empty calls)))) \<le> limit"
    by (rule rate_run_bound_aux [where t = "snd c"])
       (use assms Cons in \<open>auto simp: windows_ok_def within_def window_hits_def\<close>)
  then show ?thesis by simp
qed

theorem rate_limit_per_minute_witness:
  "length (within 60 (hits_of ''a'' (snd (rate_run 1 Map.empty [(''a'', 10), (''b'', 20), (''a'', 30)])))) \<le> 1"
  by (rule rate_limit_per_minute) simp

text \<open>
  A device name that went through \<^verbatim>\<open>sanitizeDeviceName\<close> is between one and 80
  characters long and holds no control character, whatever bytes the client sent.
\<close>
theorem sanitized_name: "device_name_ok (sanitizeDeviceName s)"
proof -
  let ?rs = "trim_runes (filter (\<lambda>r. \<not> is_control r) (runes s))"
  have rs: "list_all valid_rune ?rs" "list_all (\<lambda>r. \<not> is_control r) ?rs"
    by (simp, rule list_all_trim_runes) (simp add: list_all_iff)
  have cut: "device_name_ok (string_of_runes (trim_runes (take 80 ?rs)))"
    if "string_of_runes (trim_runes (take 80 ?rs)) \<noteq> []"
    by (rule device_name_ok_runes) (use rs that order_trans [OF length_trim_runes] in auto)
  have whole: "device_name_ok (string_of_runes ?rs)" if "string_of_runes ?rs \<noteq> []" "length ?rs \<le> 80"
    by (rule device_name_ok_runes) (use rs that in auto)
  show ?thesis
    using rs cut whole surf_device_ok
    by (auto simp: sanitizeDeviceName_def Let_def runes_string_of_runes)
qed

end
