(* ===== verification/Wire_Frames.thy ===== *)
theory Wire_Frames
  imports Surf_Prelude
begin

text \<open>
  The binary media frames of \<^verbatim>\<open>backend/internal/protocol/protocol.go\<close>: the 84-byte header that
  precedes every H.264 access unit and PCM chunk on the client socket, and the late stamp of
  the socket-write time. The layout comment of the source (magic, type, flags, header length,
  sequence numbers, size, payload length, timestamps, generation, profile) is stated as the
  reference reader \<open>read_video\<close>, which the encoder is shown to be inverse to. The loopback
  frames of the capture extension (\<^verbatim>\<open>backend/internal/media/capture_video.go\<close>,
  \<^verbatim>\<open>handleVideoFrame\<close>) are parsed here as well.
\<close>

section \<open>Frames sent to clients\<close>

definition FrameHeaderBytes :: nat where "FrameHeaderBytes = 84"

definition FrameMagic :: bytes where
  \<comment> \<open>\<^verbatim>\<open>"RBR1"\<close>\<close>
  "FrameMagic = [0x52, 0x42, 0x52, 0x31]"

definition FrameTypeVideo :: byte where "FrameTypeVideo = 3"
definition FrameTypeAudio :: byte where "FrameTypeAudio = 4"

record video_meta =
  vm_AUSeq :: uint32
  vm_SourceSeq :: uint32
  vm_W :: int
  vm_H :: int
  vm_InteractionID :: uint64
  vm_SourceReceiveNS :: uint64
  vm_EncodeCompleteNS :: uint64
  vm_SocketWriteNS :: uint64
  vm_EncoderGeneration :: uint32
  vm_InputReceiveNS :: uint64
  vm_CDPAcceptedNS :: uint64
  vm_Profile :: byte

definition clamp16 :: "int \<Rightarrow> uint16" where
  "clamp16 v = (if v < 0 then 0 else if v > 65535 then 65535 else word_of_int v)"

definition EncodeVideo :: "video_meta \<Rightarrow> bool \<Rightarrow> bytes \<Rightarrow> bytes" where
  "EncodeVideo meta idr au =
    (let out = replicate (FrameHeaderBytes + length au) 0;
         out = store_at 0 FrameMagic out;
         out = out[4 := FrameTypeVideo];
         out = (if idr then out[5 := 1] else out);
         out = store_at 6 (be_put 2 FrameHeaderBytes) out;
         out = store_at 8 (be_put 4 (unat (vm_AUSeq meta))) out;
         out = store_at 12 (be_put 4 (unat (vm_SourceSeq meta))) out;
         out = store_at 16 (be_put 2 (unat (clamp16 (vm_W meta)))) out;
         out = store_at 18 (be_put 2 (unat (clamp16 (vm_H meta)))) out;
         out = store_at 20 (be_put 4 (unat (word_of_nat (length au) :: uint32))) out;
         out = store_at 24 (be_put 8 (unat (vm_InteractionID meta))) out;
         out = store_at 32 (be_put 8 (unat (vm_SourceReceiveNS meta))) out;
         out = store_at 40 (be_put 8 (unat (vm_EncodeCompleteNS meta))) out;
         out = store_at 48 (be_put 8 (unat (vm_SocketWriteNS meta))) out;
         out = store_at 56 (be_put 4 (unat (vm_EncoderGeneration meta))) out;
         out = store_at 64 (be_put 8 (unat (vm_InputReceiveNS meta))) out;
         out = store_at 72 (be_put 8 (unat (vm_CDPAcceptedNS meta))) out;
         out = out[80 := vm_Profile meta]
     in store_at FrameHeaderBytes au out)"

definition EncodeVideoAU :: "uint32 \<Rightarrow> bool \<Rightarrow> int \<Rightarrow> int \<Rightarrow> bytes \<Rightarrow> bytes" where
  "EncodeVideoAU seq idr w h au =
     EncodeVideo \<lparr>vm_AUSeq = seq, vm_SourceSeq = 0, vm_W = w, vm_H = h, vm_InteractionID = 0,
       vm_SourceReceiveNS = 0, vm_EncodeCompleteNS = 0, vm_SocketWriteNS = 0,
       vm_EncoderGeneration = 0, vm_InputReceiveNS = 0, vm_CDPAcceptedNS = 0,
       vm_Profile = 0\<rparr> idr au"

definition StampSocketWrite :: "bytes \<Rightarrow> uint64 \<Rightarrow> bytes" where
  "StampSocketWrite frame monotonicNS =
     (if length frame \<ge> FrameHeaderBytes \<and> sub_slice 0 4 frame = FrameMagic
      then store_at 48 (be_put 8 (unat monotonicNS)) frame else frame)"

definition EncodeAudioPCM :: "uint32 \<Rightarrow> int \<Rightarrow> int \<Rightarrow> bytes \<Rightarrow> bytes" where
  "EncodeAudioPCM seq sampleRate channels pcm =
    (let out = replicate (FrameHeaderBytes + length pcm) 0;
         out = store_at 0 FrameMagic out;
         out = out[4 := FrameTypeAudio];
         out = store_at 6 (be_put 2 FrameHeaderBytes) out;
         out = store_at 8 (be_put 4 (unat seq)) out;
         out = store_at 16 (be_put 2 (unat (clamp16 sampleRate))) out;
         out = store_at 18 (be_put 2 (unat (clamp16 channels))) out;
         out = store_at 20 (be_put 4 (unat (word_of_nat (length pcm) :: uint32))) out
     in store_at FrameHeaderBytes pcm out)"

section \<open>Frames received from the capture extension\<close>

definition videoHeaderBytes :: nat where "videoHeaderBytes = 32"

record video_frame =
  vf_Data :: bytes
  vf_Key :: bool
  vf_Fresh :: bool
  vf_SourceSeq :: uint32
  vf_Width :: int
  vf_Height :: int
  vf_RawGap :: duration
  vf_SubmitWait :: duration
  vf_EncodeTime :: duration

definition parse_video_message :: "bytes \<Rightarrow> video_frame option" where
  \<comment> \<open>\<^verbatim>\<open>handleVideoFrame\<close> up to the handler call; \<open>None\<close> is its early return\<close>
  "parse_video_message message =
    (if length message < videoHeaderBytes \<or> sub_slice 0 4 message \<noteq> [0x53, 0x56, 0x49, 0x32]
     then None
     else let headerBytes = be_get (sub_slice 6 8 message);
              payloadBytes = be_get (sub_slice 12 16 message)
       in if headerBytes \<noteq> videoHeaderBytes \<or> payloadBytes < 1
             \<or> headerBytes + payloadBytes \<noteq> length message then None
          else Some \<lparr>vf_Data = drop headerBytes message,
                 vf_Key = bit (message ! 4) 0, vf_Fresh = bit (message ! 4) 1,
                 vf_SourceSeq = word_of_nat (be_get (sub_slice 16 20 message)),
                 vf_Width = int (be_get (sub_slice 8 10 message)),
                 vf_Height = int (be_get (sub_slice 10 12 message)),
                 vf_RawGap = int (be_get (sub_slice 20 24 message)) * 1000,
                 vf_SubmitWait = int (be_get (sub_slice 24 28 message)) * 1000,
                 vf_EncodeTime = int (be_get (sub_slice 28 32 message)) * 1000\<rparr>)"

section \<open>The documented layout\<close>

definition read_video :: "bytes \<Rightarrow> (video_meta \<times> bool \<times> bytes) option" where
  "read_video f =
    (if length f < FrameHeaderBytes \<or> sub_slice 0 4 f \<noteq> FrameMagic \<or> f ! 4 \<noteq> FrameTypeVideo
        \<or> be_get (sub_slice 6 8 f) \<noteq> FrameHeaderBytes
        \<or> FrameHeaderBytes + be_get (sub_slice 20 24 f) \<noteq> length f then None
     else Some (\<lparr>vm_AUSeq = word_of_nat (be_get (sub_slice 8 12 f)),
          vm_SourceSeq = word_of_nat (be_get (sub_slice 12 16 f)),
          vm_W = int (be_get (sub_slice 16 18 f)), vm_H = int (be_get (sub_slice 18 20 f)),
          vm_InteractionID = word_of_nat (be_get (sub_slice 24 32 f)),
          vm_SourceReceiveNS = word_of_nat (be_get (sub_slice 32 40 f)),
          vm_EncodeCompleteNS = word_of_nat (be_get (sub_slice 40 48 f)),
          vm_SocketWriteNS = word_of_nat (be_get (sub_slice 48 56 f)),
          vm_EncoderGeneration = word_of_nat (be_get (sub_slice 56 60 f)),
          vm_InputReceiveNS = word_of_nat (be_get (sub_slice 64 72 f)),
          vm_CDPAcceptedNS = word_of_nat (be_get (sub_slice 72 80 f)),
          vm_Profile = f ! 80\<rparr>, bit (f ! 5) 0, drop FrameHeaderBytes f))"

lemma list_update_store_at: "i < length xs \<Longrightarrow> xs[i := x] = store_at i [x] xs"
  by (simp add: store_at_def upd_conv_take_nth_drop)

lemma length_EncodeVideo [simp]: "length (EncodeVideo meta idr au) = FrameHeaderBytes + length au"
  by (simp add: EncodeVideo_def FrameHeaderBytes_def Let_def)

lemma uint_clamp16: "uint (clamp16 v) = max 0 (min 65535 v)"
proof -
  have "uint (word_of_int v :: uint16) = v" if "0 \<le> v" "v \<le> 65535"
    using that by (simp add: unsigned_of_int take_bit_int_eq_self)
  then show ?thesis
    by (auto simp: clamp16_def min_def max_def)
qed

lemmas frame_store_simps =
  FrameHeaderBytes_def FrameMagic_def Let_def list_update_store_at go_slice

lemma EncodeVideo_header:
  "sub_slice 0 4 (EncodeVideo m idr au) = FrameMagic"
  "EncodeVideo m idr au ! 4 = FrameTypeVideo"
  "EncodeVideo m idr au ! 5 = (if idr then 1 else 0)"
  "sub_slice 6 8 (EncodeVideo m idr au) = be_put 2 FrameHeaderBytes"
  "EncodeVideo m idr au ! 80 = vm_Profile m"
  "drop FrameHeaderBytes (EncodeVideo m idr au) = au"
  by (simp_all add: EncodeVideo_def frame_store_simps nth_store_at)
     (simp add: store_at_def)

lemma EncodeVideo_words:
  "sub_slice 8 12 (EncodeVideo m idr au) = be_put 4 (unat (vm_AUSeq m))"
  "sub_slice 12 16 (EncodeVideo m idr au) = be_put 4 (unat (vm_SourceSeq m))"
  "sub_slice 16 18 (EncodeVideo m idr au) = be_put 2 (unat (clamp16 (vm_W m)))"
  "sub_slice 18 20 (EncodeVideo m idr au) = be_put 2 (unat (clamp16 (vm_H m)))"
  "sub_slice 20 24 (EncodeVideo m idr au) = be_put 4 (unat (word_of_nat (length au) :: uint32))"
  "sub_slice 24 32 (EncodeVideo m idr au) = be_put 8 (unat (vm_InteractionID m))"
  "sub_slice 32 40 (EncodeVideo m idr au) = be_put 8 (unat (vm_SourceReceiveNS m))"
  "sub_slice 40 48 (EncodeVideo m idr au) = be_put 8 (unat (vm_EncodeCompleteNS m))"
  "sub_slice 48 56 (EncodeVideo m idr au) = be_put 8 (unat (vm_SocketWriteNS m))"
  "sub_slice 56 60 (EncodeVideo m idr au) = be_put 4 (unat (vm_EncoderGeneration m))"
  "sub_slice 64 72 (EncodeVideo m idr au) = be_put 8 (unat (vm_InputReceiveNS m))"
  "sub_slice 72 80 (EncodeVideo m idr au) = be_put 8 (unat (vm_CDPAcceptedNS m))"
  by (simp_all add: EncodeVideo_def frame_store_simps)

lemma unat_word_of_nat_small [simp]:
  "n < 2 ^ LENGTH('a) \<Longrightarrow> unat (word_of_nat n :: 'a::len word) = n"
  by (simp add: unsigned_of_nat take_bit_nat_eq_self)

lemma be_get_header_length [simp]: "be_get (be_put 2 FrameHeaderBytes) = FrameHeaderBytes"
  by (simp add: be_get_be_put FrameHeaderBytes_def)

lemma read_EncodeVideo:
  assumes "length au < 2 ^ 32"
  shows "read_video (EncodeVideo m idr au) =
    Some (m\<lparr>vm_W := max 0 (min 65535 (vm_W m)), vm_H := max 0 (min 65535 (vm_H m))\<rparr>, idr, au)"
proof -
  have "be_get (be_put 4 (length au)) = length au"
    using assms by (simp add: be_get_be_put)
  with assms show ?thesis
    by (simp add: read_video_def EncodeVideo_header EncodeVideo_words uint_clamp16)
qed

text \<open>
  C40 (round trip). Every frame \<^verbatim>\<open>EncodeVideo\<close> emits for an access unit shorter than 4 GiB reads
  back, by the documented header layout, to exactly the metadata, the key-frame flag and the
  payload it was built from; only the width and the height are clamped to 16 bits.
\<close>

theorem video_frame_roundtrip:
  assumes "length au < 2 ^ 32"
  shows "read_video (EncodeVideo m idr au) =
    Some (m\<lparr>vm_W := max 0 (min 65535 (vm_W m)), vm_H := max 0 (min 65535 (vm_H m))\<rparr>, idr, au)"
  using assms by (rule read_EncodeVideo)

theorem video_frame_roundtrip_witness:
  "read_video (EncodeVideoAU 7 True 70000 480 [1, 2, 3]) =
    Some (\<lparr>vm_AUSeq = 7, vm_SourceSeq = 0, vm_W = 65535, vm_H = 480, vm_InteractionID = 0,
       vm_SourceReceiveNS = 0, vm_EncodeCompleteNS = 0, vm_SocketWriteNS = 0,
       vm_EncoderGeneration = 0, vm_InputReceiveNS = 0, vm_CDPAcceptedNS = 0,
       vm_Profile = 0\<rparr>, True, [1, 2, 3])"
  by (simp add: EncodeVideoAU_def video_frame_roundtrip)

lemma length_StampSocketWrite [simp]: "length (StampSocketWrite f ns) = length f"
  by (simp add: StampSocketWrite_def)

lemma StampSocketWrite_frame:
  "k < length f \<Longrightarrow> k < 48 \<or> 56 \<le> k \<Longrightarrow> StampSocketWrite f ns ! k = f ! k"
  by (auto simp: StampSocketWrite_def FrameHeaderBytes_def nth_store_at)

lemma StampSocketWrite_slice:
  "b \<le> 48 \<or> 56 \<le> a \<Longrightarrow> sub_slice a b (StampSocketWrite f ns) = sub_slice a b f"
  by (auto simp: StampSocketWrite_def FrameHeaderBytes_def go_slice)

lemma StampSocketWrite_drop: "drop FrameHeaderBytes (StampSocketWrite f ns) = drop FrameHeaderBytes f"
  by (auto simp: StampSocketWrite_def FrameHeaderBytes_def go_slice)

lemma StampSocketWrite_field:
  "sub_slice 0 4 f = FrameMagic \<Longrightarrow> FrameHeaderBytes \<le> length f \<Longrightarrow>
     sub_slice 48 56 (StampSocketWrite f ns) = be_put 8 (unat ns)"
  by (auto simp: StampSocketWrite_def FrameHeaderBytes_def go_slice)

text \<open>
  Stamping a readable frame with the socket-write time changes the decoded
  frame in that one metadata field and nothing else: payload, flags and all other metadata
  survive, and an unreadable message is never turned into a readable one.
\<close>

theorem stamp_updates_one_field:
  "read_video (StampSocketWrite f ns) =
     map_option (\<lambda>(m, idr, au). (m\<lparr>vm_SocketWriteNS := ns\<rparr>, idr, au)) (read_video f)"
proof (cases "length f < FrameHeaderBytes \<or> sub_slice 0 4 f \<noteq> FrameMagic")
  case True
  then show ?thesis
    by (auto simp: read_video_def StampSocketWrite_def)
next
  case False
  then show ?thesis
    by (auto simp: read_video_def StampSocketWrite_slice StampSocketWrite_frame
        StampSocketWrite_drop [unfolded FrameHeaderBytes_def] StampSocketWrite_field
        FrameHeaderBytes_def)
qed

lemma EncodeAudioPCM_lane:
  "length (EncodeAudioPCM seq rate ch pcm) = FrameHeaderBytes + length pcm"
  "sub_slice 0 4 (EncodeAudioPCM seq rate ch pcm) = FrameMagic"
  "EncodeAudioPCM seq rate ch pcm ! 4 = FrameTypeAudio"
  "drop FrameHeaderBytes (EncodeAudioPCM seq rate ch pcm) = pcm"
  by (simp_all add: EncodeAudioPCM_def frame_store_simps nth_store_at)
     (simp add: store_at_def)

lemma parse_video_message_Some:
  assumes "parse_video_message msg = Some fr"
  shows "vf_Data fr = drop 32 msg" "length (vf_Data fr) = be_get (sub_slice 12 16 msg)"
    "vf_Data fr \<noteq> []" "length msg = 32 + length (vf_Data fr)"
  using assms
  by (auto simp: parse_video_message_def videoHeaderBytes_def Let_def split: if_splits)

end
