(* ===== verification/Lossy_Queue.thy ===== *)
theory Lossy_Queue
  imports Surf_Prelude "HOL-Library.Sublist"
begin

text \<open>
  The contract of Surf's bounded queues. Media lanes, audio fan-out, input staging, trace rings
  and log windows all accept messages without blocking and give some of them up when they are
  full. What their users rely on is the same everywhere: the queue stays within its capacity,
  and what is queued is a subsequence of what was submitted, in the order of submission. A queue
  of the second kind moreover always holds the message submitted last.
\<close>

lemma subseq_kept [simp]: "subseq q (q @ [m])" "subseq [m] (q @ [m])"
  using list_emb_append_mono [of "(=)" q q "[]" "[m]"] list_emb_append_mono [of "(=)" "[]" q "[m]" "[m]"] by simp_all

lemma subseq_tl [simp]: "subseq (tl q @ [m]) (q @ [m])" "subseq (tl q) (q @ [m])"
proof -
  have tl: "subseq (tl q) q" by (cases q) auto
  then show "subseq (tl q @ [m]) (q @ [m])" by simp
  show "subseq (tl q) (q @ [m])" by (rule subseq_order.order_trans [OF tl subseq_kept(1)])
qed

locale lossy_queue =
  fixes enq :: "'m \<Rightarrow> 'q \<Rightarrow> 'q" and view :: "'q \<Rightarrow> 'm list" and cap :: nat
  assumes bounded: "length (view q) \<le> cap \<Longrightarrow> length (view (enq m q)) \<le> cap"
    and ordered: "subseq (view (enq m q)) (view q @ [m])"
begin

lemma fold_bounded: "length (view q) \<le> cap \<Longrightarrow> length (view (fold enq ms q)) \<le> cap"
  by (induction ms arbitrary: q) (auto intro: bounded)

lemma fold_ordered: "subseq (view (fold enq ms q)) (view q @ ms)"
proof (induction ms arbitrary: q)
  case (Cons m ms)
  have "subseq (view (fold enq ms (enq m q))) (view (enq m q) @ ms)" by (rule Cons.IH)
  also have "subseq (view (enq m q) @ ms) ((view q @ [m]) @ ms)"
    using ordered by (simp only: subseq_append)
  finally show ?case by simp
qed simp

lemma from_empty:
  assumes "view q = []"
  shows "length (view (fold enq ms q)) \<le> cap" "subseq (view (fold enq ms q)) ms"
  using fold_bounded [of q ms] fold_ordered [of ms q] assms by simp_all

lemma from_empty_set: "view q = [] \<Longrightarrow> set (view (fold enq ms q)) \<subseteq> set ms"
  using from_empty(2) [of q ms] set_nths_subset by (metis subseq_conv_nths)

end

locale newest_queue = lossy_queue +
  assumes newest: "length (view q) \<le> cap \<Longrightarrow> view (enq m q) \<noteq> [] \<and> last (view (enq m q)) = m"
begin

lemma fold_newest:
  assumes "ms \<noteq> []" "length (view q) \<le> cap"
  shows "view (fold enq ms q) \<noteq> []" "last (view (fold enq ms q)) = last ms"
proof -
  obtain ns m where ms: "ms = ns @ [m]" using assms by (metis rev_exhaust)
  show "view (fold enq ms q) \<noteq> []" "last (view (fold enq ms q)) = last ms"
    using newest [OF fold_bounded [OF assms(2), of ns], of m] by (simp_all add: ms)
qed

end

section \<open>The queue that discards its oldest element\<close>

definition lastn :: "nat \<Rightarrow> 'm list \<Rightarrow> 'm list" where
  "lastn c xs = drop (length xs - c) xs"

definition push_newest :: "nat \<Rightarrow> 'm \<Rightarrow> 'm list \<Rightarrow> 'm list" where
  \<comment> \<open>append, discarding from the front what exceeds the capacity\<close>
  "push_newest c m q = lastn c (q @ [m])"

lemma lastn_short [simp]: "length xs \<le> c \<Longrightarrow> lastn c xs = xs"
  by (simp add: lastn_def)

lemma length_lastn [simp]: "length (lastn c xs) = min c (length xs)"
  by (simp add: lastn_def)

lemma lastn_lastn_append: "lastn c (lastn c xs @ ys) = lastn c (xs @ ys)"
proof (cases "length xs \<le> c")
  case False
  define as bs where "as = take (length xs - c) xs" and "bs = drop (length xs - c) xs"
  have xs: "xs = as @ bs" and c: "length bs = c" using False by (simp_all add: as_def bs_def)
  have "lastn c xs = bs" by (simp add: lastn_def bs_def)
  then show ?thesis by (simp add: xs c lastn_def)
qed simp

lemma fold_push_newest: "fold (push_newest c) ms q = (if ms = [] then q else lastn c (q @ ms))"
proof (induction ms arbitrary: q)
  case (Cons m ms)
  then show ?case
    using lastn_lastn_append [of c "q @ [m]" ms] by (auto simp: push_newest_def)
qed simp

lemma subseq_lastn: "subseq (lastn c xs) xs"
  by (metis append_take_drop_id lastn_def list_emb_append2 subseq_order.order_refl)

lemma push_newest_queue: "0 < c \<Longrightarrow> newest_queue (push_newest c) (\<lambda>q. q) c"
  by unfold_locales (simp_all add: push_newest_def subseq_lastn, auto simp: lastn_def)

end
