(* ===== verification/Transport_Hub.thy ===== *)
theory Transport_Hub
  imports Wire_Frames Go_Text Lossy_Queue "HOL-Library.Char_ord" "HOL-Library.List_Lexorder"
begin

text \<open>
  The client-facing WebSocket transport, \<^verbatim>\<open>backend/internal/transport/hub.go\<close>. A client has three
  bounded lanes (control, video, audio) filled by \<^verbatim>\<open>write\<close> from many goroutines and drained by its
  one \<^verbatim>\<open>writeLoop\<close>. The loop is the state machine \<open>writer\<close>, with one constructor per point at which
  it can be overtaken by another goroutine, so that a message that the loop holds in its hand
  while the media are paused or the queue is drained is part of the state. Where Go's \<^verbatim>\<open>select\<close>
  may choose among several ready cases, the choice is an argument.
\<close>

section \<open>Messages and clients\<close>

definition TextMessage :: nat where "TextMessage = 1"
definition BinaryMessage :: nat where "BinaryMessage = 2"
definition PingMessage :: nat where "PingMessage = 9"

lemmas message_types = TextMessage_def BinaryMessage_def PingMessage_def

definition controlQueueCap :: nat where "controlQueueCap = 64"
definition videoQueueCap :: nat where "videoQueueCap = 4"
definition audioQueueCap :: nat where "audioQueueCap = 3"

lemmas queue_caps = controlQueueCap_def videoQueueCap_def audioQueueCap_def

record clock_reply =
  cr_clientSendNS :: uint64
  cr_backendRecvNS :: uint64

record out_msg =
  om_type :: nat
  om_data :: bytes
  om_clock :: "clock_reply option"
  om_epoch :: uint64

datatype writer =
    AtTop              \<comment> \<open>at the head of the loop\<close>
  | NoControl          \<comment> \<open>the first \<^verbatim>\<open>select\<close> found no control message\<close>
  | Idle               \<comment> \<open>in the blocking \<^verbatim>\<open>select\<close>\<close>
  | Holding out_msg    \<comment> \<open>a message was received, \<^verbatim>\<open>writeOne\<close> comes next\<close>
  | Returned

record client =
  cl_deviceID :: string
  cl_control :: "out_msg list"
  cl_video :: "out_msg list"
  cl_audio :: "out_msg list"
  cl_done :: bool
  cl_videoDropping :: bool
  cl_mediaPaused :: bool
  cl_mediaEpoch :: uint64
  cl_closed :: bool                      \<comment> \<open>\<^verbatim>\<open>conn.Close\<close> was called\<close>
  cl_writer :: writer
  cl_socket :: "(nat \<times> bytes) list"   \<comment> \<open>what \<^verbatim>\<open>conn.WriteMessage\<close> wrote, in order\<close>

record counters =
  ct_controlFailures :: uint64
  ct_videoDrops :: uint64
  ct_audioDrops :: uint64
  ct_socketWrites :: uint64

definition new_client :: "string \<Rightarrow> client" where
  "new_client deviceID =
     \<lparr>cl_deviceID = deviceID, cl_control = [], cl_video = [], cl_audio = [], cl_done = False,
      cl_videoDropping = False, cl_mediaPaused = False, cl_mediaEpoch = 0, cl_closed = False,
      cl_writer = AtTop, cl_socket = []\<rparr>"

section \<open>Enqueueing\<close>

datatype ws_error = errClosed | errBackpressure

definition lane_audio :: "bytes \<Rightarrow> bool" where
  "lane_audio data \<longleftrightarrow> length data > 4 \<and> data ! 4 = FrameTypeAudio"

definition lane_video :: "bytes \<Rightarrow> bool" where
  "lane_video data \<longleftrightarrow> length data > 5 \<and> data ! 4 = FrameTypeVideo"

definition is_idr :: "bytes \<Rightarrow> bool" where
  "is_idr data \<longleftrightarrow> bit (data ! 5) 0"  \<comment> \<open>\<^verbatim>\<open>data[5]&1 != 0\<close>\<close>

definition send_control ::
  "bool \<Rightarrow> bool \<Rightarrow> out_msg \<Rightarrow> counters \<times> client \<Rightarrow> (counters \<times> client) \<times> ws_error option" where
  \<comment> \<open>\<^verbatim>\<open>select { case c.control <- m: case <-c.done: default: }\<close>; \<open>pick_done\<close> is the choice when both are
     ready, \<open>close\<close> whether the default case closes the connection\<close>
  "send_control pick_done close m s =
    (case s of (k, c) \<Rightarrow>
      let room = length (cl_control c) < controlQueueCap in
      if room \<and> \<not> (cl_done c \<and> pick_done) then
        ((k, c\<lparr>cl_control := cl_control c @ [m]\<rparr>), None)
      else if cl_done c then (s, Some errClosed)
      else ((k\<lparr>ct_controlFailures := ct_controlFailures k + 1\<rparr>,
             if close then c\<lparr>cl_closed := True\<rparr> else c), Some errBackpressure))"

definition send_audio :: "out_msg \<Rightarrow> counters \<times> client \<Rightarrow> (counters \<times> client) \<times> ws_error option" where
  "send_audio m s =
    (case s of (k, c) \<Rightarrow>
      case chan_send audioQueueCap m (cl_audio c) of
        Some q \<Rightarrow> ((k, c\<lparr>cl_audio := q\<rparr>), None)
      | None \<Rightarrow>
         let k = k\<lparr>ct_audioDrops := ct_audioDrops k + 1\<rparr>;
             rest = tl (cl_audio c)
         in case chan_send audioQueueCap m rest of
              Some q \<Rightarrow> ((k, c\<lparr>cl_audio := q\<rparr>), None)
            | None \<Rightarrow> ((k, c\<lparr>cl_audio := rest\<rparr>), Some errBackpressure))"

definition send_video :: "out_msg \<Rightarrow> counters \<times> client \<Rightarrow> (counters \<times> client) \<times> ws_error option" where
  "send_video m s =
    (case s of (k, c) \<Rightarrow>
      let idr = is_idr (om_data m) in
      if cl_videoDropping c \<and> \<not> idr then (s, Some errBackpressure)
      else
        let c = (if idr then c\<lparr>cl_videoDropping := False\<rparr> else c) in
        case chan_send videoQueueCap m (cl_video c) of
          Some q \<Rightarrow> ((k, c\<lparr>cl_video := q\<rparr>), None)
        | None \<Rightarrow>
           let k = k\<lparr>ct_videoDrops := ct_videoDrops k + 1\<rparr>;
               c = c\<lparr>cl_video := [], cl_videoDropping := \<not> idr\<rparr>
           in if idr then ((k, c\<lparr>cl_video := [m]\<rparr>), None) else ((k, c), Some errBackpressure))"

definition client_write ::
  "bool \<Rightarrow> nat \<Rightarrow> bytes \<Rightarrow> counters \<times> client \<Rightarrow> (counters \<times> client) \<times> ws_error option" where
  "client_write pick_done msgType data s =
    (let m = \<lparr>om_type = msgType, om_data = data, om_clock = None, om_epoch = 0\<rparr>;
         c = snd s
     in if msgType = TextMessage \<or> msgType = PingMessage then send_control pick_done True m s
        else if cl_mediaPaused c then (s, Some errBackpressure)
        else
          let m = m\<lparr>om_epoch := cl_mediaEpoch c\<rparr> in
          if lane_audio data then send_audio m s
          else if lane_video data then send_video m s
          else send_control pick_done False m s)"

definition sendClock :: "bool \<Rightarrow> uint64 \<Rightarrow> uint64 \<Rightarrow> counters \<times> client \<Rightarrow> counters \<times> client" where
  "sendClock pick_done clientSendNS backendRecvNS s =
     fst (send_control pick_done True
       \<lparr>om_type = TextMessage, om_data = [],
        om_clock = Some \<lparr>cr_clientSendNS = clientSendNS, cr_backendRecvNS = backendRecvNS\<rparr>, om_epoch = 0\<rparr> s)"

definition SendBinary ::
  "bytes \<Rightarrow> counters \<times> client \<Rightarrow> (counters \<times> client) \<times> ws_error option" where
  "SendBinary data = client_write False BinaryMessage data"

definition SetMediaPaused :: "bool \<Rightarrow> client \<Rightarrow> client" where
  "SetMediaPaused paused c =
     (if cl_mediaPaused c = paused then c
      else c\<lparr>cl_mediaPaused := paused, cl_mediaEpoch := cl_mediaEpoch c + 1, cl_videoDropping := False,
             cl_video := [], cl_audio := []\<rparr>)"

definition Close :: "client \<Rightarrow> client" where
  "Close c = c\<lparr>cl_closed := True\<rparr>"

section \<open>The write loop\<close>

definition ping_msg :: out_msg where
  "ping_msg = \<lparr>om_type = PingMessage, om_data = [], om_clock = None, om_epoch = 0\<rparr>"

datatype source = FromDone | FromPing | FromControl | FromVideo | FromAudio | FromDefault

definition recv_control :: "client \<Rightarrow> client option" where
  "recv_control c = (case cl_control c of [] \<Rightarrow> None
     | m # q \<Rightarrow> Some (c\<lparr>cl_control := q, cl_writer := Holding m\<rparr>))"

definition recv_video :: "client \<Rightarrow> client option" where
  "recv_video c = (case cl_video c of [] \<Rightarrow> None
     | m # q \<Rightarrow> Some (c\<lparr>cl_video := q, cl_writer := Holding m\<rparr>))"

definition recv_audio :: "client \<Rightarrow> client option" where
  "recv_audio c = (case cl_audio c of [] \<Rightarrow> None
     | m # q \<Rightarrow> Some (c\<lparr>cl_audio := q, cl_writer := Holding m\<rparr>))"

definition recv_done :: "client \<Rightarrow> client option" where
  "recv_done c = (if cl_done c then Some (c\<lparr>cl_writer := Returned\<rparr>) else None)"

fun writeLoop_select :: "source \<Rightarrow> client \<Rightarrow> client option" where
  \<comment> \<open>one \<^verbatim>\<open>select\<close> of the loop taking the given case; \<open>None\<close> when that case is not ready there\<close>
  "writeLoop_select src c =
    (case cl_writer c of
       AtTop \<Rightarrow>
        (case src of
           FromDone \<Rightarrow> recv_done c
         | FromControl \<Rightarrow> recv_control c
         | FromDefault \<Rightarrow>
            if \<not> cl_done c \<and> cl_control c = [] then Some (c\<lparr>cl_writer := NoControl\<rparr>) else None
         | _ \<Rightarrow> None)
     | NoControl \<Rightarrow>
        (case src of
           FromDone \<Rightarrow> recv_done c
         | FromPing \<Rightarrow> Some (c\<lparr>cl_writer := Holding ping_msg\<rparr>)
         | FromControl \<Rightarrow> recv_control c
         | FromVideo \<Rightarrow> recv_video c
         | FromDefault \<Rightarrow>
            if \<not> cl_done c \<and> cl_control c = [] \<and> cl_video c = [] then Some (c\<lparr>cl_writer := Idle\<rparr>) else None
         | FromAudio \<Rightarrow> None)
     | Idle \<Rightarrow>
        (case src of
           FromDone \<Rightarrow> recv_done c
         | FromPing \<Rightarrow> Some (c\<lparr>cl_writer := Holding ping_msg\<rparr>)
         | FromControl \<Rightarrow> recv_control c
         | FromVideo \<Rightarrow> recv_video c
         | FromAudio \<Rightarrow> recv_audio c
         | FromDefault \<Rightarrow> None)
     | _ \<Rightarrow> None)"

definition dec64 :: "uint64 \<Rightarrow> string" where
  "dec64 w = dec_nat (unat w)"

definition clock_json :: "clock_reply \<Rightarrow> uint64 \<Rightarrow> string" where
  \<comment> \<open>\<^verbatim>\<open>json.Marshal(protocol.ClockEvent{...})\<close>\<close>
  "clock_json r now =
     ''{\"t\":\"clock\",\"c0\":'' @ dec64 (cr_clientSendNS r) @ '',\"s1\":'' @ dec64 (cr_backendRecvNS r)
       @ '',\"s2\":'' @ dec64 now @ ''}''"

definition stale :: "client \<Rightarrow> out_msg \<Rightarrow> bool" where
  "stale c m \<longleftrightarrow> om_type m = BinaryMessage \<and> (cl_mediaPaused c \<or> om_epoch m \<noteq> cl_mediaEpoch c)"

definition wire_data :: "out_msg \<Rightarrow> uint64 \<Rightarrow> bytes" where
  "wire_data m now =
    (let data = (case om_clock m of Some r \<Rightarrow> bytes_of (clock_json r now) | None \<Rightarrow> om_data m)
     in if om_type m = BinaryMessage then StampSocketWrite data now else data)"

definition writeOne :: "bool \<Rightarrow> uint64 \<Rightarrow> out_msg \<Rightarrow> counters \<times> client \<Rightarrow> (counters \<times> client) \<times> bool" where
  \<comment> \<open>\<open>ok\<close> is the outcome of \<^verbatim>\<open>conn.WriteMessage\<close>, \<open>now\<close> the monotonic clock\<close>
  "writeOne ok now m s =
    (case s of (k, c) \<Rightarrow>
      if stale c m then (s, True)
      else if \<not> ok then ((k, c\<lparr>cl_closed := True\<rparr>), False)
      else ((k\<lparr>ct_socketWrites := ct_socketWrites k + 1\<rparr>,
             c\<lparr>cl_socket := cl_socket c @ [(om_type m, wire_data m now)]\<rparr>), True))"

definition writeLoop_write :: "bool \<Rightarrow> uint64 \<Rightarrow> counters \<times> client \<Rightarrow> (counters \<times> client) option" where
  \<comment> \<open>\<^verbatim>\<open>if !c.writeOne(m) { return }\<close>\<close>
  "writeLoop_write ok now s =
    (case cl_writer (snd s) of
       Holding m \<Rightarrow>
        (case writeOne ok now m s of
           ((k, c), True) \<Rightarrow> Some (k, c\<lparr>cl_writer := AtTop\<rparr>)
         | ((k, c), False) \<Rightarrow> Some (k, c\<lparr>cl_writer := Returned\<rparr>))
     | _ \<Rightarrow> None)"

section \<open>The hub\<close>

record hub =
  hb_clients :: "nat \<rightharpoonup> client"
  hb_counters :: counters

definition zero_counters :: counters where
  "zero_counters = \<lparr>ct_controlFailures = 0, ct_videoDrops = 0, ct_audioDrops = 0, ct_socketWrites = 0\<rparr>"

definition new_hub :: hub where
  "new_hub = \<lparr>hb_clients = Map.empty, hb_counters = zero_counters\<rparr>"

definition ascii_lower :: "char \<Rightarrow> char" where
  "ascii_lower ch = (if 65 \<le> (of_char ch :: nat) \<and> (of_char ch :: nat) \<le> 90 then char_of ((of_char ch :: nat) + 32) else ch)"

definition checkOrigin :: "(string \<Rightarrow> string option) \<Rightarrow> string \<Rightarrow> string \<Rightarrow> bool" where
  \<comment> \<open>\<open>url_host\<close> is \<^verbatim>\<open>url.Parse\<close> followed by \<^verbatim>\<open>Host\<close>; host names are ASCII, where \<^verbatim>\<open>EqualFold\<close> ignores case\<close>
  "checkOrigin url_host origin host =
     (if origin = [] then True
      else case url_host origin of
             None \<Rightarrow> False
           | Some h \<Rightarrow> h \<noteq> [] \<and> map ascii_lower h = map ascii_lower host)"

definition connect_client :: "nat \<Rightarrow> string \<Rightarrow> hub \<Rightarrow> hub" where
  \<comment> \<open>\<^verbatim>\<open>ServeHTTPForDevice\<close> up to the registration\<close>
  "connect_client i deviceID h = h\<lparr>hb_clients := (hb_clients h)(i \<mapsto> new_client deviceID)\<rparr>"

definition disconnect_client :: "nat \<Rightarrow> hub \<Rightarrow> hub" where
  \<comment> \<open>\<^verbatim>\<open>ServeHTTPForDevice\<close> after the read loop: \<^verbatim>\<open>done\<close> is closed and the client forgotten\<close>
  "disconnect_client i h = h\<lparr>hb_clients := (hb_clients h)(i := None)\<rparr>"

definition ClientCount :: "hub \<Rightarrow> nat" where
  "ClientCount h = card (dom (hb_clients h))"

definition ConnectedDevices :: "nat list \<Rightarrow> hub \<Rightarrow> string list" where
  \<comment> \<open>\<open>order\<close> is the order in which \<^verbatim>\<open>range\<close> visits the clients\<close>
  "ConnectedDevices order h =
     sort (remdups (filter (\<lambda>d. d \<noteq> []) (map cl_deviceID (List.map_filter (hb_clients h) order))))"

definition write_client :: "nat \<Rightarrow> bytes \<Rightarrow> hub \<Rightarrow> hub" where
  \<comment> \<open>\<^verbatim>\<open>_ = client.write(websocket.TextMessage, data)\<close>\<close>
  "write_client i data h =
     (case hb_clients h i of
        None \<Rightarrow> h
      | Some c \<Rightarrow>
         (case client_write False TextMessage data (hb_counters h, c) of
            ((k, c'), _) \<Rightarrow> \<lparr>hb_clients = (hb_clients h)(i \<mapsto> c'), hb_counters = k\<rparr>))"

definition targets_device :: "string \<Rightarrow> client \<Rightarrow> bool" where
  "targets_device deviceID c \<longleftrightarrow> \<not> (cl_deviceID c = [] \<or> deviceID \<noteq> [] \<and> cl_deviceID c \<noteq> deviceID)"

definition device_targets :: "string \<Rightarrow> nat list \<Rightarrow> hub \<Rightarrow> nat list" where
  "device_targets deviceID order h =
     filter (\<lambda>i. case hb_clients h i of None \<Rightarrow> False | Some c \<Rightarrow> targets_device deviceID c) order"

definition SendDeviceJSON :: "string \<Rightarrow> bytes option \<Rightarrow> nat list \<Rightarrow> hub \<Rightarrow> hub \<times> string list" where
  \<comment> \<open>\<open>data\<close> is the marshalled event, \<open>None\<close> when \<^verbatim>\<open>json.Marshal\<close> fails\<close>
  "SendDeviceJSON deviceID data order h =
     (case data of
        None \<Rightarrow> (h, [])
      | Some data \<Rightarrow>
         let targets = device_targets deviceID order h;
             seen = remdups (map (\<lambda>i. cl_deviceID (the (hb_clients h i))) targets)
         in (fold (\<lambda>i. write_client i data) targets h, sort seen))"

definition BroadcastJSON :: "bytes option \<Rightarrow> nat list \<Rightarrow> hub \<Rightarrow> hub" where
  "BroadcastJSON data order h =
     (case data of None \<Rightarrow> h | Some data \<Rightarrow> fold (\<lambda>i. write_client i data) order h)"

definition CloseDevice :: "string \<Rightarrow> hub \<Rightarrow> hub" where
  "CloseDevice deviceID h =
     h\<lparr>hb_clients := (\<lambda>i. map_option (\<lambda>c. if cl_deviceID c = deviceID then Close c else c) (hb_clients h i))\<rparr>"

definition lane_depths :: "nat list \<Rightarrow> hub \<Rightarrow> uint64 \<times> uint64 \<times> uint64" where
  \<comment> \<open>the queue depths that \<^verbatim>\<open>Stats\<close> reports next to the counters\<close>
  "lane_depths order h =
     (let cs = List.map_filter (hb_clients h) order
      in (sum_list (map (\<lambda>c. of_nat (length (cl_control c))) cs),
          sum_list (map (\<lambda>c. of_nat (length (cl_video c))) cs),
          sum_list (map (\<lambda>c. of_nat (length (cl_audio c))) cs)))"

end
