(* ===== verification/Transport_Delivery.thy ===== *)
theory Transport_Delivery
  imports Transport_Hub
begin

text \<open>
  What reaches a client's socket. A connection runs as interleaved events: calls of \<^verbatim>\<open>SendJSON\<close>,
  \<^verbatim>\<open>SendBinary\<close>, \<^verbatim>\<open>sendClock\<close>, \<^verbatim>\<open>SetMediaPaused\<close> and \<^verbatim>\<open>Close\<close>, and the steps of \<^verbatim>\<open>writeLoop\<close>. A history
  kept beside the state records what was submitted and what was written, and the theorems
  relate the two: the video a client sees can be decoded, text messages arrive complete and in
  order, and a pause is a boundary no queued media message crosses.
\<close>

section \<open>Events\<close>

datatype link_event =
    SendText bool bytes
  | SendBin bytes
  | SendClock bool uint64 uint64
  | Pause bool
  | CloseConn
  | DoneClosed
  | Select source
  | WriteOne bool uint64

type_synonym link = "counters \<times> client"

fun link_step :: "link_event \<Rightarrow> link \<Rightarrow> link option" where
  "link_step (SendText pick data) s = Some (fst (client_write pick TextMessage data s))"
| "link_step (SendBin data) s = Some (fst (SendBinary data s))"
| "link_step (SendClock pick a b) s = Some (sendClock pick a b s)"
| "link_step (Pause p) s = Some (fst s, SetMediaPaused p (snd s))"
| "link_step CloseConn s = Some (fst s, Close (snd s))"
| "link_step DoneClosed s = Some (fst s, (snd s)\<lparr>cl_done := True\<rparr>)"
| "link_step (Select src) s = map_option (\<lambda>c. (fst s, c)) (writeLoop_select src (snd s))"
| "link_step (WriteOne ok now) s = writeLoop_write ok now s"

record history =
  hs_video :: "bytes list"                  \<comment> \<open>video frames submitted since the last pause or resume\<close>
  hs_seen :: "bytes list"                   \<comment> \<open>video frames written since then\<close>
  hs_control :: "out_msg list"              \<comment> \<open>text messages the control lane accepted\<close>
  hs_log :: "(out_msg \<times> uint64) list"      \<comment> \<open>messages written, with the time of the write\<close>

definition empty_history :: history where
  "empty_history = \<lparr>hs_video = [], hs_seen = [], hs_control = [], hs_log = []\<rparr>"

definition accepted :: "link \<Rightarrow> link \<Rightarrow> out_msg list" where
  \<comment> \<open>what an enqueueing call appended to the control lane\<close>
  "accepted s s' = filter (\<lambda>m. om_type m = TextMessage) (drop (length (cl_control (snd s))) (cl_control (snd s')))"

fun log_event :: "link_event \<Rightarrow> link \<Rightarrow> history \<Rightarrow> history" where
  "log_event (SendText pick data) s h =
     h\<lparr>hs_control := hs_control h @ accepted s (fst (client_write pick TextMessage data s))\<rparr>"
| "log_event (SendClock pick a b) s h =
     h\<lparr>hs_control := hs_control h @ accepted s (sendClock pick a b s)\<rparr>"
| "log_event (SendBin data) s h =
     (if \<not> cl_mediaPaused (snd s) \<and> lane_video data then h\<lparr>hs_video := hs_video h @ [data]\<rparr> else h)"
| "log_event (Pause p) s h =
     (if cl_mediaPaused (snd s) = p then h else h\<lparr>hs_video := [], hs_seen := []\<rparr>)"
| "log_event (WriteOne ok now) s h =
     (case cl_writer (snd s) of
        Holding m \<Rightarrow>
          if ok \<and> \<not> stale (snd s) m then
            h\<lparr>hs_log := hs_log h @ [(m, now)],
              hs_seen := (if om_type m = BinaryMessage \<and> lane_video (om_data m)
                          then hs_seen h @ [om_data m] else hs_seen h)\<rparr>
          else h
      | _ \<Rightarrow> h)"
| "log_event _ s h = h"

inductive link_run :: "link \<Rightarrow> history \<Rightarrow> link_event list \<Rightarrow> link \<Rightarrow> history \<Rightarrow> bool" where
  run_done: "link_run s h [] s h"
| run_step: "link_step e s = Some s' \<Longrightarrow> link_run s' (log_event e s h) es s'' h'' \<Longrightarrow> link_run s h (e # es) s'' h''"

inductive_cases link_run_ConsE [elim!]: "link_run s h (e # es) s'' h''"
inductive_cases link_run_NilE [elim!]: "link_run s h [] s'' h''"

lemma link_run_append:
  "link_run s h (es @ fs) s'' h'' \<Longrightarrow> \<exists>s' h'. link_run s h es s' h' \<and> link_run s' h' fs s'' h''"
  by (induction es arbitrary: s h) (auto intro: link_run.intros, blast intro: link_run.intros)

lemma link_run_invariant:
  \<comment> \<open>invariants by induction on the run; \<open>n\<close> counts the events\<close>
  assumes "link_run s h es s' h'" "P 0 s h"
    and "\<And>n e s h t. P n s h \<Longrightarrow> n < length es \<Longrightarrow> e \<in> set es \<Longrightarrow> link_step e s = Some t \<Longrightarrow> P (Suc n) t (log_event e s h)"
  shows "P (length es) s' h'"
proof -
  have "k + length fs \<le> length es \<Longrightarrow> set fs \<subseteq> set es \<Longrightarrow> P k u g \<Longrightarrow> P (k + length fs) s' h'"
    if "link_run u g fs s' h'" for u g fs k
    using that
  proof (induction u g fs s' h' arbitrary: k rule: link_run.induct)
    case (run_step e u u' g fs)
    have "P (Suc k) u' (log_event e u g)"
      by (rule assms(3)) (use run_step in auto)
    then show ?case using run_step.IH [of "Suc k"] run_step.prems by simp
  qed simp
  from this [OF assms(1), of 0] show ?thesis using assms(2) by simp
qed

section \<open>Decodable selections\<close>

text \<open>
  A selection of a stream of frames that a decoder can follow: frames keep their order, and a
  frame that is not an IDR directly follows the frame the decoder saw before.
\<close>

definition decodable :: "('a \<Rightarrow> bool) \<Rightarrow> 'a list \<Rightarrow> 'a list \<Rightarrow> bool" where
  "decodable idr sent seen \<longleftrightarrow>
     (\<exists>ixs. seen = map (\<lambda>i. sent ! i) ixs \<and> (\<forall>i\<in>set ixs. i < length sent) \<and> sorted_wrt (<) ixs \<and>
        (\<forall>k<length ixs. idr (sent ! (ixs ! k)) \<or> (if k = 0 then ixs ! 0 = 0 else ixs ! k = Suc (ixs ! (k - 1)))))"

inductive selection :: "('a \<Rightarrow> bool) \<Rightarrow> 'a list \<Rightarrow> 'a list \<Rightarrow> bool \<Rightarrow> bool" for idr where
  \<comment> \<open>the last argument tells whether the most recent frame was left out\<close>
  sel_Nil: "selection idr [] [] False"
| sel_keep: "selection idr xs ys gap \<Longrightarrow> \<not> gap \<or> idr x \<Longrightarrow> selection idr (xs @ [x]) (ys @ [x]) False"
| sel_skip: "selection idr xs ys gap \<Longrightarrow> selection idr (xs @ [x]) ys True"

lemma selection_prefix:
  assumes "selection idr xs (ys @ zs) gap"
  shows "\<exists>g. selection idr xs ys g"
proof -
  have "zs \<noteq> [] \<Longrightarrow> selection idr xs ys True" if "selection idr xs vs gap" "vs = ys @ zs" for zs vs
    using that
  proof (induction xs vs gap arbitrary: zs rule: selection.induct)
    case (sel_keep xs vs gap x)
    show ?case
    proof (cases "butlast zs = []")
      case True
      then have "vs = ys" using sel_keep.prems by (metis append_butlast_last_id append_Nil append1_eq_conv append_assoc)
      then show ?thesis using sel_keep.hyps by (auto intro: selection.sel_skip)
    next
      case False
      have "vs = ys @ butlast zs" using sel_keep.prems by (metis butlast_append butlast_snoc)
      then show ?thesis using sel_keep.IH False by (auto intro: selection.sel_skip)
    qed
  qed (auto intro: selection.sel_skip)
  then show ?thesis using assms by (cases "zs = []") auto
qed

lemma selection_drop:
  assumes "selection idr xs (ys @ zs) gap"
  shows "selection idr (xs @ [x]) ys True"
  using selection_prefix [OF assms] by (auto intro: selection.sel_skip)

lemma selection_decodable: "selection idr xs ys gap \<Longrightarrow> decodable idr xs ys"
proof -
  have "\<exists>ixs. ys = map (\<lambda>i. xs ! i) ixs \<and> (\<forall>i\<in>set ixs. i < length xs) \<and> sorted_wrt (<) ixs \<and>
      (\<forall>k<length ixs. idr (xs ! (ixs ! k)) \<or> (if k = 0 then ixs ! 0 = 0 else ixs ! k = Suc (ixs ! (k - 1)))) \<and>
      (\<not> gap \<longrightarrow> (if ixs = [] then xs = [] else Suc (last ixs) = length xs))"
    if "selection idr xs ys gap" for xs ys gap
    using that
  proof (induction xs ys gap rule: selection.induct)
    case sel_Nil
    then show ?case by simp
  next
    case (sel_keep xs ys gap x)
    then obtain ixs where ixs_facts: "ys = map (\<lambda>i. xs ! i) ixs" "\<forall>i\<in>set ixs. i < length xs" "sorted_wrt (<) ixs"
      "\<forall>k<length ixs. idr (xs ! (ixs ! k)) \<or> (if k = 0 then ixs ! 0 = 0 else ixs ! k = Suc (ixs ! (k - 1)))"
      "\<not> gap \<longrightarrow> (if ixs = [] then xs = [] else Suc (last ixs) = length xs)" by blast
    have "idr x \<or> (if ixs = [] then xs = [] else Suc (last ixs) = length xs)" using ixs_facts(5) sel_keep(2) by blast
    then show ?case
      using ixs_facts(1-4)
      by (intro exI [of _ "ixs @ [length xs]"])
         (auto simp: nth_append sorted_wrt_append less_Suc_eq last_conv_nth split: if_splits)
  next
    case (sel_skip xs ys gap x)
    then obtain ixs where ixs_facts: "ys = map (\<lambda>i. xs ! i) ixs" "\<forall>i\<in>set ixs. i < length xs" "sorted_wrt (<) ixs"
      "\<forall>k<length ixs. idr (xs ! (ixs ! k)) \<or> (if k = 0 then ixs ! 0 = 0 else ixs ! k = Suc (ixs ! (k - 1)))" by blast
    then show ?case
      by (intro exI [of _ ixs]) (auto simp: nth_append less_Suc_eq)
  qed
  then show "selection idr xs ys gap \<Longrightarrow> decodable idr xs ys" unfolding decodable_def by blast
qed

section \<open>The invariant of a connection\<close>

fun in_hand :: "writer \<Rightarrow> out_msg list" where
  "in_hand (Holding m) = [m]"
| "in_hand _ = []"

definition video_msg :: "uint64 \<Rightarrow> out_msg \<Rightarrow> bool" where
  "video_msg e m \<longleftrightarrow> om_type m = BinaryMessage \<and> om_epoch m = e \<and> lane_video (om_data m)"

definition audio_msg :: "uint64 \<Rightarrow> out_msg \<Rightarrow> bool" where
  "audio_msg e m \<longleftrightarrow> om_type m = BinaryMessage \<and> om_epoch m = e \<and> lane_audio (om_data m)"

definition control_msg :: "out_msg \<Rightarrow> bool" where
  "control_msg m \<longleftrightarrow> (om_type m = BinaryMessage \<longrightarrow> \<not> lane_video (om_data m))"

definition lanes_ok :: "uint64 \<Rightarrow> bool \<Rightarrow> out_msg list \<Rightarrow> out_msg list \<Rightarrow> out_msg list \<Rightarrow> bool" where
  "lanes_ok e paused video audio control \<longleftrightarrow>
     list_all (video_msg e) video \<and> list_all (audio_msg e) audio \<and> list_all control_msg control \<and>
     (paused \<longrightarrow> video = [] \<and> audio = [])"

definition epoch_past :: "uint64 \<Rightarrow> bool \<Rightarrow> out_msg \<Rightarrow> bool" where
  "epoch_past e paused m \<longleftrightarrow> om_type m = BinaryMessage \<longrightarrow>
     unat (om_epoch m) \<le> unat e \<and> (paused \<longrightarrow> lane_video (om_data m) \<longrightarrow> om_epoch m \<noteq> e)"

definition hand_ok :: "nat \<Rightarrow> uint64 \<Rightarrow> bool \<Rightarrow> out_msg list \<Rightarrow> bool" where
  "hand_ok n e paused ms \<longleftrightarrow> unat e \<le> n \<and> list_all (epoch_past e paused) ms"

definition hand_video :: "uint64 \<Rightarrow> writer \<Rightarrow> bytes list" where
  "hand_video e w = map om_data (filter (video_msg e) (in_hand w))"

definition stream_ok :: "uint64 \<Rightarrow> writer \<Rightarrow> out_msg list \<Rightarrow> bool \<Rightarrow> bytes list \<Rightarrow> bytes list \<Rightarrow> bool" where
  "stream_ok e w video dropping sent seen \<longleftrightarrow>
     (if w = Returned then \<exists>g. selection is_idr sent seen g
      else selection is_idr sent (seen @ hand_video e w @ map om_data video) dropping)"

definition link_inv :: "nat \<Rightarrow> link \<Rightarrow> history \<Rightarrow> bool" where
  "link_inv n s h \<longleftrightarrow> (case s of (k, c) \<Rightarrow>
     lanes_ok (cl_mediaEpoch c) (cl_mediaPaused c) (cl_video c) (cl_audio c) (cl_control c) \<and>
     hand_ok n (cl_mediaEpoch c) (cl_mediaPaused c) (in_hand (cl_writer c) @ cl_control c) \<and>
     stream_ok (cl_mediaEpoch c) (cl_writer c) (cl_video c) (cl_videoDropping c) (hs_video h) (hs_seen h))"

lemma lane_disjoint: "lane_audio d \<Longrightarrow> \<not> lane_video d"
  by (auto simp: lane_audio_def lane_video_def FrameTypeAudio_def FrameTypeVideo_def)

lemma link_inv_mono: "link_inv n s h \<Longrightarrow> n \<le> n' \<Longrightarrow> link_inv n' s h"
  by (auto simp: link_inv_def hand_ok_def)

subsection \<open>Enqueueing keeps it\<close>

lemma send_control_effect:
  obtains (sent) "length (cl_control c) < controlQueueCap"
      "send_control pick close m (k, c) = ((k, c\<lparr>cl_control := cl_control c @ [m]\<rparr>), None)"
  | (failed) k' b e where "send_control pick close m (k, c) = ((k', c\<lparr>cl_closed := b\<rparr>), Some e)"
      "e = errBackpressure \<Longrightarrow> close \<Longrightarrow> b"
proof (cases "length (cl_control c) < controlQueueCap \<and> \<not> (cl_done c \<and> pick)")
  case True
  then show thesis using sent by (simp add: send_control_def)
next
  case False
  show thesis
  proof (cases "cl_done c")
    case True
    then show thesis
      using False failed [of k "cl_closed c" errClosed] by (simp add: send_control_def)
  next
    case not_done: False
    then show thesis
      using False failed [of "k\<lparr>ct_controlFailures := ct_controlFailures k + 1\<rparr>" "close \<or> cl_closed c" errBackpressure]
      by (cases close) (simp_all add: send_control_def)
  qed
qed

lemma link_inv_send_control:
  assumes "link_inv n (k, c) h" "control_msg m" "epoch_past (cl_mediaEpoch c) (cl_mediaPaused c) m"
  shows "link_inv n (fst (send_control pick close m (k, c))) h"
  by (cases rule: send_control_effect [of c pick close m k])
     (use assms in \<open>simp_all add: link_inv_def lanes_ok_def hand_ok_def\<close>)

lemma audio_push: "cl_audio (snd (fst (send_audio m (k, c)))) = push_newest audioQueueCap m (cl_audio c)"
  if "length (cl_audio c) \<le> audioQueueCap"
  using that
  by (auto simp: send_audio_def push_newest_def lastn_def chan_send_def audioQueueCap_def Let_def drop_Suc)

lemma send_audio_effect:
  obtains k' q where "fst (send_audio m (k, c)) = (k', c\<lparr>cl_audio := q\<rparr>)" "set q \<subseteq> insert m (set (cl_audio c))"
proof (cases "length (cl_audio c) < audioQueueCap")
  case True
  then show thesis using that [of k "cl_audio c @ [m]"] by (simp add: send_audio_def chan_send_def)
next
  case False
  let ?k = "k\<lparr>ct_audioDrops := ct_audioDrops k + 1\<rparr>"
  have "set (tl (cl_audio c)) \<subseteq> set (cl_audio c)" by (cases "cl_audio c") auto
  then show thesis
    using False that [of ?k "tl (cl_audio c) @ [m]"] that [of ?k "tl (cl_audio c)"]
    by (cases "length (tl (cl_audio c)) < audioQueueCap") (auto simp: send_audio_def chan_send_def Let_def)
qed

lemma link_inv_send_audio:
  assumes "link_inv n (k, c) h" "audio_msg (cl_mediaEpoch c) m" "\<not> cl_mediaPaused c"
  shows "link_inv n (fst (send_audio m (k, c))) h"
proof -
  obtain k' q where q: "fst (send_audio m (k, c)) = (k', c\<lparr>cl_audio := q\<rparr>)" "set q \<subseteq> insert m (set (cl_audio c))"
    using send_audio_effect .
  then have "list_all (audio_msg (cl_mediaEpoch c)) q"
    using assms by (auto simp: link_inv_def lanes_ok_def list_all_iff)
  then show ?thesis using assms q by (simp add: link_inv_def lanes_ok_def)
qed

lemma send_video_cases:
  obtains (rejected) "cl_videoDropping c" "\<not> is_idr (om_data m)" "send_video m (k, c) = ((k, c), Some errBackpressure)"
  | (queued) "\<not> cl_videoDropping c \<or> is_idr (om_data m)" "length (cl_video c) < videoQueueCap"
      "send_video m (k, c) = ((k, c\<lparr>cl_videoDropping := False, cl_video := cl_video c @ [m]\<rparr>), None)"
  | (restarted) k' where "is_idr (om_data m)" "videoQueueCap \<le> length (cl_video c)"
      "send_video m (k, c) = ((k', c\<lparr>cl_video := [m], cl_videoDropping := False\<rparr>), None)"
  | (dropped) k' where "\<not> is_idr (om_data m)" "\<not> cl_videoDropping c" "videoQueueCap \<le> length (cl_video c)"
      "send_video m (k, c) = ((k', c\<lparr>cl_video := [], cl_videoDropping := True\<rparr>), Some errBackpressure)"
proof -
  let ?k = "k\<lparr>ct_videoDrops := ct_videoDrops k + 1\<rparr>"
  have same: "\<not> cl_videoDropping c \<Longrightarrow> c\<lparr>cl_videoDropping := False, cl_video := q\<rparr> = c\<lparr>cl_video := q\<rparr>" for q
    by (cases c) simp
  consider "cl_videoDropping c" "\<not> is_idr (om_data m)"
    | "\<not> cl_videoDropping c \<or> is_idr (om_data m)" "length (cl_video c) < videoQueueCap"
    | "is_idr (om_data m)" "videoQueueCap \<le> length (cl_video c)"
    | "\<not> is_idr (om_data m)" "\<not> cl_videoDropping c" "videoQueueCap \<le> length (cl_video c)"
    by linarith
  then show thesis
  proof cases
    case 1
    then show ?thesis using rejected by (simp add: send_video_def)
  next
    case 2
    then show ?thesis using queued same by (cases "is_idr (om_data m)") (simp_all add: send_video_def chan_send_def)
  next
    case 3
    then show ?thesis using restarted [of ?k] by (simp add: send_video_def chan_send_def Let_def)
  next
    case 4
    then show ?thesis using dropped [of ?k] by (simp add: send_video_def chan_send_def Let_def)
  qed
qed

lemma link_inv_send_video:
  assumes inv: "link_inv n (k, c) h" and m: "video_msg (cl_mediaEpoch c) m" and p: "\<not> cl_mediaPaused c"
  shows "link_inv n (fst (send_video m (k, c))) (h\<lparr>hs_video := hs_video h @ [om_data m]\<rparr>)"
proof -
  let ?sel = "selection is_idr"
  let ?seen = "hs_seen h @ hand_video (cl_mediaEpoch c) (cl_writer c)"
  have ret: "\<exists>g. ?sel (hs_video h @ [om_data m]) (hs_seen h) g" if "cl_writer c = Returned"
    using inv that by (auto simp: link_inv_def stream_ok_def intro: sel_skip)
  have cur: "?sel (hs_video h) (?seen @ map om_data (cl_video c)) (cl_videoDropping c)" if "cl_writer c \<noteq> Returned"
    using inv that by (simp add: link_inv_def stream_ok_def)
  have stream: "stream_ok (cl_mediaEpoch c) (cl_writer c) q d (hs_video h @ [om_data m]) (hs_seen h)"
    if "cl_writer c \<noteq> Returned \<Longrightarrow> ?sel (hs_video h @ [om_data m]) (?seen @ map om_data q) d" for q d
    using that ret by (simp add: stream_ok_def)
  have keep: "?sel (hs_video h @ [om_data m]) (?seen @ map om_data (cl_video c @ [m])) False"
    if "cl_writer c \<noteq> Returned" "\<not> cl_videoDropping c \<or> is_idr (om_data m)"
    using sel_keep [OF cur [OF that(1)] that(2)] by simp
  have skip: "?sel (hs_video h @ [om_data m]) (?seen @ map om_data (cl_video c)) True" if "cl_writer c \<noteq> Returned"
    using sel_skip [OF cur [OF that]] .
  have drained: "?sel (hs_video h @ [om_data m]) ?seen True" if "cl_writer c \<noteq> Returned"
    using selection_drop [OF cur [OF that]] .
  have restart: "?sel (hs_video h @ [om_data m]) (?seen @ [om_data m]) False" if run: "cl_writer c \<noteq> Returned" and key: "is_idr (om_data m)"
  proof -
    obtain g where "?sel (hs_video h) ?seen g" using selection_prefix [OF cur [OF run]] ..
    then show ?thesis by (rule sel_keep) (simp add: key)
  qed
  have rest: "lanes_ok (cl_mediaEpoch c) (cl_mediaPaused c) (cl_video c) (cl_audio c) (cl_control c)"
    "hand_ok n (cl_mediaEpoch c) (cl_mediaPaused c) (in_hand (cl_writer c) @ cl_control c)"
    using inv by (simp_all add: link_inv_def)
  show ?thesis
  proof (cases rule: send_video_cases [of c m k])
    case rejected
    have "stream_ok (cl_mediaEpoch c) (cl_writer c) (cl_video c) True (hs_video h @ [om_data m]) (hs_seen h)"
      by (rule stream) (rule skip)
    then show ?thesis using rejected rest by (simp add: link_inv_def)
  next
    case queued
    have "stream_ok (cl_mediaEpoch c) (cl_writer c) (cl_video c @ [m]) False (hs_video h @ [om_data m]) (hs_seen h)"
      by (rule stream) (rule keep [OF _ queued(1)])
    then show ?thesis using queued(3) m p rest by (simp add: link_inv_def lanes_ok_def)
  next
    case (restarted k')
    have "stream_ok (cl_mediaEpoch c) (cl_writer c) [m] False (hs_video h @ [om_data m]) (hs_seen h)"
      by (rule stream) (simp add: restart [OF _ restarted(1), simplified])
    then show ?thesis using restarted(3) m p rest by (simp add: link_inv_def lanes_ok_def)
  next
    case (dropped k')
    have "stream_ok (cl_mediaEpoch c) (cl_writer c) [] True (hs_video h @ [om_data m]) (hs_seen h)"
      by (rule stream) (simp add: drained [simplified])
    then show ?thesis using dropped(4) p rest by (simp add: link_inv_def lanes_ok_def)
  qed
qed

lemma SendBinary_cases:
  obtains (paused) "cl_mediaPaused c" "SendBinary data (k, c) = ((k, c), Some errBackpressure)"
  | (audio) "\<not> cl_mediaPaused c" "lane_audio data" "SendBinary data (k, c) =
      send_audio \<lparr>om_type = BinaryMessage, om_data = data, om_clock = None, om_epoch = cl_mediaEpoch c\<rparr> (k, c)"
  | (video) "\<not> cl_mediaPaused c" "\<not> lane_audio data" "lane_video data" "SendBinary data (k, c) =
      send_video \<lparr>om_type = BinaryMessage, om_data = data, om_clock = None, om_epoch = cl_mediaEpoch c\<rparr> (k, c)"
  | (other) "\<not> cl_mediaPaused c" "\<not> lane_audio data" "\<not> lane_video data" "SendBinary data (k, c) =
      send_control False False \<lparr>om_type = BinaryMessage, om_data = data, om_clock = None, om_epoch = cl_mediaEpoch c\<rparr> (k, c)"
  unfolding SendBinary_def client_write_def Let_def by (auto simp: message_types)

lemma link_inv_SendBin:
  assumes "link_inv n (k, c) h"
  shows "link_inv n (fst (SendBinary data (k, c))) (log_event (SendBin data) (k, c) h)"
proof (cases rule: SendBinary_cases [of c data k])
  case audio
  have "link_inv n (fst (SendBinary data (k, c))) h"
    unfolding audio(3) by (rule link_inv_send_audio [OF assms _ audio(1)]) (simp add: audio_msg_def audio(2))
  then show ?thesis using audio(2) lane_disjoint by simp
next
  case video
  let ?m = "\<lparr>om_type = BinaryMessage, om_data = data, om_clock = None, om_epoch = cl_mediaEpoch c\<rparr>"
  have "link_inv n (fst (SendBinary data (k, c))) (h\<lparr>hs_video := hs_video h @ [om_data ?m]\<rparr>)"
    unfolding video(4) by (rule link_inv_send_video [OF assms _ video(1)]) (simp add: video_msg_def video(3))
  then show ?thesis using video(1,3) by simp
next
  case other
  have "link_inv n (fst (SendBinary data (k, c))) h"
    unfolding other(4)
    by (rule link_inv_send_control [OF assms]) (simp_all add: control_msg_def epoch_past_def other)
  then show ?thesis using other by simp
qed (use assms in simp)

lemma link_inv_text:
  assumes "link_inv n (k, c) h"
  shows "link_inv n (fst (client_write pick TextMessage data (k, c))) h" "link_inv n (sendClock pick a b (k, c)) h"
  unfolding client_write_def sendClock_def Let_def if_True
  by (simp_all, (rule link_inv_send_control [OF assms]; simp add: control_msg_def epoch_past_def message_types)+)

lemma link_inv_Pause:
  assumes inv: "link_inv n (k, c) h" and n: "Suc n < 2 ^ 64"
  shows "link_inv (Suc n) (k, SetMediaPaused p c) (log_event (Pause p) (k, c) h)"
proof (cases "cl_mediaPaused c = p")
  case True
  then show ?thesis using inv by (simp add: SetMediaPaused_def link_inv_mono)
next
  case False
  let ?e = "cl_mediaEpoch c + 1"
  have "unat (cl_mediaEpoch c) \<le> n" using inv by (simp add: link_inv_def hand_ok_def)
  then have e: "unat ?e = unat (cl_mediaEpoch c) + 1"
    using n by (simp add: unat_word_ariths)
  have new: "om_epoch m \<noteq> ?e" if "epoch_past (cl_mediaEpoch c) (cl_mediaPaused c) m" "om_type m = BinaryMessage" for m
    using that e by (auto simp: epoch_past_def)
  have "list_all (epoch_past ?e p) (in_hand (cl_writer c) @ cl_control c)"
    using inv new e unfolding link_inv_def hand_ok_def prod.case
    by (auto simp: list_all_iff epoch_past_def)
  moreover have "hand_video ?e (cl_writer c) = []"
    using inv new by (auto simp: hand_video_def video_msg_def link_inv_def hand_ok_def list_all_iff filter_empty_conv)
  ultimately show ?thesis
    using inv False e \<open>unat (cl_mediaEpoch c) \<le> n\<close>
    by (auto simp: link_inv_def SetMediaPaused_def lanes_ok_def hand_ok_def stream_ok_def intro: sel_Nil)
qed

lemma stream_ok_Returned:
  "stream_ok e w video dropping sent seen \<Longrightarrow> stream_ok e Returned video' dropping' sent seen"
  using selection_prefix by (auto simp: stream_ok_def split: if_splits)

lemma stream_ok_idle:
  "in_hand w = [] \<Longrightarrow> in_hand w' = [] \<Longrightarrow> w \<noteq> Returned \<Longrightarrow> w' \<noteq> Returned \<Longrightarrow>
   stream_ok e w' video dropping sent seen = stream_ok e w video dropping sent seen"
  by (simp add: stream_ok_def hand_video_def)

lemma recv_link_inv:
  assumes inv: "link_inv n (k, c) h" and w: "in_hand (cl_writer c) = []" "cl_writer c \<noteq> Returned"
  shows "recv_done c = Some c' \<Longrightarrow> link_inv n (k, c') h"
    "recv_control c = Some c' \<Longrightarrow> link_inv n (k, c') h"
    "recv_video c = Some c' \<Longrightarrow> link_inv n (k, c') h"
    "recv_audio c = Some c' \<Longrightarrow> link_inv n (k, c') h"
    "link_inv n (k, c\<lparr>cl_writer := Holding ping_msg\<rparr>) h"
  using inv w
  by (auto simp: recv_done_def recv_control_def recv_video_def recv_audio_def link_inv_def lanes_ok_def hand_ok_def
      stream_ok_def hand_video_def control_msg_def video_msg_def audio_msg_def epoch_past_def ping_msg_def
      message_types lane_disjoint
      split: list.splits if_splits dest: selection_prefix)

lemma link_inv_moved:
  assumes "link_inv n (k, c) h" "in_hand (cl_writer c) = []" "cl_writer c \<noteq> Returned"
    "in_hand w = []" "w \<noteq> Returned"
  shows "link_inv n (k, c\<lparr>cl_writer := w\<rparr>) h"
  using assms stream_ok_idle [of "cl_writer c" w] by (simp add: link_inv_def)

lemma link_inv_Select:
  assumes inv: "link_inv n (k, c) h" and sel: "writeLoop_select src c = Some c'"
  shows "link_inv n (k, c') h"
proof (cases "cl_writer c")
  case AtTop
  then show ?thesis
    using sel recv_link_inv [OF inv] link_inv_moved [OF inv] by (cases src) (auto split: if_splits)
next
  case NoControl
  then show ?thesis
    using sel recv_link_inv [OF inv] link_inv_moved [OF inv] by (cases src) (auto split: if_splits)
next
  case Idle
  then show ?thesis
    using sel recv_link_inv [OF inv] by (cases src) (auto split: if_splits)
qed (use sel in auto)

lemma link_inv_WriteOne:
  assumes inv: "link_inv n (k, c) h" and w: "writeLoop_write ok now (k, c) = Some s'"
  shows "link_inv n s' (log_event (WriteOne ok now) (k, c) h)"
proof -
  obtain m where m: "cl_writer c = Holding m" using w by (auto simp: writeLoop_write_def split: writer.splits)
  have past: "epoch_past (cl_mediaEpoch c) (cl_mediaPaused c) m" and rest: "list_all (epoch_past (cl_mediaEpoch c) (cl_mediaPaused c)) (cl_control c)"
    using inv m by (simp_all add: link_inv_def hand_ok_def)
  have hand: "hand_video (cl_mediaEpoch c) (Holding m) =
      (if \<not> stale c m \<and> om_type m = BinaryMessage \<and> lane_video (om_data m) then [om_data m] else [])"
    using past by (auto simp: hand_video_def video_msg_def stale_def epoch_past_def)
  consider "stale c m" | "\<not> stale c m" "ok" | "\<not> stale c m" "\<not> ok" by blast
  then show ?thesis
  proof cases
    case 1
    then show ?thesis
      using inv w m hand rest by (auto simp: writeLoop_write_def writeOne_def link_inv_def stream_ok_def hand_ok_def
          hand_video_def [of _ AtTop])
  next
    case 2
    then show ?thesis
      using inv w m hand rest by (auto simp: writeLoop_write_def writeOne_def link_inv_def stream_ok_def hand_ok_def
          hand_video_def [of _ AtTop])
  next
    case 3
    then have "s' = (k, c\<lparr>cl_closed := True, cl_writer := Returned\<rparr>)"
      using w m by (simp add: writeLoop_write_def writeOne_def)
    then show ?thesis
      using inv m rest 3 by (auto simp: link_inv_def hand_ok_def intro: stream_ok_Returned)
  qed
qed

lemma link_inv_step:
  assumes inv: "link_inv n s h" and n: "Suc n < 2 ^ 64" and step: "link_step e s = Some t"
  shows "link_inv (Suc n) t (log_event e s h)"
proof -
  obtain k c where s: "s = (k, c)" by (cases s)
  have "link_inv n t (log_event e s h)" if "\<forall>p. e \<noteq> Pause p"
  proof (cases e)
    case (SendText pick data)
    then show ?thesis using step s link_inv_text(1) [of n k c h pick data] inv by (simp add: link_inv_def)
  next
    case (SendClock pick a b)
    then show ?thesis using step s link_inv_text(2) [of n k c h pick a b] inv by (simp add: link_inv_def)
  next
    case (SendBin data)
    then show ?thesis using step s link_inv_SendBin [of n k c h data] inv by auto
  next
    case (Select src)
    then show ?thesis using step s inv by (auto intro: link_inv_Select)
  next
    case (WriteOne ok now)
    then show ?thesis using step s inv link_inv_WriteOne by auto
  qed (use step s inv that in \<open>auto simp: link_inv_def Close_def\<close>)
  moreover have "link_inv (Suc n) t (log_event e s h)" if "e = Pause p" for p
    using link_inv_Pause [of n k c h p] inv n s step that by (simp del: log_event.simps)
  ultimately show ?thesis
    using link_inv_mono [of n t _ "Suc n"] by (metis Suc_n_not_le_n nat_le_linear)
qed

lemma link_inv_run:
  assumes "link_run (k, new_client d) empty_history es s h" "length es < 2 ^ 64"
  shows "link_inv (length es) s h"
  using assms(1)
proof (rule link_run_invariant)
  show "link_inv 0 (k, new_client d) empty_history"
    by (simp add: link_inv_def new_client_def empty_history_def lanes_ok_def hand_ok_def stream_ok_def
        hand_video_def sel_Nil)
qed (use assms(2) in \<open>auto intro: link_inv_step\<close>)

section \<open>Text messages\<close>

definition texts :: "out_msg list \<Rightarrow> out_msg list" where
  "texts ms = filter (\<lambda>m. om_type m = TextMessage) ms"

lemma texts_simps [simp]:
  "texts [] = []" "texts (xs @ ys) = texts xs @ texts ys"
  "texts (m # ms) = (if om_type m = TextMessage then m # texts ms else texts ms)"
  by (simp_all add: texts_def)

definition texts_ok :: "link \<Rightarrow> history \<Rightarrow> bool" where
  "texts_ok s h \<longleftrightarrow> (case s of (k, c) \<Rightarrow>
     (if cl_writer c = Returned then \<exists>lost. hs_control h = texts (map fst (hs_log h)) @ lost
      else hs_control h = texts (map fst (hs_log h)) @ texts (in_hand (cl_writer c)) @ texts (cl_control c)) \<and>
     list_all (\<lambda>m. om_type m \<noteq> TextMessage) (cl_video c @ cl_audio c) \<and>
     cl_socket c = map (\<lambda>(m, now). (om_type m, wire_data m now)) (hs_log h))"

lemma accepted_texts:
  "cl_control c' = cl_control c @ ms \<Longrightarrow> accepted (k, c) (k', c') = texts ms"
  by (simp add: accepted_def texts_def)

lemma texts_ok_send_control:
  assumes ok: "texts_ok (k, c) h"
  shows "texts_ok (fst (send_control pick close m (k, c)))
    (h\<lparr>hs_control := hs_control h @ accepted (k, c) (fst (send_control pick close m (k, c)))\<rparr>)"
proof (cases rule: send_control_effect [of c pick close m k])
  case sent
  then show ?thesis
    using ok accepted_texts [of "c\<lparr>cl_control := cl_control c @ [m]\<rparr>" c "[m]" k k]
    by (auto simp: texts_ok_def)
next
  case (failed k' b e)
  then show ?thesis using ok by (simp add: texts_ok_def accepted_def)
qed

lemma texts_ok_frame:
  assumes "texts_ok (k, c) h" "cl_writer c' = cl_writer c" "cl_control c' = cl_control c" "cl_socket c' = cl_socket c"
    "list_all (\<lambda>m. om_type m \<noteq> TextMessage) (cl_video c' @ cl_audio c')"
    "hs_control h' = hs_control h" "hs_log h' = hs_log h"
  shows "texts_ok (k', c') h'"
  using assms by (simp add: texts_ok_def)

lemma texts_ok_SendBin:
  assumes ok: "texts_ok (k, c) h"
  shows "texts_ok (fst (SendBinary data (k, c))) (log_event (SendBin data) (k, c) h)"
proof (cases rule: SendBinary_cases [of c data k])
  case paused
  then show ?thesis using ok by simp
next
  case audio
  let ?m = "\<lparr>om_type = BinaryMessage, om_data = data, om_clock = None, om_epoch = cl_mediaEpoch c\<rparr>"
  obtain k' q where "fst (send_audio ?m (k, c)) = (k', c\<lparr>cl_audio := q\<rparr>)" "set q \<subseteq> insert ?m (set (cl_audio c))"
    using send_audio_effect .
  then show ?thesis
    using audio ok unfolding audio(3)
    by (auto intro!: texts_ok_frame [OF ok] simp: texts_ok_def list_all_iff message_types)
next
  case video
  let ?m = "\<lparr>om_type = BinaryMessage, om_data = data, om_clock = None, om_epoch = cl_mediaEpoch c\<rparr>"
  show ?thesis
    unfolding video(4)
    by (cases rule: send_video_cases [of c ?m k])
       (use ok in \<open>auto intro!: texts_ok_frame [OF ok] simp: texts_ok_def list_all_iff message_types\<close>)
next
  case other
  show ?thesis
    unfolding other(4)
    by (cases rule: send_control_effect [of c False False "\<lparr>om_type = BinaryMessage, om_data = data, om_clock = None, om_epoch = cl_mediaEpoch c\<rparr>" k])
       (use ok in \<open>auto simp: texts_ok_def message_types\<close>)
qed

lemma recv_texts_ok:
  assumes ok: "texts_ok (k, c) h" and w: "in_hand (cl_writer c) = []" "cl_writer c \<noteq> Returned"
  shows "recv_done c = Some c' \<Longrightarrow> texts_ok (k, c') h"
    "recv_control c = Some c' \<Longrightarrow> texts_ok (k, c') h"
    "recv_video c = Some c' \<Longrightarrow> texts_ok (k, c') h"
    "recv_audio c = Some c' \<Longrightarrow> texts_ok (k, c') h"
    "in_hand v = [] \<Longrightarrow> v \<noteq> Returned \<Longrightarrow> texts_ok (k, c\<lparr>cl_writer := v\<rparr>) h"
    "texts_ok (k, c\<lparr>cl_writer := Holding ping_msg\<rparr>) h"
  using ok w
  by (auto simp: texts_ok_def recv_done_def recv_control_def recv_video_def recv_audio_def ping_msg_def message_types
      split: list.splits if_splits)

lemma texts_ok_Select:
  assumes ok: "texts_ok (k, c) h" and sel: "writeLoop_select src c = Some c'"
  shows "texts_ok (k, c') h"
proof (cases "cl_writer c")
  case AtTop
  then show ?thesis using sel recv_texts_ok [OF ok] by (cases src) (auto split: if_splits)
next
  case NoControl
  then show ?thesis using sel recv_texts_ok [OF ok] by (cases src) (auto split: if_splits)
next
  case Idle
  then show ?thesis using sel recv_texts_ok [OF ok] by (cases src) (auto split: if_splits)
qed (use sel in auto)

lemma texts_ok_WriteOne:
  assumes ok: "texts_ok (k, c) h" and w: "writeLoop_write b now (k, c) = Some s'"
  shows "texts_ok s' (log_event (WriteOne b now) (k, c) h)"
proof -
  obtain m where m: "cl_writer c = Holding m" using w by (auto simp: writeLoop_write_def split: writer.splits)
  have "stale c m \<Longrightarrow> om_type m \<noteq> TextMessage" by (auto simp: stale_def message_types)
  then show ?thesis
    using ok w m by (auto simp: texts_ok_def writeLoop_write_def writeOne_def split: if_splits)
qed

lemma texts_ok_step:
  assumes ok: "texts_ok s h" and step: "link_step e s = Some t"
  shows "texts_ok t (log_event e s h)"
proof -
  obtain k c where s: "s = (k, c)" by (cases s)
  show ?thesis
  proof (cases e)
    case (SendText pick data)
    then show ?thesis
      using step s ok texts_ok_send_control [of k c h pick True] by (auto simp: client_write_def)
  next
    case (SendClock pick a b)
    then show ?thesis
      using step s ok texts_ok_send_control [of k c h pick True] by (auto simp: sendClock_def)
  next
    case (SendBin data)
    then show ?thesis using step s texts_ok_SendBin [of k c h data] ok by auto
  next
    case (Select src)
    then show ?thesis using step s ok by (auto intro: texts_ok_Select)
  next
    case (WriteOne b now)
    then show ?thesis using step s ok texts_ok_WriteOne by auto
  qed (use step s ok in \<open>auto simp: texts_ok_def Close_def SetMediaPaused_def\<close>)
qed

lemma texts_ok_run:
  assumes "link_run (k, new_client d) empty_history es s h"
  shows "texts_ok s h"
proof (rule link_run_invariant [OF assms, where P = "\<lambda>_. texts_ok"])
  show "texts_ok (k, new_client d) empty_history"
    by (simp add: texts_ok_def new_client_def empty_history_def)
qed (rule texts_ok_step)

section \<open>The pause boundary\<close>

definition all_msgs :: "client \<Rightarrow> out_msg set" where
  "all_msgs c = set (in_hand (cl_writer c) @ cl_control c @ cl_video c @ cl_audio c)"

definition fresh_msg :: "link_event \<Rightarrow> client \<Rightarrow> out_msg \<Rightarrow> bool" where
  \<comment> \<open>a message the event may have queued: not binary, or submitted by it in the current epoch\<close>
  "fresh_msg e c m \<longleftrightarrow> om_type m \<noteq> BinaryMessage \<or>
     e = SendBin (om_data m) \<and> om_epoch m = cl_mediaEpoch c \<and> om_clock m = None"

lemma send_control_msgs:
  "all_msgs (snd (fst (send_control pick close m (k, c)))) \<subseteq> insert m (all_msgs c)"
  by (cases rule: send_control_effect [of c pick close m k]) (auto simp: all_msgs_def)

lemma SendBinary_msgs:
  assumes "m \<in> all_msgs (snd (fst (SendBinary data (k, c))))"
  shows "m \<in> all_msgs c \<or> m = \<lparr>om_type = BinaryMessage, om_data = data, om_clock = None, om_epoch = cl_mediaEpoch c\<rparr>"
    (is "_ \<or> m = ?m")
proof (cases rule: SendBinary_cases [of c data k])
  case audio
  obtain k' q where q: "fst (send_audio ?m (k, c)) = (k', c\<lparr>cl_audio := q\<rparr>)" "set q \<subseteq> insert ?m (set (cl_audio c))"
    using send_audio_effect .
  then show ?thesis using assms unfolding audio(3) by (auto simp: all_msgs_def)
next
  case video
  show ?thesis
    using assms unfolding video(4)
    by (cases rule: send_video_cases [of c ?m k]) (auto simp: all_msgs_def)
next
  case other
  show ?thesis using assms send_control_msgs unfolding other(4) by blast
qed (use assms in simp)

lemma writer_msgs:
  "writeLoop_select src c = Some c' \<Longrightarrow> all_msgs c' \<subseteq> insert ping_msg (all_msgs c)"
  "writeLoop_write ok now (k, c) = Some s' \<Longrightarrow> all_msgs (snd s') \<subseteq> all_msgs c"
  by (auto simp: all_msgs_def writeLoop_write_def writeOne_def recv_done_def recv_control_def recv_video_def
      recv_audio_def split: writer.splits source.splits list.splits if_splits prod.splits)

lemma step_msgs:
  assumes "link_step e (k, c) = Some (k', c')" "m \<in> all_msgs c'"
  shows "m \<in> all_msgs c \<or> fresh_msg e c m"
proof (cases e)
  case (SendText pick data)
  let ?m = "\<lparr>om_type = TextMessage, om_data = data, om_clock = None, om_epoch = 0\<rparr>"
  have "c' = snd (fst (send_control pick True ?m (k, c)))"
    using assms(1) SendText by (auto simp: client_write_def)
  then show ?thesis using assms(2) send_control_msgs [of pick True ?m k c] by (auto simp: fresh_msg_def message_types)
next
  case (SendClock pick a b)
  let ?m = "\<lparr>om_type = TextMessage, om_data = [], om_clock = Some \<lparr>cr_clientSendNS = a, cr_backendRecvNS = b\<rparr>, om_epoch = 0\<rparr>"
  have "c' = snd (fst (send_control pick True ?m (k, c)))"
    using assms(1) SendClock by (auto simp: sendClock_def)
  then show ?thesis using assms(2) send_control_msgs [of pick True ?m k c] by (auto simp: fresh_msg_def message_types)
next
  case (SendBin data)
  then show ?thesis using assms SendBinary_msgs [of m data k c] by (auto simp: fresh_msg_def)
next
  case (Select src)
  then show ?thesis using assms writer_msgs(1) [of src c c'] by (auto simp: fresh_msg_def ping_msg_def message_types)
next
  case (WriteOne ok now)
  then show ?thesis using assms writer_msgs(2) [of ok now k c "(k', c')"] by auto
qed (use assms in \<open>auto simp: all_msgs_def SetMediaPaused_def Close_def split: if_splits\<close>)

lemma SendBinary_frame:
  "cl_mediaEpoch (snd (fst (SendBinary data (k, c)))) = cl_mediaEpoch c \<and>
   cl_socket (snd (fst (SendBinary data (k, c)))) = cl_socket c"
proof (cases rule: SendBinary_cases [of c data k])
  case audio
  obtain k' q where "fst (SendBinary data (k, c)) = (k', c\<lparr>cl_audio := q\<rparr>)"
    using send_audio_effect unfolding audio(3) by metis
  then show ?thesis by simp
next
  case video
  show ?thesis unfolding video(4)
    by (cases rule: send_video_cases [of c "\<lparr>om_type = BinaryMessage, om_data = data, om_clock = None, om_epoch = cl_mediaEpoch c\<rparr>" k])
       simp_all
next
  case other
  show ?thesis unfolding other(4)
    by (cases rule: send_control_effect [of c False False "\<lparr>om_type = BinaryMessage, om_data = data, om_clock = None, om_epoch = cl_mediaEpoch c\<rparr>" k])
       simp_all
qed simp

lemma send_control_frame:
  "cl_mediaEpoch (snd (fst (send_control pick close m (k, c)))) = cl_mediaEpoch c \<and>
   cl_socket (snd (fst (send_control pick close m (k, c)))) = cl_socket c"
  by (cases rule: send_control_effect [of c pick close m k]) simp_all

lemma select_frame:
  "writeLoop_select src c = Some c' \<Longrightarrow> cl_mediaEpoch c' = cl_mediaEpoch c \<and> cl_socket c' = cl_socket c"
  by (auto simp: recv_done_def recv_control_def recv_video_def recv_audio_def
      split: writer.splits source.splits list.splits if_splits)

lemma step_frame:
  assumes step: "link_step e (k, c) = Some (k', c')"
  shows "(cl_mediaEpoch c' = cl_mediaEpoch c \<or> cl_mediaEpoch c' = cl_mediaEpoch c + 1 \<and> (\<exists>p. e = Pause p)) \<and>
    (cl_socket c' = cl_socket c \<or>
     (\<exists>m now. cl_writer c = Holding m \<and> \<not> stale c m \<and> cl_socket c' = cl_socket c @ [(om_type m, wire_data m now)]))"
proof (cases e)
  case (SendText pick data)
  then have "(k', c') = fst (send_control pick True \<lparr>om_type = TextMessage, om_data = data, om_clock = None, om_epoch = 0\<rparr> (k, c))"
    using step by (simp add: client_write_def)
  then show ?thesis using send_control_frame [of pick True _ k c] by (metis snd_conv)
next
  case (SendClock pick a b)
  then have "(k', c') = fst (send_control pick True \<lparr>om_type = TextMessage, om_data = [],
      om_clock = Some \<lparr>cr_clientSendNS = a, cr_backendRecvNS = b\<rparr>, om_epoch = 0\<rparr> (k, c))"
    using step by (simp add: sendClock_def)
  then show ?thesis using send_control_frame [of pick True _ k c] by (metis snd_conv)
next
  case (SendBin data)
  then have "(k', c') = fst (SendBinary data (k, c))" using step by simp
  then show ?thesis using SendBinary_frame [of data k c] by (metis snd_conv)
next
  case (Select src)
  then show ?thesis using step select_frame [of src c c'] by auto
next
  case (WriteOne ok now)
  then obtain m where m: "cl_writer c = Holding m" using step by (auto simp: writeLoop_write_def split: writer.splits)
  then show ?thesis using step WriteOne by (auto simp: writeLoop_write_def writeOne_def split: if_splits)
qed (use step in \<open>auto simp: SetMediaPaused_def Close_def split: if_splits\<close>)

lemmas step_epoch = step_frame [THEN conjunct1]
lemmas step_socket = step_frame [THEN conjunct2]

definition since_pause :: "bytes set \<Rightarrow> uint64 \<Rightarrow> out_msg \<Rightarrow> bool" where
  \<comment> \<open>a binary message is of an earlier epoch than \<open>e\<close> or one of those submitted since\<close>
  "since_pause D e m \<longleftrightarrow> om_type m = BinaryMessage \<longrightarrow>
     unat (om_epoch m) < unat e \<or> om_epoch m = e \<and> om_data m \<in> D \<and> om_clock m = None"

definition written_since :: "bytes set \<Rightarrow> (nat \<times> bytes) list \<Rightarrow> bool" where
  "written_since D out \<longleftrightarrow>
     (\<forall>(t, x)\<in>set out. t = BinaryMessage \<longrightarrow> (\<exists>d\<in>D. \<exists>now. x = StampSocketWrite d now))"

definition boundary_ok :: "bytes set \<Rightarrow> (nat \<times> bytes) list \<Rightarrow> nat \<Rightarrow> link \<Rightarrow> bool" where
  "boundary_ok D old n s \<longleftrightarrow> (case s of (k, c) \<Rightarrow>
     unat (cl_mediaEpoch c) \<le> n \<and> (\<forall>m\<in>all_msgs c. since_pause D (cl_mediaEpoch c) m) \<and>
     (\<exists>new. cl_socket c = old @ new \<and> written_since D new))"

lemma boundary_step:
  assumes ok: "boundary_ok D old n s" and n: "Suc n < 2 ^ 64" and step: "link_step e s = Some t"
    and D: "\<And>d. e = SendBin d \<Longrightarrow> d \<in> D"
  shows "boundary_ok D old (Suc n) t"
proof -
  obtain k c where s: "s = (k, c)" by (cases s)
  obtain k' c' where t: "t = (k', c')" by (cases t)
  have st: "link_step e (k, c) = Some (k', c')" using step s t by simp
  have en: "unat (cl_mediaEpoch c) \<le> n" using ok s by (simp add: boundary_ok_def)
  have bump: "unat (cl_mediaEpoch c + 1) = unat (cl_mediaEpoch c) + 1"
    using en n by (simp add: unat_word_ariths)
  have old_msg: "since_pause D (cl_mediaEpoch c') m" if "since_pause D (cl_mediaEpoch c) m" for m
    using that step_epoch [OF st] bump by (auto simp: since_pause_def)
  have "since_pause D (cl_mediaEpoch c') m" if "m \<in> all_msgs c'" for m
    using step_msgs [OF st that] ok s old_msg step_epoch [OF st] D
    by (auto simp: boundary_ok_def fresh_msg_def since_pause_def)
  moreover have "unat (cl_mediaEpoch c') \<le> Suc n" using step_epoch [OF st] bump en by auto
  moreover have "\<exists>new. cl_socket c' = old @ new \<and> written_since D new"
  proof -
    obtain new where new: "cl_socket c = old @ new" "written_since D new"
      using ok s by (auto simp: boundary_ok_def)
    have "\<exists>d\<in>D. \<exists>now'. wire_data m now = StampSocketWrite d now'"
      if "cl_writer c = Holding m" "\<not> stale c m" "om_type m = BinaryMessage" for m now
    proof -
      have "m \<in> all_msgs c" using that(1) by (simp add: all_msgs_def)
      then have "since_pause D (cl_mediaEpoch c) m" using ok s by (simp add: boundary_ok_def)
      then show ?thesis using that by (auto simp: since_pause_def stale_def wire_data_def)
    qed
    then show ?thesis using step_socket [OF st] new by (auto simp: written_since_def)
  qed
  ultimately show ?thesis by (simp add: boundary_ok_def t)
qed

lemma reachable_msgs_past:
  assumes "link_run (k, new_client d) empty_history es (k', c) h" "length es < 2 ^ 64" "m \<in> all_msgs c"
    "om_type m = BinaryMessage"
  shows "unat (om_epoch m) \<le> unat (cl_mediaEpoch c)" "unat (cl_mediaEpoch c) \<le> length es"
proof -
  have inv: "link_inv (length es) (k', c) h" by (rule link_inv_run [OF assms(1,2)])
  then show "unat (cl_mediaEpoch c) \<le> length es" by (simp add: link_inv_def hand_ok_def)
  show "unat (om_epoch m) \<le> unat (cl_mediaEpoch c)"
    using inv assms(3,4)
    by (auto simp: link_inv_def all_msgs_def hand_ok_def lanes_ok_def list_all_iff epoch_past_def video_msg_def audio_msg_def)
qed

section \<open>The lanes as queues\<close>

definition audio_enq :: "out_msg \<Rightarrow> client \<Rightarrow> client" where
  "audio_enq m c = snd (fst (send_audio m (zero_counters, c)))"

definition video_enq :: "out_msg \<Rightarrow> client \<Rightarrow> client" where
  "video_enq m c = snd (fst (send_video m (zero_counters, c)))"

definition control_enq :: "out_msg \<Rightarrow> client \<Rightarrow> client" where
  "control_enq m c = snd (fst (send_control False True m (zero_counters, c)))"

interpretation audio_lane: newest_queue audio_enq cl_audio audioQueueCap
proof
  fix m q
  show "length (cl_audio q) \<le> audioQueueCap \<Longrightarrow> length (cl_audio (audio_enq m q)) \<le> audioQueueCap"
    "length (cl_audio q) \<le> audioQueueCap \<Longrightarrow> cl_audio (audio_enq m q) \<noteq> [] \<and> last (cl_audio (audio_enq m q)) = m"
    unfolding audio_enq_def
    by (simp_all add: audio_push push_newest_def) (auto simp: lastn_def audioQueueCap_def)
  show "subseq (cl_audio (audio_enq m q)) (cl_audio q @ [m])"
    by (auto simp: audio_enq_def send_audio_def chan_send_def Let_def)
qed

interpretation video_lane: lossy_queue video_enq cl_video videoQueueCap
proof
  fix m q
  show "length (cl_video q) \<le> videoQueueCap \<Longrightarrow> length (cl_video (video_enq m q)) \<le> videoQueueCap"
    by (cases rule: send_video_cases [of q m zero_counters]) (simp_all add: video_enq_def videoQueueCap_def)
  show "subseq (cl_video (video_enq m q)) (cl_video q @ [m])"
    by (cases rule: send_video_cases [of q m zero_counters]) (simp_all add: video_enq_def)
qed

interpretation control_lane: lossy_queue control_enq cl_control controlQueueCap
proof
  fix m q
  show "length (cl_control q) \<le> controlQueueCap \<Longrightarrow> length (cl_control (control_enq m q)) \<le> controlQueueCap"
    by (cases rule: send_control_effect [of q False True m zero_counters]) (simp_all add: control_enq_def)
  show "subseq (cl_control (control_enq m q)) (cl_control q @ [m])"
    by (cases rule: send_control_effect [of q False True m zero_counters]) (simp_all add: control_enq_def)
qed

definition lanes_bounded :: "client \<Rightarrow> bool" where
  "lanes_bounded c \<longleftrightarrow> length (cl_control c) \<le> controlQueueCap \<and> length (cl_video c) \<le> videoQueueCap \<and>
     length (cl_audio c) \<le> audioQueueCap"

lemma lanes_bounded_control:
  "lanes_bounded c \<Longrightarrow> lanes_bounded (snd (fst (send_control pick close m (k, c))))"
  by (cases rule: send_control_effect [of c pick close m k]) (simp_all add: lanes_bounded_def)

lemma lanes_bounded_SendBin: "lanes_bounded c \<Longrightarrow> lanes_bounded (snd (fst (SendBinary data (k, c))))"
proof (cases rule: SendBinary_cases [of c data k])
  case audio
  assume b: "lanes_bounded c"
  let ?m = "\<lparr>om_type = BinaryMessage, om_data = data, om_clock = None, om_epoch = cl_mediaEpoch c\<rparr>"
  obtain k' q where q: "fst (send_audio ?m (k, c)) = (k', c\<lparr>cl_audio := q\<rparr>)" using send_audio_effect by metis
  then have "length q \<le> audioQueueCap" using audio_push [of c ?m k] b by (simp add: lanes_bounded_def push_newest_def)
  then show ?thesis using q b unfolding audio(3) by (simp add: lanes_bounded_def)
next
  case video
  assume b: "lanes_bounded c"
  show ?thesis unfolding video(4)
    by (cases rule: send_video_cases [of c "\<lparr>om_type = BinaryMessage, om_data = data, om_clock = None, om_epoch = cl_mediaEpoch c\<rparr>" k])
       (use b in \<open>simp_all add: lanes_bounded_def videoQueueCap_def\<close>)
next
  case other
  assume "lanes_bounded c"
  then show ?thesis unfolding other(4) by (rule lanes_bounded_control)
qed simp

lemma lanes_bounded_step:
  assumes b: "lanes_bounded (snd s)" and step: "link_step e s = Some t"
  shows "lanes_bounded (snd t)"
proof -
  obtain k c where s: "s = (k, c)" by (cases s)
  show ?thesis
  proof (cases e)
    case (SendText pick data)
    then show ?thesis using step s b lanes_bounded_control by (auto simp: client_write_def)
  next
    case (SendClock pick a b')
    then show ?thesis using step s b lanes_bounded_control by (auto simp: sendClock_def)
  next
    case (SendBin data)
    then show ?thesis using step s b lanes_bounded_SendBin [of c data k] by auto
  next
    case (Select src)
    then show ?thesis using step s b
      by (auto simp: lanes_bounded_def recv_done_def recv_control_def recv_video_def recv_audio_def
          split: writer.splits source.splits list.splits if_splits)
  next
    case (WriteOne ok now)
    then show ?thesis using step s b
      by (auto simp: lanes_bounded_def writeLoop_write_def writeOne_def split: writer.splits if_splits prod.splits)
  qed (use step s b in \<open>auto simp: lanes_bounded_def SetMediaPaused_def Close_def\<close>)
qed

section \<open>Examples\<close>

definition video_frame_bytes :: "bool \<Rightarrow> byte \<Rightarrow> bytes" where
  "video_frame_bytes idr x = [0x52, 0x42, 0x52, 0x31, FrameTypeVideo, if idr then 1 else 0, x]"

definition sample_link_events :: "link_event list" where
  \<comment> \<open>a key frame reaches the socket\<close>
  "sample_link_events = [SendBin (video_frame_bytes True 1), Select FromDefault, Select FromVideo, WriteOne True 9]"

lemmas link_simps =
  SendBinary_def client_write_def send_video_def lane_audio_def lane_video_def is_idr_def video_frame_bytes_def
  FrameTypeVideo_def FrameTypeAudio_def message_types chan_send_def queue_caps new_client_def Let_def recv_video_def
  writeLoop_write_def writeOne_def stale_def wire_data_def StampSocketWrite_def FrameHeaderBytes_def

lemma sample_link_run:
  "\<exists>s h. link_run (zero_counters, new_client ''dev'') empty_history sample_link_events s h \<and>
     hs_seen h = [video_frame_bytes True 1] \<and> hs_video h = [video_frame_bytes True 1] \<and> snd s = new_client ''dev''\<lparr>cl_socket := [(BinaryMessage, video_frame_bytes True 1)]\<rparr>"
  unfolding sample_link_events_def
  by (intro exI conjI, (rule run_step, simp add: link_simps)+, rule run_done)
     (simp_all add: link_simps empty_history_def)

lemma sample_link:
  obtains s h where "link_run (zero_counters, new_client ''dev'') empty_history sample_link_events s h"
    "hs_seen h = [video_frame_bytes True 1]" "hs_video h = [video_frame_bytes True 1]"
    "snd s = new_client ''dev''\<lparr>cl_socket := [(BinaryMessage, video_frame_bytes True 1)]\<rparr>"
  using sample_link_run by blast

section \<open>Properties\<close>







text \<open>
  The lanes stay within their capacities (64 control, 4 video and 3 audio messages)
  in every reachable state of a connection.
\<close>
theorem lanes_within_capacity:
  assumes "link_run (k, new_client d) empty_history events (k', c) h"
  shows "length (cl_control c) \<le> 64 \<and> length (cl_video c) \<le> 4 \<and> length (cl_audio c) \<le> 3"
proof -
  have "lanes_bounded (snd (k', c))"
  proof (rule link_run_invariant [OF assms, where P = "\<lambda>_ s _. lanes_bounded (snd s)"])
    show "lanes_bounded (snd (k, new_client d))" by (simp add: lanes_bounded_def new_client_def)
  qed (rule lanes_bounded_step)
  then show ?thesis by (simp add: lanes_bounded_def queue_caps)
qed

theorem lanes_within_capacity_witness:
  "\<exists>k' c h. link_run (zero_counters, new_client ''dev'') empty_history sample_link_events (k', c) h \<and>
     length (cl_video c) \<le> 4"
proof (rule sample_link)
  fix s h
  assume r: "link_run (zero_counters, new_client ''dev'') empty_history sample_link_events s h"
  obtain k' c where s: "s = (k', c)" by (cases s)
  show ?thesis using r lanes_within_capacity [OF r [unfolded s]] s by blast
qed

text \<open>
  The frames the media pipelines encode reach the lanes meant for them:
  \<^verbatim>\<open>EncodeVideo\<close> output goes to the video lane and is taken for an IDR exactly when it was encoded as
  one, \<^verbatim>\<open>EncodeAudioPCM\<close> output goes to the audio lane, and the stamp written on the way to the
  socket changes neither.
\<close>
theorem encoded_frames_find_their_lane:
  "lane_video (EncodeVideo meta idr au) \<and> \<not> lane_audio (EncodeVideo meta idr au) \<and>
   is_idr (EncodeVideo meta idr au) = idr \<and>
   lane_audio (EncodeAudioPCM seq rate channels pcm) \<and> \<not> lane_video (EncodeAudioPCM seq rate channels pcm) \<and>
   lane_video (StampSocketWrite f ns) = lane_video f \<and> lane_audio (StampSocketWrite f ns) = lane_audio f \<and>
   is_idr (StampSocketWrite f ns) = is_idr f"
proof -
  have len: "length (EncodeVideo meta idr au) = 84 + length au"
    by (simp add: EncodeVideo_def Let_def FrameHeaderBytes_def)
  have stamp: "length (StampSocketWrite f ns) = length f" "StampSocketWrite f ns ! 4 = f ! 4"
    "StampSocketWrite f ns ! 5 = f ! 5"
    by (auto simp: StampSocketWrite_def FrameHeaderBytes_def go_slice)
  show ?thesis
    using len stamp EncodeAudioPCM_lane [of seq rate channels pcm]
    by (simp add: lane_video_def lane_audio_def is_idr_def EncodeVideo_header FrameTypeVideo_def FrameTypeAudio_def
        FrameHeaderBytes_def)
qed

section \<open>Draining while the writer runs\<close>

text \<open>
  \<^verbatim>\<open>write\<close> empties a full video lane one receive at a time while \<^verbatim>\<open>writeLoop\<close>, which does not take the
  client's mutex, may receive from the same lane. The state machine above treats the call as
  one step; this section shows what one iteration of the drain loop allows when the write loop
  runs in between: a frame whose predecessor was just discarded is sent.
\<close>

definition drain_one :: "client \<Rightarrow> client" where
  "drain_one c = c\<lparr>cl_video := tl (cl_video c)\<rparr>"

lemma drain_all: "cl_video ((drain_one ^^ length (cl_video c)) c) = []"
proof -
  have "cl_video ((drain_one ^^ n) c) = drop n (cl_video c)" for n
    by (induction n) (simp_all add: drain_one_def drop_Suc drop_tl)
  then show ?thesis by simp
qed

definition racing_client :: client where
  \<comment> \<open>the key frame 0 was written, the frames 1 to 4 fill the lane\<close>
  "racing_client = (new_client ''dev'')\<lparr>
     cl_video := map (\<lambda>x. \<lparr>om_type = BinaryMessage, om_data = video_frame_bytes False x, om_clock = None, om_epoch = 0\<rparr>) [1, 2, 3, 4],
     cl_writer := NoControl, cl_socket := [(BinaryMessage, video_frame_bytes True 0)]\<rparr>"

theorem drain_race:
  "map_option (\<lambda>s. cl_socket (snd s))
     (Option.bind (writeLoop_select FromVideo (drain_one racing_client)) (\<lambda>c. writeLoop_write True 7 (zero_counters, c))) =
   Some [(BinaryMessage, video_frame_bytes True 0), (BinaryMessage, video_frame_bytes False 2)] \<and>
   \<not> decodable is_idr (video_frame_bytes True 0 # map (video_frame_bytes False) [1, 2, 3, 4, 5])
       [video_frame_bytes True 0, video_frame_bytes False 2]"
proof
  show "map_option (\<lambda>s. cl_socket (snd s))
     (Option.bind (writeLoop_select FromVideo (drain_one racing_client)) (\<lambda>c. writeLoop_write True 7 (zero_counters, c))) =
   Some [(BinaryMessage, video_frame_bytes True 0), (BinaryMessage, video_frame_bytes False 2)]"
    by (simp add: racing_client_def drain_one_def link_simps)
  let ?sent = "video_frame_bytes True 0 # map (video_frame_bytes False) [1, 2, 3, 4, 5]"
  show "\<not> decodable is_idr ?sent [video_frame_bytes True 0, video_frame_bytes False 2]"
  proof
    assume "decodable is_idr ?sent [video_frame_bytes True 0, video_frame_bytes False 2]"
    then obtain ixs where ixs: "[video_frame_bytes True 0, video_frame_bytes False 2] = map (\<lambda>i. ?sent ! i) ixs"
      "\<forall>i\<in>set ixs. i < length ?sent"
      "\<forall>k<length ixs. is_idr (?sent ! (ixs ! k)) \<or> (if k = 0 then ixs ! 0 = 0 else ixs ! k = Suc (ixs ! (k - 1)))"
      unfolding decodable_def by (elim exE conjE) (rule that)
    have "length ixs = 2" using arg_cong [OF ixs(1), of length] by simp
    then obtain i j where ij: "ixs = [i, j]" by (auto simp: length_Suc_conv numeral_2_eq_2)
    have i: "i < 6" "j < 6" using ixs(2) ij by simp_all
    have at: "?sent ! i = video_frame_bytes True 0" "?sent ! j = video_frame_bytes False 2"
      using ixs(1) unfolding ij list.map by (metis list.inject)+
    have "i \<in> {0, 1, 2, 3, 4, 5}" "j \<in> {0, 1, 2, 3, 4, 5}" using i by auto
    then have "i = 0" "j = 2" using at by (elim insertE emptyE; simp add: video_frame_bytes_def)+
    moreover have "is_idr (?sent ! j) \<or> j = Suc i" using ixs(3) [rule_format, of 1] ij by simp
    ultimately show False by (simp add: is_idr_def video_frame_bytes_def)
  qed
qed

end
