(* ===== verification/Go_Float.thy ===== *)
theory Go_Float
  imports Complex_Main Surf_Prelude
begin

text \<open>
  Go's \<^verbatim>\<open>float64\<close>: IEEE 754 binary64 with round-to-nearest-even, computed exactly on rationals. A
  finite value is the rational it denotes (the sign of zero is not kept: none of the modelled
  code can observe it), and every arithmetic operation is the exact result followed by
  \<open>round_f64\<close>. What the clients use is that rounding is monotone and exact on representable
  numbers, so that a bound by a representable number survives it.
\<close>

section \<open>Values and rounding\<close>

datatype f64 = Fin rat | Inf bool | NaN  \<comment> \<open>\<open>Inf True\<close> is minus infinity\<close>

definition round_half_even :: "rat \<Rightarrow> int" where
  "round_half_even q =
    (let f = \<lfloor>q\<rfloor>; r = q - of_int f
     in if r < 1 / 2 then f else if r > 1 / 2 then f + 1 else if even f then f else f + 1)"

definition exponent_of :: "rat \<Rightarrow> int" where
  \<comment> \<open>the largest \<open>e\<close> with \<open>2^e \<le> q\<close>, for \<open>q > 0\<close>\<close>
  "exponent_of q =
    (let (n, d) = quotient_of q; g = int (bit_len (nat n)) - int (bit_len (nat d))
     in if 2 powi g \<le> q then g else g - 1)"

definition ulp_exponent :: "rat \<Rightarrow> int" where
  "ulp_exponent q = max (exponent_of q - 52) (- 1074)"

definition rnd :: "rat \<Rightarrow> rat" where
  \<comment> \<open>rounding of a positive rational, unbounded above\<close>
  "rnd q = of_int (round_half_even (q / 2 powi ulp_exponent q)) * 2 powi ulp_exponent q"

definition max_f64 :: rat where
  "max_f64 = (2 ^ 53 - 1) * 2 ^ 971"

definition rnd_signed :: "rat \<Rightarrow> rat" where
  "rnd_signed q = (if q = 0 then 0 else if q < 0 then - rnd (- q) else rnd q)"

definition round_f64 :: "rat \<Rightarrow> f64" where
  "round_f64 q =
    (let v = rnd_signed q in if max_f64 < v then Inf False else if v < - max_f64 then Inf True else Fin v)"

section \<open>Rounding is monotone and exact\<close>

lemma round_half_even_of_int [simp]: "round_half_even (of_int k) = k"
  by (simp add: round_half_even_def)

lemma round_half_even_floor: "round_half_even q = \<lfloor>q\<rfloor> \<or> round_half_even q = \<lfloor>q\<rfloor> + 1"
  by (simp add: round_half_even_def Let_def)

lemma round_half_even_mono:
  assumes "p \<le> q"
  shows "round_half_even p \<le> round_half_even q"
proof (cases "\<lfloor>p\<rfloor> = \<lfloor>q\<rfloor>")
  case True
  then show ?thesis using assms by (auto simp: round_half_even_def Let_def)
next
  case False
  then have "\<lfloor>p\<rfloor> + 1 \<le> \<lfloor>q\<rfloor>" using floor_mono [OF assms] by linarith
  then show ?thesis using round_half_even_floor [of p] round_half_even_floor [of q] by linarith
qed

lemma exponent_of_bounds:
  assumes q: "0 < q"
  shows "2 powi exponent_of q \<le> q" "q < 2 powi (exponent_of q + 1)"
proof -
  obtain n d where nd: "quotient_of q = (n, d)" by (cases "quotient_of q")
  have d: "0 < d" using quotient_of_denom_pos [OF nd] .
  have qnd: "q = of_int n / of_int d" using quotient_of_div [OF nd] .
  have n: "0 < n" using q d by (simp add: qnd zero_less_divide_iff)
  define a b where "a = bit_len (nat n)" and "b = bit_len (nat d)"
  have nat_n: "2 ^ (a - 1) \<le> nat n" "nat n < 2 ^ a" and nat_d: "2 ^ (b - 1) \<le> nat d" "nat d < 2 ^ b"
    using bit_len_bounds [of "nat n"] bit_len_bounds [of "nat d"] n d by (simp_all add: a_def b_def)
  have pos: "0 < a" "0 < b" using n d unfolding a_def b_def by (subst bit_len.simps; simp)+
  have up: "(of_int n :: rat) < 2 ^ a" "(of_int d :: rat) < 2 ^ b"
    using nat_n(2) nat_d(2) n d by (metis of_int_less_iff of_int_numeral of_int_power of_nat_less_iff of_nat_numeral of_nat_power int_nat_eq less_imp_le)+
  have lo: "(2 ^ (a - 1) :: rat) \<le> of_int n" "(2 ^ (b - 1) :: rat) \<le> of_int d"
    using nat_n(1) nat_d(1) n d by (metis of_int_le_iff of_int_numeral of_int_power of_nat_le_iff of_nat_numeral of_nat_power int_nat_eq less_imp_le)+
  have pa: "(2 :: rat) ^ a = 2 * 2 ^ (a - 1)" and pb: "(2 :: rat) ^ b = 2 * 2 ^ (b - 1)"
    using pos by (cases a; simp) (use pos in \<open>cases b; simp\<close>)
  have g: "(2 :: rat) powi (int a - int b) = 2 ^ a / 2 ^ b"
    by (simp add: power_int_diff)
  have g1: "(2 :: rat) powi (int a - int b + 1) = 2 * 2 ^ a / 2 ^ b"
    using power_int_add [of "2 :: rat" "int a - int b" 1] g by simp
  have dpos: "(0 :: rat) < of_int d" using d by simp
  have hi: "q < 2 powi (int a - int b + 1)"
  proof -
    have "of_int n * 2 ^ b < (2 * 2 ^ a :: rat) * of_int d"
    proof -
      have "of_int n * 2 ^ b < (2 :: rat) ^ a * 2 ^ b" using up(1) by simp
      also have "\<dots> \<le> 2 ^ a * (2 * of_int d)" using lo(2) pb by simp
      finally show ?thesis by simp
    qed
    then show ?thesis unfolding g1 by (simp add: qnd d field_simps)
  qed
  have low: "2 powi (int a - int b - 1) \<le> q"
  proof -
    have "2 ^ a * of_int d \<le> (2 * of_int n :: rat) * 2 ^ b"
    proof -
      have "2 ^ a * of_int d \<le> (2 * of_int n :: rat) * of_int d" using lo(1) pa dpos by (simp add: mult_right_mono)
      also have "\<dots> \<le> (2 * of_int n) * 2 ^ b" using up(2) n by simp
      finally show ?thesis .
    qed
    then have "2 ^ a / (2 * 2 ^ b) \<le> q" by (simp add: qnd d field_simps)
    moreover have "(2 :: rat) powi (int a - int b - 1) = 2 ^ a / (2 * 2 ^ b)"
      using power_int_diff [of "2 :: rat" "int a - int b" 1] g by simp
    ultimately show ?thesis by (simp only:)
  qed
  have e: "exponent_of q = (if 2 powi (int a - int b) \<le> q then int a - int b else int a - int b - 1)"
    by (simp add: exponent_of_def nd a_def b_def)
  show "2 powi exponent_of q \<le> q" "q < 2 powi (exponent_of q + 1)"
    using e hi low by (auto simp: not_le split: if_splits)
qed

lemma powi_pos [simp]: "(0 :: rat) < 2 powi k"
  by (simp add: zero_less_power_int)

lemma powi_mono: "i \<le> j \<Longrightarrow> (2 :: rat) powi i \<le> 2 powi j"
  by (rule power_int_increasing) auto

lemma powi_less_cancel: "(2 :: rat) powi i < 2 powi j \<Longrightarrow> i < j"
  using powi_mono [of j i] by linarith

lemma exponent_of_mono:
  assumes "0 < p" "p \<le> q"
  shows "exponent_of p \<le> exponent_of q"
proof -
  have "(2 :: rat) powi exponent_of p < 2 powi (exponent_of q + 1)"
    using exponent_of_bounds(1) [of p] exponent_of_bounds(2) [of q] assms by linarith
  then show ?thesis using powi_less_cancel by force
qed

lemma powi_int: "0 \<le> k \<Longrightarrow> (2 :: rat) powi k = of_int (2 ^ nat k)"
  by (simp add: power_int_def)

lemma rnd_grid:
  \<comment> \<open>numbers on the grid of \<open>q\<close> bound its rounding\<close>
  assumes "q \<le> of_int k * 2 powi ulp_exponent q"
  shows "rnd q \<le> of_int k * 2 powi ulp_exponent q"
proof -
  have "q / 2 powi ulp_exponent q \<le> of_int k" using assms by (simp add: field_simps)
  then have "round_half_even (q / 2 powi ulp_exponent q) \<le> k"
    using round_half_even_mono by fastforce
  then show ?thesis by (simp add: rnd_def)
qed

lemma rnd_grid_lower:
  assumes "of_int k * 2 powi ulp_exponent q \<le> q"
  shows "of_int k * 2 powi ulp_exponent q \<le> rnd q"
proof -
  have "of_int k \<le> q / 2 powi ulp_exponent q" using assms by (simp add: field_simps)
  then have "k \<le> round_half_even (q / 2 powi ulp_exponent q)"
    using round_half_even_mono by fastforce
  then show ?thesis by (simp add: rnd_def)
qed

lemma rnd_nonneg [simp]: "0 < q \<Longrightarrow> 0 \<le> rnd q"
  using rnd_grid_lower [of 0 q] by simp

lemma powi_grid:
  assumes "u \<le> j"
  shows "(2 :: rat) powi j = of_int (2 ^ nat (j - u)) * 2 powi u"
  using power_int_add [of "2 :: rat" "j - u" u] assms by (simp add: powi_int)

theorem rnd_mono:
  assumes "0 < p" "p \<le> q"
  shows "rnd p \<le> rnd q"
proof (cases "ulp_exponent p = ulp_exponent q")
  case True
  have "round_half_even (p / 2 powi ulp_exponent q) \<le> round_half_even (q / 2 powi ulp_exponent q)"
    using assms by (intro round_half_even_mono) (simp add: divide_right_mono)
  then show ?thesis by (simp add: rnd_def True)
next
  case False
  have e: "exponent_of p \<le> exponent_of q" using exponent_of_mono [OF assms] .
  then have lt: "exponent_of p + 1 \<le> exponent_of q" "ulp_exponent q = exponent_of q - 52"
    using False by (auto simp: ulp_exponent_def max_def split: if_splits)
  let ?b = "(2 :: rat) powi exponent_of q"
  have up: "ulp_exponent p \<le> exponent_of q" using lt e by (simp add: ulp_exponent_def)
  have "p \<le> ?b"
    using exponent_of_bounds(2) [of p] assms powi_mono [OF lt(1)] by linarith
  then have "rnd p \<le> ?b"
    using rnd_grid [of p "2 ^ nat (exponent_of q - ulp_exponent p)"] powi_grid [OF up] by simp
  also have "?b \<le> rnd q"
  proof -
    have uq: "ulp_exponent q \<le> exponent_of q" using lt(2) by simp
    have "?b \<le> q" using exponent_of_bounds(1) [of q] assms by simp
    then show ?thesis
      using rnd_grid_lower [of "2 ^ nat (exponent_of q - ulp_exponent q)" q] powi_grid [OF uq] by simp
  qed
  finally show ?thesis .
qed

definition representable :: "rat \<Rightarrow> bool" where
  "representable x \<longleftrightarrow> (\<exists>m e. x = of_int m * 2 powi e \<and> \<bar>m\<bar> < 2 ^ 53 \<and> - 1074 \<le> e)"

theorem rnd_exact:
  assumes "representable x" "0 < x"
  shows "rnd x = x"
proof -
  obtain m e where x: "x = of_int m * 2 powi e" "\<bar>m\<bar> < 2 ^ 53" "- 1074 \<le> e"
    using assms(1) by (auto simp: representable_def)
  have "x < of_int (2 ^ 53) * 2 powi e" using x(1,2) by (simp only: x(1)) (use x(2) in simp)
  also have "\<dots> = 2 powi (53 + e)" by (subst power_int_add) (simp_all add: powi_int)
  finally have "(2 :: rat) powi exponent_of x < 2 powi (53 + e)"
    using exponent_of_bounds(1) [OF assms(2)] by linarith
  then have "exponent_of x < 53 + e" by (rule powi_less_cancel)
  then have u: "ulp_exponent x \<le> e" using x(3) by (simp add: ulp_exponent_def)
  have "x = of_int (m * 2 ^ nat (e - ulp_exponent x)) * 2 powi ulp_exponent x"
    unfolding of_int_mult by (subst (1) x(1), subst powi_grid [OF u]) simp
  then show ?thesis
    using rnd_grid [of x "m * 2 ^ nat (e - ulp_exponent x)"] rnd_grid_lower [of "m * 2 ^ nat (e - ulp_exponent x)" x]
    by simp
qed

lemma rnd_le: "0 < q \<Longrightarrow> q \<le> x \<Longrightarrow> representable x \<Longrightarrow> rnd q \<le> x"
  using rnd_mono [of q x] rnd_exact [of x] by simp

lemma rnd_ge: "0 < x \<Longrightarrow> x \<le> q \<Longrightarrow> representable x \<Longrightarrow> x \<le> rnd q"
  using rnd_mono [of x q] rnd_exact [of x] by simp

lemma representable_uminus [simp]: "representable (- x) = representable x"
proof -
  have "representable (- x)" if x: "representable x" for x
  proof -
    obtain m e where "x = of_int m * 2 powi e" "\<bar>m\<bar> < 2 ^ 53" "- 1074 \<le> e" using x by (auto simp: representable_def)
    then show ?thesis unfolding representable_def by (intro exI [of _ "- m"] exI [of _ e]) simp
  qed
  from this [of x] this [of "- x"] show ?thesis by auto
qed

lemma representable_0 [simp]: "representable 0"
  unfolding representable_def by (intro exI [of _ 0]) simp

lemma rnd_signed_le:
  assumes "q \<le> x" "representable x"
  shows "rnd_signed q \<le> x"
proof -
  consider "0 < q" | "q = 0" | "q < 0" "0 \<le> x" | "q < 0" "x < 0" by linarith
  then show ?thesis
  proof cases
    case 1
    then show ?thesis using rnd_le [OF 1 assms] by (simp add: rnd_signed_def)
  next
    case 3
    then have "0 \<le> rnd (- q)" by (intro rnd_nonneg) simp
    then have "- rnd (- q) \<le> x" using 3 by linarith
    then show ?thesis using 3 by (simp add: rnd_signed_def)
  next
    case 4
    then show ?thesis using rnd_ge [of "- x" "- q"] assms by (simp add: rnd_signed_def)
  qed (use assms in \<open>simp add: rnd_signed_def\<close>)
qed

lemma rnd_signed_minus: "rnd_signed (- q) = - rnd_signed q"
  by (simp add: rnd_signed_def)

lemma rnd_signed_ge:
  assumes "x \<le> q" "representable x"
  shows "x \<le> rnd_signed q"
  using rnd_signed_le [of "- q" "- x"] assms by (simp add: rnd_signed_minus)

lemma rnd_signed_exact: "representable x \<Longrightarrow> rnd_signed x = x"
  using rnd_signed_le [of x x] rnd_signed_ge [of x x] by simp

lemma representable_dyadic:
  assumes "\<bar>m\<bar> < 2 ^ 53" "k \<le> 1074"
  shows "representable (of_int m / 2 ^ k)"
  unfolding representable_def
  by (intro exI [of _ m] exI [of _ "- int k"]) (use assms in \<open>simp add: power_int_minus field_simps\<close>)

lemma representable_int: "\<bar>m\<bar> < 2 ^ 53 \<Longrightarrow> representable (of_int m)"
  using representable_dyadic [of m 0] by simp

lemma representable_nat: "n < 2 ^ 53 \<Longrightarrow> representable (of_nat n)"
  using representable_int [of "int n"] by simp

lemma representable_scaled: "\<bar>m\<bar> < 2 ^ 53 \<Longrightarrow> representable (of_int m * 2 ^ k)"
  unfolding representable_def by (intro exI [of _ m] exI [of _ "int k"]) simp

lemma representable_max: "representable max_f64"
proof -
  have "(of_int (2 ^ 53 - 1) :: rat) = 2 ^ 53 - 1" by (simp only: of_int_diff of_int_power of_int_numeral of_int_1)
  moreover have "\<bar>2 ^ 53 - 1 :: int\<bar> < 2 ^ 53" by simp
  ultimately show ?thesis unfolding max_f64_def using representable_scaled [of "2 ^ 53 - 1" 971] by metis
qed

lemma round_f64_Fin:
  assumes "\<bar>q\<bar> \<le> max_f64"
  shows "round_f64 q = Fin (rnd_signed q)"
proof -
  have "rnd_signed q \<le> max_f64" by (rule rnd_signed_le [OF _ representable_max]) (use assms in linarith)
  moreover have "- max_f64 \<le> rnd_signed q"
    by (rule rnd_signed_ge) (use assms in linarith, simp add: representable_max)
  ultimately show ?thesis by (simp add: round_f64_def Let_def)
qed

lemma max_f64_big: "2 ^ 1000 \<le> max_f64"
  by (simp add: max_f64_def)

lemma round_f64_small: "\<bar>q\<bar> \<le> 2 ^ 1000 \<Longrightarrow> round_f64 q = Fin (rnd_signed q)"
  using max_f64_big by (intro round_f64_Fin) linarith

lemma round_half_even_error: "of_int (round_half_even q) \<le> q + 1 / 2" "q - 1 / 2 \<le> of_int (round_half_even q)"
  by (auto simp: round_half_even_def Let_def field_simps) linarith+

lemma rnd_error: "rnd q \<le> q + 2 powi ulp_exponent q / 2" "q - 2 powi ulp_exponent q / 2 \<le> rnd q"
proof -
  let ?u = "(2 :: rat) powi ulp_exponent q"
  have "rnd q = of_int (round_half_even (q / ?u)) * ?u" by (simp add: rnd_def)
  moreover have "of_int (round_half_even (q / ?u)) * ?u \<le> (q / ?u + 1 / 2) * ?u" "(q / ?u - 1 / 2) * ?u \<le> of_int (round_half_even (q / ?u)) * ?u"
    using round_half_even_error [of "q / ?u"] by (simp_all add: mult_right_mono)
  ultimately show "rnd q \<le> q + ?u / 2" "q - ?u / 2 \<le> rnd q" by (simp_all add: algebra_simps)
qed

lemma rnd_error_unit:
  assumes "0 < q" "q < 1"
  shows "rnd q \<le> q + 1 / 2 ^ 53" "q - 1 / 2 ^ 53 \<le> rnd q"
proof -
  have "(2 :: rat) powi exponent_of q < 2 powi 0" using exponent_of_bounds(1) [OF assms(1)] assms(2) by simp
  then have "exponent_of q < 0" by (rule powi_less_cancel)
  then have "(2 :: rat) powi ulp_exponent q \<le> 2 powi (- 52)" by (intro powi_mono) (simp add: ulp_exponent_def)
  then have "(2 :: rat) powi ulp_exponent q / 2 \<le> 1 / 2 ^ 53" by (simp add: power_int_minus)
  then show "rnd q \<le> q + 1 / 2 ^ 53" "q - 1 / 2 ^ 53 \<le> rnd q" using rnd_error [of q] by linarith+
qed

section \<open>Operations\<close>

fun f_neg :: "f64 \<Rightarrow> f64" where
  "f_neg (Fin x) = Fin (- x)"
| "f_neg (Inf s) = Inf (\<not> s)"
| "f_neg NaN = NaN"

fun f_add :: "f64 \<Rightarrow> f64 \<Rightarrow> f64" where
  "f_add (Fin x) (Fin y) = round_f64 (x + y)"
| "f_add (Inf s) (Fin _) = Inf s"
| "f_add (Fin _) (Inf s) = Inf s"
| "f_add (Inf s) (Inf t) = (if s = t then Inf s else NaN)"
| "f_add _ _ = NaN"

definition f_sub :: "f64 \<Rightarrow> f64 \<Rightarrow> f64" where
  "f_sub x y = f_add x (f_neg y)"

fun f_mul :: "f64 \<Rightarrow> f64 \<Rightarrow> f64" where
  "f_mul (Fin x) (Fin y) = round_f64 (x * y)"
| "f_mul (Inf s) (Fin y) = (if y = 0 then NaN else Inf (s \<noteq> (y < 0)))"
| "f_mul (Fin x) (Inf s) = (if x = 0 then NaN else Inf (s \<noteq> (x < 0)))"
| "f_mul (Inf s) (Inf t) = Inf (s \<noteq> t)"
| "f_mul _ _ = NaN"

fun f_div :: "f64 \<Rightarrow> f64 \<Rightarrow> f64" where
  "f_div (Fin x) (Fin y) =
     (if y = 0 then (if x = 0 then NaN else Inf (x < 0)) else round_f64 (x / y))"
| "f_div (Inf s) (Fin y) = Inf (s \<noteq> (y < 0))"
| "f_div (Fin _) (Inf _) = Fin 0"
| "f_div _ _ = NaN"

fun f_less :: "f64 \<Rightarrow> f64 \<Rightarrow> bool" where
  "f_less (Fin x) (Fin y) = (x < y)"
| "f_less (Inf s) (Fin _) = s"
| "f_less (Fin _) (Inf s) = (\<not> s)"
| "f_less (Inf s) (Inf t) = (s \<and> \<not> t)"
| "f_less _ _ = False"

fun f_le :: "f64 \<Rightarrow> f64 \<Rightarrow> bool" where
  "f_le (Fin x) (Fin y) = (x \<le> y)"
| "f_le (Inf s) (Fin _) = s"
| "f_le (Fin _) (Inf s) = (\<not> s)"
| "f_le (Inf s) (Inf t) = (s \<or> \<not> t)"
| "f_le _ _ = False"

definition f_eq :: "f64 \<Rightarrow> f64 \<Rightarrow> bool" where
  "f_eq x y \<longleftrightarrow> x = y \<and> x \<noteq> NaN"

definition f_of_int :: "int \<Rightarrow> f64" where
  \<comment> \<open>\<^verbatim>\<open>float64(i)\<close>\<close>
  "f_of_int i = round_f64 (of_int i)"

definition trunc_rat :: "rat \<Rightarrow> int" where
  "trunc_rat x = (if x < 0 then - \<lfloor>- x\<rfloor> else \<lfloor>x\<rfloor>)"

definition int_of_f :: "f64 \<Rightarrow> int" where
  \<comment> \<open>\<^verbatim>\<open>int(x)\<close> on a 64-bit machine; outside the range of \<^verbatim>\<open>int64\<close> amd64 yields the least integer\<close>
  "int_of_f x =
     (case x of
        Fin q \<Rightarrow> if - (2 ^ 63) \<le> trunc_rat q \<and> trunc_rat q < 2 ^ 63 then trunc_rat q else - (2 ^ 63)
      | _ \<Rightarrow> - (2 ^ 63))"

fun f_abs :: "f64 \<Rightarrow> f64" where
  "f_abs (Fin x) = Fin \<bar>x\<bar>"
| "f_abs (Inf _) = Inf False"
| "f_abs NaN = NaN"

definition f_max :: "f64 \<Rightarrow> f64 \<Rightarrow> f64" where
  \<comment> \<open>\<^verbatim>\<open>math.Max\<close>\<close>
  "f_max x y = (if x = Inf False \<or> y = Inf False then Inf False
     else if x = NaN \<or> y = NaN then NaN else if f_less x y then y else x)"

definition f_min :: "f64 \<Rightarrow> f64 \<Rightarrow> f64" where
  \<comment> \<open>\<^verbatim>\<open>math.Min\<close>\<close>
  "f_min x y = (if x = Inf True \<or> y = Inf True then Inf True
     else if x = NaN \<or> y = NaN then NaN else if f_less y x then y else x)"

fun f_floor :: "f64 \<Rightarrow> f64" where
  "f_floor (Fin x) = Fin (of_int \<lfloor>x\<rfloor>)"
| "f_floor x = x"

lemma f_of_int_small: "\<bar>i\<bar> < 2 ^ 53 \<Longrightarrow> f_of_int i = Fin (of_int i)"
proof -
  assume i: "\<bar>i\<bar> < 2 ^ 53"
  then have "\<bar>of_int i :: rat\<bar> < of_int (2 ^ 53)" by (metis of_int_abs of_int_less_iff)
  then have "\<bar>of_int i :: rat\<bar> \<le> 2 ^ 1000" by simp
  then show ?thesis using i by (simp add: f_of_int_def round_f64_small rnd_signed_exact representable_int)
qed

lemma trunc_rat_nonneg: "0 \<le> x \<Longrightarrow> trunc_rat x = \<lfloor>x\<rfloor>"
  by (simp add: trunc_rat_def)

end
