(* ===== verification/Audio_Pipeline.thy ===== *)
theory Audio_Pipeline
  imports Go_Float Lossy_Queue
begin

text \<open>
  The audio pipeline of one tab, \<^verbatim>\<open>backend/internal/media/audio.go\<close>: the window of PCM statistics, the
  subscriptions, and the capture runs whose reader goroutines publish chunks of 20 ms. Every
  operation that takes \<^verbatim>\<open>s.mu\<close> is a function on the pipeline record; the fan-out of a chunk holds
  the lock throughout, and a receive between two of its channel operations has the effect of one
  before or after the turn of that subscription. A capture and the goroutine that reads it share
  an identity; the outcome of \<^verbatim>\<open>cfg.Capture\<close>, the bytes read and the clock are arguments.
\<close>

section \<open>The PCM signal window\<close>

definition sampleRate :: int where "sampleRate = 16000"
definition channels :: int where "channels = 1"
definition chunkMS :: int where "chunkMS = 20"
definition chunkBytes :: int where "chunkBytes = sampleRate * channels * 2 * chunkMS div 1000"
definition queueCap :: nat where "queueCap = 1"
definition audioIdleDelay :: duration where "audioIdleDelay = 5 * second"
definition pcmSignalLogChunks :: uint64 where "pcmSignalLogChunks = 250"

record pcm_window =
  pw_chunks :: uint64
  pw_silentChunks :: uint64
  pw_samples :: uint64
  pw_nonzeroSamples :: uint64
  pw_absSum :: uint64
  pw_peak :: uint64

definition pcm_reset :: pcm_window where
  "pcm_reset = \<lparr>pw_chunks = 0, pw_silentChunks = 0, pw_samples = 0, pw_nonzeroSamples = 0, pw_absSum = 0, pw_peak = 0\<rparr>"

definition pcm_sample :: "byte \<Rightarrow> byte \<Rightarrow> int" where
  \<comment> \<open>\<^verbatim>\<open>int16(uint16(data[i]) | uint16(data[i+1])<<8)\<close>, widened to \<^verbatim>\<open>int64\<close>\<close>
  "pcm_sample lo hi = sint (or (ucast lo) (push_bit 8 (ucast hi)) :: uint16)"

definition pcm_magnitude :: "int \<Rightarrow> uint64" where
  "pcm_magnitude magnitude = word_of_int (if magnitude < 0 then - magnitude else magnitude)"

fun pcm_scan :: "bytes \<Rightarrow> uint64 \<Rightarrow> uint64 \<Rightarrow> uint64 \<Rightarrow> uint64 \<times> uint64 \<times> uint64" where
  \<comment> \<open>the loop of \<^verbatim>\<open>observe\<close> over \<^verbatim>\<open>nonzero\<close>, \<^verbatim>\<open>absSum\<close> and \<^verbatim>\<open>peak\<close>\<close>
  "pcm_scan (lo # hi # data) nonzero absSum peak =
     (let absolute = pcm_magnitude (pcm_sample lo hi)
      in pcm_scan data (if absolute \<noteq> 0 then nonzero + 1 else nonzero) (absSum + absolute)
           (if absolute > peak then absolute else peak))"
| "pcm_scan _ nonzero absSum peak = (nonzero, absSum, peak)"

definition pcm_observe :: "bytes \<Rightarrow> pcm_window \<Rightarrow> pcm_window" where
  "pcm_observe data w =
    (let (nonzero, absSum, peak) = pcm_scan data 0 0 0;
         samples = word_of_nat (length data div 2);
         w = w\<lparr>pw_chunks := pw_chunks w + 1\<rparr>;
         w = (if nonzero = 0 then w\<lparr>pw_silentChunks := pw_silentChunks w + 1\<rparr> else w);
         w = w\<lparr>pw_samples := pw_samples w + samples, pw_nonzeroSamples := pw_nonzeroSamples w + nonzero,
               pw_absSum := pw_absSum w + absSum\<rparr>
     in if peak > pw_peak w then w\<lparr>pw_peak := peak\<rparr> else w)"

record pcm_summary =
  ps_state :: string
  ps_chunks :: uint64
  ps_silentChunks :: uint64
  ps_samples :: uint64
  ps_nonzeroPercent :: f64
  ps_meanAbsolute :: f64
  ps_peak :: uint64

definition pcm_fields :: "pcm_window \<Rightarrow> pcm_summary" where
  "pcm_fields w =
    (let (nonzeroPercent, meanAbsolute) =
           (if pw_samples w \<noteq> 0
            then (f_div (f_mul (Fin 100) (f_of_int (uint (pw_nonzeroSamples w)))) (f_of_int (uint (pw_samples w))),
                  f_div (f_of_int (uint (pw_absSum w))) (f_of_int (uint (pw_samples w))))
            else (Fin 0, Fin 0))
     in \<lparr>ps_state = (if pw_nonzeroSamples w \<noteq> 0 then ''signal'' else ''silent''),
         ps_chunks = pw_chunks w, ps_silentChunks = pw_silentChunks w, ps_samples = pw_samples w,
         ps_nonzeroPercent = nonzeroPercent, ps_meanAbsolute = meanAbsolute, ps_peak = pw_peak w\<rparr>)"

section \<open>The pipeline\<close>

record audio_chunk =
  ac_Seq :: uint32
  ac_SampleRate :: int
  ac_Channels :: int
  ac_Data :: bytes
  ac_T :: gotime

record audio_sub =
  as_C :: "audio_chunk list"
  as_closed :: bool
  as_got :: "audio_chunk list"   \<comment> \<open>what the reader of the channel has received\<close>
  as_from :: nat                 \<comment> \<open>the chunks published before the subscription\<close>
  as_lost :: nat                 \<comment> \<open>the chunks discarded from its queue\<close>

record read_loop =
  rl_runID :: uint64
  rl_signal :: pcm_window

record audio_pipeline =
  ap_hasCapture :: bool                  \<comment> \<open>\<^verbatim>\<open>cfg.Capture != nil\<close>\<close>
  ap_subs :: "nat set"
  ap_heap :: "nat \<Rightarrow> audio_sub"
  ap_capture :: "nat option"
  ap_running :: bool
  ap_runID :: uint64
  ap_seq :: uint32
  ap_stopTimer :: "gotime option"        \<comment> \<open>its deadline\<close>
  ap_drops :: uint64
  ap_loops :: "nat \<rightharpoonup> read_loop"      \<comment> \<open>the goroutines running \<^verbatim>\<open>readLoop\<close>, by capture\<close>
  ap_nextCapture :: nat
  ap_closed :: "nat set"                 \<comment> \<open>the captures closed\<close>
  ap_published :: "audio_chunk list"     \<comment> \<open>every chunk fanned out\<close>
  ap_log :: "pcm_summary list"

definition empty_audio_sub :: audio_sub where
  "empty_audio_sub = \<lparr>as_C = [], as_closed = False, as_got = [], as_from = 0, as_lost = 0\<rparr>"

definition NewAudioPipeline :: "bool \<Rightarrow> audio_pipeline" where
  "NewAudioPipeline hasCapture =
     \<lparr>ap_hasCapture = hasCapture, ap_subs = {}, ap_heap = (\<lambda>_. empty_audio_sub), ap_capture = None,
      ap_running = False, ap_runID = 0, ap_seq = 0, ap_stopTimer = None, ap_drops = 0, ap_loops = Map.empty,
      ap_nextCapture = 0, ap_closed = {}, ap_published = [], ap_log = []\<rparr>"

definition audio_failAllLocked :: "audio_pipeline \<Rightarrow> audio_pipeline" where
  "audio_failAllLocked s =
     s\<lparr>ap_heap := (\<lambda>i. if i \<in> ap_subs s then (ap_heap s i)\<lparr>as_closed := True\<rparr> else ap_heap s i), ap_subs := {}\<rparr>"

definition audio_stopLocked :: "audio_pipeline \<Rightarrow> audio_pipeline" where
  "audio_stopLocked s =
    (let s = s\<lparr>ap_runID := ap_runID s + 1\<rparr>;
         s = (case ap_capture s of Some c \<Rightarrow> s\<lparr>ap_closed := insert c (ap_closed s)\<rparr> | None \<Rightarrow> s)
     in s\<lparr>ap_running := False, ap_capture := None\<rparr>)"

definition audio_startLocked :: "bool \<Rightarrow> audio_pipeline \<Rightarrow> audio_pipeline" where
  \<comment> \<open>\<open>ok\<close>: \<^verbatim>\<open>cfg.Capture()\<close> returns without an error\<close>
  "audio_startLocked ok s =
    (if \<not> ap_hasCapture s then audio_failAllLocked s
     else if \<not> ok then audio_failAllLocked s
     else
       let capture = ap_nextCapture s; runID = ap_runID s + 1
       in s\<lparr>ap_nextCapture := capture + 1, ap_runID := runID, ap_capture := Some capture, ap_running := True,
            ap_loops := (ap_loops s)(capture \<mapsto> \<lparr>rl_runID = runID, rl_signal = pcm_reset\<rparr>)\<rparr>)"

definition audio_Subscribe :: "nat \<Rightarrow> bool \<Rightarrow> audio_pipeline \<Rightarrow> audio_pipeline" where
  \<comment> \<open>\<open>i\<close> is the identity of the new subscription\<close>
  "audio_Subscribe i ok s =
    (let s = s\<lparr>ap_heap := (ap_heap s)(i := empty_audio_sub\<lparr>as_from := length (ap_published s)\<rparr>),
               ap_subs := insert i (ap_subs s)\<rparr>;
         s = (if ap_stopTimer s \<noteq> None then s\<lparr>ap_stopTimer := None\<rparr> else s)
     in if \<not> ap_running s then audio_startLocked ok s else s)"

definition audio_Close :: "nat \<Rightarrow> gotime \<Rightarrow> audio_pipeline \<Rightarrow> audio_pipeline" where
  "audio_Close i now s =
    (if i \<notin> ap_subs s then s
     else
       let s = s\<lparr>ap_subs := ap_subs s - {i}, ap_heap := (ap_heap s)(i := (ap_heap s i)\<lparr>as_closed := True\<rparr>)\<rparr>
       in if ap_subs s = {} \<and> ap_running s then s\<lparr>ap_stopTimer := Some (now + audioIdleDelay)\<rparr> else s)"

definition audio_idle_fired :: "audio_pipeline \<Rightarrow> audio_pipeline" where
  \<comment> \<open>the callback of the idle timer, which does not look at \<^verbatim>\<open>s.stopTimer\<close>\<close>
  "audio_idle_fired s = (if ap_subs s = {} \<and> ap_running s then audio_stopLocked s else s)"

definition audio_Shutdown :: "audio_pipeline \<Rightarrow> audio_pipeline" where
  "audio_Shutdown s = audio_failAllLocked (audio_stopLocked s)"

section \<open>Publishing\<close>

definition audio_offer :: "audio_chunk \<Rightarrow> audio_sub \<Rightarrow> audio_sub" where
  \<comment> \<open>the nested \<^verbatim>\<open>select\<close> statements; \<^const>\<open>as_lost\<close> counts what is added to \<^verbatim>\<open>s.drops\<close>\<close>
  "audio_offer chunk sub =
    (case chan_send queueCap chunk (as_C sub) of
       Some q \<Rightarrow> sub\<lparr>as_C := q\<rparr>
     | None \<Rightarrow>
         let sub = (case as_C sub of _ # q \<Rightarrow> sub\<lparr>as_C := q, as_lost := as_lost sub + 1\<rparr> | [] \<Rightarrow> sub)
         in (case chan_send queueCap chunk (as_C sub) of Some q \<Rightarrow> sub\<lparr>as_C := q\<rparr> | None \<Rightarrow> sub))"

definition audio_send :: "audio_chunk \<Rightarrow> nat \<Rightarrow> audio_pipeline \<Rightarrow> audio_pipeline" where
  \<comment> \<open>one iteration of \<^verbatim>\<open>for sub := range s.subs\<close>\<close>
  "audio_send chunk i s =
    (let sub = audio_offer chunk (ap_heap s i)
     in s\<lparr>ap_heap := (ap_heap s)(i := sub),
          ap_drops := ap_drops s + word_of_nat (as_lost sub - as_lost (ap_heap s i))\<rparr>)"

definition audio_publish :: "bytes \<Rightarrow> gotime \<Rightarrow> nat list \<Rightarrow> audio_pipeline \<Rightarrow> audio_pipeline" where
  \<comment> \<open>\<open>targets\<close> lists \<^verbatim>\<open>s.subs\<close> in the order of \<^verbatim>\<open>range\<close>\<close>
  "audio_publish data now targets s =
    (let seq = ap_seq s + 1;
         chunk = \<lparr>ac_Seq = seq, ac_SampleRate = sampleRate, ac_Channels = channels, ac_Data = data, ac_T = now\<rparr>
     in fold (audio_send chunk) targets (s\<lparr>ap_seq := seq, ap_published := ap_published s @ [chunk]\<rparr>))"

definition readLoop_signal :: "bytes \<Rightarrow> pcm_window \<Rightarrow> pcm_window \<times> pcm_summary list" where
  \<comment> \<open>\<^verbatim>\<open>signal.observe(data)\<close>, and the summary logged when the window is complete\<close>
  "readLoop_signal data signal =
    (let signal = pcm_observe data signal
     in if pw_chunks signal \<ge> pcmSignalLogChunks then (pcm_reset, [pcm_fields signal]) else (signal, []))"

definition readLoop_read :: "nat \<Rightarrow> bytes \<Rightarrow> gotime \<Rightarrow> nat list \<Rightarrow> audio_pipeline \<Rightarrow> audio_pipeline" where
  \<comment> \<open>one iteration of the loop of goroutine \<open>c\<close>, whose \<^verbatim>\<open>io.ReadFull\<close> returns \<open>data\<close>\<close>
  "readLoop_read c data now targets s =
    (case ap_loops s c of
       None \<Rightarrow> s
     | Some l \<Rightarrow>
        (let (signal, logged) = readLoop_signal data (rl_signal l);
             s = s\<lparr>ap_loops := (ap_loops s)(c \<mapsto> l\<lparr>rl_signal := signal\<rparr>), ap_log := ap_log s @ logged\<rparr>
         in if rl_runID l \<noteq> ap_runID s \<or> \<not> ap_running s then s\<lparr>ap_loops := (ap_loops s)(c := None)\<rparr>
            else audio_publish data now targets s))"

definition readLoop_end :: "nat \<Rightarrow> audio_pipeline \<Rightarrow> audio_pipeline" where
  \<comment> \<open>\<^verbatim>\<open>io.ReadFull\<close> of goroutine \<open>c\<close> fails\<close>
  "readLoop_end c s =
    (case ap_loops s c of
       None \<Rightarrow> s
     | Some l \<Rightarrow>
        (let s = s\<lparr>ap_loops := (ap_loops s)(c := None)\<rparr>
         in if rl_runID l = ap_runID s then audio_failAllLocked (s\<lparr>ap_running := False, ap_capture := None\<rparr>) else s))"

definition audio_receive :: "nat \<Rightarrow> audio_pipeline \<Rightarrow> audio_pipeline" where
  \<comment> \<open>the reader receives from \<^verbatim>\<open>sub.C\<close>\<close>
  "audio_receive i s =
     s\<lparr>ap_heap := (ap_heap s)(i := (let sub = ap_heap s i in
         case as_C sub of [] \<Rightarrow> sub | ch # q \<Rightarrow> sub\<lparr>as_C := q, as_got := as_got sub @ [ch]\<rparr>))\<rparr>"

definition audio_Stats :: "audio_pipeline \<Rightarrow> uint64" where
  "audio_Stats s = ap_drops s"

end
