(* ===== verification/Audio_Delivery.thy ===== *)
theory Audio_Delivery
  imports Audio_Pipeline
begin

text \<open>
  What a subscriber of the audio pipeline receives, which capture may publish, and when the capture
  runs. The pipeline runs as interleaved steps: the operations of the clients, the idle timer's
  callback (at any time), the iterations of all reader goroutines, current or superseded, and the
  receives of the subscribers.
\<close>

section \<open>The subscription queue keeps the newest chunk\<close>

lemma audio_offer_empty [simp]: "as_C sub = [] \<Longrightarrow> audio_offer ch sub = sub\<lparr>as_C := [ch]\<rparr>"
  by (simp add: audio_offer_def chan_send_def queueCap_def)

lemma audio_offer_full [simp]:
  "as_C sub = [old] \<Longrightarrow> audio_offer ch sub = sub\<lparr>as_C := [ch], as_lost := as_lost sub + 1\<rparr>"
  by (simp add: audio_offer_def chan_send_def queueCap_def)

lemma queue_of_one: "length q \<le> queueCap \<longleftrightarrow> q = [] \<or> (\<exists>x. q = [x])"
  by (cases q) (auto simp: queueCap_def)

lemma audio_offer_over: "queueCap < length (as_C sub) \<Longrightarrow> subseq (as_C (audio_offer ch sub)) (as_C sub @ [ch])"
  by (cases "as_C sub") (auto simp: audio_offer_def chan_send_def queueCap_def)

lemma audio_offer_queue: "as_C sub = [] \<or> (\<exists>x. as_C sub = [x]) \<Longrightarrow> as_C (audio_offer ch sub) = [ch]"
  by auto

interpretation audio_fanout: newest_queue audio_offer as_C queueCap
proof unfold_locales
  fix ch sub
  show "length (as_C (audio_offer ch sub)) \<le> queueCap" if "length (as_C sub) \<le> queueCap"
    using audio_offer_queue [of sub ch] that unfolding queue_of_one by simp
  show "subseq (as_C (audio_offer ch sub)) (as_C sub @ [ch])"
  proof (cases "length (as_C sub) \<le> queueCap")
    case True
    then show ?thesis using audio_offer_queue [of sub ch] by (simp add: queue_of_one)
  qed (simp add: audio_offer_over)
  show "as_C (audio_offer ch sub) \<noteq> [] \<and> last (as_C (audio_offer ch sub)) = ch" if "length (as_C sub) \<le> queueCap"
    using audio_offer_queue [of sub ch] that by (simp add: queue_of_one)
qed

section \<open>Steps\<close>

datatype audio_op =
    ASubscribe nat bool
  | AClose nat gotime
  | AIdleTimer
  | AShutdown
  | ARead nat bytes gotime "nat list"   \<comment> \<open>capture, data, time, subscriptions in the order of \<^verbatim>\<open>range\<close>\<close>
  | AReadError nat
  | AReceive nat

fun audio_step :: "audio_op \<Rightarrow> audio_pipeline \<Rightarrow> audio_pipeline" where
  "audio_step (ASubscribe i ok) s = audio_Subscribe i ok s"
| "audio_step (AClose i now) s = audio_Close i now s"
| "audio_step AIdleTimer s = audio_idle_fired s"
| "audio_step AShutdown s = audio_Shutdown s"
| "audio_step (ARead c data now targets) s = readLoop_read c data now targets s"
| "audio_step (AReadError c) s = readLoop_end c s"
| "audio_step (AReceive i) s = audio_receive i s"

definition audio_enabled :: "audio_op \<Rightarrow> audio_pipeline \<Rightarrow> bool" where
  \<comment> \<open>a subscription object is new, \<^verbatim>\<open>range\<close> visits every subscription once, and the 64-bit run
     counter does not wrap around\<close>
  "audio_enabled e s \<longleftrightarrow> uint (ap_runID s) + 1 < 2 ^ 64 \<and>
     (case e of
        ASubscribe i _ \<Rightarrow> i \<notin> ap_subs s \<and> ap_heap s i = empty_audio_sub
      | ARead _ data _ targets \<Rightarrow> int (length data) = chunkBytes \<and> set targets = ap_subs s \<and> distinct targets
      | _ \<Rightarrow> True)"

inductive audio_reach :: "audio_pipeline \<Rightarrow> audio_pipeline \<Rightarrow> bool" for s0 where
  audio_start: "audio_reach s0 s0"
| audio_next: "audio_reach s0 s \<Longrightarrow> audio_enabled e s \<Longrightarrow> audio_reach s0 (audio_step e s)"

section \<open>The fan-out\<close>

definition audio_chunk_of :: "bytes \<Rightarrow> gotime \<Rightarrow> uint32 \<Rightarrow> audio_chunk" where
  "audio_chunk_of data now seq =
     \<lparr>ac_Seq = seq, ac_SampleRate = sampleRate, ac_Channels = channels, ac_Data = data, ac_T = now\<rparr>"

lemma audio_send_eq:
  "\<exists>d. audio_send ch j s = s\<lparr>ap_heap := (ap_heap s)(j := audio_offer ch (ap_heap s j)), ap_drops := d\<rparr>"
  unfolding audio_send_def Let_def by (rule exI) (rule refl)

lemma fold_audio_send:
  assumes "distinct targets"
  shows "\<exists>d. fold (audio_send ch) targets s =
    s\<lparr>ap_heap := (\<lambda>i. if i \<in> set targets then audio_offer ch (ap_heap s i) else ap_heap s i), ap_drops := d\<rparr>"
  using assms
proof (induction targets arbitrary: s)
  case Nil
  then show ?case by (intro exI [of _ "ap_drops s"]) simp
next
  case (Cons j targets)
  obtain d0 where d0: "audio_send ch j s = s\<lparr>ap_heap := (ap_heap s)(j := audio_offer ch (ap_heap s j)), ap_drops := d0\<rparr>"
    using audio_send_eq by blast
  define s' where "s' = audio_send ch j s"
  have "distinct targets" using Cons.prems by simp
  from Cons.IH [OF this, of s'] obtain d where d: "fold (audio_send ch) targets s' =
      s'\<lparr>ap_heap := (\<lambda>i. if i \<in> set targets then audio_offer ch (ap_heap s' i) else ap_heap s' i), ap_drops := d\<rparr>"
    by (elim exE)
  have "(\<lambda>i. if i \<in> set targets then audio_offer ch (ap_heap s' i) else ap_heap s' i) =
        (\<lambda>i. if i \<in> set (j # targets) then audio_offer ch (ap_heap s i) else ap_heap s i)"
    using Cons.prems by (auto simp: s'_def d0 fun_eq_iff)
  then have "fold (audio_send ch) (j # targets) s =
      s\<lparr>ap_heap := (\<lambda>i. if i \<in> set (j # targets) then audio_offer ch (ap_heap s i) else ap_heap s i), ap_drops := d\<rparr>"
    using d unfolding fold_simps(2) o_apply s'_def d0 by simp
  then show ?case by (rule exI)
qed

lemma audio_publish_cases:
  assumes "distinct targets" "set targets = ap_subs s"
  obtains d where "audio_publish data now targets s =
    s\<lparr>ap_seq := ap_seq s + 1, ap_published := ap_published s @ [audio_chunk_of data now (ap_seq s + 1)],
      ap_heap := (\<lambda>i. if i \<in> ap_subs s then audio_offer (audio_chunk_of data now (ap_seq s + 1)) (ap_heap s i)
                      else ap_heap s i),
      ap_drops := d\<rparr>"
proof -
  define ch where "ch = audio_chunk_of data now (ap_seq s + 1)"
  define s' where "s' = s\<lparr>ap_seq := ap_seq s + 1, ap_published := ap_published s @ [ch]\<rparr>"
  have eq: "audio_publish data now targets s = fold (audio_send ch) targets s'"
    by (simp add: audio_publish_def Let_def audio_chunk_of_def ch_def s'_def)
  have heap: "ap_heap s' = ap_heap s" by (simp add: s'_def)
  obtain d where "audio_publish data now targets s =
      s'\<lparr>ap_heap := (\<lambda>i. if i \<in> ap_subs s then audio_offer ch (ap_heap s i) else ap_heap s i), ap_drops := d\<rparr>"
    using fold_audio_send [OF assms(1), of ch s'] unfolding eq assms(2) heap by (elim exE)
  then show thesis by (intro that [of d]) (simp only: ch_def s'_def)
qed

lemma audio_publish_fields:
  assumes "distinct targets" "set targets = ap_subs s"
  shows "ap_subs (audio_publish data now targets s) = ap_subs s"
    "ap_running (audio_publish data now targets s) = ap_running s"
    "ap_stopTimer (audio_publish data now targets s) = ap_stopTimer s"
    "ap_published (audio_publish data now targets s) = ap_published s @ [audio_chunk_of data now (ap_seq s + 1)]"
    "i \<in> ap_subs s \<Longrightarrow> ap_heap (audio_publish data now targets s) i =
       audio_offer (audio_chunk_of data now (ap_seq s + 1)) (ap_heap s i)"
  by (rule audio_publish_cases [OF assms, of data now], simp)+

lemma readLoop_read_cases [case_names gone stale live]:
  fixes s :: audio_pipeline
  obtains "ap_loops s c = None" "readLoop_read c data now ts s = s"
  | l lg where "ap_loops s c = Some l" "rl_runID l \<noteq> ap_runID s \<or> \<not> ap_running s"
      "readLoop_read c data now ts s = s\<lparr>ap_loops := (ap_loops s)(c := None), ap_log := lg\<rparr>"
  | l sg lg where "ap_loops s c = Some l" "rl_runID l = ap_runID s" "ap_running s"
      "readLoop_read c data now ts s =
         audio_publish data now ts (s\<lparr>ap_loops := (ap_loops s)(c \<mapsto> l\<lparr>rl_signal := sg\<rparr>), ap_log := lg\<rparr>)"
proof (cases "ap_loops s c")
  case None
  then show ?thesis using that(1) by (simp add: readLoop_read_def)
next
  case (Some l)
  obtain sg lg where sg: "readLoop_signal data (rl_signal l) = (sg, lg)" by (cases "readLoop_signal data (rl_signal l)")
  show ?thesis
  proof (cases "rl_runID l \<noteq> ap_runID s \<or> \<not> ap_running s")
    case True
    have "readLoop_read c data now ts s = s\<lparr>ap_loops := (ap_loops s)(c := None), ap_log := ap_log s @ lg\<rparr>"
      using True by (simp add: readLoop_read_def Some sg Let_def)
    then show ?thesis using that(2) [OF Some True] by blast
  next
    case False
    then have "readLoop_read c data now ts s = audio_publish data now ts
        (s\<lparr>ap_loops := (ap_loops s)(c \<mapsto> l\<lparr>rl_signal := sg\<rparr>), ap_log := ap_log s @ lg\<rparr>)"
      by (simp add: readLoop_read_def Some sg Let_def)
    then show ?thesis using that(3) [OF Some] False by blast
  qed
qed

section \<open>What a subscription has received\<close>

definition audio_fed :: "bool \<Rightarrow> audio_chunk list \<Rightarrow> audio_sub \<Rightarrow> bool" where
  \<comment> \<open>what was received and is queued is a subsequence of what was published since the
     subscription; while it is open the queue holds nothing but the newest chunk\<close>
  "audio_fed member pub sub \<longleftrightarrow>
     subseq (as_got sub @ as_C sub) (drop (as_from sub) pub) \<and> as_from sub \<le> length pub \<and>
     length (as_C sub) \<le> queueCap \<and>
     (member \<longrightarrow> \<not> as_closed sub \<and> (as_C sub \<noteq> [] \<longrightarrow> as_C sub = [last pub]) \<and>
        length pub = as_from sub + length (as_got sub) + length (as_C sub) + as_lost sub)"

definition audio_seq_ok :: "uint32 \<Rightarrow> audio_chunk list \<Rightarrow> bool" where
  "audio_seq_ok seq pub \<longleftrightarrow>
     seq = word_of_nat (length pub) \<and> (\<forall>k<length pub. ac_Seq (pub ! k) = word_of_nat (Suc k))"

lemma audio_seq_ok_publish:
  "audio_seq_ok seq pub \<Longrightarrow> audio_seq_ok (seq + 1) (pub @ [audio_chunk_of data now (seq + 1)])"
  by (auto simp: audio_seq_ok_def nth_append less_Suc_eq audio_chunk_of_def)

lemma audio_fed_closed: "audio_fed member pub sub \<Longrightarrow> audio_fed False pub (sub\<lparr>as_closed := b\<rparr>)"
  by (simp add: audio_fed_def)

lemma audio_fed_weaken: "audio_fed member pub sub \<Longrightarrow> audio_fed False pub sub"
  by (simp add: audio_fed_def)

lemma audio_fed_new: "audio_fed True pub (empty_audio_sub\<lparr>as_from := length pub\<rparr>)"
  by (simp add: audio_fed_def empty_audio_sub_def queueCap_def)

lemma audio_fed_past: "audio_fed False pub sub \<Longrightarrow> audio_fed False (pub @ [ch]) sub"
  by (auto simp: audio_fed_def intro: subseq_order.order_trans)

lemma audio_fed_offer:
  assumes "audio_fed True pub sub"
  shows "audio_fed True (pub @ [ch]) (audio_offer ch sub)"
proof -
  have frm: "as_from sub \<le> length pub" and ss: "subseq (as_got sub @ as_C sub) (drop (as_from sub) pub)"
    using assms by (auto simp: audio_fed_def)
  have got: "subseq (as_got sub) (drop (as_from sub) pub)"
    using ss by (metis list_emb_append2 list_emb_appendD subseq_rev_drop_many subseq_order.order_trans list_emb_prefix)
  consider "as_C sub = []" | x where "as_C sub = [x]"
    using assms queue_of_one by (auto simp: audio_fed_def)
  then show ?thesis
  proof cases
    case 1
    then show ?thesis using assms frm got by (auto simp: audio_fed_def queueCap_def)
  next
    case 2
    then show ?thesis using assms frm got by (auto simp: audio_fed_def queueCap_def)
  qed
qed

lemma audio_fed_receive:
  assumes "audio_fed member pub sub" "as_C sub = ch # q"
  shows "audio_fed member pub (sub\<lparr>as_C := q, as_got := as_got sub @ [ch]\<rparr>)"
  using assms by (auto simp: audio_fed_def queueCap_def)

section \<open>The invariants\<close>

definition audio_fed_all :: "audio_pipeline \<Rightarrow> bool" where
  "audio_fed_all s \<longleftrightarrow> audio_seq_ok (ap_seq s) (ap_published s) \<and>
     (\<forall>i. audio_fed (i \<in> ap_subs s) (ap_published s) (ap_heap s i))"

definition run_ids :: "bool \<Rightarrow> nat option \<Rightarrow> nat set \<Rightarrow> uint64 \<Rightarrow> nat \<Rightarrow> (nat \<rightharpoonup> uint64) \<Rightarrow> bool" where
  \<comment> \<open>the pipeline runs exactly while it holds a capture; that capture is open and its goroutine
     is the only one that carries the current run identity\<close>
  "run_ids running capture shut runID next ids \<longleftrightarrow>
     running = (capture \<noteq> None) \<and>
     (\<forall>c. ids c = Some runID \<longleftrightarrow> capture = Some c) \<and>
     (\<forall>c r. ids c = Some r \<longrightarrow> c < next \<and> r \<le> runID) \<and>
     (\<forall>c \<in> shut. c < next \<and> capture \<noteq> Some c)"

definition audio_runs :: "audio_pipeline \<Rightarrow> bool" where
  "audio_runs s \<longleftrightarrow> run_ids (ap_running s) (ap_capture s) (ap_closed s) (ap_runID s) (ap_nextCapture s)
     (\<lambda>c. map_option rl_runID (ap_loops s c))"

definition audio_life :: "audio_pipeline \<Rightarrow> bool" where
  "audio_life s \<longleftrightarrow> (ap_subs s \<noteq> {} \<longrightarrow> ap_running s) \<and> (ap_running s \<and> ap_subs s = {} \<longrightarrow> ap_stopTimer s \<noteq> None)"

definition audio_inv :: "audio_pipeline \<Rightarrow> bool" where
  "audio_inv s \<longleftrightarrow> audio_fed_all s \<and> audio_runs s \<and> audio_life s"

lemma audio_inv_new: "audio_inv (NewAudioPipeline b)"
  by (simp add: audio_inv_def NewAudioPipeline_def audio_fed_all_def audio_seq_ok_def audio_fed_def empty_audio_sub_def
      audio_runs_def run_ids_def audio_life_def)

lemma fed_failAll: "audio_fed_all s \<Longrightarrow> audio_fed_all (audio_failAllLocked s)"
  by (auto simp: audio_fed_all_def audio_failAllLocked_def intro: audio_fed_closed audio_fed_weaken)

lemma fed_frame:
  assumes "audio_fed_all s" "ap_seq s' = ap_seq s" "ap_published s' = ap_published s" "ap_subs s' = ap_subs s"
    "ap_heap s' = ap_heap s"
  shows "audio_fed_all s'"
  using assms(1) unfolding audio_fed_all_def assms(2-) .

lemma fed_start: "audio_fed_all s \<Longrightarrow> audio_fed_all (audio_startLocked ok s)"
  using fed_failAll [of s] fed_frame [of s] by (simp add: audio_startLocked_def Let_def)

lemma fed_stop: "audio_fed_all s \<Longrightarrow> audio_fed_all (audio_stopLocked s)"
  by (rule fed_frame [of s]) (simp_all add: audio_stopLocked_def Let_def split: option.split)

lemma fed_subscribe:
  assumes "audio_fed_all s"
  shows "audio_fed_all (audio_Subscribe i ok s)"
proof -
  define s1 where "s1 = s\<lparr>ap_heap := (ap_heap s)(i := empty_audio_sub\<lparr>as_from := length (ap_published s)\<rparr>),
               ap_subs := insert i (ap_subs s)\<rparr>"
  define s2 where "s2 = (if ap_stopTimer s1 \<noteq> None then s1\<lparr>ap_stopTimer := None\<rparr> else s1)"
  have "audio_fed_all s1" using assms audio_fed_new by (simp add: audio_fed_all_def s1_def)
  then have "audio_fed_all s2" by (rule fed_frame) (simp_all add: s2_def)
  moreover have "audio_Subscribe i ok s = (if \<not> ap_running s2 then audio_startLocked ok s2 else s2)"
    unfolding audio_Subscribe_def Let_def s1_def s2_def ..
  ultimately show ?thesis using fed_start by simp
qed

lemma fed_close: "audio_fed_all s \<Longrightarrow> audio_fed_all (audio_Close i now s)"
  by (simp add: audio_Close_def Let_def audio_fed_all_def) (metis audio_fed_closed)

lemma fed_publish:
  assumes "audio_fed_all s" "distinct ts" "set ts = ap_subs s"
  shows "audio_fed_all (audio_publish data now ts s)"
proof (rule audio_publish_cases [OF assms(2,3), of data now])
  fix d
  assume eq: "audio_publish data now ts s =
    s\<lparr>ap_seq := ap_seq s + 1, ap_published := ap_published s @ [audio_chunk_of data now (ap_seq s + 1)],
      ap_heap := (\<lambda>i. if i \<in> ap_subs s then audio_offer (audio_chunk_of data now (ap_seq s + 1)) (ap_heap s i)
                      else ap_heap s i),
      ap_drops := d\<rparr>"
  show ?thesis
    using assms(1) audio_seq_ok_publish unfolding eq audio_fed_all_def
    by simp (metis (full_types) audio_fed_offer audio_fed_past)
qed

lemma fed_read:
  assumes "audio_fed_all s" "distinct ts" "set ts = ap_subs s"
  shows "audio_fed_all (readLoop_read c data now ts s)"
proof (cases rule: readLoop_read_cases [of s c data now ts])
  case (stale l lg)
  then show ?thesis using fed_frame [OF assms(1)] by simp
next
  case (live l sg lg)
  have "audio_fed_all (s\<lparr>ap_loops := (ap_loops s)(c \<mapsto> l\<lparr>rl_signal := sg\<rparr>), ap_log := lg\<rparr>)"
    using fed_frame [OF assms(1)] by simp
  from fed_publish [OF this] show ?thesis using live(4) assms(2,3) by simp
qed (use assms in simp)

lemma fed_end: "audio_fed_all s \<Longrightarrow> audio_fed_all (readLoop_end c s)"
  using fed_frame [of s] fed_failAll by (simp add: readLoop_end_def Let_def split: option.split)

lemma fed_receive: "audio_fed_all s \<Longrightarrow> audio_fed_all (audio_receive i s)"
  using audio_fed_receive by (simp add: audio_receive_def audio_fed_all_def Let_def split: list.split)

lemma fed_step: "audio_fed_all s \<Longrightarrow> audio_enabled e s \<Longrightarrow> audio_fed_all (audio_step e s)"
  by (cases e) (simp_all add: audio_enabled_def fed_subscribe fed_close audio_idle_fired_def fed_stop audio_Shutdown_def
      fed_failAll fed_read fed_end fed_receive)

lemma runID_next: "uint (x :: uint64) + 1 < 2 ^ 64 \<Longrightarrow> y \<le> x \<Longrightarrow> y < x + 1"
  unfolding word_less_alt word_le_def by (subst uint_plus_if') simp

lemma run_ids_fresh:
  assumes "run_ids running capture shut r n ids" "uint r + 1 < 2 ^ 64"
  shows "ids c \<noteq> Some (r + 1)" "ids c = Some q \<Longrightarrow> q \<le> r + 1" "ids n = None"
proof -
  have less: "q < r + 1" if "ids c = Some q" for c q
    using assms that by (intro runID_next) (auto simp: run_ids_def)
  show "ids c \<noteq> Some (r + 1)" using less by blast
  show "q \<le> r + 1" if "ids c = Some q" using less [OF that] by simp
  show "ids n = None" using assms(1) unfolding run_ids_def by (cases "ids n") (auto dest: spec [of _ n])
qed

lemma run_ids_stop:
  assumes "run_ids running capture shut r n ids" "uint r + 1 < 2 ^ 64"
  shows "run_ids False None (shut \<union> set_option capture) (r + 1) n ids"
proof -
  have "c < n" if "capture = Some c" for c using assms(1) that by (auto simp: run_ids_def)
  then show ?thesis using assms(1) run_ids_fresh [OF assms] unfolding run_ids_def by auto
qed

lemma run_ids_start:
  assumes "run_ids False None shut r n ids" "uint r + 1 < 2 ^ 64"
  shows "run_ids True (Some n) shut (r + 1) (Suc n) (ids(n \<mapsto> r + 1))"
  using assms(1) run_ids_fresh [OF assms] unfolding run_ids_def by (auto simp: less_Suc_eq)

lemma run_ids_remove:
  "run_ids running capture shut r n ids \<Longrightarrow> capture \<noteq> Some c \<Longrightarrow> run_ids running capture shut r n (ids(c := None))"
  unfolding run_ids_def by auto

lemma run_ids_end:
  "run_ids running capture shut r n ids \<Longrightarrow> ids c = Some r \<Longrightarrow> run_ids False None shut r n (ids(c := None))"
  unfolding run_ids_def by auto

lemma run_ids_current:
  assumes "run_ids running capture shut r n ids"
  shows "ids c = Some r \<longleftrightarrow> capture = Some c" "capture = Some c \<Longrightarrow> c \<notin> shut" "capture = Some c \<Longrightarrow> running"
  using assms unfolding run_ids_def by auto

lemma runs_frame:
  assumes "audio_runs s" "ap_running s' = ap_running s" "ap_capture s' = ap_capture s" "ap_closed s' = ap_closed s"
    "ap_runID s' = ap_runID s" "ap_nextCapture s' = ap_nextCapture s"
    "\<And>c. map_option rl_runID (ap_loops s' c) = map_option rl_runID (ap_loops s c)"
  shows "audio_runs s'"
  using assms(1) unfolding audio_runs_def assms(2-) .

lemma runs_failAll: "audio_runs s \<Longrightarrow> audio_runs (audio_failAllLocked s)"
  by (erule runs_frame) (simp_all add: audio_failAllLocked_def)

lemma audio_stop_fields [simp]:
  "ap_running (audio_stopLocked s) = False" "ap_capture (audio_stopLocked s) = None"
  "ap_runID (audio_stopLocked s) = ap_runID s + 1" "ap_loops (audio_stopLocked s) = ap_loops s"
  "ap_nextCapture (audio_stopLocked s) = ap_nextCapture s" "ap_subs (audio_stopLocked s) = ap_subs s"
  "ap_stopTimer (audio_stopLocked s) = ap_stopTimer s"
  "ap_closed (audio_stopLocked s) = ap_closed s \<union> set_option (ap_capture s)"
  by (simp_all add: audio_stopLocked_def Let_def split: option.split)

lemma runs_stop: "audio_runs s \<Longrightarrow> uint (ap_runID s) + 1 < 2 ^ 64 \<Longrightarrow> audio_runs (audio_stopLocked s)"
  unfolding audio_runs_def audio_stop_fields by (rule run_ids_stop)

lemma ids_upd:
  "(\<lambda>d. map_option rl_runID ((m(c \<mapsto> l)) d)) = (\<lambda>d. map_option rl_runID (m d))(c \<mapsto> rl_runID l)"
  "(\<lambda>d. map_option rl_runID ((m(c := None)) d)) = (\<lambda>d. map_option rl_runID (m d))(c := None)"
  by auto

lemma runs_start:
  assumes "audio_runs s" "\<not> ap_running s" "uint (ap_runID s) + 1 < 2 ^ 64"
  shows "audio_runs (audio_startLocked ok s)"
proof (cases "ap_hasCapture s \<and> ok")
  case True
  have "ap_capture s = None" using assms(1,2) by (simp add: audio_runs_def run_ids_def)
  then have "run_ids False None (ap_closed s) (ap_runID s) (ap_nextCapture s) (\<lambda>c. map_option rl_runID (ap_loops s c))"
    using assms(1,2) by (simp add: audio_runs_def)
  from run_ids_start [OF this assms(3)] show ?thesis
    unfolding audio_runs_def using True by (simp add: audio_startLocked_def Let_def ids_upd del: fun_upd_apply)
next
  case False
  then show ?thesis using runs_failAll [OF assms(1)] by (auto simp: audio_startLocked_def)
qed

lemma runs_subscribe:
  assumes "audio_runs s" "uint (ap_runID s) + 1 < 2 ^ 64"
  shows "audio_runs (audio_Subscribe i ok s)"
proof -
  define s2 where "s2 = s\<lparr>ap_heap := (ap_heap s)(i := empty_audio_sub\<lparr>as_from := length (ap_published s)\<rparr>),
               ap_subs := insert i (ap_subs s), ap_stopTimer := None\<rparr>"
  have timer: "(if ap_stopTimer t \<noteq> None then t\<lparr>ap_stopTimer := None\<rparr> else t) = t\<lparr>ap_stopTimer := None\<rparr>" for t :: audio_pipeline
    by simp
  have "audio_runs s2" by (rule runs_frame [OF assms(1)]) (simp_all add: s2_def)
  moreover have "ap_runID s2 = ap_runID s" by (simp add: s2_def)
  moreover have "audio_Subscribe i ok s = (if \<not> ap_running s2 then audio_startLocked ok s2 else s2)"
    unfolding audio_Subscribe_def Let_def s2_def timer by simp
  ultimately show ?thesis using runs_start assms(2) by simp
qed

lemma runs_publish:
  assumes "audio_runs s" "distinct ts" "set ts = ap_subs s"
  shows "audio_runs (audio_publish data now ts s)"
  by (rule audio_publish_cases [OF assms(2,3), of data now], rule runs_frame [OF assms(1)]) simp_all

lemma runs_remove: "audio_runs s \<Longrightarrow> ap_capture s \<noteq> Some c \<Longrightarrow> audio_runs (s\<lparr>ap_loops := (ap_loops s)(c := None)\<rparr>)"
  using run_ids_remove by (simp add: audio_runs_def ids_upd del: fun_upd_apply)

lemma runs_current:
  assumes "audio_runs s"
  shows "ap_loops s c = Some l \<Longrightarrow> rl_runID l = ap_runID s \<Longrightarrow> ap_capture s = Some c"
    and "ap_capture s = Some c \<Longrightarrow> c \<notin> ap_closed s \<and> ap_running s"
    and "ap_capture s = Some c \<Longrightarrow> ap_loops s c = Some l \<Longrightarrow> rl_runID l = ap_runID s"
  using run_ids_current [OF assms [unfolded audio_runs_def], of c] by simp_all

lemma runs_read:
  assumes "audio_runs s" "distinct ts" "set ts = ap_subs s"
  shows "audio_runs (readLoop_read c data now ts s)"
proof (cases rule: readLoop_read_cases [of s c data now ts])
  case (stale l lg)
  have "ap_capture s \<noteq> Some c" using runs_current(2,3) [OF assms(1)] stale(1,2) by metis
  from runs_frame [OF runs_remove [OF assms(1) this]] show ?thesis unfolding stale(3) by simp
next
  case (live l sg lg)
  have "audio_runs (s\<lparr>ap_loops := (ap_loops s)(c \<mapsto> l\<lparr>rl_signal := sg\<rparr>), ap_log := lg\<rparr>)"
    by (rule runs_frame [OF assms(1)]) (simp_all add: live(1))
  from runs_publish [OF this] show ?thesis using live(4) assms(2,3) by simp
qed (use assms in simp)

lemma runs_end:
  assumes "audio_runs s"
  shows "audio_runs (readLoop_end c s)"
proof (cases "ap_loops s c")
  case (Some l)
  show ?thesis
  proof (cases "rl_runID l = ap_runID s")
    case True
    have "audio_runs (s\<lparr>ap_loops := (ap_loops s)(c := None), ap_running := False, ap_capture := None\<rparr>)"
      using run_ids_end [OF assms [unfolded audio_runs_def], of c] Some True
      by (simp add: audio_runs_def ids_upd del: fun_upd_apply)
    from runs_failAll [OF this] show ?thesis using True by (simp add: readLoop_end_def Some Let_def)
  next
    case False
    then have "ap_capture s \<noteq> Some c" using runs_current(3) [OF assms] Some by metis
    from runs_remove [OF assms this] show ?thesis using False by (simp add: readLoop_end_def Some Let_def)
  qed
qed (use assms in \<open>simp add: readLoop_end_def\<close>)

lemma runs_step:
  assumes "audio_runs s" "audio_enabled e s"
  shows "audio_runs (audio_step e s)"
proof -
  have bound: "uint (ap_runID s) + 1 < 2 ^ 64" using assms(2) by (simp add: audio_enabled_def)
  show ?thesis
  proof (cases e)
    case (AClose i now)
    then show ?thesis by (auto simp: audio_Close_def Let_def intro: runs_frame [OF assms(1)])
  next
    case (AReceive i)
    then show ?thesis by (auto simp: audio_receive_def Let_def intro: runs_frame [OF assms(1)])
  qed (use assms bound in \<open>simp_all add: audio_enabled_def runs_subscribe audio_idle_fired_def runs_stop
        audio_Shutdown_def runs_failAll runs_read runs_end\<close>)
qed

lemma life_step:
  assumes "audio_life s" "audio_enabled e s"
  shows "audio_life (audio_step e s)"
proof (cases e)
  case (ASubscribe i ok)
  then show ?thesis using assms
    by (auto simp: audio_life_def audio_Subscribe_def Let_def audio_startLocked_def audio_failAllLocked_def)
next
  case (AClose i now)
  then show ?thesis using assms by (auto simp: audio_life_def audio_Close_def Let_def)
next
  case AIdleTimer
  then show ?thesis using assms by (auto simp: audio_life_def audio_idle_fired_def)
next
  case (ARead c data now ts)
  have ts: "set ts = ap_subs s" "distinct ts" using assms(2) by (simp_all add: ARead audio_enabled_def)
  show ?thesis unfolding ARead audio_step.simps
  proof (cases rule: readLoop_read_cases [of s c data now ts])
    case (live l sg lg)
    have "ap_subs (readLoop_read c data now ts s) = ap_subs s" "ap_running (readLoop_read c data now ts s) = ap_running s"
      "ap_stopTimer (readLoop_read c data now ts s) = ap_stopTimer s"
      unfolding live(4) using ts by (simp_all add: audio_publish_fields)
    then show "audio_life (readLoop_read c data now ts s)" using assms(1) unfolding audio_life_def by metis
  qed (use assms(1) in \<open>simp_all add: audio_life_def\<close>)
next
  case (AReadError c)
  then show ?thesis using assms(1) by (auto simp: audio_life_def readLoop_end_def Let_def audio_failAllLocked_def split: option.split)
qed (use assms in \<open>auto simp: audio_life_def audio_Shutdown_def audio_failAllLocked_def audio_receive_def Let_def\<close>)

lemma fed_memberD:
  assumes "audio_fed_all s" "i \<in> ap_subs s"
  shows "audio_fed True (ap_published s) (ap_heap s i)" "audio_seq_ok (ap_seq s) (ap_published s)"
proof -
  have "audio_fed (i \<in> ap_subs s) (ap_published s) (ap_heap s i)" using assms(1) by (simp add: audio_fed_all_def)
  then show "audio_fed True (ap_published s) (ap_heap s i)" using assms(2) by simp
  show "audio_seq_ok (ap_seq s) (ap_published s)" using assms(1) by (simp add: audio_fed_all_def)
qed

theorem audio_inv_reach: "audio_reach s0 s \<Longrightarrow> audio_inv s0 \<Longrightarrow> audio_inv s"
  by (induction rule: audio_reach.induct) (auto simp: audio_inv_def fed_step runs_step life_step)

section \<open>What the subscribers observe\<close>

text \<open>
  In every reachable state an open subscription has received, and has queued, a
  subsequence of the chunks published since it subscribed, in the order of publication and with
  consecutive sequence numbers (modulo \<open>2^32\<close>) in the published stream; its queue holds
  at most one chunk, which is the newest one; and every chunk that it misses was counted as dropped.
\<close>
theorem audio_subscriber_live:
  assumes "audio_reach (NewAudioPipeline b) s" "i \<in> ap_subs s"
  shows "let sub = ap_heap s i in
    subseq (as_got sub @ as_C sub) (drop (as_from sub) (ap_published s)) \<and>
    length (as_C sub) \<le> queueCap \<and> (as_C sub \<noteq> [] \<longrightarrow> as_C sub = [last (ap_published s)]) \<and>
    length (ap_published s) = as_from sub + length (as_got sub) + length (as_C sub) + as_lost sub \<and>
    (\<forall>k<length (ap_published s). ac_Seq (ap_published s ! k) = word_of_nat (Suc k))"
proof -
  have "audio_fed_all s" using audio_inv_reach [OF assms(1) audio_inv_new] by (simp add: audio_inv_def)
  from fed_memberD [OF this assms(2)] show ?thesis by (simp add: audio_fed_def audio_seq_ok_def Let_def)
qed

definition one_listener :: audio_pipeline where
  \<comment> \<open>a running pipeline with a single subscription\<close>
  "one_listener = audio_step (ASubscribe 0 True) (NewAudioPipeline True)"

lemma one_listener_reach: "audio_reach (NewAudioPipeline True) one_listener"
  unfolding one_listener_def
  by (rule audio_next [OF audio_start]) (simp add: audio_enabled_def NewAudioPipeline_def)

lemma one_listener_eq: "one_listener = (NewAudioPipeline True)\<lparr>ap_subs := {0}, ap_capture := Some 0, ap_running := True, ap_runID := 1,
    ap_nextCapture := 1, ap_loops := [0 \<mapsto> \<lparr>rl_runID = 1, rl_signal = pcm_reset\<rparr>]\<rparr>"
  by (simp add: one_listener_def NewAudioPipeline_def audio_Subscribe_def audio_startLocked_def Let_def empty_audio_sub_def fun_eq_iff)

theorem audio_subscriber_live_witness:
  "0 \<in> ap_subs one_listener \<and> subseq (as_got (ap_heap one_listener 0)) (ap_published one_listener)"
  using audio_subscriber_live [OF one_listener_reach, of 0]
  by (simp add: one_listener_eq NewAudioPipeline_def empty_audio_sub_def)

text \<open>
  C34 (safety). Only the reader of the current capture publishes: a step that extends the
  published stream is an iteration of the goroutine whose capture the pipeline holds and has not
  closed, it appends that goroutine's data, and afterwards every open subscription's queue
  is exactly the new chunk. A goroutine of an earlier run changes nothing the subscribers can see.
\<close>
theorem audio_current_capture_publishes:
  assumes "audio_reach (NewAudioPipeline b) s" "audio_enabled e s" "ap_published (audio_step e s) \<noteq> ap_published s"
  shows "\<exists>c data now ts ch. e = ARead c data now ts \<and> ap_capture s = Some c \<and> c \<notin> ap_closed s \<and>
    ac_Data ch = data \<and> ap_published (audio_step e s) = ap_published s @ [ch] \<and>
    (\<forall>i. i \<in> ap_subs s \<longrightarrow> as_C (ap_heap (audio_step e s) i) = [ch])"
proof -
  have inv: "audio_fed_all s" "audio_runs s"
    using audio_inv_reach [OF assms(1) audio_inv_new] by (simp_all add: audio_inv_def)
  obtain c data now ts where e: "e = ARead c data now ts"
    using assms(3) by (cases e)
      (auto simp: audio_Subscribe_def audio_startLocked_def audio_Close_def audio_idle_fired_def audio_stopLocked_def
        audio_Shutdown_def audio_failAllLocked_def readLoop_end_def audio_receive_def Let_def split: option.splits if_splits)
  have ts: "set ts = ap_subs s" "distinct ts" using assms(2) by (simp_all add: e audio_enabled_def)
  show ?thesis
  proof (cases rule: readLoop_read_cases [of s c data now ts])
    case (live l sg lg)
    have cap: "ap_capture s = Some c" using runs_current(1) [OF inv(2) live(1,2)] .
    define ch where "ch = audio_chunk_of data now (ap_seq s + 1)"
    have pub: "ap_published (audio_step e s) = ap_published s @ [ch]"
      "\<And>i. i \<in> ap_subs s \<Longrightarrow> ap_heap (audio_step e s) i = audio_offer ch (ap_heap s i)"
      unfolding e audio_step.simps live(4) ch_def using ts by (simp_all add: audio_publish_fields)
    have "as_C (ap_heap (audio_step e s) i) = [ch]" if "i \<in> ap_subs s" for i
    proof -
      have "audio_fed True (ap_published s) (ap_heap s i)" by (rule fed_memberD(1) [OF inv(1) that])
      then show ?thesis unfolding pub(2) [OF that] by (intro audio_offer_queue) (simp add: audio_fed_def queue_of_one)
    qed
    then show ?thesis using e cap runs_current(2) [OF inv(2) cap] pub(1) by (intro exI [of _ c] exI [of _ data]
          exI [of _ now] exI [of _ ts] exI [of _ ch]) (simp add: ch_def audio_chunk_of_def)
  qed (use assms(3) e in simp_all)
qed

theorem audio_current_capture_publishes_witness:
  "\<exists>ch. ac_Data ch = replicate 640 0 \<and>
     ap_published (audio_step (ARead 0 (replicate 640 0) 5 [0]) one_listener) = [ch]"
proof -
  have "audio_enabled (ARead 0 (replicate 640 0) 5 [0]) one_listener"
    by (simp add: audio_enabled_def one_listener_eq NewAudioPipeline_def chunkBytes_def sampleRate_def channels_def chunkMS_def)
  moreover have "ap_published (audio_step (ARead 0 (replicate 640 0) 5 [0]) one_listener) \<noteq> ap_published one_listener"
    by (simp add: one_listener_eq NewAudioPipeline_def readLoop_read_def readLoop_signal_def audio_publish_def audio_send_def Let_def split: prod.split)
  ultimately show ?thesis
    using audio_current_capture_publishes [OF one_listener_reach, of "ARead 0 (replicate 640 0) 5 [0]"]
    by (auto simp: one_listener_eq NewAudioPipeline_def)
qed

text \<open>
  Nobody waits on a stopped pipeline: in every reachable state the capture runs
  while there are subscribers; when it runs without subscribers the idle timer has been set,
  and its callback then stops the run, closes the capture and makes its goroutine stale.
\<close>
theorem audio_capture_lifecycle:
  assumes "audio_reach (NewAudioPipeline b) s"
  shows "(ap_subs s \<noteq> {} \<longrightarrow> ap_running s) \<and>
    (ap_running s \<and> ap_subs s = {} \<longrightarrow> ap_stopTimer s \<noteq> None \<and>
       (let s' = audio_step AIdleTimer s in \<not> ap_running s' \<and> ap_capture s' = None \<and>
          set_option (ap_capture s) \<subseteq> ap_closed s' \<and> ap_runID s' = ap_runID s + 1))"
proof -
  have "audio_life s" using audio_inv_reach [OF assms audio_inv_new] by (simp add: audio_inv_def)
  then show ?thesis by (simp add: audio_life_def audio_idle_fired_def Let_def)
qed

theorem audio_capture_lifecycle_witness: "ap_subs one_listener = {0} \<and> ap_running one_listener"
  using audio_capture_lifecycle [OF one_listener_reach] by (simp add: one_listener_eq)

end
