(* ===== verification/Audio_Signal.thy ===== *)
theory Audio_Signal
  imports Audio_Pipeline
begin

text \<open>
  The PCM signal window computes what its field names say: over the chunks of one window its
  64-bit counters equal the number of samples, of nonzero samples and of silent chunks, the
  sum and the maximum of the absolute values of the signed 16-bit little-endian samples, without any
  wrap-around, and the summary reports a percentage between 0 and 100.
\<close>

section \<open>Reference definitions\<close>

fun le_samples :: "bytes \<Rightarrow> int list" where
  \<comment> \<open>signed 16-bit little-endian samples; a trailing odd byte is ignored\<close>
  "le_samples (lo # hi # data) =
     (let v = uint lo + 256 * uint hi in if v < 32768 then v else v - 65536) # le_samples data"
| "le_samples _ = []"

definition peak_of :: "int list \<Rightarrow> int" where
  "peak_of xs = fold max (map abs xs) 0"

definition nonzero_of :: "int list \<Rightarrow> int" where
  "nonzero_of xs = int (length (filter (\<lambda>x. x \<noteq> 0) xs))"

section \<open>One chunk\<close>

lemma le_pair_uint: "uint (or (ucast (lo :: byte)) (push_bit 8 (ucast (hi :: byte))) :: uint16) = uint lo + 256 * uint hi"
proof -
  have lo: "0 \<le> uint lo" "uint lo < 2 ^ 8" and hi: "0 \<le> uint hi" "uint hi < 2 ^ 8"
    using unsigned_less [of lo] unsigned_less [of hi] by simp_all
  have "and (ucast lo) (push_bit 8 (ucast hi)) = (0 :: uint16)"
    by (rule bit_word_eqI) (auto simp: bit_and_iff bit_push_bit_iff bit_ucast_iff dest: bit_imp_le_length)
  then have "or (ucast lo) (push_bit 8 (ucast hi)) = (ucast lo + push_bit 8 (ucast hi) :: uint16)"
    by (metis word_plus_and_or add.right_neutral add.commute)
  also have "uint \<dots> = (uint lo + 256 * uint hi) mod 2 ^ 16"
    by (simp add: uint_word_ariths push_bit_eq_mult unsigned_ucast_eq take_bit_eq_mod mod_simps ac_simps)
  also have "\<dots> = uint lo + 256 * uint hi" using lo hi by simp
  finally show ?thesis .
qed

lemma pcm_sample_eq: "pcm_sample lo hi = (let v = uint lo + 256 * uint hi in if v < 32768 then v else v - 65536)"
proof -
  define w :: uint16 where "w = or (ucast lo) (push_bit 8 (ucast hi))"
  have "sint w = (if uint w < 32768 then uint w else uint w - 65536)"
  proof -
    have w: "0 \<le> uint w" "uint w < 65536" using uint_range_size [of w] by (simp_all add: word_size)
    have "sint w = (uint w + 32768) mod 65536 - 32768"
      by (simp add: sint_uint signed_take_bit_eq_take_bit_shift take_bit_eq_mod)
    moreover have "(uint w + 32768) mod 65536 = (if uint w < 32768 then uint w + 32768 else uint w - 32768)"
      using w by (auto simp: mod_pos_pos_trivial) (subst mod_pos_geq, simp_all add: mod_pos_pos_trivial)
    ultimately show ?thesis by simp
  qed
  then show ?thesis unfolding pcm_sample_def w_def [symmetric] using le_pair_uint [of lo hi] by (simp add: w_def Let_def)
qed

lemma pcm_sample_range: "\<bar>pcm_sample lo hi\<bar> \<le> 32768"
  using uint_range_size [of lo] uint_range_size [of hi] by (simp add: pcm_sample_eq Let_def word_size)

lemma uint_magnitude: "\<bar>x\<bar> \<le> 32768 \<Longrightarrow> uint (pcm_magnitude x) = \<bar>x\<bar>"
  by (simp add: pcm_magnitude_def abs_if unsigned_of_int take_bit_eq_mod)

lemma uint_add_exact: "uint a + uint b < 2 ^ 64 \<Longrightarrow> uint (a + b :: uint64) = uint a + uint b"
  by (subst uint_plus_if') simp

lemma le_samples_range: "x \<in> set (le_samples data) \<Longrightarrow> \<bar>x\<bar> \<le> 32768"
  by (induction data rule: le_samples.induct) (auto simp: pcm_sample_eq [symmetric] intro: pcm_sample_range)

lemma length_le_samples [simp]: "length (le_samples data) = length data div 2"
  by (induction data rule: le_samples.induct) auto

lemma sum_abs_bound: "(\<And>x. x \<in> set xs \<Longrightarrow> \<bar>x\<bar> \<le> 32768) \<Longrightarrow> (\<Sum>x\<leftarrow>xs. \<bar>x :: int\<bar>) \<le> 32768 * int (length xs)"
  by (induction xs) (auto simp: algebra_simps, smt (verit))

lemma fold_max_eq: "fold max xs (max a b) = max a (fold max xs (b :: int))"
proof (induction xs arbitrary: b)
  case (Cons x xs)
  have "max x (max a b) = max a (max x b)" by (rule max.left_commute)
  then show ?case using Cons by simp
qed simp

lemma pcm_scan_exact:
  assumes "uint nz + int (length data) < 2 ^ 40" "uint sm + 32768 * int (length data) < 2 ^ 60"
  shows "case pcm_scan data nz sm pk of (nz', sm', pk') \<Rightarrow>
    uint nz' = uint nz + nonzero_of (le_samples data) \<and>
    uint sm' = uint sm + (\<Sum>x\<leftarrow>le_samples data. \<bar>x\<bar>) \<and> uint pk' = max (uint pk) (peak_of (le_samples data))"
  using assms
proof (induction data nz sm pk rule: pcm_scan.induct)
  case (1 lo hi data nz sm pk)
  define x where "x = pcm_sample lo hi"
  define m where "m = pcm_magnitude x"
  have m: "uint m = \<bar>x\<bar>" "\<bar>x\<bar> \<le> 32768" using uint_magnitude pcm_sample_range by (simp_all add: m_def x_def)
  have z: "m = 0 \<longleftrightarrow> x = 0" using m(1) by (metis abs_eq_0 uint_0_iff)
  define nz' sm' pk' where "nz' = (if m \<noteq> 0 then nz + 1 else nz)" and "sm' = sm + m" and "pk' = (if m > pk then m else pk)"
  have nz: "uint nz' = uint nz + (if x = 0 then 0 else 1)"
    using 1(2) by (simp add: nz'_def z uint_add_exact)
  have sm: "uint sm' = uint sm + \<bar>x\<bar>" unfolding sm'_def m(1) [symmetric] using 1(3) m by (intro uint_add_exact) simp
  have pk: "uint pk' = max (uint pk) \<bar>x\<bar>" using m(1) by (auto simp: pk'_def word_less_alt)
  have step: "pcm_scan (lo # hi # data) nz sm pk = pcm_scan data nz' sm' pk'"
    by (simp add: Let_def nz'_def sm'_def pk'_def m_def x_def)
  have samples: "le_samples (lo # hi # data) = x # le_samples data" by (simp add: x_def pcm_sample_eq)
  have IH: "case pcm_scan data nz' sm' pk' of (nz'', sm'', pk'') \<Rightarrow>
    uint nz'' = uint nz' + nonzero_of (le_samples data) \<and>
    uint sm'' = uint sm' + (\<Sum>x\<leftarrow>le_samples data. \<bar>x\<bar>) \<and> uint pk'' = max (uint pk') (peak_of (le_samples data))"
    using 1(1) [of m] 1(2,3) nz sm m(2) unfolding nz'_def sm'_def pk'_def m_def x_def by (simp split: if_splits)
  have peak: "peak_of (x # le_samples data) = max \<bar>x\<bar> (peak_of (le_samples data))"
    using fold_max_eq [of "map abs (le_samples data)" "\<bar>x\<bar>" 0] by (simp add: peak_of_def)
  show ?case unfolding step samples using IH by (auto simp: nz sm pk peak nonzero_of_def max.assoc split: prod.splits)
qed (simp_all add: nonzero_of_def peak_of_def)

section \<open>One window\<close>

definition window_of :: "bytes list \<Rightarrow> pcm_window" where
  "window_of ds = fold pcm_observe ds pcm_reset"

definition exact_window :: "bytes list \<Rightarrow> pcm_window \<Rightarrow> bool" where
  "exact_window ds w \<longleftrightarrow>
    (let xs = concat (map le_samples ds)
     in uint (pw_chunks w) = int (length ds) \<and>
        uint (pw_silentChunks w) = int (length (filter (\<lambda>d. nonzero_of (le_samples d) = 0) ds)) \<and>
        uint (pw_samples w) = int (length xs) \<and> uint (pw_nonzeroSamples w) = nonzero_of xs \<and>
        uint (pw_absSum w) = (\<Sum>x\<leftarrow>xs. \<bar>x\<bar>) \<and> uint (pw_peak w) = peak_of xs)"

lemma peak_of_append: "peak_of (xs @ ys) = max (peak_of xs) (peak_of ys)"
proof -
  have "0 \<le> peak_of xs" unfolding peak_of_def using fold_max_eq [of "map abs xs" 0 0] by simp
  then show ?thesis
    using fold_max_eq [of "map abs ys" "peak_of xs" 0] by (simp add: peak_of_def)
qed

lemma nonzero_of_le: "nonzero_of xs \<le> int (length xs)"
  by (simp add: nonzero_of_def)

lemma observe_exact:
  assumes "exact_window ds w" "length d = 640" "length (concat (map le_samples ds)) \<le> 80000" "length ds \<le> 250"
  shows "exact_window (ds @ [d]) (pcm_observe d w)"
proof -
  obtain nz sm pk where scan: "pcm_scan d 0 0 0 = (nz, sm, pk)" by (metis prod_cases3)
  have one: "uint nz = nonzero_of (le_samples d)" "uint sm = (\<Sum>x\<leftarrow>le_samples d. \<bar>x\<bar>)" "uint pk = peak_of (le_samples d)"
    using pcm_scan_exact [of 0 d 0 0] assms(2) fold_max_eq [of "map abs (le_samples d)" 0 0]
    by (simp_all add: scan peak_of_def)
  define xs where "xs = concat (map le_samples ds)"
  have rng: "\<bar>x\<bar> \<le> 32768" if "x \<in> set xs" for x using that le_samples_range by (auto simp: xs_def)
  have len: "int (length xs) \<le> 80000" using assms(3) by (simp add: xs_def)
  have small: "nonzero_of xs \<le> 80000" "(\<Sum>x\<leftarrow>xs. \<bar>x\<bar>) \<le> 32768 * 80000"
    using nonzero_of_le [of xs] sum_abs_bound [of xs] rng len by (linarith, fastforce)
  have small1: "nonzero_of (le_samples d) \<le> 320" "(\<Sum>x\<leftarrow>le_samples d. \<bar>x\<bar>) \<le> 32768 * 320"
    using nonzero_of_le [of "le_samples d"] sum_abs_bound [of "le_samples d"] le_samples_range assms(2) by auto
  have nz0: "nz = 0 \<longleftrightarrow> nonzero_of (le_samples d) = 0" using one(1) by (metis uint_0_iff)
  have w: "uint (pw_chunks w) = int (length ds)" "uint (pw_samples w) = int (length xs)"
    "uint (pw_silentChunks w) = int (length (filter (\<lambda>d. nonzero_of (le_samples d) = 0) ds))"
    "uint (pw_nonzeroSamples w) = nonzero_of xs" "uint (pw_absSum w) = (\<Sum>x\<leftarrow>xs. \<bar>x\<bar>)" "uint (pw_peak w) = peak_of xs"
    using assms(1) by (simp_all add: exact_window_def Let_def xs_def)
  have silent: "length (filter (\<lambda>d. nonzero_of (le_samples d) = 0) ds) \<le> 250"
    using assms(4) length_filter_le le_trans by blast
  have sums:
    "uint (pw_chunks w + 1) = int (length ds) + 1"
    "uint (pw_silentChunks w + 1) = int (length (filter (\<lambda>d. nonzero_of (le_samples d) = 0) ds)) + 1"
    "uint (pw_samples w + word_of_nat (length d div 2)) = int (length xs) + 320"
    "uint (pw_nonzeroSamples w + nz) = nonzero_of xs + nonzero_of (le_samples d)"
    "uint (pw_absSum w + sm) = (\<Sum>x\<leftarrow>xs. \<bar>x\<bar>) + (\<Sum>x\<leftarrow>le_samples d. \<bar>x\<bar>)"
    using small small1 silent assms(2,3,4) by (simp_all add: uint_add_exact w one xs_def)
  show ?thesis
    using sums w one nz0 assms(2)
    by (auto simp: exact_window_def pcm_observe_def scan Let_def xs_def [symmetric] nonzero_of_def peak_of_append
        word_less_alt max_def)
qed

lemma window_exact:
  assumes "length ds \<le> 250" "\<And>d. d \<in> set ds \<Longrightarrow> length d = 640"
  shows "exact_window ds (window_of ds) \<and> length (concat (map le_samples ds)) = 320 * length ds"
  using assms
proof (induction ds rule: rev_induct)
  case Nil
  then show ?case by (simp add: exact_window_def window_of_def pcm_reset_def nonzero_of_def peak_of_def)
next
  case (snoc d ds)
  then have IH: "exact_window ds (window_of ds)" "length (concat (map le_samples ds)) = 320 * length ds" by auto
  show ?case using observe_exact [OF IH(1), of d] IH(2) snoc.prems by (simp add: window_of_def)
qed

lemma percentage_range:
  assumes "0 \<le> n" "n \<le> N" "0 < N" "N < 2 ^ 40"
  shows "\<exists>p. f_div (f_mul (Fin 100) (f_of_int n)) (f_of_int N) = Fin p \<and> 0 \<le> p \<and> p \<le> 100"
proof -
  define q :: rat where "q = of_int (100 * n) / of_int N"
  have ints: "f_of_int n = Fin (of_int n)" "f_of_int N = Fin (of_int N)" using assms by (simp_all add: f_of_int_small)
  have "f_mul (Fin 100) (f_of_int n) = f_of_int (100 * n)" unfolding ints(1) by (simp add: f_of_int_def)
  also have "\<dots> = Fin (of_int (100 * n))" using assms by (intro f_of_int_small) simp
  finally have mul: "f_mul (Fin 100) (f_of_int n) = Fin (of_int (100 * n))" .
  have "of_int (100 * n) \<le> (of_int (100 * N) :: rat)" using assms by (simp only: of_int_le_iff)
  then have q: "0 \<le> q" "q \<le> 100" using assms by (simp_all add: q_def divide_simps)
  have rep: "representable 100" using representable_int [of 100] by simp
  have "100 \<le> (2 ^ 1000 :: rat)" using power_increasing [of 7 1000 "2 :: rat"] by simp
  then have "f_div (f_mul (Fin 100) (f_of_int n)) (f_of_int N) = Fin (rnd_signed q)"
    using assms q by (simp add: mul ints(2) q_def [symmetric] round_f64_small del: of_int_mult)
  then show ?thesis using rnd_signed_le [OF q(2) rep] rnd_signed_ge [OF q(1) representable_0] by simp
qed

text \<open>
  Over a window of at most \<^verbatim>\<open>pcmSignalLogChunks\<close> chunks of \<^verbatim>\<open>chunkBytes\<close> bytes the
  counters computed with wrapping 64-bit arithmetic equal the reference statistics of the decoded
  samples, and the summary reports the state \<open>signal\<close> exactly when some sample is nonzero, with
  a percentage between 0 and 100 despite rounding.
\<close>
theorem pcm_window_exact:
  assumes "ds \<noteq> []" "int (length ds) \<le> uint pcmSignalLogChunks" "list_all (\<lambda>d. int (length d) = chunkBytes) ds"
  shows "exact_window ds (window_of ds) \<and>
    (ps_state (pcm_fields (window_of ds)) = ''signal'' \<longleftrightarrow> list_ex (\<lambda>d. list_ex (\<lambda>x. x \<noteq> 0) (le_samples d)) ds) \<and>
    (\<exists>p. ps_nonzeroPercent (pcm_fields (window_of ds)) = Fin p \<and> 0 \<le> p \<and> p \<le> 100)"
proof -
  define w xs where "w = window_of ds" and "xs = concat (map le_samples ds)"
  have len: "length ds \<le> 250" "d \<in> set ds \<Longrightarrow> length d = 640" for d
    using assms(2,3) by (auto simp: pcmSignalLogChunks_def list_all_iff chunkBytes_def sampleRate_def channels_def chunkMS_def)
  have ex: "exact_window ds w" "length xs = 320 * length ds" using window_exact [OF len] by (simp_all add: w_def xs_def)
  then have n: "uint (pw_nonzeroSamples w) = nonzero_of xs" and N: "uint (pw_samples w) = int (length xs)"
    by (simp_all add: exact_window_def Let_def xs_def)
  have pos: "0 < length xs" using ex(2) assms(1) by simp
  then have nonempty: "pw_samples w \<noteq> 0" using N by (metis of_nat_0_less_iff less_irrefl uint_0_eq)
  have "pw_nonzeroSamples w \<noteq> 0 \<longleftrightarrow> nonzero_of xs \<noteq> 0" using n by (metis uint_0_iff)
  also have "\<dots> \<longleftrightarrow> (\<exists>x\<in>set xs. x \<noteq> 0)" by (auto simp: nonzero_of_def filter_empty_conv)
  finally have "ps_state (pcm_fields w) = ''signal'' \<longleftrightarrow> list_ex (\<lambda>d. list_ex (\<lambda>x. x \<noteq> 0) (le_samples d)) ds"
    by (auto simp: pcm_fields_def Let_def xs_def list_ex_iff split: prod.splits)
  moreover have "\<exists>p. ps_nonzeroPercent (pcm_fields w) = Fin p \<and> 0 \<le> p \<and> p \<le> 100"
    using percentage_range [of "nonzero_of xs" "int (length xs)"] nonzero_of_le [of xs] pos ex(2) len(1) nonempty n N
    by (simp add: pcm_fields_def nonzero_of_def)
  ultimately show ?thesis using ex(1) by (simp add: w_def)
qed

theorem pcm_window_exact_witness: "exact_window [replicate 640 0] (window_of [replicate 640 0])"
  using pcm_window_exact [of "[replicate 640 0]"]
  by (simp add: pcmSignalLogChunks_def chunkBytes_def sampleRate_def channels_def chunkMS_def)

end
