(* ===== verification/Telemetry_Facts.thy ===== *)
theory Telemetry_Facts
  imports Telemetry "HOL-Library.Multiset"
begin

text \<open>
  What the metric and trace primitives promise: the bucket found by binary search is the number
  of bounds below the value, the ring's snapshot is the list of the newest events, and the best
  clock offset is within its uncertainty of the true one.
\<close>

section \<open>Binary search\<close>

lemma search_loop_correct:
  assumes "i \<le> j" "\<And>k. k < i \<Longrightarrow> \<not> f k" "\<And>k. j \<le> k \<Longrightarrow> k < n \<Longrightarrow> f k" "j \<le> n"
    "\<And>k l. f k \<Longrightarrow> k \<le> l \<Longrightarrow> l < n \<Longrightarrow> f l"
  shows "search_loop f i j \<le> n \<and> (\<forall>k. k < search_loop f i j \<longrightarrow> \<not> f k) \<and> (\<forall>k. search_loop f i j \<le> k \<and> k < n \<longrightarrow> f k)"
  using assms
proof (induction f i j rule: search_loop.induct)
  case (1 f i j)
  note mono = 1(7)
  define h where "h = (i + j) div 2"
  show ?case
  proof (cases "i < j")
    case True
    then have h: "i \<le> h" "h < j" by (auto simp: h_def)
    show ?thesis
    proof (cases "f h")
      case fh: True
      have up: "f k" if "h \<le> k" "k < n" for k using mono [OF fh that] .
      have "search_loop f i j = search_loop f i h" using True fh by (subst search_loop.simps) (simp add: h_def Let_def)
      moreover have "search_loop f i h \<le> n \<and> (\<forall>k. k < search_loop f i h \<longrightarrow> \<not> f k) \<and> (\<forall>k. search_loop f i h \<le> k \<and> k < n \<longrightarrow> f k)"
        by (rule 1(2) [OF True h_def]) (use fh up h 1(4,6) mono in auto)
      ultimately show ?thesis by simp
    next
      case False
      have dn: "\<not> f k" if "k < h + 1" for k
        using mono [of k h] False h 1(6) that by auto
      have "search_loop f i j = search_loop f (h + 1) j" using True False by (subst search_loop.simps) (simp add: h_def Let_def)
      moreover have "search_loop f (h + 1) j \<le> n \<and> (\<forall>k. k < search_loop f (h + 1) j \<longrightarrow> \<not> f k) \<and> (\<forall>k. search_loop f (h + 1) j \<le> k \<and> k < n \<longrightarrow> f k)"
        by (rule 1(1) [OF True h_def]) (use False dn h 1(5,6) mono in auto)
      ultimately show ?thesis by simp
    qed
  next
    case False
    then have "search_loop f i j = i" by (subst search_loop.simps) simp
    then show ?thesis using 1(3-6) False by auto
  qed
qed

lemma sort_Search_first:
  assumes "\<And>k l. f k \<Longrightarrow> k \<le> l \<Longrightarrow> l < n \<Longrightarrow> f l"
  shows "sort_Search n f \<le> n" "k < sort_Search n f \<Longrightarrow> \<not> f k" "sort_Search n f \<le> k \<Longrightarrow> k < n \<Longrightarrow> f k"
  unfolding sort_Search_def using search_loop_correct [of 0 n f n] assms by auto

section \<open>Histograms\<close>

definition bucket :: "uint64 list \<Rightarrow> uint64 \<Rightarrow> nat" where
  \<comment> \<open>the number of bounds below the value\<close>
  "bucket bounds v = length (filter (\<lambda>b. b < v) bounds)"

lemma bucket_sort: "bucket (sort bounds) v = bucket bounds v"
  unfolding bucket_def by (metis mset_filter mset_sort size_mset)

lemma search_bucket:
  assumes "sorted b"
  shows "sort_Search (length b) (\<lambda>i. v \<le> b ! i) = bucket b v"
proof -
  define r where "r = sort_Search (length b) (\<lambda>i. v \<le> b ! i)"
  have mono: "v \<le> b ! l" if "v \<le> b ! k" "k \<le> l" "l < length b" for k l
    using sorted_nth_mono [OF assms, of k l] that by auto
  have first: "r \<le> length b" "k < r \<Longrightarrow> \<not> v \<le> b ! k" "r \<le> k \<Longrightarrow> k < length b \<Longrightarrow> v \<le> b ! k" for k
    unfolding r_def by (rule sort_Search_first [of "\<lambda>i. v \<le> b ! i" "length b"]; use mono in blast)+
  have lo: "b ! k < v" if "k < r" for k using first(2) [OF that] by (simp add: not_le)
  have "filter (\<lambda>x. x < v) (take r b) = take r b"
    using lo first(1) by (intro filter_True) (auto simp: in_set_conv_nth)
  moreover have "filter (\<lambda>x. x < v) (drop r b) = []"
    using first(3) by (intro filter_False) (auto simp: in_set_conv_nth not_less)
  ultimately have "filter (\<lambda>x. x < v) b = take r b"
    by (metis append_Nil2 append_take_drop_id filter_append)
  then show ?thesis using first(1) by (simp add: bucket_def r_def [symmetric])
qed

lemma bucket_le: "bucket bounds v \<le> length bounds"
  by (simp add: bucket_def)

lemma fold_observe:
  assumes "sorted (hg_bounds h)" "length (hg_counts h) = length (hg_bounds h) + 1"
  shows "hg_bounds (fold hist_Observe vs h) = hg_bounds h \<and>
    length (hg_counts (fold hist_Observe vs h)) = length (hg_bounds h) + 1 \<and>
    hg_total (fold hist_Observe vs h) = hg_total h + word_of_nat (length vs) \<and>
    hg_sum (fold hist_Observe vs h) = hg_sum h + sum_list vs \<and>
    (\<forall>i \<le> length (hg_bounds h). hg_counts (fold hist_Observe vs h) ! i =
       hg_counts h ! i + word_of_nat (length (filter (\<lambda>v. bucket (hg_bounds h) v = i) vs)))"
  using assms
proof (induction vs arbitrary: h)
  case (Cons v vs)
  define h' where "h' = hist_Observe v h"
  have h': "hg_bounds h' = hg_bounds h" "hg_counts h' = (hg_counts h)[bucket (hg_bounds h) v := hg_counts h ! bucket (hg_bounds h) v + 1]"
    "hg_total h' = hg_total h + 1" "hg_sum h' = hg_sum h + v"
    by (simp_all add: h'_def hist_Observe_def Let_def search_bucket [OF Cons.prems(1)])
  have "bucket (hg_bounds h) v < length (hg_counts h)" using Cons.prems(2) bucket_le [of "hg_bounds h" v] by simp
  then show ?case using Cons.IH [of h'] Cons.prems unfolding fold_simps h'_def [symmetric]
    by (auto simp: h' nth_list_update algebra_simps)
qed simp

text \<open>
  After any sequence of observations every bucket of a histogram holds the number of
  the observed values whose first inclusive upper bound is that bucket's, whatever the
  order in which the bounds were given: the binary search agrees with counting the bounds below
  the value. The count and the sum are those of the observations, modulo \<open>2^64\<close>.
\<close>
theorem histogram_counts_observations:
  "let h = hist_Snapshot (fold hist_Observe vs (NewHistogram bounds))
   in length (hs_Counts h) = length bounds + 1 \<and>
      (\<forall>i. i \<le> length bounds \<longrightarrow> hs_Counts h ! i = word_of_nat (length (filter (\<lambda>v. bucket bounds v = i) vs))) \<and>
      hs_Count h = word_of_nat (length vs) \<and> hs_Sum h = sum_list vs"
  using fold_observe [of "NewHistogram bounds" vs]
  by (simp add: NewHistogram_def Let_def hist_Snapshot_def bucket_sort nth_Cons split: nat.split)

theorem histogram_counts_observations_witness:
  "length (hs_Counts (hist_Snapshot (fold hist_Observe [5, 20] (NewHistogram [10, 4])))) = 3"
  using histogram_counts_observations [of "[5, 20]" "[10, 4]"] by (simp add: Let_def)

section \<open>The trace ring\<close>

definition ring_holds :: "'a trace_event list \<Rightarrow> 'a trace_ring \<Rightarrow> bool" where
  \<comment> \<open>the ring after \<open>es\<close> were added to an empty one\<close>
  "ring_holds es r \<longleftrightarrow>
    (let n = length (tr_events r); k = length es
     in 0 < n \<and> tr_enabled r \<and> tr_count r = min k n \<and> tr_next r = k mod n \<and> tr_dropped r = word_of_nat (k - n) \<and>
        (\<forall>i. k - min k n \<le> i \<and> i < k \<longrightarrow> tr_events r ! (i mod n) = es ! i))"

lemma mod_neq_window: "i < k \<Longrightarrow> k < i + n \<Longrightarrow> i mod n \<noteq> k mod (n :: nat)"
proof
  assume less: "i < k" "k < i + n" and "i mod n = k mod n"
  then have "n dvd k - i" using mod_eq_dvd_iff_nat [of i k n] by simp
  then show False using less by (auto dest: dvd_imp_le)
qed

lemma ring_holds_add:
  assumes "ring_holds es r"
  shows "ring_holds (es @ [stamp_event t e]) (ring_Add t e r)" "length (tr_events (ring_Add t e r)) = length (tr_events r)"
proof -
  define n k where "n = length (tr_events r)" and "k = length es"
  have r: "0 < n" "tr_enabled r" "tr_count r = min k n" "tr_next r = k mod n" "tr_dropped r = word_of_nat (k - n)"
    "\<And>i. k - min k n \<le> i \<Longrightarrow> i < k \<Longrightarrow> tr_events r ! (i mod n) = es ! i"
    using assms by (simp_all add: ring_holds_def Let_def n_def k_def)
  define r' where "r' = ring_Add t e r"
  have r': "tr_events r' = (tr_events r)[k mod n := stamp_event t e]" "tr_enabled r'" "tr_next r' = Suc k mod n"
    "tr_count r' = min (Suc k) n" "tr_dropped r' = word_of_nat (Suc k - n)"
    using r(1-5) by (auto simp: r'_def ring_Add_def Let_def n_def [symmetric] mod_Suc_eq min_def Suc_diff_le)
  have "tr_events r' ! (i mod n) = (es @ [stamp_event t e]) ! i" if "Suc k - min (Suc k) n \<le> i" "i < Suc k" for i
  proof (cases "i = k")
    case True
    then show ?thesis using r(1) by (simp add: r'(1) k_def n_def)
  next
    case False
    then have i: "i < k" "k < i + n" "k - min k n \<le> i" using that r(1) by (auto simp: min_def split: if_splits)
    show ?thesis using r(6) [OF i(3,1)] mod_neq_window [OF i(1,2)] i(1) by (simp add: r'(1) nth_append k_def)
  qed
  then show "ring_holds (es @ [stamp_event t e]) (ring_Add t e r)"
    using r(1) r' unfolding r'_def [symmetric] ring_holds_def Let_def by (simp add: n_def k_def)
  show "length (tr_events (ring_Add t e r)) = length (tr_events r)" using r'(1) by (simp add: r'_def)
qed

lemma ring_holds_snapshot:
  assumes "ring_holds es r"
  shows "ring_Snapshot r = (lastn (length (tr_events r)) es, word_of_nat (length es - length (tr_events r)))"
proof -
  define n k where "n = length (tr_events r)" and "k = length es"
  have r: "0 < n" "tr_count r = min k n" "tr_next r = k mod n" "tr_dropped r = word_of_nat (k - n)"
    "\<And>i. k - min k n \<le> i \<Longrightarrow> i < k \<Longrightarrow> tr_events r ! (i mod n) = es ! i"
    using assms by (simp_all add: ring_holds_def Let_def n_def k_def)
  define c where "c = min k n"
  have start: "(k mod n + n - c) mod n = (k - c) mod n"
  proof (cases "k < n")
    case True
    then show ?thesis by (simp add: c_def)
  next
    case False
    then have "c = n" by (simp add: c_def)
    then show ?thesis using False le_mod_geq [of n k] by simp
  qed
  have "map (\<lambda>i. tr_events r ! (((k mod n + n - c) mod n + i) mod n)) [0..<c] = drop (k - c) es"
  proof (rule nth_equalityI)
    fix i assume "i < length (map (\<lambda>i. tr_events r ! (((k mod n + n - c) mod n + i) mod n)) [0..<c])"
    then have i: "i < c" by simp
    have "((k - c) mod n + i) mod n = (k - c + i) mod n" by (simp add: mod_add_left_eq)
    then show "map (\<lambda>i. tr_events r ! (((k mod n + n - c) mod n + i) mod n)) [0..<c] ! i = drop (k - c) es ! i"
    proof -
      have "tr_events r ! ((k - c + i) mod n) = es ! (k - c + i)" using i by (intro r(5)) (auto simp: c_def)
      then show ?thesis unfolding start using i \<open>((k - c) mod n + i) mod n = (k - c + i) mod n\<close> by (simp add: c_def k_def)
    qed
  qed (simp add: c_def k_def)
  moreover have "drop (k - c) es = lastn n es" by (auto simp: lastn_def k_def c_def min_def)
  ultimately show ?thesis using r(2-4) by (simp add: ring_Snapshot_def Let_def n_def k_def c_def)
qed

text \<open>
  The trace ring implements the queue of the newest events: after any sequence of
  additions to an enabled ring of positive capacity the snapshot is the list of the last
  \<^verbatim>\<open>capacity\<close> events in the order of addition, each stamped when it carried no timestamp, and the
  number of lost events is reported exactly (modulo \<open>2^64\<close>).
\<close>
theorem trace_ring_keeps_newest:
  assumes "0 < capacity"
  shows "ring_Snapshot (fold (\<lambda>(t, e). ring_Add t e) es (ring_SetEnabled True (NewTraceRing nil capacity))) =
    (fold (push_newest (nat capacity)) (map (\<lambda>(t, e). stamp_event t e) es) [], word_of_nat (length es - nat capacity))"
proof -
  define r0 where "r0 = ring_SetEnabled True (NewTraceRing nil capacity)"
  have len0: "length (tr_events r0) = nat capacity" using assms by (simp add: r0_def ring_SetEnabled_def NewTraceRing_def)
  have "ring_holds (map (\<lambda>(t, e). stamp_event t e) es) (fold (\<lambda>(t, e). ring_Add t e) es r0) \<and>
    length (tr_events (fold (\<lambda>(t, e). ring_Add t e) es r0)) = nat capacity"
  proof (induction es rule: rev_induct)
    case Nil
    then show ?case using assms by (simp add: ring_holds_def Let_def len0) (simp add: r0_def ring_SetEnabled_def NewTraceRing_def)
  next
    case (snoc x es)
    obtain t e where x: "x = (t, e)" by (cases x)
    show ?case using ring_holds_add [OF conjunct1 [OF snoc.IH], of t e] snoc.IH by (simp add: x)
  qed
  from ring_holds_snapshot [OF conjunct1 [OF this]] this show ?thesis
    by (simp add: r0_def [symmetric] fold_push_newest lastn_def)
qed

theorem trace_ring_keeps_newest_witness:
  "snd (ring_Snapshot (fold (\<lambda>(t, e). ring_Add t e) (replicate 5 (1000, zero_event ())) (ring_SetEnabled True (NewTraceRing () 3)))) = 2"
  using trace_ring_keeps_newest [of 3 "replicate 5 (1000, zero_event ())" "()"] by simp

section \<open>Clock synchronisation\<close>

definition exchange :: "int \<Rightarrow> nat \<Rightarrow> nat \<Rightarrow> nat \<Rightarrow> nat \<Rightarrow> clock_sample" where
  \<comment> \<open>sent at client time \<open>t\<close>, underway for \<open>there\<close> and \<open>ret\<close>, held by the backend for \<open>hold\<close>; the
     backend's clock is \<open>theta\<close> ahead of the client's\<close>
  "exchange theta t there hold ret =
     \<lparr>cs_ClientSend = word_of_nat t, cs_BackendReceive = word_of_int (int t + int there + theta),
      cs_BackendSend = word_of_int (int t + int there + int hold + theta),
      cs_ClientReceive = word_of_nat (t + there + hold + ret)\<rparr>"

lemma exchange_RTT:
  assumes "there + hold + ret < 2 ^ 62"
  shows "uint (clock_RTT (exchange theta t there hold ret)) = int there + int ret"
proof -
  define e where "e = exchange theta t there hold ret"
  have server: "cs_BackendSend e - cs_BackendReceive e = word_of_nat hold"
    and elapsed: "cs_ClientReceive e - cs_ClientSend e = word_of_nat (there + hold + ret)"
    by (simp_all add: e_def exchange_def algebra_simps)
  have "(word_of_nat hold :: uint64) \<le> word_of_nat (there + hold + ret)"
    using assms by (simp add: word_le_nat_alt unat_of_nat take_bit_nat_eq_self_iff del: of_nat_add)
  then have "clock_RTT e = word_of_nat (there + hold + ret) - word_of_nat hold"
    unfolding clock_RTT_def Let_def server elapsed by (simp only: not_less [symmetric] if_False)
  also have "\<dots> = word_of_nat (there + ret)" by simp
  finally have "clock_RTT e = word_of_nat (there + ret)" .
  then show ?thesis unfolding e_def using assms by (simp add: unsigned_of_nat take_bit_nat_eq_self del: of_nat_add)
qed

lemma exchange_Offset:
  assumes "there + hold + ret < 2 ^ 60" "\<bar>theta\<bar> < 2 ^ 60"
  shows "\<bar>clock_Offset (exchange theta t there hold ret) - theta\<bar> \<le> (int there + int ret) div 2 + 1"
proof -
  define x where "x = 2 * theta + int there - int ret"
  define e where "e = exchange theta t there hold ret"
  have "cs_BackendReceive e - cs_ClientSend e + cs_BackendSend e - cs_ClientReceive e = word_of_int x"
    by (simp add: e_def exchange_def x_def algebra_simps)
  moreover have "sint (word_of_int x :: int64) = x"
    using assms unfolding sint_sbintrunc' by (intro signed_take_bit_int_eq_self) (simp_all add: x_def)
  ultimately have "clock_Offset e = (if x < 0 then - ((- x) div 2) else x div 2)" by (simp add: clock_Offset_def int64_half_def)
  then show ?thesis unfolding e_def x_def by (simp split: if_splits)
qed

definition genuine :: "int \<Rightarrow> clock_sample \<Rightarrow> bool" where
  \<comment> \<open>an exchange that took less than \<open>2^60\<close> nanoseconds\<close>
  "genuine theta s \<longleftrightarrow> (\<exists>t there hold ret. s = exchange theta t there hold ret \<and> there + hold + ret < 2 ^ 60)"

lemma clock_Add_push: "clock_Add = push_newest 8"
  by (simp add: fun_eq_iff clock_Add_def push_newest_def lastn_def Let_def)

interpretation clock_window: newest_queue clock_Add "\<lambda>q. q" 8
  unfolding clock_Add_push by (rule push_newest_queue) simp

lemma best_loop_least:
  "best_loop b ss \<in> set (b # ss) \<and> (\<forall>s \<in> set (b # ss). clock_RTT (best_loop b ss) \<le> clock_RTT s)"
proof (induction ss arbitrary: b)
  case (Cons s ss)
  show ?case using Cons.IH [of "if clock_RTT s < clock_RTT b then s else b"] by (auto split: if_splits)
qed simp

lemma genuine_best:
  assumes "genuine theta s" "\<bar>theta\<bar> < 2 ^ 60"
  shows "\<bar>clock_Offset s - theta\<bar> \<le> uint (clock_RTT s) div 2 + 1"
proof -
  obtain t there hold ret where s: "s = exchange theta t there hold ret" "there + hold + ret < 2 ^ 60"
    using assms(1) unfolding genuine_def by blast
  have "there + hold + ret < 2 ^ 62" using s(2) by simp
  then show ?thesis using exchange_RTT exchange_Offset [OF s(2) assms(2)] by (simp add: s(1))
qed

text \<open>
  When every recorded exchange is between the same two clocks, the offset that
  \<^verbatim>\<open>Best\<close> returns after any sequence of additions differs from the true offset by at most the
  uncertainty returned with it plus one nanosecond (the truncating division costs the one), and that
  uncertainty is the least half round trip of the last eight exchanges: the wrapping 64-bit
  arithmetic is exact.
\<close>
theorem clock_best_within_uncertainty:
  assumes "ss \<noteq> []" "list_all (genuine theta) ss" "\<bar>theta\<bar> < 2 ^ 60"
  shows "\<exists>off unc. clock_Best (fold clock_Add ss []) = Some (off, unc) \<and> \<bar>off - theta\<bar> \<le> uint unc + 1 \<and>
    list_all (\<lambda>s. uint unc \<le> uint (clock_RTT s) div 2) (lastn 8 ss)"
proof -
  define q where "q = fold clock_Add ss []"
  have "q = lastn 8 ss" using assms(1) by (simp add: q_def clock_Add_push fold_push_newest)
  moreover have "q \<noteq> []" unfolding q_def by (rule clock_window.fold_newest(1) [OF assms(1)]) simp
  moreover have "set q \<subseteq> set ss" unfolding q_def by (rule clock_window.from_empty_set) simp
  ultimately obtain b bs where q: "q = b # bs" "lastn 8 ss = b # bs" "set (b # bs) \<subseteq> set ss" by (metis list.exhaust)
  define s where "s = best_loop b bs"
  have s: "s \<in> set (b # bs)" "\<And>x. x \<in> set (b # bs) \<Longrightarrow> clock_RTT s \<le> clock_RTT x"
    using best_loop_least [of b bs] unfolding s_def by blast+
  have half: "uint (clock_RTT x div 2) = uint (clock_RTT x) div 2" for x by (simp add: uint_div)
  have "\<bar>clock_Offset s - theta\<bar> \<le> uint (clock_RTT s) div 2 + 1"
    using s(1) q(3) assms(2,3) by (intro genuine_best) (auto simp: list_all_iff)
  moreover have "uint (clock_RTT s) div 2 \<le> uint (clock_RTT x) div 2" if "x \<in> set (b # bs)" for x
    using s(2) [OF that] by (intro zdiv_mono1) (simp_all add: word_le_def)
  ultimately show ?thesis
    by (intro exI [of _ "clock_Offset s"] exI [of _ "clock_RTT s div 2"])
      (simp add: q_def [symmetric] q clock_Best_def Let_def s_def [symmetric] half list_all_iff)
qed

theorem clock_best_within_uncertainty_witness:
  "\<exists>off unc. clock_Best (fold clock_Add [exchange (- 5) 100 7 3 2] []) = Some (off, unc) \<and> \<bar>off + 5\<bar> \<le> uint unc + 1"
proof -
  have "genuine (- 5) (exchange (- 5) 100 7 3 2)"
    unfolding genuine_def by (intro exI [of _ 100] exI [of _ 7] exI [of _ 3] exI [of _ 2]) simp
  then show ?thesis using clock_best_within_uncertainty [of "[exchange (- 5) 100 7 3 2]" "- 5"] by auto
qed

end
