(* ===== verification/Video_Pipeline.thy ===== *)
theory Video_Pipeline
  imports Go_Float Lossy_Queue
begin

text \<open>
  The encoder pipeline of one tab, \<^verbatim>\<open>backend/internal/media/video.go\<close>: subscriptions, encoder
  generations, start retries, coalesced keyframe requests and the fan-out of access units.
  Every operation that takes \<^verbatim>\<open>s.mu\<close> is a function on the pipeline record; the fan-out releases the
  lock between the snapshot of its targets and the offers, so it is a sequence of steps with
  the pending offers in the state. The encoder callbacks are recorded as the list of calls;
  the outcome of \<^verbatim>\<open>cfg.Start\<close> and the clock are arguments. A timer is an identity and a deadline.
\<close>

section \<open>Data\<close>

definition subQueueCap :: nat where "subQueueCap = 4"
definition videoIdleDelay :: duration where "videoIdleDelay = 5 * second"
definition videoStartRetryMin :: duration where "videoStartRetryMin = 150 * millisecond"
definition videoStartRetryMax :: duration where "videoStartRetryMax = second"
definition keyframeCooldown :: duration where "keyframeCooldown = 2 * second"

record video_config =
  vc_W :: int
  vc_H :: int
  vc_CaptureW :: int
  vc_CaptureH :: int
  vc_ScaleMaxW :: int
  vc_ScaleMaxH :: int
  vc_BitrateK :: int
  vc_Quantizer :: int
  vc_FrameRate :: int
  vc_hasStart :: bool     \<comment> \<open>\<^verbatim>\<open>Start != nil\<close>\<close>
  vc_hasStop :: bool
  vc_hasKeyframe :: bool

datatype encoder_call =
    EncStart int int int int int  \<comment> \<open>width, height, bitrate, quantizer, frame rate\<close>
  | EncStop
  | EncKeyframe gotime

record access_unit =
  au_Data :: bytes
  au_IDR :: bool
  au_Seq :: uint32
  au_W :: int
  au_H :: int
  au_T :: gotime
  au_Generation :: uint32
  au_SourceSeq :: uint32
  au_InteractionID :: uint64
  au_SourceReceiveNS :: uint64
  au_EncodeCompleteNS :: uint64
  au_InputReceiveNS :: uint64
  au_CDPAcceptedNS :: uint64
  au_Profile :: byte

record video_sub =
  vs_C :: "access_unit list"
  vs_dropped :: bool
  vs_closed :: bool
  vs_fresh :: bool
  vs_gen :: int
  vs_got :: "access_unit list"  \<comment> \<open>what the reader of the channel has received\<close>

type_synonym timer = "nat \<times> gotime"

record video_pipeline =
  vp_cfg :: video_config
  vp_subs :: "nat set"                  \<comment> \<open>the subscriptions in \<^verbatim>\<open>s.subs\<close>\<close>
  vp_heap :: "nat \<Rightarrow> video_sub"        \<comment> \<open>the subscription objects\<close>
  vp_running :: bool
  vp_gen :: int
  vp_seq :: uint32
  vp_stopTimer :: "timer option"
  vp_startRetryTimer :: "timer option"
  vp_keyframeTimer :: "timer option"
  vp_startFailures :: nat
  vp_lastKeyframeReq :: gotime
  vp_accessUnits :: uint64
  vp_fanoutDrops :: uint64
  vp_generation :: uint32                \<comment> \<open>the package variable \<^verbatim>\<open>videoGeneration\<close>\<close>
  vp_nextTimer :: nat
  vp_calls :: "encoder_call list"
  vp_pending :: "(access_unit \<times> int \<times> nat list) option"  \<comment> \<open>offers a fan-out has still to make\<close>

section \<open>Sizes\<close>

definition even_size :: "int \<Rightarrow> int" where
  "even_size value = (if value < 2 then 2 else value - value mod 2)"

definition codedSize :: "video_config \<Rightarrow> int \<Rightarrow> int \<Rightarrow> int \<times> int" where
  "codedSize cfg width height =
    (if vc_ScaleMaxW cfg < 64 \<or> vc_ScaleMaxH cfg < 64 then (even_size width, even_size height)
     else
       let scaleW = f_div (f_of_int (vc_ScaleMaxW cfg)) (f_of_int width);
           scaleH = f_div (f_of_int (vc_ScaleMaxH cfg)) (f_of_int height);
           scale = (if f_less scaleH scaleW then scaleH else scaleW)
       in if f_le (Fin 1) scale then (even_size width, even_size height)
          else (even_size (int_of_f (f_add (f_mul (f_of_int width) scale) (Fin (1 / 2)))),
                even_size (int_of_f (f_add (f_mul (f_of_int height) scale) (Fin (1 / 2))))))"

definition empty_sub :: video_sub where
  "empty_sub = \<lparr>vs_C = [], vs_dropped = False, vs_closed = False, vs_fresh = False, vs_gen = 0, vs_got = []\<rparr>"

definition NewVideoPipeline :: "uint32 \<Rightarrow> video_config \<Rightarrow> video_pipeline" where
  "NewVideoPipeline generation cfg =
    (let cfg = (if vc_CaptureW cfg = 0 \<or> vc_CaptureH cfg = 0
                then cfg\<lparr>vc_CaptureW := vc_W cfg, vc_CaptureH := vc_H cfg\<rparr> else cfg);
         cfg = (if vc_FrameRate cfg \<le> 0 then cfg\<lparr>vc_FrameRate := 60\<rparr> else cfg);
         (w, h) = codedSize cfg (vc_CaptureW cfg) (vc_CaptureH cfg)
     in \<lparr>vp_cfg = cfg\<lparr>vc_W := w, vc_H := h\<rparr>, vp_subs = {}, vp_heap = (\<lambda>_. empty_sub),
         vp_running = False, vp_gen = 0, vp_seq = 0, vp_stopTimer = None, vp_startRetryTimer = None,
         vp_keyframeTimer = None, vp_startFailures = 0, vp_lastKeyframeReq = 0, vp_accessUnits = 0,
         vp_fanoutDrops = 0, vp_generation = generation, vp_nextTimer = 0, vp_calls = [], vp_pending = None\<rparr>)"

section \<open>Subscriptions\<close>

definition update_sub :: "nat \<Rightarrow> (video_sub \<Rightarrow> video_sub) \<Rightarrow> video_pipeline \<Rightarrow> video_pipeline" where
  "update_sub i f s = s\<lparr>vp_heap := (vp_heap s)(i := f (vp_heap s i))\<rparr>"

definition resetForGen :: "int \<Rightarrow> video_sub \<Rightarrow> video_sub" where
  "resetForGen gen sub = sub\<lparr>vs_gen := gen, vs_dropped := True, vs_fresh := True, vs_C := []\<rparr>"

definition close_sub :: "video_sub \<Rightarrow> video_sub" where
  \<comment> \<open>\<^verbatim>\<open>if !sub.closed { sub.closed = true; close(sub.C) }\<close>\<close>
  "close_sub sub = (if vs_closed sub then sub else sub\<lparr>vs_closed := True\<rparr>)"

definition ForceResync :: "nat \<Rightarrow> video_pipeline \<Rightarrow> video_pipeline" where
  "ForceResync i s = update_sub i (\<lambda>sub. sub\<lparr>vs_dropped := True\<rparr>) s"

definition offer :: "access_unit \<Rightarrow> int \<Rightarrow> video_sub \<Rightarrow> video_sub \<times> bool" where
  \<comment> \<open>the second component tells whether \<^verbatim>\<open>fanoutDrops\<close> is incremented\<close>
  "offer au gen sub =
    (if vs_closed sub \<or> gen \<noteq> vs_gen sub then (sub, False)
     else if vs_dropped sub \<and> \<not> au_IDR au then (sub, False)
     else case chan_send subQueueCap au (vs_C sub) of
            Some q \<Rightarrow> (sub\<lparr>vs_C := q, vs_dropped := False, vs_fresh := False\<rparr>, False)
          | None \<Rightarrow> (sub\<lparr>vs_dropped := True\<rparr>, True))"

definition receive :: "nat \<Rightarrow> video_pipeline \<Rightarrow> video_pipeline" where
  \<comment> \<open>the reader receives from \<^verbatim>\<open>sub.C\<close>\<close>
  "receive i s = update_sub i (\<lambda>sub. case vs_C sub of [] \<Rightarrow> sub
     | au # q \<Rightarrow> sub\<lparr>vs_C := q, vs_got := vs_got sub @ [au]\<rparr>) s"

definition resetSubsForGenLocked :: "video_pipeline \<Rightarrow> video_pipeline" where
  "resetSubsForGenLocked s =
     s\<lparr>vp_heap := (\<lambda>i. if i \<in> vp_subs s then resetForGen (vp_gen s) (vp_heap s i) else vp_heap s i)\<rparr>"

section \<open>Timers\<close>

definition cancelStartRetryLocked :: "video_pipeline \<Rightarrow> video_pipeline" where
  "cancelStartRetryLocked s = s\<lparr>vp_startRetryTimer := None\<rparr>"

definition cancelKeyframeTimerLocked :: "video_pipeline \<Rightarrow> video_pipeline" where
  "cancelKeyframeTimerLocked s = s\<lparr>vp_keyframeTimer := None\<rparr>"

function retry_backoff :: "nat \<Rightarrow> nat \<Rightarrow> duration \<Rightarrow> duration" where
  \<comment> \<open>\<^verbatim>\<open>for attempt < failures && delay < videoStartRetryMax { delay *= 2 }\<close>\<close>
  "retry_backoff attempt failures delay =
     (if attempt < failures \<and> delay < videoStartRetryMax
      then retry_backoff (Suc attempt) failures (delay * 2) else delay)"
  by pat_completeness auto
termination
  by (relation "measure (\<lambda>(a, f, d). f - a)") auto

declare retry_backoff.simps [simp del]

definition retry_delay :: "nat \<Rightarrow> duration" where
  "retry_delay failures =
    (let delay = retry_backoff 1 failures videoStartRetryMin
     in if delay > videoStartRetryMax then videoStartRetryMax else delay)"

definition scheduleStartRetryLocked :: "gotime \<Rightarrow> video_pipeline \<Rightarrow> video_pipeline" where
  "scheduleStartRetryLocked now s =
     (if vp_startRetryTimer s \<noteq> None \<or> vp_subs s = {} then s
      else s\<lparr>vp_startRetryTimer := Some (vp_nextTimer s, now + retry_delay (vp_startFailures s)),
             vp_nextTimer := vp_nextTimer s + 1\<rparr>)"

section \<open>Starting and stopping\<close>

definition failAllLocked :: "video_pipeline \<Rightarrow> video_pipeline" where
  "failAllLocked s =
    (let s = cancelStartRetryLocked s
     in s\<lparr>vp_heap := (\<lambda>i. if i \<in> vp_subs s then close_sub (vp_heap s i) else vp_heap s i), vp_subs := {}\<rparr>)"

definition bump_generation :: "video_pipeline \<Rightarrow> video_pipeline" where
  \<comment> \<open>\<^verbatim>\<open>s.gen = int(videoGeneration.Add(1))\<close>\<close>
  "bump_generation s =
    (let g = vp_generation s + 1 in s\<lparr>vp_generation := g, vp_gen := uint g\<rparr>)"

definition startLocked :: "bool \<Rightarrow> gotime \<Rightarrow> video_pipeline \<Rightarrow> video_pipeline" where
  "startLocked ok now s =
    (if \<not> vc_hasStart (vp_cfg s) then failAllLocked s
     else
       let s = bump_generation (cancelStartRetryLocked s);
           cfg = vp_cfg s;
           s = s\<lparr>vp_running := True,
                 vp_calls := vp_calls s @ [EncStart (vc_W cfg) (vc_H cfg) (vc_BitrateK cfg)
                   (vc_Quantizer cfg) (vc_FrameRate cfg)]\<rparr>
       in if ok then s\<lparr>vp_startFailures := 0\<rparr>
          else scheduleStartRetryLocked now
                 (s\<lparr>vp_running := False, vp_startFailures := vp_startFailures s + 1\<rparr>))"

definition stopLocked :: "video_pipeline \<Rightarrow> video_pipeline" where
  "stopLocked s =
    (let s = (cancelKeyframeTimerLocked (cancelStartRetryLocked s))\<lparr>vp_startFailures := 0\<rparr>
     in if \<not> vp_running s then s
        else
          let s = bump_generation (s\<lparr>vp_running := False\<rparr>)
          in if vc_hasStop (vp_cfg s) then s\<lparr>vp_calls := vp_calls s @ [EncStop]\<rparr> else s)"

section \<open>Keyframes\<close>

definition requestKeyframeLocked :: "gotime \<Rightarrow> video_pipeline \<Rightarrow> video_pipeline" where
  "requestKeyframeLocked now s =
    (if \<not> vp_running s then s
     else
       let s = s\<lparr>vp_lastKeyframeReq := now\<rparr>;
           s = (if vc_hasKeyframe (vp_cfg s) then s\<lparr>vp_calls := vp_calls s @ [EncKeyframe now]\<rparr> else s)
       in resetSubsForGenLocked s)"

definition ensureKeyframeLocked :: "gotime \<Rightarrow> video_pipeline \<Rightarrow> video_pipeline" where
  "ensureKeyframeLocked now s =
    (if \<not> vp_running s then s
     else
       let remaining = keyframeCooldown - time_sub now (vp_lastKeyframeReq s)
       in if remaining > 0 then
            (if vp_keyframeTimer s = None
             then s\<lparr>vp_keyframeTimer := Some (vp_nextTimer s, now + remaining), vp_nextTimer := vp_nextTimer s + 1\<rparr>
             else s)
          else requestKeyframeLocked now s)"

definition RequestKeyframe :: "gotime \<Rightarrow> video_pipeline \<Rightarrow> video_pipeline" where
  "RequestKeyframe now s = ensureKeyframeLocked now s"

definition keyframe_fired :: "nat \<Rightarrow> gotime \<Rightarrow> video_pipeline \<Rightarrow> video_pipeline" where
  \<comment> \<open>the callback of the keyframe timer with identity \<open>t\<close>\<close>
  "keyframe_fired t now s =
     (if map_option fst (vp_keyframeTimer s) \<noteq> Some t then s
      else requestKeyframeLocked now (s\<lparr>vp_keyframeTimer := None\<rparr>))"

section \<open>Operations\<close>

definition Restart :: "bool \<Rightarrow> gotime \<Rightarrow> video_pipeline \<Rightarrow> video_pipeline" where
  "Restart ok now s =
    (let s = stopLocked (s\<lparr>vp_stopTimer := None\<rparr>);
         s = (if vp_subs s \<noteq> {} then startLocked ok now s else s)
     in resetSubsForGenLocked s)"

definition Subscribe :: "nat \<Rightarrow> bool \<Rightarrow> gotime \<Rightarrow> video_pipeline \<Rightarrow> video_pipeline" where
  \<comment> \<open>\<open>i\<close> is the identity of the new subscription\<close>
  "Subscribe i ok now s =
    (let s = s\<lparr>vp_heap := (vp_heap s)(i := empty_sub\<lparr>vs_fresh := True, vs_dropped := True\<rparr>),
               vp_subs := insert i (vp_subs s), vp_stopTimer := None\<rparr>;
         s = (if \<not> vp_running s then startLocked ok now s else ensureKeyframeLocked now s)
     in if i \<in> vp_subs s then update_sub i (resetForGen (vp_gen s)) s else s)"

definition CloseSub :: "nat \<Rightarrow> gotime \<Rightarrow> video_pipeline \<Rightarrow> video_pipeline" where
  "CloseSub i now s =
    (if i \<notin> vp_subs s then s
     else
       let s = update_sub i close_sub (s\<lparr>vp_subs := vp_subs s - {i}\<rparr>)
       in if vp_subs s = {} then
            let s = cancelStartRetryLocked s
            in if vp_running s
               then s\<lparr>vp_stopTimer := Some (vp_nextTimer s, now + videoIdleDelay), vp_nextTimer := vp_nextTimer s + 1\<rparr>
               else s
          else s)"

definition stop_fired :: "video_pipeline \<Rightarrow> video_pipeline" where
  "stop_fired s = (if vp_subs s = {} \<and> vp_running s then stopLocked s else s)"

definition retry_fired :: "nat \<Rightarrow> bool \<Rightarrow> gotime \<Rightarrow> video_pipeline \<Rightarrow> video_pipeline" where
  "retry_fired t ok now s =
     (if map_option fst (vp_startRetryTimer s) \<noteq> Some t then s
      else
        let s = s\<lparr>vp_startRetryTimer := None\<rparr>
        in if vp_subs s = {} \<or> vp_running s then s
           else resetSubsForGenLocked (startLocked ok now s))"

definition Shutdown :: "video_pipeline \<Rightarrow> video_pipeline" where
  "Shutdown s = failAllLocked (stopLocked (s\<lparr>vp_stopTimer := None\<rparr>))"

definition restart_encoder :: "bool \<Rightarrow> gotime \<Rightarrow> video_pipeline \<Rightarrow> video_pipeline" where
  \<comment> \<open>the common end of \<^verbatim>\<open>SetSize\<close>, \<^verbatim>\<open>SetViewport\<close> and \<^verbatim>\<open>SetProfile\<close>\<close>
  "restart_encoder ok now s =
     resetSubsForGenLocked (if vp_running s then startLocked ok now (stopLocked s) else s)"

definition SetSize :: "int \<Rightarrow> int \<Rightarrow> bool \<Rightarrow> gotime \<Rightarrow> video_pipeline \<Rightarrow> video_pipeline" where
  "SetSize width height ok now s =
    (if width < 64 \<or> height < 64 then s
     else
       let cfg = vp_cfg s; (codedW, codedH) = codedSize cfg width height
       in if width = vc_CaptureW cfg \<and> height = vc_CaptureH cfg \<and> codedW = vc_W cfg \<and> codedH = vc_H cfg then s
          else restart_encoder ok now
            (s\<lparr>vp_cfg := cfg\<lparr>vc_CaptureW := width, vc_CaptureH := height, vc_W := codedW, vc_H := codedH\<rparr>\<rparr>))"

definition SetViewport ::
  "int \<Rightarrow> int \<Rightarrow> int \<Rightarrow> int \<Rightarrow> bool \<Rightarrow> gotime \<Rightarrow> video_pipeline \<Rightarrow> video_pipeline" where
  "SetViewport width height maxWidth maxHeight ok now s =
    (if width < 64 \<or> height < 64 then s
     else
       let cfg = vp_cfg s;
           (codedW, codedH) = codedSize (cfg\<lparr>vc_ScaleMaxW := maxWidth, vc_ScaleMaxH := maxHeight\<rparr>) width height
       in if width = vc_CaptureW cfg \<and> height = vc_CaptureH cfg \<and> maxWidth = vc_ScaleMaxW cfg
             \<and> maxHeight = vc_ScaleMaxH cfg \<and> codedW = vc_W cfg \<and> codedH = vc_H cfg then s
          else restart_encoder ok now
            (s\<lparr>vp_cfg := cfg\<lparr>vc_CaptureW := width, vc_CaptureH := height, vc_ScaleMaxW := maxWidth,
                vc_ScaleMaxH := maxHeight, vc_W := codedW, vc_H := codedH\<rparr>\<rparr>))"

definition SetProfile ::
  "int \<Rightarrow> int \<Rightarrow> int \<Rightarrow> int \<Rightarrow> int \<Rightarrow> bool \<Rightarrow> gotime \<Rightarrow> video_pipeline \<Rightarrow> video_pipeline" where
  "SetProfile maxWidth maxHeight bitrateK quantizer frameRate ok now s =
    (if bitrateK \<le> 0 \<or> frameRate \<le> 0 then s
     else
       let cfg = vp_cfg s; (width, height) = codedSize cfg (vc_CaptureW cfg) (vc_CaptureH cfg)
       in if vc_ScaleMaxW cfg = maxWidth \<and> vc_ScaleMaxH cfg = maxHeight \<and> vc_BitrateK cfg = bitrateK
             \<and> vc_Quantizer cfg = quantizer \<and> vc_FrameRate cfg = frameRate \<and> width = vc_W cfg
             \<and> height = vc_H cfg then s
          else
            let cfg = cfg\<lparr>vc_ScaleMaxW := maxWidth, vc_ScaleMaxH := maxHeight, vc_BitrateK := bitrateK,
                  vc_Quantizer := quantizer, vc_FrameRate := frameRate\<rparr>;
                (width, height) = codedSize cfg (vc_CaptureW cfg) (vc_CaptureH cfg)
            in restart_encoder ok now (s\<lparr>vp_cfg := cfg\<lparr>vc_W := width, vc_H := height\<rparr>\<rparr>))"

definition SetScaleLimit :: "int \<Rightarrow> int \<Rightarrow> bool \<Rightarrow> gotime \<Rightarrow> video_pipeline \<Rightarrow> video_pipeline" where
  "SetScaleLimit maxWidth maxHeight ok now s =
    (let cfg = vp_cfg s
     in SetProfile maxWidth maxHeight (vc_BitrateK cfg) (vc_Quantizer cfg) (vc_FrameRate cfg) ok now s)"

section \<open>Fan-out\<close>

definition new_unit ::
  "bytes \<Rightarrow> bool \<Rightarrow> int \<Rightarrow> int \<Rightarrow> uint32 \<Rightarrow> uint64 \<Rightarrow> uint64 \<Rightarrow> uint64 \<Rightarrow> byte \<Rightarrow> uint64 \<Rightarrow> gotime \<Rightarrow> access_unit" where
  "new_unit data idr width height sourceSeq interactionID inputNS cdpNS profile nowNS now =
     \<lparr>au_Data = data, au_IDR = idr, au_Seq = 0, au_W = width, au_H = height, au_T = now, au_Generation = 0,
      au_SourceSeq = sourceSeq, au_InteractionID = interactionID, au_SourceReceiveNS = nowNS,
      au_EncodeCompleteNS = nowNS, au_InputReceiveNS = inputNS, au_CDPAcceptedNS = cdpNS, au_Profile = profile\<rparr>"

definition push_accepts :: "bytes \<Rightarrow> int \<Rightarrow> int \<Rightarrow> video_pipeline \<Rightarrow> bool" where
  "push_accepts data width height s \<longleftrightarrow> \<not> (data = [] \<or> width < 2 \<or> height < 2) \<and> vp_running s"

definition broadcast_begin :: "access_unit \<Rightarrow> int \<Rightarrow> nat list \<Rightarrow> video_pipeline \<Rightarrow> video_pipeline" where
  \<comment> \<open>\<^verbatim>\<open>broadcast\<close> up to the unlock; \<open>targets\<close> lists the subscriptions in the order of \<^verbatim>\<open>range\<close>\<close>
  "broadcast_begin au gen targets s =
     (if gen \<noteq> vp_gen s \<or> \<not> vp_running s then s
      else
        let seq = vp_seq s + 1
        in s\<lparr>vp_seq := seq,
             vp_pending := Some (au\<lparr>au_Seq := seq, au_Generation := word_of_int gen\<rparr>, gen, targets)\<rparr>)"

definition offer_next :: "video_pipeline \<Rightarrow> video_pipeline" where
  \<comment> \<open>one iteration of \<^verbatim>\<open>for _, sub := range targets { sub.offer(au, gen) }\<close>\<close>
  "offer_next s =
     (case vp_pending s of
        None \<Rightarrow> s
      | Some (au, gen, []) \<Rightarrow> s\<lparr>vp_pending := None\<rparr>
      | Some (au, gen, i # rest) \<Rightarrow>
         (case offer au gen (vp_heap s i) of
            (sub, lagging) \<Rightarrow>
              s\<lparr>vp_heap := (vp_heap s)(i := sub), vp_pending := Some (au, gen, rest),
                vp_fanoutDrops := (if lagging then vp_fanoutDrops s + 1 else vp_fanoutDrops s)\<rparr>))"

definition count_unit :: "video_pipeline \<Rightarrow> video_pipeline" where
  "count_unit s = s\<lparr>vp_accessUnits := vp_accessUnits s + 1\<rparr>"

end
