(* ===== verification/Stream_Governor.thy ===== *)
theory Stream_Governor
  imports Video_Pipeline
begin

text \<open>
  The adaptive stream governor, \<^verbatim>\<open>backend/internal/browser/adaptive.go\<close>: the table of profiles, the
  pressure of one report of decoder statistics, the hysteresis over the reports of all clients and the
  encoder settings of a profile. Floating point is binary64 without fused operations, the
  clock is an argument, and the order in which \<^verbatim>\<open>range\<close> visits the clients is an argument too.
\<close>

section \<open>Profiles\<close>

definition governorSampleTTL :: duration where "governorSampleTTL = 7 * second"
definition governorDownshiftDelay :: duration where "governorDownshiftDelay = 1500 * millisecond"
definition governorProfileSettle :: duration where "governorProfileSettle = 4 * second"
definition governorHealthyHold :: duration where "governorHealthyHold = 12 * second"
definition governorStaticHold :: duration where "governorStaticHold = 4 * second"
definition governorPressureAlpha :: rat where "governorPressureAlpha = 45 / 100"
definition governorActiveAURate :: f64 where "governorActiveAURate = Fin 5"
definition governorUnhealthySamples :: nat where "governorUnhealthySamples = 2"

record adaptive_profile =
  pr_name :: string
  pr_scaleNum :: int
  pr_scaleDen :: int
  pr_frameRate :: int
  pr_quantizerDelta :: int
  pr_bitrateNum :: int
  pr_bitrateDen :: int

definition adaptiveProfiles :: "adaptive_profile list" where
  "adaptiveProfiles =
    [\<lparr>pr_name = ''crisp'', pr_scaleNum = 1, pr_scaleDen = 1, pr_frameRate = 60, pr_quantizerDelta = 0,
      pr_bitrateNum = 1, pr_bitrateDen = 1\<rparr>,
     \<lparr>pr_name = ''motion'', pr_scaleNum = 1, pr_scaleDen = 1, pr_frameRate = 50, pr_quantizerDelta = 1,
      pr_bitrateNum = 1, pr_bitrateDen = 1\<rparr>,
     \<lparr>pr_name = ''balanced'', pr_scaleNum = 1, pr_scaleDen = 1, pr_frameRate = 40, pr_quantizerDelta = 2,
      pr_bitrateNum = 1, pr_bitrateDen = 1\<rparr>,
     \<lparr>pr_name = ''recovery'', pr_scaleNum = 1, pr_scaleDen = 1, pr_frameRate = 30, pr_quantizerDelta = 3,
      pr_bitrateNum = 1, pr_bitrateDen = 1\<rparr>]"

definition profile_at :: "int \<Rightarrow> adaptive_profile" where
  "profile_at p = adaptiveProfiles ! nat p"

section \<open>The pressure of a report\<close>

record media_stats =
  ms_ImageFPS :: f64
  ms_PresentedFPS :: f64
  ms_DecodeFPS :: f64
  ms_AURate :: f64
  ms_Renderer :: string
  ms_RendererFPS :: f64
  ms_RendererMS :: f64
  ms_RendererBackpressure :: int
  ms_RendererRecoveries :: int
  ms_RendererFailures :: int
  ms_CallbackMS :: f64
  ms_GapMS :: f64
  ms_FrameAgeMS :: f64
  ms_WindowMS :: f64
  ms_DropPercent :: f64
  ms_QueueDepth :: int
  ms_DecodeErrors :: int
  ms_MemoryWarn :: bool

definition f_const :: "rat \<Rightarrow> f64" where
  \<comment> \<open>an untyped constant converted to \<^verbatim>\<open>float64\<close>\<close>
  "f_const q = round_f64 q"

definition consider_value :: "f64 \<Rightarrow> string \<Rightarrow> f64 \<times> string \<Rightarrow> f64 \<times> string" where
  "consider_value value label acc = (case acc of (pressure, reason) \<Rightarrow>
     if f_less pressure value then (value, label) else (pressure, reason))"

definition throughput_ratios :: "media_stats \<Rightarrow> f64 \<times> f64" where
  \<comment> \<open>\<^verbatim>\<open>decodeRatio\<close> and \<^verbatim>\<open>presentRatio\<close>\<close>
  "throughput_ratios stats =
    (if f_less (Fin 0) (ms_WindowMS stats) \<and> f_less (Fin 0) (ms_AURate stats)
     then if ms_Renderer stats = ''system''
          then let r = f_div (ms_RendererFPS stats) (ms_AURate stats) in (r, r)
          else (f_div (ms_DecodeFPS stats) (ms_AURate stats), f_div (ms_PresentedFPS stats) (ms_AURate stats))
     else (Fin 1, Fin 1))"

definition shortfall :: "rat \<Rightarrow> f64 \<Rightarrow> rat \<Rightarrow> f64" where
  \<comment> \<open>\<^verbatim>\<open>math.Max(0, goal-ratio)/scale\<close>\<close>
  "shortfall goal ratio scale = f_div (f_max (Fin 0) (f_sub (f_const goal) ratio)) (f_const scale)"

definition governorPressure :: "media_stats \<Rightarrow> adaptive_profile \<Rightarrow> f64 \<times> bool \<times> bool \<times> string" where
  "governorPressure stats profile =
    (if ms_MemoryWarn stats then (Fin 4, True, True, ''memory warning'')
     else if f_less (ms_AURate stats) governorActiveAURate then (Fin 0, False, False, ''static page'')
     else
       let frameBudget = f_div (Fin 1000) (f_of_int (pr_frameRate profile));
           acc = (Fin 0, ''decoder pressure'');
           acc = consider_value (f_div (ms_DropPercent stats) (f_const (3 / 2))) ''decoder drops'' acc;
           acc = (if ms_Renderer stats = ''system'' then
                    let acc = consider_value (f_div (f_of_int (ms_QueueDepth stats)) (Fin 2)) ''renderer queue'' acc;
                        acc = consider_value (f_div (f_of_int (ms_RendererBackpressure stats)) (Fin 3)) ''renderer backpressure'' acc;
                        acc = consider_value (f_mul (f_of_int (ms_RendererRecoveries stats)) (Fin 2)) ''renderer recovery'' acc
                    in consider_value (f_mul (f_of_int (ms_RendererFailures stats)) (Fin 4)) ''renderer failures'' acc
                  else
                    let acc = consider_value (f_div (f_of_int (ms_QueueDepth stats)) (Fin 2)) ''decoder queue'' acc;
                        acc = consider_value (f_div (ms_CallbackMS stats) (f_mul frameBudget (f_const (9 / 10)))) ''decode callback time'' acc
                    in consider_value (f_mul (f_of_int (ms_DecodeErrors stats)) (Fin 2)) ''decoder errors'' acc);
           (decodeRatio, presentRatio) = throughput_ratios stats;
           acc = (if f_less (Fin 0) (ms_WindowMS stats) \<and> f_less (Fin 0) (ms_AURate stats) then
                    let acc = (if ms_Renderer stats = ''system''
                               then consider_value (shortfall (92 / 100) decodeRatio (20 / 100)) ''renderer throughput'' acc
                               else consider_value (shortfall (88 / 100) presentRatio (25 / 100)) ''presentation throughput''
                                      (consider_value (shortfall (92 / 100) decodeRatio (20 / 100)) ''decoder throughput'' acc))
                    in if f_less presentRatio (f_const (85 / 100))
                       then consider_value (f_div (ms_GapMS stats) (f_mul frameBudget (Fin 3))) ''presentation gaps'' acc else acc
                  else acc);
           severe = (ms_DecodeErrors stats > 0 \<or> ms_RendererFailures stats > 0 \<or> ms_RendererRecoveries stats > 0
             \<or> ms_QueueDepth stats \<ge> 3 \<or> f_le (Fin 8) (ms_DropPercent stats)
             \<or> f_less (Fin 0) (ms_WindowMS stats)
               \<and> (f_less decodeRatio (f_const (50 / 100)) \<or> f_less presentRatio (f_const (35 / 100))))
       in (fst acc, True, severe, snd acc))"

section \<open>The governor\<close>

record governor_client =
  gc_lastSeen :: gotime
  gc_healthySince :: gotime
  gc_staticSince :: gotime
  gc_pressure :: f64
  gc_hasPressure :: bool
  gc_unhealthy :: nat
  gc_active :: bool
  gc_severe :: bool
  gc_reason :: string
  gc_settling :: nat

record stream_governor =
  sg_profile :: int
  sg_lastChange :: gotime
  sg_settleUntil :: gotime
  sg_clients :: "string \<rightharpoonup> governor_client"

record governor_decision =
  gd_changed :: bool
  gd_from :: int
  gd_to :: int
  gd_reason :: string
  gd_pressure :: f64

definition new_client :: governor_client where
  "new_client = \<lparr>gc_lastSeen = 0, gc_healthySince = 0, gc_staticSince = 0, gc_pressure = Fin 0, gc_hasPressure = False,
     gc_unhealthy = 0, gc_active = False, gc_severe = False, gc_reason = [], gc_settling = 1\<rparr>"

definition newStreamGovernor :: stream_governor where
  "newStreamGovernor = \<lparr>sg_profile = 0, sg_lastChange = 0, sg_settleUntil = 0, sg_clients = Map.empty\<rparr>"

definition governor_remove :: "string \<Rightarrow> stream_governor \<Rightarrow> stream_governor" where
  "governor_remove clientID g = g\<lparr>sg_clients := (sg_clients g)(clientID := None)\<rparr>"

definition warm_up :: "string \<Rightarrow> governor_client \<Rightarrow> governor_client" where
  \<comment> \<open>the assignments that discard the evidence of a client\<close>
  "warm_up reason c = c\<lparr>gc_active := False, gc_severe := False, gc_reason := reason, gc_unhealthy := 0,
     gc_healthySince := 0, gc_staticSince := 0, gc_pressure := Fin 0, gc_hasPressure := False\<rparr>"

definition settleAfterDiscontinuity :: "gotime \<Rightarrow> stream_governor \<Rightarrow> stream_governor" where
  "settleAfterDiscontinuity now g =
     g\<lparr>sg_settleUntil := now + governorProfileSettle,
       sg_clients := (\<lambda>id. map_option (\<lambda>c. (warm_up ''source warm-up'' c)\<lparr>gc_settling := 1\<rparr>) (sg_clients g id))\<rparr>"

definition client_sample :: "gotime \<Rightarrow> f64 \<times> bool \<times> bool \<times> string \<Rightarrow> governor_client \<Rightarrow> governor_client" where
  \<comment> \<open>what \<^verbatim>\<open>observe\<close> records of a report outside the settle interval\<close>
  "client_sample now p client =
    (case p of (pressure, active, severe, reason) \<Rightarrow>
      let client = client\<lparr>gc_active := active, gc_severe := severe, gc_reason := reason\<rparr>
      in if active \<and> gc_settling client > 0 then
           client\<lparr>gc_settling := gc_settling client - 1, gc_unhealthy := 0, gc_healthySince := 0, gc_staticSince := 0,
             gc_pressure := Fin 0, gc_hasPressure := False, gc_severe := False, gc_reason := ''decoder warm-up''\<rparr>
         else if \<not> active then
           client\<lparr>gc_unhealthy := 0, gc_healthySince := 0,
             gc_staticSince := (if is_zero (gc_staticSince client) then now else gc_staticSince client),
             gc_pressure := f_mul (gc_pressure client) (f_const (1 / 2)), gc_hasPressure := False\<rparr>
         else
           let client = client\<lparr>gc_staticSince := 0\<rparr>;
               client = (if gc_hasPressure client
                 then client\<lparr>gc_pressure := f_add (f_mul (gc_pressure client) (f_const (1 - governorPressureAlpha)))
                        (f_mul pressure (f_const governorPressureAlpha))\<rparr>
                 else client\<lparr>gc_pressure := pressure, gc_hasPressure := True\<rparr>)
           in if severe \<or> f_le (Fin 1) pressure then
                client\<lparr>gc_unhealthy := gc_unhealthy client + 1, gc_healthySince := 0\<rparr>
              else
                let client = client\<lparr>gc_unhealthy := 0\<rparr>
                in if f_le (gc_pressure client) (f_const (72 / 100))
                   then (if is_zero (gc_healthySince client) then client\<lparr>gc_healthySince := now\<rparr> else client)
                   else client\<lparr>gc_healthySince := 0\<rparr>)"

record governor_view =
  gv_worstPressure :: f64
  gv_worstReason :: string
  gv_severeAny :: bool
  gv_unhealthyAny :: bool
  gv_allStatic :: bool
  gv_allHealthy :: bool

definition view_client :: "gotime \<Rightarrow> governor_client \<Rightarrow> governor_view \<Rightarrow> governor_view" where
  \<comment> \<open>one iteration of the loop over the clients\<close>
  "view_client now state v =
    (if time_sub now (gc_lastSeen state) > governorSampleTTL then v
     else
       let v = (if f_less (gv_worstPressure v) (gc_pressure state)
                then v\<lparr>gv_worstPressure := gc_pressure state, gv_worstReason := gc_reason state\<rparr> else v);
           v = (if gc_severe state then v\<lparr>gv_severeAny := True, gv_worstReason := gc_reason state\<rparr> else v);
           v = (if gc_unhealthy state \<ge> governorUnhealthySamples then v\<lparr>gv_unhealthyAny := True\<rparr> else v);
           v = (if is_zero (gc_staticSince state) \<or> time_sub now (gc_staticSince state) < governorStaticHold
                then v\<lparr>gv_allStatic := False\<rparr> else v)
       in if is_zero (gc_healthySince state) \<or> time_sub now (gc_healthySince state) < governorHealthyHold
          then v\<lparr>gv_allHealthy := False\<rparr> else v)"

definition view_all :: "gotime \<Rightarrow> governor_client list \<Rightarrow> governor_view" where
  \<comment> \<open>the clients in the order of \<^verbatim>\<open>range\<close>\<close>
  "view_all now cs =
     fold (view_client now) cs
       \<lparr>gv_worstPressure = Fin 0, gv_worstReason = ''decoder pressure'', gv_severeAny = False, gv_unhealthyAny = False,
        gv_allStatic = (cs \<noteq> []), gv_allHealthy = (cs \<noteq> [])\<rparr>"

abbreviation last_profile :: int where
  "last_profile \<equiv> int (length adaptiveProfiles) - 1"

definition decide :: "gotime \<Rightarrow> governor_view \<Rightarrow> stream_governor \<Rightarrow> int \<times> string" where
  \<comment> \<open>\<^verbatim>\<open>decision.to\<close> and \<^verbatim>\<open>decision.reason\<close>\<close>
  "decide now v g =
    (let canDownshift = (is_zero (sg_lastChange g) \<or> time_sub now (sg_lastChange g) \<ge> governorDownshiftDelay)
     in if canDownshift \<and> gv_severeAny v \<and> sg_profile g < last_profile
        then (min last_profile (sg_profile g + 2), gv_worstReason v)
        else if canDownshift \<and> gv_unhealthyAny v \<and> sg_profile g < last_profile
        then (sg_profile g + 1, gv_worstReason v)
        else if sg_profile g > 0 \<and> gv_allStatic v \<and> time_sub now (sg_lastChange g) \<ge> governorStaticHold
        then (0, ''motion stopped'')
        else if sg_profile g > 0 \<and> gv_allHealthy v \<and> time_sub now (sg_lastChange g) \<ge> governorHealthyHold
        then (sg_profile g - 1, ''sustained decoder headroom'')
        else (sg_profile g, []))"

definition switch_profile :: "int \<Rightarrow> gotime \<Rightarrow> stream_governor \<Rightarrow> stream_governor" where
  \<comment> \<open>the end of \<^verbatim>\<open>observe\<close> when the profile changes\<close>
  "switch_profile to now g =
     g\<lparr>sg_profile := to, sg_lastChange := now, sg_settleUntil := now + governorProfileSettle,
       sg_clients := (\<lambda>id. map_option (\<lambda>c. c\<lparr>gc_unhealthy := 0, gc_healthySince := 0, gc_hasPressure := False,
         gc_severe := False\<rparr>) (sg_clients g id))\<rparr>"

definition seen_client :: "string \<Rightarrow> gotime \<Rightarrow> stream_governor \<Rightarrow> governor_client" where
  \<comment> \<open>the entry of the reporting client after stale entries were deleted\<close>
  "seen_client clientID now g =
     (case map_keep (\<lambda>_ c. \<not> time_sub now (gc_lastSeen c) > governorSampleTTL) (sg_clients g) clientID of
        None \<Rightarrow> new_client | Some c \<Rightarrow> c)\<lparr>gc_lastSeen := now\<rparr>"

definition observe ::
  "string \<Rightarrow> gotime \<Rightarrow> media_stats \<Rightarrow> string list \<Rightarrow> stream_governor \<Rightarrow> stream_governor \<times> governor_decision" where
  \<comment> \<open>\<open>ids\<close> lists the keys of \<^verbatim>\<open>g.clients\<close> in the order in which \<^verbatim>\<open>range\<close> visits them\<close>
  "observe clientID now stats ids g =
    (let client = seen_client clientID now g;
         g = g\<lparr>sg_clients := map_keep (\<lambda>_ c. \<not> time_sub now (gc_lastSeen c) > governorSampleTTL) (sg_clients g)\<rparr>
     in if now < sg_settleUntil g then
          (g\<lparr>sg_clients := (sg_clients g)(clientID \<mapsto> warm_up ''profile warm-up'' client)\<rparr>,
           \<lparr>gd_changed = False, gd_from = sg_profile g, gd_to = sg_profile g, gd_reason = [], gd_pressure = Fin 0\<rparr>)
        else
          let client = client_sample now (governorPressure stats (profile_at (sg_profile g))) client;
              g = g\<lparr>sg_clients := (sg_clients g)(clientID \<mapsto> client)\<rparr>;
              v = view_all now (List.map_filter (sg_clients g) ids);
              (to, reason) = (if now < sg_settleUntil g then (sg_profile g, []) else decide now v g);
              decision = \<lparr>gd_changed = False, gd_from = sg_profile g, gd_to = to, gd_reason = reason,
                gd_pressure = gv_worstPressure v\<rparr>
          in if to = sg_profile g then (g, decision) else (switch_profile to now g, decision\<lparr>gd_changed := True\<rparr>))"

section \<open>Encoder settings\<close>

definition go_quot :: "int \<Rightarrow> int \<Rightarrow> int" where
  \<comment> \<open>integer division truncated towards zero\<close>
  "go_quot a b = sgn a * sgn b * (\<bar>a\<bar> div \<bar>b\<bar>)"

definition adaptiveScale :: "adaptive_profile \<Rightarrow> int \<Rightarrow> int \<Rightarrow> int \<times> int" where
  "adaptiveScale profile w h =
    (if pr_scaleNum profile \<ge> pr_scaleDen profile then (0, 0)
     else (go_quot (w * pr_scaleNum profile) (pr_scaleDen profile), go_quot (h * pr_scaleNum profile) (pr_scaleDen profile)))"

definition adaptiveEncoderSettings ::
  "adaptive_profile \<Rightarrow> int \<Rightarrow> int \<Rightarrow> int \<Rightarrow> int \<Rightarrow> int \<times> int \<times> int \<times> int \<times> int" where
  \<comment> \<open>\<open>streamBitrateK\<close> and \<open>streamQuantizer\<close> are the fields of the configuration\<close>
  "adaptiveEncoderSettings profile streamBitrateK streamQuantizer w h =
    (let (maxW, maxH) = adaptiveScale profile w h;
         bitrateK = go_quot (streamBitrateK * pr_bitrateNum profile) (pr_bitrateDen profile);
         bitrateK = (if bitrateK < 1000 then 1000 else bitrateK);
         quantizer = max 0 (min 51 (streamQuantizer + pr_quantizerDelta profile))
     in (maxW, maxH, bitrateK, quantizer, pr_frameRate profile))"

record adaptive_state =
  ad_governor :: stream_governor
  ad_video :: video_pipeline
  ad_viewW :: int
  ad_viewH :: int
  ad_adaptiveVideo :: bool
  ad_bitrateK :: int
  ad_quantizer :: int

definition handleMediaStats ::
  "string \<Rightarrow> gotime \<Rightarrow> media_stats \<Rightarrow> string list \<Rightarrow> adaptive_state \<Rightarrow> adaptive_state \<times> (governor_decision \<times> adaptive_profile) option" where
  \<comment> \<open>the second component is the goroutine \<^verbatim>\<open>applyAdaptiveProfile\<close> that is started\<close>
  "handleMediaStats clientID now stats ids b =
    (if \<not> ad_adaptiveVideo b then (b, None)
     else
       let (g, decision) = observe clientID now stats ids (ad_governor b);
           b = b\<lparr>ad_governor := g\<rparr>
       in (b, if gd_changed decision then Some (decision, profile_at (sg_profile g)) else None))"

definition applyAdaptiveProfile ::
  "governor_decision \<Rightarrow> adaptive_profile \<Rightarrow> bool \<Rightarrow> gotime \<Rightarrow> adaptive_state \<Rightarrow> adaptive_state" where
  \<comment> \<open>\<open>ok\<close> and \<open>now\<close> are the outcome and the time of the encoder start in \<^verbatim>\<open>SetProfile\<close>\<close>
  "applyAdaptiveProfile decision profile ok now b =
    (if sg_profile (ad_governor b) \<noteq> gd_to decision then b
     else
       let (maxW, maxH, bitrateK, quantizer, frameRate) =
             adaptiveEncoderSettings profile (ad_bitrateK b) (ad_quantizer b) (ad_viewW b) (ad_viewH b)
       in b\<lparr>ad_video := SetProfile maxW maxH bitrateK quantizer frameRate ok now (ad_video b)\<rparr>)"

end
