(* ===== verification/Video_Delivery.thy ===== *)
theory Video_Delivery
  imports Video_Pipeline
begin

text \<open>
  What a subscriber of the video pipeline receives, and what keeps the encoder alive. The
  pipeline runs as interleaved steps: operations of the clients, timer callbacks (at any time,
  also late ones that lost the race with a cancellation), the steps of a fan-out, receives of
  the readers, and other pipelines drawing from the shared generation counter.
\<close>

section \<open>Steps\<close>

datatype video_op =
    OSubscribe nat bool gotime
  | OClose nat gotime
  | ORestart bool gotime
  | OSetSize int int bool gotime
  | OSetViewport int int int int bool gotime
  | OSetProfile int int int int int bool gotime
  | OKeyframe gotime
  | OKeyframeTimer nat gotime
  | ORetryTimer nat bool gotime
  | OStopTimer
  | OShutdown
  | OResync nat
  | OBroadcast access_unit int "nat list"  \<comment> \<open>unit, generation read by \<^verbatim>\<open>Push\<close>, targets\<close>
  | OOffer
  | OReceive nat
  | OOtherPipeline                          \<comment> \<open>another pipeline draws a generation\<close>

fun video_step :: "video_op \<Rightarrow> video_pipeline \<Rightarrow> video_pipeline" where
  "video_step (OSubscribe i ok now) s = Subscribe i ok now s"
| "video_step (OClose i now) s = CloseSub i now s"
| "video_step (ORestart ok now) s = Restart ok now s"
| "video_step (OSetSize w h ok now) s = SetSize w h ok now s"
| "video_step (OSetViewport w h mw mh ok now) s = SetViewport w h mw mh ok now s"
| "video_step (OSetProfile mw mh b q f ok now) s = SetProfile mw mh b q f ok now s"
| "video_step (OKeyframe now) s = RequestKeyframe now s"
| "video_step (OKeyframeTimer t now) s = keyframe_fired t now s"
| "video_step (ORetryTimer t ok now) s = retry_fired t ok now s"
| "video_step OStopTimer s = stop_fired s"
| "video_step OShutdown s = Shutdown s"
| "video_step (OResync i) s = ForceResync i s"
| "video_step (OBroadcast au gen targets) s = broadcast_begin au gen targets s"
| "video_step OOffer s = offer_next s"
| "video_step (OReceive i) s = receive i s"
| "video_step OOtherPipeline s = s\<lparr>vp_generation := vp_generation s + 1\<rparr>"

definition op_time :: "video_op \<Rightarrow> gotime option" where
  "op_time e = (case e of OSubscribe _ _ t \<Rightarrow> Some t | OKeyframe t \<Rightarrow> Some t | OKeyframeTimer _ t \<Rightarrow> Some t | _ \<Rightarrow> None)"

definition op_enabled :: "video_op \<Rightarrow> video_pipeline \<Rightarrow> bool" where
  \<comment> \<open>a subscription object is new; \<^verbatim>\<open>Push\<close> is called from one goroutine, so a fan-out starts when the
     previous one is done, and its targets are the subscriptions of that moment; the 32-bit
     generation counter does not wrap around and the clock does not run backwards\<close>
  "op_enabled e s \<longleftrightarrow> uint (vp_generation s) + 2 < 2 ^ 32 \<and>
     (case op_time e of Some t \<Rightarrow> vp_lastKeyframeReq s \<le> t | None \<Rightarrow> True) \<and>
     (case e of
        OSubscribe i _ _ \<Rightarrow> i \<notin> vp_subs s \<and> vp_heap s i = empty_sub \<and>
          (case vp_pending s of Some (_, _, targets) \<Rightarrow> i \<notin> set targets | None \<Rightarrow> True)
      | OBroadcast _ _ targets \<Rightarrow> vp_pending s = None \<and> set targets = vp_subs s \<and> distinct targets
      | _ \<Rightarrow> True)"

inductive video_reach :: "video_pipeline \<Rightarrow> video_pipeline \<Rightarrow> bool" for s0 where
  reach_start: "video_reach s0 s0"
| reach_step: "video_reach s0 s \<Longrightarrow> op_enabled e s \<Longrightarrow> video_reach s0 (video_step e s)"

section \<open>Continuity\<close>

definition follows :: "access_unit \<Rightarrow> access_unit \<Rightarrow> bool" where
  "follows a b \<longleftrightarrow> au_IDR b \<or> au_Seq b = au_Seq a + 1 \<and> au_Generation b = au_Generation a"

definition unbroken :: "access_unit list \<Rightarrow> bool" where
  \<comment> \<open>the first unit is an IDR; any other is an IDR or the next unit of the same generation\<close>
  "unbroken xs \<longleftrightarrow> (xs \<noteq> [] \<longrightarrow> au_IDR (hd xs)) \<and> successively follows xs"

lemma unbroken_prefix: "unbroken (xs @ ys) \<Longrightarrow> unbroken xs"
  by (auto simp: unbroken_def successively_append_iff)

lemma unbroken_snoc:
  "unbroken xs \<Longrightarrow> au_IDR a \<or> xs \<noteq> [] \<and> follows (last xs) a \<Longrightarrow> unbroken (xs @ [a])"
  by (auto simp: unbroken_def successively_append_iff follows_def hd_append)

section \<open>The invariant\<close>

definition pending_for :: "nat \<Rightarrow> video_pipeline \<Rightarrow> bool" where
  "pending_for i s \<longleftrightarrow> (case vp_pending s of None \<Rightarrow> False | Some (_, _, targets) \<Rightarrow> i \<in> set targets)"

definition pend_ok :: "video_pipeline \<Rightarrow> bool" where
  "pend_ok s \<longleftrightarrow>
     (case vp_pending s of
        None \<Rightarrow> True
      | Some (au, gen, targets) \<Rightarrow>
          au_Seq au = vp_seq s \<and> au_Generation au = word_of_int gen \<and> distinct targets \<and>
          (\<forall>i\<in>set targets. i \<in> vp_subs s \<or> vs_closed (vp_heap s i)) \<and>
          gen \<le> vp_gen s \<and>
          (if gen = vp_gen s then vp_running s
           else \<forall>i\<in>set targets. i \<in> vp_subs s \<longrightarrow> vs_dropped (vp_heap s i) \<and> vs_gen (vp_heap s i) \<noteq> gen))"

definition in_step :: "video_pipeline \<Rightarrow> nat \<Rightarrow> bool" where
  \<comment> \<open>a subscription that is not waiting for an IDR has received everything offered so far\<close>
  "in_step s i \<longleftrightarrow>
     (let sub = vp_heap s i; got = vs_got sub @ vs_C sub
      in vp_running s \<and> vs_gen sub = vp_gen s \<and> got \<noteq> [] \<and>
         au_Generation (last got) = word_of_int (vp_gen s) \<and>
         (if pending_for i s then au_Seq (last got) + 1 = vp_seq s else au_Seq (last got) = vp_seq s))"

definition sub_ok :: "video_pipeline \<Rightarrow> nat \<Rightarrow> bool" where
  "sub_ok s i \<longleftrightarrow>
     unbroken (vs_got (vp_heap s i) @ vs_C (vp_heap s i)) \<and>
     length (vs_C (vp_heap s i)) \<le> subQueueCap \<and>
     (i \<in> vp_subs s \<longrightarrow> \<not> vs_closed (vp_heap s i) \<and> (\<not> vs_dropped (vp_heap s i) \<longrightarrow> in_step s i))"

definition gen_ok :: "video_pipeline \<Rightarrow> bool" where
  "gen_ok s \<longleftrightarrow> vp_gen s \<le> uint (vp_generation s)"

definition video_inv :: "video_pipeline \<Rightarrow> bool" where
  "video_inv s \<longleftrightarrow> pend_ok s \<and> (\<forall>i. sub_ok s i) \<and> gen_ok s"

lemma video_invD: "video_inv s \<Longrightarrow> pend_ok s" "video_inv s \<Longrightarrow> sub_ok s i" "video_inv s \<Longrightarrow> gen_ok s"
  by (simp_all add: video_inv_def)

lemma stopped_dropped: "video_inv s \<Longrightarrow> \<not> vp_running s \<Longrightarrow> i \<in> vp_subs s \<Longrightarrow> vs_dropped (vp_heap s i)"
  by (auto simp: video_inv_def sub_ok_def in_step_def)

lemma video_inv_frame:
  assumes "video_inv s" "vp_subs s' = vp_subs s" "vp_heap s' = vp_heap s" "vp_pending s' = vp_pending s"
    "vp_running s' = vp_running s" "vp_gen s' = vp_gen s" "vp_seq s' = vp_seq s" "vp_generation s' = vp_generation s"
  shows "video_inv s'"
  using assms(1) unfolding video_inv_def pend_ok_def sub_ok_def in_step_def pending_for_def gen_ok_def assms(2-) .

lemma sub_ok_transfer:
  assumes "sub_ok s j" "vs_got (vp_heap s' j) @ vs_C (vp_heap s' j) = vs_got (vp_heap s j) @ vs_C (vp_heap s j)"
    "vs_dropped (vp_heap s' j) = vs_dropped (vp_heap s j)" "vs_closed (vp_heap s' j) = vs_closed (vp_heap s j)"
    "vs_gen (vp_heap s' j) = vs_gen (vp_heap s j)" "length (vs_C (vp_heap s' j)) \<le> length (vs_C (vp_heap s j))"
    "vp_subs s' = vp_subs s" "vp_pending s' = vp_pending s" "vp_running s' = vp_running s" "vp_gen s' = vp_gen s"
    "vp_seq s' = vp_seq s"
  shows "sub_ok s' j"
  using assms(1,6) unfolding sub_ok_def in_step_def pending_for_def Let_def assms(2-5) assms(7-) by linarith

definition weaker :: "video_sub \<Rightarrow> video_sub \<Rightarrow> bool" where
  \<comment> \<open>the second has the same history and possibly lost its queue\<close>
  "weaker sub sub' \<longleftrightarrow> vs_got sub' = vs_got sub \<and> (vs_C sub' = vs_C sub \<or> vs_C sub' = []) \<and>
     (vs_closed sub \<longrightarrow> vs_closed sub')"

lemma weaker_simps [simp]:
  "weaker sub sub" "weaker sub (resetForGen g sub)" "weaker sub (close_sub sub)"
  "weaker sub (resetForGen g (close_sub sub))"
  by (simp_all add: weaker_def resetForGen_def close_sub_def)

lemma weaker_trans: "weaker a b \<Longrightarrow> weaker b c \<Longrightarrow> weaker a c"
  by (auto simp: weaker_def)

definition gen_moves :: "video_pipeline \<Rightarrow> video_pipeline \<Rightarrow> bool" where
  \<comment> \<open>the generation stays and the subscriptions keep theirs or take it, or it grows and they take the
     new one, unless the encoder was stopped\<close>
  "gen_moves s s' \<longleftrightarrow> gen_ok s' \<and>
     (vp_gen s' = vp_gen s \<and> (vp_running s \<longrightarrow> vp_running s') \<and>
        (\<forall>i\<in>vp_subs s'. vs_gen (vp_heap s' i) \<in> {vp_gen s, vs_gen (vp_heap s i)}) \<or>
      vp_gen s < vp_gen s' \<and>
        (\<forall>i\<in>vp_subs s'. vs_gen (vp_heap s' i) = vp_gen s' \<or> \<not> vp_running s \<and> vs_gen (vp_heap s' i) = vs_gen (vp_heap s i)))"

lemma video_inv_waiting:
  \<comment> \<open>a change of generation or state is harmless when every subscription waits for an IDR\<close>
  assumes inv: "video_inv s" and subs: "vp_subs s' \<subseteq> vp_subs s" and heap: "\<And>i. weaker (vp_heap s i) (vp_heap s' i)"
    and waiting: "\<And>i. i \<in> vp_subs s' \<Longrightarrow> vs_dropped (vp_heap s' i) \<and> \<not> vs_closed (vp_heap s' i)"
    and closed: "\<And>i. i \<in> vp_subs s \<Longrightarrow> i \<notin> vp_subs s' \<Longrightarrow> vs_closed (vp_heap s' i)"
    and same: "vp_pending s' = vp_pending s" "vp_seq s' = vp_seq s" and gen: "gen_moves s s'"
  shows "video_inv s'"
proof -
  have "sub_ok s' i" for i
    using video_invD(2) [OF inv, of i] heap [of i] waiting [of i] unbroken_prefix
    by (auto simp: sub_ok_def weaker_def)
  moreover have "pend_ok s'"
  proof (cases "vp_pending s")
    case (Some p)
    obtain au g targets where p: "p = (au, g, targets)" by (cases p)
    note old = video_invD(1) [OF inv, unfolded pend_ok_def Some p option.case prod.case]
    have "i \<in> vp_subs s' \<or> vs_closed (vp_heap s' i)" if "i \<in> set targets" for i
      using that old closed [of i] heap [of i] by (auto simp: weaker_def)
    moreover have "g \<le> vp_gen s'" using old gen by (auto simp: gen_moves_def)
    moreover have "vp_running s'" if "g = vp_gen s'" using that old gen by (auto simp: gen_moves_def)
    moreover have "vs_gen (vp_heap s' i) \<noteq> g" if "g \<noteq> vp_gen s'" "i \<in> set targets" "i \<in> vp_subs s'" for i
    proof -
      have "i \<in> vp_subs s" using that(3) subs by blast
      then have o: "g \<noteq> vp_gen s \<longrightarrow> vs_gen (vp_heap s i) \<noteq> g" "g = vp_gen s \<longrightarrow> vp_running s"
        using old that(2) by auto
      have "vs_gen (vp_heap s' i) \<in> {vp_gen s, vs_gen (vp_heap s i)} \<and> vp_gen s' = vp_gen s \<or>
          vs_gen (vp_heap s' i) = vp_gen s' \<or> \<not> vp_running s \<and> vs_gen (vp_heap s' i) = vs_gen (vp_heap s i)"
        using gen that(3) unfolding gen_moves_def by blast
      then show ?thesis using o that(1) by fastforce
    qed
    ultimately show ?thesis using old same waiting by (simp add: pend_ok_def Some p)
  qed (simp add: pend_ok_def same)
  ultimately show ?thesis using gen by (simp add: video_inv_def gen_moves_def)
qed

subsection \<open>What the building blocks change\<close>

lemma stopLocked_simps [simp]:
  "vp_subs (stopLocked s) = vp_subs s" "vp_heap (stopLocked s) = vp_heap s"
  "vp_pending (stopLocked s) = vp_pending s" "vp_seq (stopLocked s) = vp_seq s"
  "vp_running (stopLocked s) = False" "vp_cfg (stopLocked s) = vp_cfg s"
  "vp_keyframeTimer (stopLocked s) = None" "vp_lastKeyframeReq (stopLocked s) = vp_lastKeyframeReq s"
  by (simp_all add: stopLocked_def cancelKeyframeTimerLocked_def cancelStartRetryLocked_def bump_generation_def Let_def)

lemma failAllLocked_simps [simp]:
  "vp_subs (failAllLocked s) = {}" "vp_pending (failAllLocked s) = vp_pending s" "vp_seq (failAllLocked s) = vp_seq s"
  "vp_heap (failAllLocked s) i = (if i \<in> vp_subs s then close_sub (vp_heap s i) else vp_heap s i)"
  "vp_running (failAllLocked s) = vp_running s" "vp_cfg (failAllLocked s) = vp_cfg s"
  "vp_keyframeTimer (failAllLocked s) = vp_keyframeTimer s" "vp_lastKeyframeReq (failAllLocked s) = vp_lastKeyframeReq s"
  by (simp_all add: failAllLocked_def cancelStartRetryLocked_def Let_def)

lemma startLocked_simps [simp]:
  "vp_pending (startLocked ok now s) = vp_pending s" "vp_seq (startLocked ok now s) = vp_seq s"
  "vp_cfg (startLocked ok now s) = vp_cfg s" "vp_keyframeTimer (startLocked ok now s) = vp_keyframeTimer s"
  "vp_lastKeyframeReq (startLocked ok now s) = vp_lastKeyframeReq s"
  "vc_hasStart (vp_cfg s) \<Longrightarrow> vp_subs (startLocked ok now s) = vp_subs s"
  "vc_hasStart (vp_cfg s) \<Longrightarrow> vp_heap (startLocked ok now s) = vp_heap s"
  "vc_hasStart (vp_cfg s) \<Longrightarrow> vp_running (startLocked ok now s) = ok"
  "\<not> vc_hasStart (vp_cfg s) \<Longrightarrow> startLocked ok now s = failAllLocked s"
  by (simp_all add: startLocked_def scheduleStartRetryLocked_def cancelStartRetryLocked_def bump_generation_def Let_def)

lemma resetSubs_simps [simp]:
  "vp_subs (resetSubsForGenLocked s) = vp_subs s" "vp_pending (resetSubsForGenLocked s) = vp_pending s"
  "vp_seq (resetSubsForGenLocked s) = vp_seq s" "vp_running (resetSubsForGenLocked s) = vp_running s"
  "vp_cfg (resetSubsForGenLocked s) = vp_cfg s" "vp_startRetryTimer (resetSubsForGenLocked s) = vp_startRetryTimer s"
  "vp_heap (resetSubsForGenLocked s) i =
     (if i \<in> vp_subs s then resetForGen (vp_gen s) (vp_heap s i) else vp_heap s i)"
  "vp_keyframeTimer (resetSubsForGenLocked s) = vp_keyframeTimer s"
  "vp_lastKeyframeReq (resetSubsForGenLocked s) = vp_lastKeyframeReq s"
  by (simp_all add: resetSubsForGenLocked_def)

lemma close_sub_closed [simp]: "vs_closed (close_sub sub)"
  by (simp add: close_sub_def)

lemma reset_sub_simps [simp]:
  "vs_dropped (resetForGen g sub)" "vs_closed (resetForGen g sub) = vs_closed sub"
  by (simp_all add: resetForGen_def)

lemma not_closed: "video_inv s \<Longrightarrow> i \<in> vp_subs s \<Longrightarrow> \<not> vs_closed (vp_heap s i)"
  by (simp add: video_inv_def sub_ok_def)

lemma bump_generation_gen:
  assumes "uint (vp_generation s) + 1 < 2 ^ 32"
  shows "vp_gen (bump_generation s) = uint (vp_generation s) + 1"
    "uint (vp_generation (bump_generation s)) = uint (vp_generation s) + 1"
  using assms by (simp_all add: bump_generation_def Let_def uint_word_ariths)

lemma stopLocked_gen:
  assumes "uint (vp_generation s) + 1 < 2 ^ 32"
  shows "\<not> vp_running s \<Longrightarrow> vp_gen (stopLocked s) = vp_gen s \<and> vp_generation (stopLocked s) = vp_generation s"
    "vp_running s \<Longrightarrow> vp_gen (stopLocked s) = uint (vp_generation s) + 1 \<and>
       uint (vp_generation (stopLocked s)) = uint (vp_generation s) + 1"
  using assms
  by (simp_all add: stopLocked_def cancelKeyframeTimerLocked_def cancelStartRetryLocked_def bump_generation_def Let_def
      uint_word_ariths)

lemma startLocked_gen:
  assumes "uint (vp_generation s) + 1 < 2 ^ 32" "vc_hasStart (vp_cfg s)"
  shows "vp_gen (startLocked ok now s) = uint (vp_generation s) + 1"
    "uint (vp_generation (startLocked ok now s)) = uint (vp_generation s) + 1"
  using assms
  by (simp_all add: startLocked_def scheduleStartRetryLocked_def cancelStartRetryLocked_def bump_generation_def Let_def
      uint_word_ariths)

lemma failAllLocked_gen [simp]:
  "vp_gen (failAllLocked s) = vp_gen s" "vp_generation (failAllLocked s) = vp_generation s"
  by (simp_all add: failAllLocked_def cancelStartRetryLocked_def Let_def)

lemma resetSubs_gen [simp]:
  "vp_gen (resetSubsForGenLocked s) = vp_gen s" "vp_generation (resetSubsForGenLocked s) = vp_generation s"
  by (simp_all add: resetSubsForGenLocked_def)

lemma vs_gen_reset [simp]: "vs_gen (resetForGen g sub) = g" "vs_gen (close_sub sub) = vs_gen sub"
  by (simp_all add: resetForGen_def close_sub_def)

definition no_wrap :: "video_pipeline \<Rightarrow> bool" where
  "no_wrap s \<longleftrightarrow> uint (vp_generation s) + 2 < 2 ^ 32"

subsection \<open>Every step keeps it\<close>

definition subs_moved :: "video_pipeline \<Rightarrow> video_pipeline \<Rightarrow> bool" where
  \<comment> \<open>the subscriptions are the same objects, or all of them were closed and removed\<close>
  "subs_moved s s' \<longleftrightarrow>
     vp_subs s' = vp_subs s \<and> vp_heap s' = vp_heap s \<or>
     vp_subs s' = {} \<and> vp_heap s' = (\<lambda>i. if i \<in> vp_subs s then close_sub (vp_heap s i) else vp_heap s i)"

lemma subs_moved_same: "vp_subs s' = vp_subs s \<Longrightarrow> vp_heap s' = vp_heap s \<Longrightarrow> subs_moved s s'"
  by (simp add: subs_moved_def)

lemma subs_moved_start:
  "vp_subs s1 = vp_subs s \<Longrightarrow> vp_heap s1 = vp_heap s \<Longrightarrow> subs_moved s (startLocked ok now s1)"
  by (cases "vc_hasStart (vp_cfg s1)") (auto simp: subs_moved_def)

lemma subs_movedD:
  assumes "subs_moved s s'"
  shows "vp_subs s' \<subseteq> vp_subs s" "weaker (vp_heap s i) (vp_heap s' i)"
    "i \<in> vp_subs s' \<Longrightarrow> vp_heap s' i = vp_heap s i"
    "i \<in> vp_subs s \<Longrightarrow> i \<notin> vp_subs s' \<Longrightarrow> vs_closed (vp_heap s' i)"
  using assms by (auto simp: subs_moved_def)

lemma inv_reset_all:
  \<comment> \<open>resetting all subscriptions after the generation stayed or grew\<close>
  assumes inv: "video_inv s" and same: "vp_pending s' = vp_pending s" "vp_seq s' = vp_seq s"
    and subs: "subs_moved s s'"
    and gen: "gen_ok s'" "vp_gen s' = vp_gen s \<and> (vp_running s \<longrightarrow> vp_running s') \<or> vp_gen s < vp_gen s'"
  shows "video_inv (resetSubsForGenLocked s')"
proof (rule video_inv_waiting [OF inv])
  show "weaker (vp_heap s i) (vp_heap (resetSubsForGenLocked s') i)" for i
    using weaker_trans [OF subs_movedD(2) [OF subs]] by simp
  show "gen_moves s (resetSubsForGenLocked s')" using gen by (auto simp: gen_moves_def gen_ok_def)
qed (use subs_movedD [OF subs] same not_closed [OF inv] in auto)

lemma stop_start_gen:
  assumes "gen_ok s" "no_wrap s" "vp_running s"
  shows "gen_ok (startLocked ok now (stopLocked s))" "vp_gen s < vp_gen (startLocked ok now (stopLocked s))"
  using assms stopLocked_gen [of s] startLocked_gen [of "stopLocked s" ok now]
  by (cases "vc_hasStart (vp_cfg s)"; simp add: gen_ok_def no_wrap_def)+

lemma start_gen:
  assumes "gen_ok s" "no_wrap s" "\<not> vp_running s"
  shows "gen_ok (startLocked ok now s)"
    "vp_gen (startLocked ok now s) = vp_gen s \<or> vp_gen s < vp_gen (startLocked ok now s)"
  using assms startLocked_gen [of s ok now]
  by (cases "vc_hasStart (vp_cfg s)"; simp add: gen_ok_def no_wrap_def)+

lemma inv_restart_encoder:
  assumes "video_inv s" "no_wrap s"
  shows "video_inv (restart_encoder ok now (s\<lparr>vp_cfg := cfg\<rparr>))"
proof -
  let ?s = "s\<lparr>vp_cfg := cfg\<rparr>"
  have inv: "video_inv ?s" by (rule video_inv_frame [OF assms(1)]) simp_all
  have nw: "no_wrap ?s" using assms(2) by (simp add: no_wrap_def)
  show ?thesis
  proof (cases "vp_running s")
    case True
    have "video_inv (resetSubsForGenLocked (startLocked ok now (stopLocked ?s)))"
      by (rule inv_reset_all [OF inv])
         (use stop_start_gen [OF video_invD(3) [OF inv] nw] True in \<open>simp_all add: subs_moved_start\<close>)
    then show ?thesis using True by (simp add: restart_encoder_def)
  next
    case False
    have "video_inv (resetSubsForGenLocked ?s)"
      by (rule inv_reset_all [OF inv]) (use video_invD(3) [OF inv] in \<open>simp_all add: subs_moved_same\<close>)
    then show ?thesis using False by (simp add: restart_encoder_def)
  qed
qed

lemma inv_sizes:
  assumes "video_inv s" "no_wrap s"
  shows "video_inv (SetSize w h ok now s)" "video_inv (SetViewport w h mw mh ok now s)"
    "video_inv (SetProfile mw mh b q f ok now s)"
  by (auto simp: SetSize_def SetViewport_def SetProfile_def Let_def assms inv_restart_encoder [OF assms] split: prod.split)

lemma inv_Restart:
  assumes inv: "video_inv s" and nw: "no_wrap s"
  shows "video_inv (Restart ok now s)"
proof -
  let ?s = "s\<lparr>vp_stopTimer := None\<rparr>"
  have inv': "video_inv ?s" by (rule video_inv_frame [OF inv]) simp_all
  have nw': "no_wrap ?s" using nw by (simp add: no_wrap_def)
  have g: "gen_ok ?s" by (rule video_invD(3) [OF inv'])
  have stop: "gen_ok (stopLocked ?s)" "vp_running s \<Longrightarrow> vp_gen s < vp_gen (stopLocked ?s)"
    "\<not> vp_running s \<Longrightarrow> vp_gen (stopLocked ?s) = vp_gen s"
    "uint (vp_generation (stopLocked ?s)) + 1 < 2 ^ 32"
    using stopLocked_gen [of ?s] g nw by (cases "vp_running s"; simp add: gen_ok_def no_wrap_def)+
  have start: "gen_ok (startLocked ok now (stopLocked ?s))"
    "vp_gen (startLocked ok now (stopLocked ?s)) = vp_gen (stopLocked ?s) \<or> vp_gen (stopLocked ?s) < vp_gen (startLocked ok now (stopLocked ?s))"
    using stop startLocked_gen [of "stopLocked ?s" ok now]
    by (cases "vc_hasStart (vp_cfg s)"; simp add: gen_ok_def)+
  have "video_inv (resetSubsForGenLocked (startLocked ok now (stopLocked ?s)))"
  proof (rule inv_reset_all [OF inv'])
    show "vp_gen (startLocked ok now (stopLocked ?s)) = vp_gen ?s \<and>
        (vp_running ?s \<longrightarrow> vp_running (startLocked ok now (stopLocked ?s))) \<or>
      vp_gen ?s < vp_gen (startLocked ok now (stopLocked ?s))"
      using stop start(2) by (cases "vp_running s") auto
  qed (simp_all add: start subs_moved_start)
  moreover have "video_inv (resetSubsForGenLocked (stopLocked ?s))"
  proof (rule inv_reset_all [OF inv'])
    show "vp_gen (stopLocked ?s) = vp_gen ?s \<and> (vp_running ?s \<longrightarrow> vp_running (stopLocked ?s)) \<or> vp_gen ?s < vp_gen (stopLocked ?s)"
      using stop by (cases "vp_running s") auto
  qed (simp_all add: stop subs_moved_same)
  ultimately show ?thesis by (simp add: Restart_def Let_def)
qed

lemma inv_request_keyframe:
  assumes "video_inv s"
  shows "video_inv (requestKeyframeLocked now s)"
proof (cases "vp_running s")
  case True
  let ?s = "s\<lparr>vp_lastKeyframeReq := now\<rparr>"
  let ?t = "if vc_hasKeyframe (vp_cfg ?s) then ?s\<lparr>vp_calls := vp_calls ?s @ [EncKeyframe now]\<rparr> else ?s"
  have "video_inv (resetSubsForGenLocked ?t)"
    by (rule inv_reset_all [OF assms]) (use video_invD(3) [OF assms] in \<open>simp_all add: gen_ok_def subs_moved_def\<close>)
  then show ?thesis using True unfolding requestKeyframeLocked_def Let_def by simp
qed (simp add: requestKeyframeLocked_def assms)

lemma inv_ensure_keyframe: "video_inv s \<Longrightarrow> video_inv (ensureKeyframeLocked now s)"
  by (auto simp: ensureKeyframeLocked_def Let_def intro: inv_request_keyframe elim: video_inv_frame)

lemma inv_keyframe_fired: "video_inv s \<Longrightarrow> video_inv (keyframe_fired t now s)"
  by (auto simp: keyframe_fired_def intro!: inv_request_keyframe elim: video_inv_frame)

lemma inv_started:
  \<comment> \<open>starting a stopped encoder without resetting\<close>
  assumes inv: "video_inv s" "no_wrap s" "\<not> vp_running s"
  shows "video_inv (startLocked ok now s)"
proof (rule video_inv_waiting [OF inv(1)])
  note moved = subs_moved_start [of s s ok now, OF refl refl]
  show "gen_moves s (startLocked ok now s)"
    using start_gen [OF video_invD(3) [OF inv(1)] inv(2,3), of ok now] subs_movedD(3) [OF moved] inv(3)
    by (auto simp: gen_moves_def)
  show "vp_subs (startLocked ok now s) \<subseteq> vp_subs s" "weaker (vp_heap s i) (vp_heap (startLocked ok now s) i)"
    "i \<in> vp_subs s \<Longrightarrow> i \<notin> vp_subs (startLocked ok now s) \<Longrightarrow> vs_closed (vp_heap (startLocked ok now s) i)"
    "i \<in> vp_subs (startLocked ok now s) \<Longrightarrow> vs_dropped (vp_heap (startLocked ok now s) i) \<and> \<not> vs_closed (vp_heap (startLocked ok now s) i)" for i
    using subs_movedD [OF moved] not_closed [OF inv(1), of i] stopped_dropped [OF inv(1,3), of i] by auto
qed simp_all

lemma inv_retry_fired:
  assumes inv: "video_inv s" and nw: "no_wrap s"
  shows "video_inv (retry_fired t ok now s)"
proof -
  let ?s = "s\<lparr>vp_startRetryTimer := None\<rparr>"
  have inv': "video_inv ?s" by (rule video_inv_frame [OF inv]) simp_all
  have nw': "no_wrap ?s" using nw by (simp add: no_wrap_def)
  have "video_inv (resetSubsForGenLocked (startLocked ok now ?s))" if "\<not> vp_running s"
    by (rule inv_reset_all [OF inv'])
       (use start_gen [OF video_invD(3) [OF inv'] nw', of ok now] that in \<open>auto simp: subs_moved_start\<close>)
  then show ?thesis using inv inv' by (simp add: retry_fired_def Let_def)
qed

lemma inv_stop:
  assumes inv: "video_inv s" and nw: "no_wrap s"
  shows "vp_subs s = {} \<Longrightarrow> video_inv (stopLocked s)" "video_inv (failAllLocked (stopLocked s))"
proof -
  have g: "gen_ok (stopLocked s)" "vp_running s \<Longrightarrow> vp_gen s < vp_gen (stopLocked s)"
    "\<not> vp_running s \<Longrightarrow> vp_gen (stopLocked s) = vp_gen s"
    using stopLocked_gen [of s] video_invD(3) [OF inv] nw by (cases "vp_running s"; simp add: gen_ok_def no_wrap_def)+
  show "vp_subs s = {} \<Longrightarrow> video_inv (stopLocked s)"
    by (rule video_inv_waiting [OF inv]) (use g in \<open>auto simp: gen_moves_def\<close>)
  show "video_inv (failAllLocked (stopLocked s))"
    by (rule video_inv_waiting [OF inv]) (use g in \<open>auto simp: gen_moves_def gen_ok_def\<close>)
qed

lemma inv_stop_fired: "video_inv s \<Longrightarrow> no_wrap s \<Longrightarrow> video_inv (stop_fired s)"
  unfolding stop_fired_def by (simp add: inv_stop)

lemma inv_Shutdown:
  assumes inv: "video_inv s" and nw: "no_wrap s"
  shows "video_inv (Shutdown s)"
proof -
  let ?s = "s\<lparr>vp_stopTimer := None\<rparr>"
  have "video_inv ?s" by (rule video_inv_frame [OF inv]) simp_all
  moreover have "no_wrap ?s" using nw by (simp add: no_wrap_def)
  ultimately show ?thesis unfolding Shutdown_def by (rule inv_stop)
qed

lemma inv_CloseSub:
  assumes inv: "video_inv s"
  shows "video_inv (CloseSub i now s)"
proof (cases "i \<in> vp_subs s")
  case True
  let ?s = "update_sub i close_sub (s\<lparr>vp_subs := vp_subs s - {i}\<rparr>)"
  have heap: "vp_heap ?s j = (if j = i then close_sub (vp_heap s j) else vp_heap s j)" for j
    by (simp add: update_sub_def)
  have [simp]: "vs_got (close_sub sub) = vs_got sub" "vs_C (close_sub sub) = vs_C sub" for sub
    by (simp_all add: close_sub_def)
  have "sub_ok ?s j" for j
    using video_invD(2) [OF inv, of j] heap by (auto simp: sub_ok_def in_step_def pending_for_def update_sub_def Let_def)
  moreover have "pend_ok ?s"
    using video_invD(1) [OF inv] by (auto simp: pend_ok_def update_sub_def split: option.splits if_splits)
  moreover have "gen_ok ?s" using video_invD(3) [OF inv] by (simp add: gen_ok_def update_sub_def)
  ultimately have "video_inv ?s" by (simp add: video_inv_def)
  then show ?thesis
    using True by (auto simp: CloseSub_def Let_def cancelStartRetryLocked_def elim: video_inv_frame)
qed (simp add: CloseSub_def inv)

lemma inv_update_sub:
  \<comment> \<open>a subscription that loses its queue or waits for an IDR\<close>
  assumes inv: "video_inv s" and w: "weaker (vp_heap s i) (f (vp_heap s i))" "vs_dropped (f (vp_heap s i))"
    "vs_closed (f (vp_heap s i)) = vs_closed (vp_heap s i)" "vs_gen (f (vp_heap s i)) \<in> {vp_gen s, vs_gen (vp_heap s i)}"
  shows "video_inv (update_sub i f s)"
proof -
  have "sub_ok (update_sub i f s) j" for j
  proof (cases "j = i")
    case True
    then show ?thesis using video_invD(2) [OF inv, of i] w unbroken_prefix
      by (auto simp: sub_ok_def in_step_def pending_for_def update_sub_def Let_def weaker_def)
  next
    case False
    then show ?thesis using video_invD(2) [OF inv, of j]
      by (simp add: sub_ok_def in_step_def pending_for_def update_sub_def Let_def)
  qed
  moreover have "pend_ok (update_sub i f s)"
    using video_invD(1) [OF inv] w by (auto simp: pend_ok_def update_sub_def split: option.splits if_splits)
  moreover have "gen_ok (update_sub i f s)" using video_invD(3) [OF inv] by (simp add: gen_ok_def update_sub_def)
  ultimately show ?thesis by (simp add: video_inv_def)
qed

lemma inv_ForceResync: "video_inv s \<Longrightarrow> video_inv (ForceResync i s)"
  unfolding ForceResync_def by (rule inv_update_sub) (auto simp: weaker_def)

lemma inv_Subscribe:
  assumes inv: "video_inv s" and en: "op_enabled (OSubscribe i ok now) s"
  shows "video_inv (Subscribe i ok now s)"
proof -
  let ?new = "empty_sub\<lparr>vs_fresh := True, vs_dropped := True\<rparr>"
  let ?s = "s\<lparr>vp_heap := (vp_heap s)(i := ?new), vp_subs := insert i (vp_subs s), vp_stopTimer := None\<rparr>"
  let ?t = "if \<not> vp_running ?s then startLocked ok now ?s else ensureKeyframeLocked now ?s"
  have "sub_ok ?s j" for j
    using video_invD(2) [OF inv, of j] en
    by (auto simp: sub_ok_def in_step_def pending_for_def Let_def empty_sub_def unbroken_def)
  moreover have "pend_ok ?s"
    using video_invD(1) [OF inv] en by (auto simp: pend_ok_def op_enabled_def split: option.splits if_splits)
  moreover have "gen_ok ?s" using video_invD(3) [OF inv] by (simp add: gen_ok_def)
  ultimately have s: "video_inv ?s" by (simp add: video_inv_def)
  have "no_wrap ?s" using en by (simp add: op_enabled_def no_wrap_def)
  then have "video_inv ?t" using inv_started [OF s] inv_ensure_keyframe [OF s] by simp
  then have "video_inv (update_sub i (resetForGen (vp_gen ?t)) ?t)"
    by (rule inv_update_sub) simp_all
  with \<open>video_inv ?t\<close> show ?thesis unfolding Subscribe_def Let_def by simp
qed

lemma inv_broadcast:
  assumes inv: "video_inv s" and en: "op_enabled (OBroadcast au gen targets) s"
  shows "video_inv (broadcast_begin au gen targets s)"
proof (cases "gen \<noteq> vp_gen s \<or> \<not> vp_running s")
  case False
  have none: "vp_pending s = None" and targets: "set targets = vp_subs s" "distinct targets"
    using en by (simp_all add: op_enabled_def)
  let ?s = "broadcast_begin au gen targets s"
  have s: "?s = s\<lparr>vp_seq := vp_seq s + 1, vp_pending := Some (au\<lparr>au_Seq := vp_seq s + 1, au_Generation := word_of_int gen\<rparr>, gen, targets)\<rparr>"
    using False by (simp add: broadcast_begin_def Let_def)
  have "sub_ok ?s j" for j
    using video_invD(2) [OF inv, of j] targets none
    by (auto simp: s sub_ok_def in_step_def pending_for_def Let_def)
  moreover have "pend_ok ?s" unfolding s pend_ok_def using False targets by auto
  moreover have "gen_ok ?s" using video_invD(3) [OF inv] by (simp add: s gen_ok_def)
  ultimately show ?thesis by (simp add: video_inv_def)
qed (simp add: broadcast_begin_def inv)

lemma inv_receive: "video_inv s \<Longrightarrow> video_inv (receive i s)"
proof -
  assume inv: "video_inv s"
  let ?f = "\<lambda>sub. case vs_C sub of [] \<Rightarrow> sub | au # q \<Rightarrow> sub\<lparr>vs_C := q, vs_got := vs_got sub @ [au]\<rparr>"
  have f [simp]: "vs_got (?f sub) @ vs_C (?f sub) = vs_got sub @ vs_C sub" "vs_dropped (?f sub) = vs_dropped sub"
    "vs_closed (?f sub) = vs_closed sub" "vs_gen (?f sub) = vs_gen sub" for sub
    by (auto split: list.split)
  have len: "length (vs_C (?f sub)) \<le> length (vs_C sub)" for sub
    by (auto split: list.split)
  have heap: "vp_heap (receive i s) j = (if j = i then ?f (vp_heap s j) else vp_heap s j)" for j
    by (cases "j = i") (auto simp: receive_def update_sub_def)
  have g: "gen_ok (receive i s)" using video_invD(3) [OF inv] by (simp add: gen_ok_def receive_def update_sub_def)
  have rest: "vp_subs (receive i s) = vp_subs s" "vp_pending (receive i s) = vp_pending s" "vp_running (receive i s) = vp_running s"
    "vp_gen (receive i s) = vp_gen s" "vp_seq (receive i s) = vp_seq s"
    by (simp_all add: receive_def update_sub_def)
  have "sub_ok (receive i s) j" for j
    by (rule sub_ok_transfer [OF video_invD(2) [OF inv]]) (simp_all only: heap rest f len order_refl split: if_split, simp_all)
  moreover have "pend_ok (receive i s)"
    using video_invD(1) [OF inv] unfolding pend_ok_def heap rest by (auto split: option.splits if_splits)
  ultimately show ?thesis using g by (simp add: video_inv_def)
qed

lemma offer_cases:
  obtains (ignored) "offer au gen sub = (sub, False)" "vs_closed sub \<or> gen \<noteq> vs_gen sub \<or> vs_dropped sub \<and> \<not> au_IDR au"
  | (sent) "\<not> vs_closed sub" "gen = vs_gen sub" "\<not> vs_dropped sub \<or> au_IDR au" "length (vs_C sub) < subQueueCap"
      "offer au gen sub = (sub\<lparr>vs_C := vs_C sub @ [au], vs_dropped := False, vs_fresh := False\<rparr>, False)"
  | (lagging) "offer au gen sub = (sub\<lparr>vs_dropped := True\<rparr>, True)"
proof -
  consider "vs_closed sub \<or> gen \<noteq> vs_gen sub \<or> vs_dropped sub \<and> \<not> au_IDR au"
    | "\<not> vs_closed sub" "gen = vs_gen sub" "\<not> vs_dropped sub \<or> au_IDR au" "length (vs_C sub) < subQueueCap"
    | "\<not> vs_closed sub" "gen = vs_gen sub" "\<not> vs_dropped sub \<or> au_IDR au" "\<not> length (vs_C sub) < subQueueCap"
    by blast
  then show thesis
  proof cases
    case 1
    then show ?thesis by (intro ignored) (auto simp: offer_def)
  next
    case 2
    then show ?thesis by (intro sent) (auto simp: offer_def chan_send_def)
  next
    case 3
    then show ?thesis by (intro lagging) (auto simp: offer_def chan_send_def)
  qed
qed

lemma inv_offer_next:
  assumes inv: "video_inv s"
  shows "video_inv (offer_next s)"
proof (cases "vp_pending s")
  case None
  then show ?thesis using inv by (simp add: offer_next_def)
next
  case (Some p)
  obtain au gen targets where p: "p = (au, gen, targets)" by (cases p)
  note pend = video_invD(1) [OF inv, unfolded pend_ok_def Some p option.case prod.case]
  show ?thesis
  proof (cases targets)
    case Nil
    have "sub_ok (s\<lparr>vp_pending := None\<rparr>) j" for j
      using video_invD(2) [OF inv, of j] Some p Nil by (auto simp: sub_ok_def in_step_def pending_for_def Let_def)
    then show ?thesis using Some p Nil video_invD(3) [OF inv] by (simp add: offer_next_def video_inv_def pend_ok_def gen_ok_def)
  next
    case (Cons i rest)
    let ?old = "vp_heap s i"
    let ?sub = "fst (offer au gen ?old)"
    let ?s = "offer_next s"
    have s: "vp_heap ?s j = (if j = i then ?sub else vp_heap s j)" "vp_pending ?s = Some (au, gen, rest)"
      "vp_subs ?s = vp_subs s" "vp_running ?s = vp_running s" "vp_gen ?s = vp_gen s" "vp_seq ?s = vp_seq s"
      "vp_generation ?s = vp_generation s" for j
      using Some p Cons by (auto simp: offer_next_def split: prod.split)
    have other: "sub_ok ?s j" if "j \<noteq> i" for j
      using video_invD(2) [OF inv, of j] that Some p Cons
      by (simp add: sub_ok_def in_step_def pending_for_def Let_def s)
    have i: "i \<notin> set rest" "i \<in> set targets" "pending_for i s" "\<not> pending_for i ?s"
      using pend Cons by (simp_all add: pending_for_def Some p s)
    note ok = video_invD(2) [OF inv, of i, unfolded sub_ok_def]
    have upd: "sub_ok ?s i \<and> vs_closed ?sub = vs_closed ?old \<and> vs_gen ?sub = vs_gen ?old \<and> (gen \<noteq> vp_gen s \<longrightarrow> vs_dropped ?old \<longrightarrow> vs_gen ?old \<noteq> gen \<longrightarrow> vs_dropped ?sub)"
    proof (cases rule: offer_cases [of au gen ?old])
      case ignored
      have "vs_dropped ?old" if "i \<in> vp_subs s" using ok that ignored(2) pend i(2) by (auto simp: in_step_def Let_def split: if_splits)
      then show ?thesis using ok ignored(1) by (auto simp: sub_ok_def s)
    next
      case sent
      have mem: "i \<in> vp_subs s" using pend i(2) sent(1) by auto
      have gen: "gen = vp_gen s" "vp_running s" using pend i(2) mem sent(2) by (auto split: if_splits)
      have "au_IDR au \<or> vs_got ?old @ vs_C ?old \<noteq> [] \<and> follows (last (vs_got ?old @ vs_C ?old)) au"
        using sent(3) ok mem pend i(3) gen by (auto simp: in_step_def Let_def follows_def)
      then have "unbroken (vs_got ?old @ vs_C ?old @ [au])"
        using unbroken_snoc [of "vs_got ?old @ vs_C ?old" au] ok by simp
      then show ?thesis
        using sent gen pend i ok by (simp add: sub_ok_def in_step_def s Let_def)
    next
      case lagging
      then show ?thesis using ok by (auto simp: sub_ok_def s)
    qed
    have "pend_ok ?s"
      using pend Cons upd unfolding pend_ok_def s option.case prod.case by (auto split: if_splits)
    moreover have "gen_ok ?s" using video_invD(3) [OF inv] by (simp add: gen_ok_def s)
    moreover have "sub_ok ?s j" for j using other [of j] upd by (cases "j = i") simp_all
    ultimately show ?thesis by (simp add: video_inv_def)
  qed
qed

lemma inv_step: "video_inv s \<Longrightarrow> op_enabled e s \<Longrightarrow> video_inv (video_step e s)"
proof -
  assume inv: "video_inv s" and en: "op_enabled e s"
  have nw: "no_wrap s" using en by (simp add: op_enabled_def no_wrap_def)
  show ?thesis
  proof (cases e)
    case OOtherPipeline
    have "gen_ok (s\<lparr>vp_generation := vp_generation s + 1\<rparr>)"
      using nw video_invD(3) [OF inv] by (simp add: gen_ok_def no_wrap_def uint_word_ariths)
    moreover have "sub_ok (s\<lparr>vp_generation := vp_generation s + 1\<rparr>) j" for j
      by (rule sub_ok_transfer [OF video_invD(2) [OF inv]]) simp_all
    moreover have "pend_ok (s\<lparr>vp_generation := vp_generation s + 1\<rparr>)"
      using video_invD(1) [OF inv] by (auto simp: pend_ok_def split: option.splits if_splits)
    ultimately show ?thesis using OOtherPipeline by (simp add: video_inv_def)
  qed (use inv nw en in \<open>simp_all add: inv_Subscribe inv_CloseSub inv_Restart inv_sizes inv_ensure_keyframe RequestKeyframe_def
      inv_keyframe_fired inv_retry_fired inv_stop_fired inv_Shutdown inv_ForceResync inv_broadcast inv_offer_next inv_receive\<close>)
qed

lemma inv_New: "video_inv (NewVideoPipeline g cfg)"
proof -
  have "vp_pending (NewVideoPipeline g cfg) = None" "vp_subs (NewVideoPipeline g cfg) = {}"
    "vp_heap (NewVideoPipeline g cfg) = (\<lambda>_. empty_sub)" "vp_gen (NewVideoPipeline g cfg) = 0"
    by (simp_all add: NewVideoPipeline_def Let_def split: prod.split)
  then show ?thesis by (simp add: video_inv_def pend_ok_def sub_ok_def gen_ok_def empty_sub_def unbroken_def)
qed

lemma inv_reach: "video_reach (NewVideoPipeline g cfg) s \<Longrightarrow> video_inv s"
  by (induction rule: video_reach.induct) (auto intro: inv_New inv_step)

interpretation sub_queue: lossy_queue "\<lambda>au sub. fst (offer au (vs_gen sub) sub)" vs_C subQueueCap
proof
  fix au sub
  show "length (vs_C sub) \<le> subQueueCap \<Longrightarrow> length (vs_C (fst (offer au (vs_gen sub) sub))) \<le> subQueueCap"
    by (cases rule: offer_cases [of au "vs_gen sub" sub]) simp_all
  show "subseq (vs_C (fst (offer au (vs_gen sub) sub))) (vs_C sub @ [au])"
    by (cases rule: offer_cases [of au "vs_gen sub" sub]) simp_all
qed

section \<open>Keeping the encoder alive\<close>

definition alive :: "video_pipeline \<Rightarrow> bool" where
  \<comment> \<open>with subscribers, the encoder runs or a retry is scheduled; a keyframe timer exists only while
     it runs and is due within the cooldown\<close>
  "alive s \<longleftrightarrow>
     (vp_subs s \<noteq> {} \<longrightarrow> vp_running s \<or> vp_startRetryTimer s \<noteq> None) \<and>
     (\<forall>t d. vp_keyframeTimer s = Some (t, d) \<longrightarrow> vp_running s \<and> d \<le> vp_lastKeyframeReq s + keyframeCooldown)"

lemma alive_update_sub [simp]: "alive (update_sub i f s) = alive s"
  by (simp add: alive_def update_sub_def)

lemma alive_reset [simp]: "alive (resetSubsForGenLocked s) = alive s"
  by (simp add: alive_def)

lemma alive_start:
  assumes "\<not> vp_running s \<or> vp_keyframeTimer s = None" "vp_keyframeTimer s = None"
  shows "alive (startLocked ok now s)"
  using assms
  by (auto simp: alive_def startLocked_def scheduleStartRetryLocked_def cancelStartRetryLocked_def bump_generation_def
      failAllLocked_def Let_def)

lemma stopped_no_keyframe: "alive s \<Longrightarrow> \<not> vp_running s \<Longrightarrow> vp_keyframeTimer s = None"
  by (cases "vp_keyframeTimer s") (auto simp: alive_def)

lemma alive_request:
  assumes "alive s" "vp_lastKeyframeReq s \<le> now"
  shows "alive (requestKeyframeLocked now s)"
  using assms by (auto simp: requestKeyframeLocked_def alive_def Let_def)

lemma cooldown_deadline:
  "req \<le> now \<Longrightarrow> keyframeCooldown - time_sub now req > 0 \<Longrightarrow> now + (keyframeCooldown - time_sub now req) = req + keyframeCooldown"
  by (simp add: time_sub_def keyframeCooldown_def min_def max_def split: if_splits)

lemma alive_ensure:
  assumes "alive s" "vp_lastKeyframeReq s \<le> now"
  shows "alive (ensureKeyframeLocked now s)"
proof (cases "keyframeCooldown - time_sub now (vp_lastKeyframeReq s) > 0")
  case True
  then show ?thesis using assms(1) cooldown_deadline [OF assms(2) True]
    by (auto simp: ensureKeyframeLocked_def Let_def alive_def)
next
  case False
  then show ?thesis using assms(1) alive_request [OF assms] by (simp add: ensureKeyframeLocked_def Let_def)
qed

lemma alive_fired:
  assumes "alive s" "vp_lastKeyframeReq s \<le> now"
  shows "alive (keyframe_fired t now s)"
proof -
  have "alive (s\<lparr>vp_keyframeTimer := None\<rparr>)" using assms(1) by (simp add: alive_def)
  then show ?thesis using assms alive_request [of "s\<lparr>vp_keyframeTimer := None\<rparr>" now] by (simp add: keyframe_fired_def)
qed

lemma alive_restart_encoder: "alive s \<Longrightarrow> alive (restart_encoder ok now s)"
  by (simp add: restart_encoder_def alive_start)

lemma alive_cfg [simp]: "alive (s\<lparr>vp_cfg := c\<rparr>) = alive s"
  by (simp add: alive_def)

lemma alive_step:
  assumes al: "alive s" and t: "\<And>t. op_time e = Some t \<Longrightarrow> vp_lastKeyframeReq s \<le> t"
  shows "alive (video_step e s)"
proof (cases e)
  case (OSubscribe i ok now)
  let ?s = "s\<lparr>vp_heap := (vp_heap s)(i := empty_sub\<lparr>vs_fresh := True, vs_dropped := True\<rparr>),
               vp_subs := insert i (vp_subs s), vp_stopTimer := None\<rparr>"
  have "alive (if \<not> vp_running ?s then startLocked ok now ?s else ensureKeyframeLocked now ?s)"
  proof (cases "vp_running s")
    case True
    have "alive ?s" using al True by (auto simp: alive_def)
    then show ?thesis using True t OSubscribe by (simp add: alive_ensure op_time_def)
  next
    case False
    then show ?thesis using stopped_no_keyframe [OF al] by (simp add: alive_start)
  qed
  then show ?thesis using OSubscribe by (simp add: Subscribe_def Let_def)
next
  case (OClose i now)
  then show ?thesis using al
    by (auto simp: CloseSub_def Let_def alive_def update_sub_def cancelStartRetryLocked_def)
next
  case (ORestart ok now)
  then show ?thesis
    by (simp add: Restart_def Let_def alive_start) (simp add: alive_def)
next
  case (ORetryTimer t ok now)
  then show ?thesis using al stopped_no_keyframe [OF al]
    by (auto simp: retry_fired_def Let_def alive_start) (auto simp: alive_def)
qed (use al t in \<open>auto simp: op_time_def alive_ensure alive_fired RequestKeyframe_def SetSize_def SetViewport_def SetProfile_def
   alive_restart_encoder stop_fired_def Shutdown_def ForceResync_def broadcast_begin_def offer_next_def receive_def Let_def
   split: prod.split option.split list.split\<close>, (auto simp: alive_def)?)

lemma alive_reach: "video_reach (NewVideoPipeline g cfg) s \<Longrightarrow> alive s"
proof (induction rule: video_reach.induct)
  case reach_start
  show ?case by (simp add: alive_def NewVideoPipeline_def Let_def split: prod.split)
next
  case (reach_step s e)
  then show ?case by (intro alive_step) (auto simp: op_enabled_def split: option.splits)
qed

section \<open>Retry delays\<close>

lemma retry_backoff_min:
  assumes "a \<le> f" "0 < d" "d < 2 * videoStartRetryMax"
  shows "min videoStartRetryMax (retry_backoff a f d) = min videoStartRetryMax (d * 2 ^ (f - a))"
  using assms
proof (induction a f d rule: retry_backoff.induct)
  case (1 a f d)
  show ?case
  proof (cases "a < f \<and> d < videoStartRetryMax")
    case True
    then have "f - a = Suc (f - Suc a)" by (simp add: Suc_diff_Suc)
    then show ?thesis
      using 1 True by (subst retry_backoff.simps) (simp add: mult.assoc)
  next
    case False
    then have "f = a \<or> videoStartRetryMax \<le> d" using 1(2) by auto
    moreover have "d \<le> d * 2 ^ (f - a)" using 1(3) by simp
    ultimately show ?thesis using False by (subst retry_backoff.simps) (auto simp: min_def)
  qed
qed

section \<open>Coded sizes\<close>

lemma even_size_bounds: "2 \<le> even_size v" "even (even_size v)" "2 \<le> v \<Longrightarrow> even_size v \<le> v"
  by (auto simp: even_size_def minus_mod_eq_mult_div)

lemma f_ratio_small:
  assumes "0 < a" "a < 2 ^ 31" "0 < b" "b < 2 ^ 31"
  shows "f_div (f_of_int a) (f_of_int b) = Fin (rnd_signed (of_int a / of_int b))"
proof -
  have "\<bar>a\<bar> < 2 ^ 53" "\<bar>b\<bar> < 2 ^ 53" using assms by auto
  then have ab: "f_of_int a = Fin (of_int a)" "f_of_int b = Fin (of_int b)" by (simp_all add: f_of_int_small)
  have "(of_int a :: rat) / of_int b \<le> of_int a" using assms by (simp add: field_simps)
  also have "\<dots> < of_int (2 ^ 31)" using assms by (metis of_int_less_iff)
  finally have "\<bar>(of_int a :: rat) / of_int b\<bar> \<le> 2 ^ 1000" using assms by (simp add: abs_of_pos)
  then show ?thesis using assms by (simp add: ab round_f64_small)
qed

lemma ratio_below_one:
  assumes "0 < a" "a < b" "b < 2 ^ 31"
  shows "rnd_signed (of_int a / of_int b) < 1" "rnd_signed (of_int a / of_int b) \<le> of_int a / of_int b + 1 / 2 ^ 53"
proof -
  have pos: "0 < (of_int a :: rat) / of_int b" using assms by simp
  have "(of_int a :: rat) \<le> of_int b - 1" using assms(2) by (metis of_int_1 of_int_diff of_int_le_iff zle_diff1_eq)
  then have "(of_int a :: rat) / of_int b \<le> 1 - 1 / of_int b" using assms by (simp add: field_simps)
  also have "\<dots> \<le> 1 - 1 / 2 ^ 31"
  proof -
    have "(of_int b :: rat) \<le> of_int (2 ^ 31)" using assms(3) by (metis less_imp_le of_int_le_iff)
    then show ?thesis using assms by (simp add: field_simps)
  qed
  also have "\<dots> = of_int (2 ^ 31 - 1) / 2 ^ 31" by simp
  finally have le: "(of_int a :: rat) / of_int b \<le> of_int (2 ^ 31 - 1) / 2 ^ 31" .
  have "rnd_signed (of_int a / of_int b) \<le> of_int (2 ^ 31 - 1) / 2 ^ 31"
    by (rule rnd_signed_le [OF le representable_dyadic]) simp_all
  then show "rnd_signed (of_int a / of_int b) < 1" by simp
  have "(of_int a :: rat) / of_int b < 1" using assms by simp
  then show "rnd_signed (of_int a / of_int b) \<le> of_int a / of_int b + 1 / 2 ^ 53"
    using rnd_error_unit(1) [OF pos] pos by (simp add: rnd_signed_def)
qed

lemma scaled_floor:
  \<comment> \<open>rounding \<open>x\<close> to the nearest integer, for \<open>x\<close> at most a quarter above \<open>m\<close>\<close>
  assumes "0 \<le> x" "x \<le> of_int m + 1 / 4" "0 \<le> m" "m < 2 ^ 31"
  shows "int_of_f (f_add (round_f64 x) (Fin (1 / 2))) \<le> m"
proof -
  have m: "(of_int m :: rat) < of_int (2 ^ 31)" using assms(4) by (metis of_int_less_iff)
  have q: "(of_int m :: rat) + 1 / 4 = of_int (4 * m + 1) / 2 ^ 2" "(of_int m :: rat) + 3 / 4 = of_int (4 * m + 3) / 2 ^ 2"
    by (simp_all add: field_simps)
  have repr: "representable (of_int m + 1 / 4)" "representable (of_int m + 3 / 4)"
    unfolding q by (rule representable_dyadic; use assms in simp)+
  have x: "round_f64 x = Fin (rnd_signed x)"
    by (rule round_f64_small) (use assms m in simp)
  have r: "rnd_signed x \<le> of_int m + 1 / 4" "0 \<le> rnd_signed x"
    using rnd_signed_le [OF assms(2) repr(1)] rnd_signed_ge [OF assms(1)] by simp_all
  have "rnd_signed x + 1 / 2 \<le> of_int m + 3 / 4" using r(1) by simp
  then have r2: "rnd_signed (rnd_signed x + 1 / 2) \<le> of_int m + 3 / 4" "0 \<le> rnd_signed (rnd_signed x + 1 / 2)"
    using rnd_signed_le [OF _ repr(2)] rnd_signed_ge [of 0 "rnd_signed x + 1 / 2"] r(2) by simp_all
  have small: "\<bar>rnd_signed x + 1 / 2\<bar> \<le> 2 ^ 1000" using r m by simp
  have fl: "\<lfloor>rnd_signed (rnd_signed x + 1 / 2)\<rfloor> \<le> m"
    using r2(1) by (simp add: floor_le_iff)
  then show ?thesis
    using r2(2) assms(3,4) by (simp add: x round_f64_small [OF small] int_of_f_def trunc_rat_nonneg)
qed

lemma scaled_dimension:
  assumes s: "0 \<le> s" "s < 1" and w: "0 < w" "w < 2 ^ 31" and m: "0 < m" "m < 2 ^ 31"
    and le: "m < w \<Longrightarrow> s \<le> rnd_signed (of_int m / of_int w)"
  shows "int_of_f (f_add (f_mul (f_of_int w) (Fin s)) (Fin (1 / 2))) \<le> min m w"
proof -
  have f: "f_of_int w = Fin (of_int w)" using w by (intro f_of_int_small) simp
  have pos: "0 \<le> of_int w * s" using s w by simp
  have "of_int w * s \<le> of_int (min m w) + 1 / 4"
  proof (cases "m < w")
    case True
    have "of_int w * s \<le> of_int w * (of_int m / of_int w + 1 / 2 ^ 53)"
      using le [OF True] ratio_below_one(2) [OF m(1) True w(2)] w by (intro mult_left_mono) auto
    also have "\<dots> = of_int m + of_int w / 2 ^ 53" using w by (simp add: field_simps)
    also have "\<dots> \<le> of_int m + 1 / 4"
    proof -
      have "(of_int w :: rat) \<le> of_int (2 ^ 31)" using w(2) by (metis less_imp_le of_int_le_iff)
      then show ?thesis by (simp add: field_simps)
    qed
    finally show ?thesis using True by simp
  next
    case False
    have "of_int w * s \<le> of_int w * 1" using s w by (intro mult_left_mono) auto
    then show ?thesis using False by (simp add: min_def)
  qed
  then show ?thesis using scaled_floor [OF pos, of "min m w"] w m by (simp add: f)
qed

section \<open>Examples\<close>

definition sample_config :: video_config where
  "sample_config = \<lparr>vc_W = 1280, vc_H = 720, vc_CaptureW = 0, vc_CaptureH = 0, vc_ScaleMaxW = 0, vc_ScaleMaxH = 0,
     vc_BitrateK = 8000, vc_Quantizer = 24, vc_FrameRate = 60, vc_hasStart = True, vc_hasStop = True, vc_hasKeyframe = True\<rparr>"

definition sample_start :: video_pipeline where
  "sample_start = NewVideoPipeline 0 sample_config"

lemma sample_start_fields:
  "vp_subs sample_start = {}" "vp_heap sample_start = (\<lambda>_. empty_sub)" "vp_pending sample_start = None"
  "vp_running sample_start = False" "vp_gen sample_start = 0" "vp_generation sample_start = 0"
  "vp_lastKeyframeReq sample_start = 0" "vc_hasStart (vp_cfg sample_start)" "vp_keyframeTimer sample_start = None"
  "vp_startRetryTimer sample_start = None" "vp_seq sample_start = 0"
  by (simp_all add: sample_start_def NewVideoPipeline_def sample_config_def codedSize_def Let_def)

definition sample_subscribed :: video_pipeline where
  "sample_subscribed = Subscribe 1 True (10 * second) sample_start"

lemma sample_reach: "video_reach (NewVideoPipeline 0 sample_config) sample_subscribed"
proof -
  have "op_enabled (OSubscribe 1 True (10 * second)) sample_start"
    by (simp add: op_enabled_def op_time_def sample_start_fields)
  from reach_step [OF reach_start this [unfolded sample_start_def]] show ?thesis
    by (simp add: sample_subscribed_def sample_start_def)
qed

section \<open>Properties\<close>



text \<open>
  C28 (liveness). In every reachable state with a subscriber the encoder is running or a start retry
  is scheduled: failed starts are never given up while somebody watches.
\<close>
theorem encoder_never_abandoned:
  assumes "video_reach (NewVideoPipeline g cfg) s" "vp_subs s \<noteq> {}"
  shows "vp_running s \<or> vp_startRetryTimer s \<noteq> None"
  using alive_reach [OF assms(1)] assms(2) by (simp add: alive_def)

theorem encoder_never_abandoned_witness:
  "vp_running sample_subscribed \<or> (\<exists>t. vp_startRetryTimer sample_subscribed = Some t)"
proof -
  have "vp_subs sample_subscribed \<noteq> {}"
    by (simp add: sample_subscribed_def Subscribe_def Let_def sample_start_fields update_sub_def)
  from encoder_never_abandoned [OF sample_reach this] show ?thesis by auto
qed

text \<open>
  A keyframe request on a running encoder is served at once or a timer is armed whose
  deadline is at most two seconds after the previous request; when that timer fires while the
  encoder runs, the request reaches the encoder and every subscriber waits for the IDR. A
  pending timer is never left behind by a stopped encoder.
\<close>
theorem keyframe_requests_coalesced:
  assumes "video_reach (NewVideoPipeline g cfg) s" "vp_running s" "vp_lastKeyframeReq s \<le> now"
    "vc_hasKeyframe (vp_cfg s)"
  shows "(vp_calls (RequestKeyframe now s) = vp_calls s @ [EncKeyframe now] \<and>
      (\<forall>i\<in>vp_subs s. vs_dropped (vp_heap (RequestKeyframe now s) i) \<and> vs_C (vp_heap (RequestKeyframe now s) i) = [])) \<or>
    (\<exists>t d. vp_keyframeTimer (RequestKeyframe now s) = Some (t, d) \<and> d \<le> vp_lastKeyframeReq s + 2 * second \<and>
      vp_running (RequestKeyframe now s) \<and>
      vp_calls (keyframe_fired t later (RequestKeyframe now s)) = vp_calls (RequestKeyframe now s) @ [EncKeyframe later])"
proof (cases "keyframeCooldown - time_sub now (vp_lastKeyframeReq s) > 0")
  case True
  let ?s = "RequestKeyframe now s"
  have al: "alive ?s" using alive_ensure [OF alive_reach [OF assms(1)] assms(3)] by (simp add: RequestKeyframe_def)
  have req: "vp_lastKeyframeReq ?s = vp_lastKeyframeReq s" "vp_cfg ?s = vp_cfg s" "vp_keyframeTimer ?s \<noteq> None"
    using True assms(2) by (auto simp: RequestKeyframe_def ensureKeyframeLocked_def)
  then obtain t d where td: "vp_keyframeTimer ?s = Some (t, d)" by auto
  have "vp_running ?s" "d \<le> vp_lastKeyframeReq s + 2 * second"
    using al td req by (auto simp: alive_def keyframeCooldown_def)
  moreover have "vp_calls (keyframe_fired t later ?s) = vp_calls ?s @ [EncKeyframe later]"
    using td req assms(4) \<open>vp_running ?s\<close>
    by (simp add: keyframe_fired_def requestKeyframeLocked_def Let_def resetSubsForGenLocked_def)
  ultimately show ?thesis using td by blast
next
  case False
  then show ?thesis
    using assms(2,4) by (simp add: RequestKeyframe_def ensureKeyframeLocked_def requestKeyframeLocked_def Let_def
        resetSubsForGenLocked_def resetForGen_def)
qed

theorem keyframe_requests_coalesced_witness:
  "(vp_calls (RequestKeyframe (20 * second) sample_subscribed) = vp_calls sample_subscribed @ [EncKeyframe (20 * second)] \<and>
      (\<forall>i\<in>vp_subs sample_subscribed. vs_dropped (vp_heap (RequestKeyframe (20 * second) sample_subscribed) i) \<and>
        vs_C (vp_heap (RequestKeyframe (20 * second) sample_subscribed) i) = [])) \<or>
    (\<exists>t d. vp_keyframeTimer (RequestKeyframe (20 * second) sample_subscribed) = Some (t, d) \<and>
      d \<le> vp_lastKeyframeReq sample_subscribed + 2 * second \<and>
      vp_running (RequestKeyframe (20 * second) sample_subscribed) \<and>
      vp_calls (keyframe_fired t 0 (RequestKeyframe (20 * second) sample_subscribed)) =
        vp_calls (RequestKeyframe (20 * second) sample_subscribed) @ [EncKeyframe 0])"
proof (rule keyframe_requests_coalesced [OF sample_reach])
  have cfg: "vp_cfg sample_start = vp_cfg (NewVideoPipeline 0 sample_config)" by (simp add: sample_start_def)
  show "vp_running sample_subscribed" "vp_lastKeyframeReq sample_subscribed \<le> 20 * second" "vc_hasKeyframe (vp_cfg sample_subscribed)"
    by (simp_all add: sample_subscribed_def Subscribe_def Let_def sample_start_fields update_sub_def)
       (simp add: cfg NewVideoPipeline_def sample_config_def codedSize_def)
qed

text \<open>
  The delay before the next start attempt after \<open>n\<close> consecutive failures is
  \<open>min (1 s) (150 ms \<cdot> 2^(n-1))\<close>.
\<close>
theorem retry_delay_formula:
  assumes "1 \<le> n"
  shows "retry_delay n = min second (150 * millisecond * 2 ^ (n - 1))"
  using retry_backoff_min [OF assms, of videoStartRetryMin]
  by (auto simp: retry_delay_def videoStartRetryMin_def videoStartRetryMax_def Let_def min_def split: if_splits)

theorem retry_delay_formula_witness: "retry_delay 3 = min second (150 * millisecond * 2 ^ (3 - 1))"
  by (rule retry_delay_formula) simp

text \<open>
  The coded size is even and at least 2 in both dimensions, never exceeds the captured
  size, and respects the scale limit when there is one, in spite of the floating-point scaling.
\<close>
theorem coded_size_fits:
  assumes "64 \<le> w" "w < 2 ^ 31" "64 \<le> h" "h < 2 ^ 31"
    "vc_ScaleMaxW cfg < 2 ^ 31" "vc_ScaleMaxH cfg < 2 ^ 31" "codedSize cfg w h = (cw, ch)"
  shows "even cw \<and> even ch \<and> 2 \<le> cw \<and> 2 \<le> ch \<and> cw \<le> w \<and> ch \<le> h \<and>
    (64 \<le> vc_ScaleMaxW cfg \<and> 64 \<le> vc_ScaleMaxH cfg \<longrightarrow> cw \<le> vc_ScaleMaxW cfg \<and> ch \<le> vc_ScaleMaxH cfg)"
proof (cases "vc_ScaleMaxW cfg < 64 \<or> vc_ScaleMaxH cfg < 64")
  case True
  then show ?thesis using assms even_size_bounds by (auto simp: codedSize_def)
next
  case False
  define mw mh where "mw = vc_ScaleMaxW cfg" and "mh = vc_ScaleMaxH cfg"
  have m: "64 \<le> mw" "mw < 2 ^ 31" "64 \<le> mh" "mh < 2 ^ 31" using False assms(5,6) by (auto simp: mw_def mh_def)
  define sw sh where "sw = rnd_signed (of_int mw / of_int w)" and "sh = rnd_signed (of_int mh / of_int h)"
  have fw: "f_div (f_of_int mw) (f_of_int w) = Fin sw" "f_div (f_of_int mh) (f_of_int h) = Fin sh"
    unfolding sw_def sh_def by (rule f_ratio_small; use m assms in simp)+
  define sc where "sc = min sw sh"
  have f: "(if f_less (Fin sh) (Fin sw) then Fin sh else Fin sw) = Fin sc" by (auto simp: sc_def min_def)
  have pos: "0 \<le> sc" using rnd_signed_ge [of 0] m assms by (simp add: sc_def sw_def sh_def)
  have cs: "codedSize cfg w h = (if 1 \<le> sc then (even_size w, even_size h)
      else (even_size (int_of_f (f_add (f_mul (f_of_int w) (Fin sc)) (Fin (1 / 2)))),
            even_size (int_of_f (f_add (f_mul (f_of_int h) (Fin sc)) (Fin (1 / 2))))))"
    using False fw f by (simp add: codedSize_def mw_def mh_def Let_def)
  have es: "even_size v \<le> b" if "v \<le> b" "2 \<le> b" for v b
    using that even_size_bounds(3) [of v] by (cases "2 \<le> v") (auto simp: even_size_def)
  show ?thesis
  proof (cases "1 \<le> sc")
    case True
    then have "1 \<le> sw" "1 \<le> sh" by (simp_all add: sc_def)
    then have "\<not> mw < w" "\<not> mh < h"
      using ratio_below_one(1) [of mw w] ratio_below_one(1) [of mh h] m assms by (auto simp: sw_def sh_def)
    then show ?thesis using True assms(7) cs es [of w w] es [of h h] even_size_bounds assms by (auto simp: mw_def mh_def)
  next
    case lt: False
    have below: "sc < 1" "sc \<le> sw" "sc \<le> sh" using lt unfolding sc_def by linarith+
    have "int_of_f (f_add (f_mul (f_of_int w) (Fin sc)) (Fin (1 / 2))) \<le> min mw w"
      by (rule scaled_dimension) (use pos below m assms in \<open>simp_all add: sw_def\<close>)
    moreover have "int_of_f (f_add (f_mul (f_of_int h) (Fin sc)) (Fin (1 / 2))) \<le> min mh h"
      by (rule scaled_dimension) (use pos below m assms in \<open>simp_all add: sh_def\<close>)
    ultimately show ?thesis
      using lt assms(7) cs es m assms even_size_bounds by (auto simp: mw_def mh_def)
  qed
qed

theorem coded_size_fits_witness:
  "even (fst (codedSize sample_config 1281 721)) \<and> even (snd (codedSize sample_config 1281 721)) \<and>
   fst (codedSize sample_config 1281 721) \<le> 1281"
  using coded_size_fits [of 1281 721 sample_config "fst (codedSize sample_config 1281 721)" "snd (codedSize sample_config 1281 721)"]
  by (simp add: sample_config_def)

section \<open>A subscriber left behind\<close>

text \<open>
  When a start has failed and a second subscriber arrives before the retry, \<^verbatim>\<open>Subscribe\<close> starts the
  encoder itself: the start takes a new generation, cancels the retry, and only the new
  subscriber is moved to it. The first subscriber keeps the generation of the failed attempt, so
  every unit of the running encoder is ignored for it until some other call resets all
  subscriptions.
\<close>

theorem second_subscriber_starves_first:
  "let s = Subscribe 2 True (11 * second) (Subscribe 1 False (10 * second) sample_start) in
   vp_running s \<and> vp_subs s = {1, 2} \<and> vp_startRetryTimer s = None \<and> vs_gen (vp_heap s 2) = vp_gen s \<and>
   vs_gen (vp_heap s 1) \<noteq> vp_gen s \<and> (\<forall>au. offer au (vp_gen s) (vp_heap s 1) = (vp_heap s 1, False))"
  by (auto simp: Subscribe_def Let_def sample_start_fields update_sub_def resetForGen_def empty_sub_def startLocked_def
      scheduleStartRetryLocked_def cancelStartRetryLocked_def bump_generation_def offer_def)

end
