(* ===== verification/Governor_Control.thy ===== *)
theory Governor_Control
  imports Stream_Governor Video_Delivery
begin

text \<open>
  The control behaviour of the stream governor over arbitrary sequences of reports, departures and
  source discontinuities: the decision does not depend on the order in which Go visits the map of
  clients, profile changes are spaced, a downshift rests on evidence from the reports, and a profile
  that is applied reaches the encoder with settings in range.
\<close>

section \<open>The view over the clients\<close>

definition client_fresh :: "gotime \<Rightarrow> governor_client \<Rightarrow> bool" where
  "client_fresh now c \<longleftrightarrow> \<not> time_sub now (gc_lastSeen c) > governorSampleTTL"

definition client_static :: "gotime \<Rightarrow> governor_client \<Rightarrow> bool" where
  "client_static now c \<longleftrightarrow> \<not> is_zero (gc_staticSince c) \<and> governorStaticHold \<le> time_sub now (gc_staticSince c)"

definition client_healthy :: "gotime \<Rightarrow> governor_client \<Rightarrow> bool" where
  "client_healthy now c \<longleftrightarrow> \<not> is_zero (gc_healthySince c) \<and> governorHealthyHold \<le> time_sub now (gc_healthySince c)"

lemma view_client_flags:
  "gv_severeAny (view_client now c v) \<longleftrightarrow> gv_severeAny v \<or> client_fresh now c \<and> gc_severe c"
  "gv_unhealthyAny (view_client now c v) \<longleftrightarrow> gv_unhealthyAny v \<or> client_fresh now c \<and> governorUnhealthySamples \<le> gc_unhealthy c"
  "gv_allStatic (view_client now c v) \<longleftrightarrow> gv_allStatic v \<and> (client_fresh now c \<longrightarrow> client_static now c)"
  "gv_allHealthy (view_client now c v) \<longleftrightarrow> gv_allHealthy v \<and> (client_fresh now c \<longrightarrow> client_healthy now c)"
  by (auto simp: view_client_def Let_def client_fresh_def client_static_def client_healthy_def)

lemma fold_view_flags:
  "gv_severeAny (fold (view_client now) cs v) \<longleftrightarrow> gv_severeAny v \<or> (\<exists>c\<in>set cs. client_fresh now c \<and> gc_severe c)"
  "gv_unhealthyAny (fold (view_client now) cs v) \<longleftrightarrow>
     gv_unhealthyAny v \<or> (\<exists>c\<in>set cs. client_fresh now c \<and> governorUnhealthySamples \<le> gc_unhealthy c)"
  "gv_allStatic (fold (view_client now) cs v) \<longleftrightarrow> gv_allStatic v \<and> (\<forall>c\<in>set cs. client_fresh now c \<longrightarrow> client_static now c)"
  "gv_allHealthy (fold (view_client now) cs v) \<longleftrightarrow> gv_allHealthy v \<and> (\<forall>c\<in>set cs. client_fresh now c \<longrightarrow> client_healthy now c)"
  by (induction cs arbitrary: v) (auto simp: view_client_flags)

lemma view_all_flags:
  "gv_severeAny (view_all now cs) \<longleftrightarrow> (\<exists>c\<in>set cs. client_fresh now c \<and> gc_severe c)"
  "gv_unhealthyAny (view_all now cs) \<longleftrightarrow> (\<exists>c\<in>set cs. client_fresh now c \<and> governorUnhealthySamples \<le> gc_unhealthy c)"
  "gv_allStatic (view_all now cs) \<longleftrightarrow> set cs \<noteq> {} \<and> (\<forall>c\<in>set cs. client_fresh now c \<longrightarrow> client_static now c)"
  "gv_allHealthy (view_all now cs) \<longleftrightarrow> set cs \<noteq> {} \<and> (\<forall>c\<in>set cs. client_fresh now c \<longrightarrow> client_healthy now c)"
  by (simp_all add: view_all_def fold_view_flags)

lemma decide_target_cong:
  assumes "gv_severeAny v = gv_severeAny w" "gv_unhealthyAny v = gv_unhealthyAny w"
    "gv_allStatic v = gv_allStatic w" "gv_allHealthy v = gv_allHealthy w"
  shows "fst (decide now v g) = fst (decide now w g)"
  unfolding decide_def Let_def assms by (simp only: if_distrib [of fst] fst_conv)

section \<open>One report\<close>

definition reported :: "string \<Rightarrow> gotime \<Rightarrow> media_stats \<Rightarrow> stream_governor \<Rightarrow> stream_governor" where
  \<comment> \<open>the governor after the report is recorded and before the decision\<close>
  "reported clientID now stats g =
    g\<lparr>sg_clients := (map_keep (\<lambda>_ c. \<not> time_sub now (gc_lastSeen c) > governorSampleTTL) (sg_clients g))(clientID \<mapsto>
        (if now < sg_settleUntil g then warm_up ''profile warm-up'' (seen_client clientID now g)
         else client_sample now (governorPressure stats (profile_at (sg_profile g))) (seen_client clientID now g)))\<rparr>"

lemma reported_fields [simp]:
  "sg_profile (reported i now st g) = sg_profile g" "sg_lastChange (reported i now st g) = sg_lastChange g"
  "sg_settleUntil (reported i now st g) = sg_settleUntil g"
  by (simp_all add: reported_def)

lemma observe_cases [case_names settling kept switched]:
  obtains "now < sg_settleUntil g" "fst (observe i now st ids g) = reported i now st g"
      "\<not> gd_changed (snd (observe i now st ids g))" "gd_to (snd (observe i now st ids g)) = sg_profile g"
      "gd_from (snd (observe i now st ids g)) = sg_profile g"
  | "sg_settleUntil g \<le> now" "fst (observe i now st ids g) = reported i now st g"
      "fst (decide now (view_all now (List.map_filter (sg_clients (reported i now st g)) ids)) (reported i now st g)) = sg_profile g"
      "\<not> gd_changed (snd (observe i now st ids g))" "gd_to (snd (observe i now st ids g)) = sg_profile g"
      "gd_from (snd (observe i now st ids g)) = sg_profile g"
  | to where "sg_settleUntil g \<le> now" "to \<noteq> sg_profile g"
      "fst (decide now (view_all now (List.map_filter (sg_clients (reported i now st g)) ids)) (reported i now st g)) = to"
      "fst (observe i now st ids g) = switch_profile to now (reported i now st g)"
      "gd_changed (snd (observe i now st ids g))" "gd_to (snd (observe i now st ids g)) = to"
      "gd_from (snd (observe i now st ids g)) = sg_profile g"
proof (cases "now < sg_settleUntil g")
  case True
  show thesis by (rule that(1)) (use True in \<open>simp_all add: observe_def Let_def reported_def\<close>)
next
  case False
  define g' where "g' = reported i now st g"
  define v where "v = view_all now (List.map_filter (sg_clients g') ids)"
  obtain to reason where d: "decide now v g' = (to, reason)" by (cases "decide now v g'")
  have g'_eq: "g' = g\<lparr>sg_clients := (map_keep (\<lambda>_ c. \<not> time_sub now (gc_lastSeen c) > governorSampleTTL) (sg_clients g))(i \<mapsto>
        client_sample now (governorPressure st (profile_at (sg_profile g))) (seen_client i now g))\<rparr>"
    using False by (simp add: g'_def reported_def)
  have p: "sg_profile g' = sg_profile g" by (simp add: g'_def)
  have obs: "observe i now st ids g =
    (let decision = \<lparr>gd_changed = False, gd_from = sg_profile g, gd_to = to, gd_reason = reason, gd_pressure = gv_worstPressure v\<rparr>
     in if to = sg_profile g then (g', decision) else (switch_profile to now g', decision\<lparr>gd_changed := True\<rparr>))"
    using False d unfolding observe_def Let_def v_def g'_eq by simp
  show thesis
  proof (cases "to = sg_profile g")
    case True
    show thesis by (rule that(2)) (use False True d in \<open>simp_all add: obs Let_def g'_def [symmetric] v_def [symmetric]\<close>)
  next
    case ne: False
    show thesis by (rule that(3) [of to]) (use False ne d in \<open>simp_all add: obs Let_def g'_def [symmetric] v_def [symmetric]\<close>)
  qed
qed

text \<open>
  The outcome of a report does not depend on the order in which Go ranges over the map of
  clients: the next governor state, the target profile and whether it changed are the same for
  every enumeration of the clients.
\<close>
theorem governor_order_independent:
  assumes "set ids = set ids'"
  shows "fst (observe i now st ids g) = fst (observe i now st ids' g) \<and>
    gd_to (snd (observe i now st ids g)) = gd_to (snd (observe i now st ids' g)) \<and>
    gd_changed (snd (observe i now st ids g)) = gd_changed (snd (observe i now st ids' g))"
proof -
  define V where "V ids = view_all now (List.map_filter (sg_clients (reported i now st g)) ids)" for ids
  have "set (List.map_filter f ids) = set (List.map_filter f ids')" for f :: "string \<Rightarrow> governor_client option"
    using assms by (auto simp: List.map_filter_def)
  then have same: "fst (decide now (V ids) (reported i now st g)) = fst (decide now (V ids') (reported i now st g))"
    unfolding V_def by (intro decide_target_cong) (simp_all only: view_all_flags)
  show ?thesis
    by (rule observe_cases [of now g i st ids]; rule observe_cases [of now g i st ids'])
      (use same in \<open>simp_all add: V_def\<close>)
qed

definition alarm_stats :: media_stats where
  \<comment> \<open>a report of a client that runs out of memory\<close>
  "alarm_stats = \<lparr>ms_ImageFPS = Fin 0, ms_PresentedFPS = Fin 0, ms_DecodeFPS = Fin 0, ms_AURate = Fin 0, ms_Renderer = [],
     ms_RendererFPS = Fin 0, ms_RendererMS = Fin 0, ms_RendererBackpressure = 0, ms_RendererRecoveries = 0,
     ms_RendererFailures = 0, ms_CallbackMS = Fin 0, ms_GapMS = Fin 0, ms_FrameAgeMS = Fin 0, ms_WindowMS = Fin 0,
     ms_DropPercent = Fin 0, ms_QueueDepth = 0, ms_DecodeErrors = 0, ms_MemoryWarn = True\<rparr>"

theorem governor_order_independent_witness:
  "fst (observe ''a'' 5 alarm_stats [''a'', ''b''] newStreamGovernor) = fst (observe ''a'' 5 alarm_stats [''b'', ''a''] newStreamGovernor)"
  using governor_order_independent [of "[''a'', ''b'']" "[''b'', ''a'']" "''a''" 5 alarm_stats newStreamGovernor] by auto

section \<open>Sequences of reports\<close>

datatype gov_event =
    GReport string gotime media_stats "string list"
  | GRemove string
  | GDiscontinuity gotime

fun gov_next :: "gov_event \<Rightarrow> stream_governor \<Rightarrow> stream_governor" where
  "gov_next (GReport i now st ids) g = fst (observe i now st ids g)"
| "gov_next (GRemove i) g = governor_remove i g"
| "gov_next (GDiscontinuity now) g = settleAfterDiscontinuity now g"

fun gov_time :: "gov_event \<Rightarrow> gotime option" where
  "gov_time (GReport i now st ids) = Some now"
| "gov_time (GDiscontinuity now) = Some now"
| "gov_time (GRemove i) = None"

fun gov_change :: "gov_event \<Rightarrow> stream_governor \<Rightarrow> (gotime \<times> governor_decision) option" where
  "gov_change (GReport i now st ids) g =
     (let d = snd (observe i now st ids g) in if gd_changed d then Some (now, d) else None)"
| "gov_change _ g = None"

fun gov_changes :: "gov_event list \<Rightarrow> stream_governor \<Rightarrow> (gotime \<times> governor_decision) list" where
  "gov_changes [] g = []"
| "gov_changes (e # es) g =
     (case gov_change e g of None \<Rightarrow> [] | Some c \<Rightarrow> [c]) @ gov_changes es (gov_next e g)"

fun clocked :: "gotime \<Rightarrow> gov_event list \<Rightarrow> bool" where
  \<comment> \<open>the times of the events do not decrease and are not before \<open>t\<close>\<close>
  "clocked t [] = True"
| "clocked t (e # es) = (case gov_time e of None \<Rightarrow> clocked t es | Some u \<Rightarrow> t \<le> u \<and> clocked u es)"

definition gov_ok :: "gotime \<Rightarrow> stream_governor \<Rightarrow> bool" where
  "gov_ok t g \<longleftrightarrow> 0 \<le> sg_profile g \<and> sg_profile g \<le> 3 \<and> sg_settleUntil g \<le> t + governorProfileSettle"

lemma length_profiles [simp]: "length adaptiveProfiles = 4"
  by (simp add: adaptiveProfiles_def)

lemma decide_range: "0 \<le> sg_profile g \<Longrightarrow> sg_profile g \<le> 3 \<Longrightarrow> 0 \<le> fst (decide now v g) \<and> fst (decide now v g) \<le> 3"
  unfolding decide_def Let_def by simp

lemma gov_change_facts:
  assumes "gov_change e g = Some (t, d)" "0 \<le> sg_profile g" "sg_profile g \<le> 3"
  shows "gov_time e = Some t \<and> sg_settleUntil g \<le> t \<and> sg_settleUntil (gov_next e g) = t + governorProfileSettle \<and>
    gd_from d = sg_profile g \<and> gd_to d = sg_profile (gov_next e g) \<and> gd_to d \<noteq> gd_from d \<and> 0 \<le> gd_to d \<and> gd_to d \<le> 3"
proof -
  obtain i st ids where e: "e = GReport i t st ids" "d = snd (observe i t st ids g)" "gd_changed d"
    using assms(1) by (cases "(e, g)" rule: gov_change.cases) (auto simp: Let_def split: if_splits)
  show ?thesis
  proof (cases rule: observe_cases [of t g i st ids])
    case (switched to)
    have range: "0 \<le> to" "to \<le> 3" using decide_range [of "reported i t st g"] assms(2,3) switched(3) by auto
    show ?thesis using switched e(1,2) range by (simp add: switch_profile_def)
  qed (use e in auto)
qed

lemma gov_next_ok:
  assumes "gov_ok t g" "case gov_time e of None \<Rightarrow> u = t | Some v \<Rightarrow> t \<le> v \<and> u = v"
  shows "gov_ok u (gov_next e g)" "sg_settleUntil g \<le> sg_settleUntil (gov_next e g)"
proof -
  have "gov_ok u (gov_next e g) \<and> sg_settleUntil g \<le> sg_settleUntil (gov_next e g)"
  proof (cases e)
    case (GReport i now st ids)
    show ?thesis
    proof (cases rule: observe_cases [of now g i st ids])
      case (switched to)
      then show ?thesis using assms decide_range [of "reported i now st g"] GReport
        by (auto simp: gov_ok_def switch_profile_def governorProfileSettle_def)
    qed (use assms GReport in \<open>auto simp: gov_ok_def\<close>)
  qed (use assms in \<open>auto simp: gov_ok_def governor_remove_def settleAfterDiscontinuity_def\<close>)
  then show "gov_ok u (gov_next e g)" "sg_settleUntil g \<le> sg_settleUntil (gov_next e g)" by simp_all
qed

lemma gov_changes_spaced:
  assumes "clocked t es" "gov_ok t g"
  shows "(\<forall>(u, d) \<in> set (gov_changes es g). sg_settleUntil g \<le> u \<and> 0 \<le> gd_to d \<and> gd_to d \<le> 3 \<and> gd_to d \<noteq> gd_from d) \<and>
    sorted_wrt (\<lambda>(u, d) (v, e). u + governorProfileSettle \<le> v) (gov_changes es g)"
  using assms
proof (induction es arbitrary: t g)
  case (Cons e es)
  define u where "u = (case gov_time e of None \<Rightarrow> t | Some v \<Rightarrow> v)"
  have u: "clocked u es" "case gov_time e of None \<Rightarrow> u = t | Some v \<Rightarrow> t \<le> v \<and> u = v"
    using Cons.prems(1) by (auto simp: u_def split: option.splits)
  note ok = gov_next_ok [OF Cons.prems(2) u(2)]
  have IH: "(\<forall>(u, d) \<in> set (gov_changes es (gov_next e g)). sg_settleUntil (gov_next e g) \<le> u \<and> 0 \<le> gd_to d \<and> gd_to d \<le> 3 \<and> gd_to d \<noteq> gd_from d)"
    "sorted_wrt (\<lambda>(u, d) (v, e). u + governorProfileSettle \<le> v) (gov_changes es (gov_next e g))"
    using Cons.IH [OF u(1) ok(1)] by simp_all
  show ?case
  proof (cases "gov_change e g")
    case None
    then show ?thesis using IH ok(2) by fastforce
  next
    case (Some c)
    obtain v d where c: "c = (v, d)" by (cases c)
    have p: "0 \<le> sg_profile g" "sg_profile g \<le> 3" using Cons.prems(2) by (auto simp: gov_ok_def)
    have f: "sg_settleUntil g \<le> v" "sg_settleUntil (gov_next e g) = v + governorProfileSettle" "gd_to d \<noteq> gd_from d" "0 \<le> gd_to d" "gd_to d \<le> 3"
      using gov_change_facts [OF Some [unfolded c] p] by blast+
    show ?thesis using IH ok(2) f by (auto simp: Some c)
  qed
qed simp

text \<open>
  C35 (safety). The governor does not flap: over any sequence of reports, departures and discontinuities with a
  clock that does not run backwards, two profile changes are at least the settle interval of four
  seconds apart, each moves to a different profile within the table, and no change happens within
  the settle interval after a discontinuity of the source.
\<close>
theorem governor_does_not_flap:
  assumes "clocked t (es @ fs)" "0 \<le> t"
  shows "sorted_wrt (\<lambda>(u, d) (v, e). u + governorProfileSettle \<le> v) (gov_changes (es @ fs) newStreamGovernor) \<and>
    (\<forall>(u, d) \<in> set (gov_changes (es @ fs) newStreamGovernor).
       gd_to d \<noteq> gd_from d \<and> 0 \<le> gd_to d \<and> gd_to d < int (length adaptiveProfiles)) \<and>
    (\<forall>now. es \<noteq> [] \<and> last es = GDiscontinuity now \<longrightarrow>
       (\<forall>(u, d) \<in> set (gov_changes fs (fold gov_next es newStreamGovernor)). now + governorProfileSettle \<le> u))"
proof -
  have ok: "gov_ok t newStreamGovernor"
    using assms(2) by (simp add: gov_ok_def newStreamGovernor_def governorProfileSettle_def)
  have split: "\<exists>u. clocked u fs \<and> gov_ok u (fold gov_next es g)" if "clocked t (es @ fs)" "gov_ok t g" for t g
    using that
  proof (induction es arbitrary: t g)
    case (Cons e es)
    define u where "u = (case gov_time e of None \<Rightarrow> t | Some v \<Rightarrow> v)"
    have u: "clocked u (es @ fs)" "case gov_time e of None \<Rightarrow> u = t | Some v \<Rightarrow> t \<le> v \<and> u = v"
      using Cons.prems(1) by (auto simp: u_def split: option.splits)
    show ?case using Cons.IH [OF u(1) gov_next_ok(1) [OF Cons.prems(2) u(2)]] by simp
  qed auto
  have "now + governorProfileSettle \<le> v"
    if "es \<noteq> []" "last es = GDiscontinuity now" "(v, d) \<in> set (gov_changes fs (fold gov_next es newStreamGovernor))" for now v d
  proof -
    have "es = butlast es @ [GDiscontinuity now]" using that(1,2) by (metis append_butlast_last_id)
    then have "fold gov_next es newStreamGovernor = settleAfterDiscontinuity now (fold gov_next (butlast es) newStreamGovernor)"
      by (metis fold_append fold_simps gov_next.simps(3) o_apply)
    then have "sg_settleUntil (fold gov_next es newStreamGovernor) = now + governorProfileSettle"
      by (simp add: settleAfterDiscontinuity_def)
    then show ?thesis using split [OF assms(1) ok] gov_changes_spaced that(3) by fastforce
  qed
  then show ?thesis using gov_changes_spaced [OF assms(1) ok] by fastforce
qed

theorem governor_does_not_flap_witness:
  "list_all (\<lambda>(u, d). 4000000005 \<le> u)
     (gov_changes [GReport ''a'' 7 alarm_stats [''a'']] (settleAfterDiscontinuity 5 newStreamGovernor))"
  using governor_does_not_flap [of 0 "[GDiscontinuity 5]" "[GReport ''a'' 7 alarm_stats [''a'']]"]
  by (simp add: governorProfileSettle_def list_all_iff)

section \<open>Evidence\<close>

type_synonym evidence = "string \<times> bool \<times> bool"  \<comment> \<open>client, unhealthy report, severe report\<close>

definition evidence_of :: "string \<Rightarrow> media_stats \<Rightarrow> stream_governor \<Rightarrow> evidence" where
  "evidence_of i st g = (case governorPressure st (profile_at (sg_profile g)) of
     (pressure, active, severe, _) \<Rightarrow> (i, active \<and> (severe \<or> f_le (Fin 1) pressure), severe))"

fun streak :: "string \<Rightarrow> evidence list \<Rightarrow> nat" where
  \<comment> \<open>the unhealthy reports of a client since its last healthy one; the newest report comes first\<close>
  "streak i [] = 0"
| "streak i ((j, unhealthy, severe) # es) =
     (if j \<noteq> i then streak i es else if unhealthy then Suc (streak i es) else 0)"

fun newest_severe :: "string \<Rightarrow> evidence list \<Rightarrow> bool" where
  "newest_severe i [] = False"
| "newest_severe i ((j, unhealthy, severe) # es) = (if j \<noteq> i then newest_severe i es else severe)"

fun gov_step :: "gov_event \<Rightarrow> stream_governor \<times> evidence list \<Rightarrow> stream_governor \<times> evidence list" where
  "gov_step (GReport i now st ids) (g, es) = (gov_next (GReport i now st ids) g, evidence_of i st g # es)"
| "gov_step e (g, es) = (gov_next e g, es)"

definition backed :: "evidence list \<Rightarrow> string \<Rightarrow> governor_client \<Rightarrow> bool" where
  "backed es i c \<longleftrightarrow> gc_unhealthy c \<le> streak i es \<and> (gc_severe c \<longrightarrow> newest_severe i es)"

lemma backed_quiet [simp]: "gc_unhealthy c = 0 \<Longrightarrow> \<not> gc_severe c \<Longrightarrow> backed es i c"
  by (simp add: backed_def)

lemma inactive_not_severe: "governorPressure st p = (x, False, severe, r) \<Longrightarrow> \<not> severe"
  by (auto simp: governorPressure_def Let_def split: if_splits prod.splits)

lemma backed_sample:
  assumes "backed es i c"
  shows "backed (evidence_of i st g # es) i (client_sample now (governorPressure st (profile_at (sg_profile g))) c)"
proof -
  obtain pressure active severe reason where p: "governorPressure st (profile_at (sg_profile g)) = (pressure, active, severe, reason)"
    by (metis prod_cases4)
  consider "active" "gc_settling c > 0" | "\<not> active" | "active" "gc_settling c = 0" by auto
  then show ?thesis
  proof cases
    case 1
    then show ?thesis by (simp add: p client_sample_def)
  next
    case 2
    then have "\<not> severe" using inactive_not_severe [of st "profile_at (sg_profile g)" pressure severe reason] p by simp
    then show ?thesis using 2 by (simp add: p client_sample_def Let_def)
  next
    case 3
    then show ?thesis using assms by (auto simp: p client_sample_def Let_def backed_def evidence_of_def)
  qed
qed

lemma backed_other: "i \<noteq> j \<Longrightarrow> backed es j c \<Longrightarrow> backed (evidence_of i st g # es) j c"
  by (auto simp: backed_def evidence_of_def split: prod.splits)

lemma reported_backed:
  assumes "map_all (backed es) (sg_clients g)"
  shows "map_all (backed (evidence_of i st g # es)) (sg_clients (reported i now st g))"
proof -
  define old where "old = map_keep (\<lambda>_ c. \<not> time_sub now (gc_lastSeen c) > governorSampleTTL) (sg_clients g)"
  have old: "map_all (backed es) old" using assms by (simp add: old_def map_all_keep)
  have "backed es i (case old i of None \<Rightarrow> new_client | Some c \<Rightarrow> c)"
    using map_allD [OF old] by (auto simp: new_client_def split: option.split)
  then have seen: "backed es i (seen_client i now g)" by (simp add: seen_client_def old_def [symmetric] backed_def)
  have "backed (evidence_of i st g # es) i
      (if now < sg_settleUntil g then warm_up ''profile warm-up'' (seen_client i now g)
       else client_sample now (governorPressure st (profile_at (sg_profile g))) (seen_client i now g))"
    using backed_sample [OF seen] by (simp add: warm_up_def)
  moreover have "map_all (backed (evidence_of i st g # es)) (old(i := None))"
    by (intro map_allI) (metis backed_other map_allD [OF old] map_upd_None_Some)
  ultimately show ?thesis by (simp add: reported_def old_def [symmetric] map_all_upd_iff)
qed

lemma map_all_option_map:
  "map_all (\<lambda>_ c. Q c) m \<Longrightarrow> (\<And>i c. Q c \<Longrightarrow> P i (f c)) \<Longrightarrow> map_all P (\<lambda>i. map_option f (m i))"
  by (auto simp: map_all_def)

lemma gov_step_backed:
  assumes "map_all (backed es) (sg_clients g)" "gov_step e (g, es) = (g', es')"
  shows "map_all (backed es') (sg_clients g')"
proof (cases e)
  case (GReport i now st ids)
  then have g': "g' = fst (observe i now st ids g)" and es': "es' = evidence_of i st g # es" using assms(2) by auto
  show ?thesis
  proof (cases rule: observe_cases [of now g i st ids])
    case (switched to)
    show ?thesis unfolding g' switched(4) switch_profile_def by (simp add: map_all_def) auto
  qed (use reported_backed [OF assms(1)] g' es' in auto)
next
  case (GRemove i)
  then show ?thesis using assms by (auto simp: governor_remove_def map_all_delete)
next
  case (GDiscontinuity now)
  then show ?thesis using assms(2) by (auto simp: settleAfterDiscontinuity_def map_all_def warm_up_def)
qed

lemma gov_run_backed:
  "map_all (backed es) (sg_clients g) \<Longrightarrow> fold gov_step evs (g, es) = (g', es') \<Longrightarrow> map_all (backed es') (sg_clients g')"
proof (induction evs arbitrary: g es)
  case (Cons e evs)
  obtain g1 es1 where step: "gov_step e (g, es) = (g1, es1)" by (cases "gov_step e (g, es)")
  show ?case using Cons.IH [OF gov_step_backed [OF Cons.prems(1) step]] Cons.prems(2) by (simp add: step)
qed simp

text \<open>
  C36 (safety). A downshift rests on evidence: after any sequence of events, a report that lowers the
  quality does so because the newest report of some client is severe, or, by a single profile, because
  some client's last two reports in a row were unhealthy. Reports during a settle interval, warm-up reports
  and reports before a profile change never count.
\<close>
theorem governor_downshift_has_evidence:
  assumes "fold gov_step evs (newStreamGovernor, []) = (g, es)" "gd_to (snd (observe i now st ids g)) > gd_from (snd (observe i now st ids g))"
  shows "(\<exists>j. newest_severe j (evidence_of i st g # es)) \<or>
    gd_to (snd (observe i now st ids g)) = gd_from (snd (observe i now st ids g)) + 1 \<and>
    (\<exists>j. governorUnhealthySamples \<le> streak j (evidence_of i st g # es))"
proof -
  define es' g' where "es' = evidence_of i st g # es" and "g' = reported i now st g"
  have "map_all (backed es) (sg_clients g)"
    by (rule gov_run_backed [OF _ assms(1)]) (simp add: newStreamGovernor_def)
  then have backed: "map_all (backed es') (sg_clients g')" unfolding es'_def g'_def by (rule reported_backed)
  show ?thesis
  proof (cases rule: observe_cases [of now g i st ids])
    case (switched to)
    define v where "v = view_all now (List.map_filter (sg_clients g') ids)"
    have to: "fst (decide now v g') = to" using switched(3) by (simp add: v_def g'_def)
    have up: "sg_profile g' < to" using assms(2) switched by (simp add: g'_def)
    have client: "\<exists>j. sg_clients g' j = Some c" if "c \<in> set (List.map_filter (sg_clients g') ids)" for c
      using that by (auto simp: List.map_filter_def)
    have "gv_severeAny v \<or> gv_unhealthyAny v \<and> to = sg_profile g' + 1"
      using to up by (auto simp: decide_def Let_def split: if_splits)
    then show ?thesis
    proof
      assume "gv_severeAny v"
      then obtain c j where "sg_clients g' j = Some c" "gc_severe c" unfolding v_def view_all_flags using client by blast
      then have "newest_severe j es'" using map_allD [OF backed] by (auto simp: backed_def)
      then show ?thesis unfolding es'_def by blast
    next
      assume unh: "gv_unhealthyAny v \<and> to = sg_profile g' + 1"
      then obtain c j where "sg_clients g' j = Some c" "governorUnhealthySamples \<le> gc_unhealthy c"
        unfolding v_def view_all_flags using client by blast
      then have "governorUnhealthySamples \<le> streak j es'" using map_allD [OF backed] by (fastforce simp: backed_def)
      then show ?thesis using unh switched unfolding es'_def by (auto simp: g'_def)
    qed
  qed (use assms(2) in auto)
qed

definition alarmed :: stream_governor where
  "alarmed = fst (observe ''a'' 1 alarm_stats [''a''] newStreamGovernor)"

lemma pressure_alarm [simp]: "governorPressure alarm_stats p = (Fin 4, True, True, ''memory warning'')"
  by (simp add: governorPressure_def alarm_stats_def)

lemma alarmed_eq: "alarmed = newStreamGovernor\<lparr>sg_clients := [''a'' \<mapsto> new_client\<lparr>gc_lastSeen := 1, gc_active := True,
    gc_reason := ''decoder warm-up'', gc_settling := 0\<rparr>]\<rparr>"
  by (simp add: alarmed_def observe_def newStreamGovernor_def seen_client_def client_sample_def new_client_def
      view_all_def view_client_def decide_def Let_def map_filter_simps time_sub_def governorSampleTTL_def governorUnhealthySamples_def)

theorem governor_downshift_has_evidence_witness:
  "newest_severe ''a'' [evidence_of ''a'' alarm_stats alarmed] \<and> gd_to (snd (observe ''a'' 2 alarm_stats [''a''] alarmed)) = 2"
proof -
  have run: "fold gov_step [GReport ''a'' 1 alarm_stats [''a'']] (newStreamGovernor, []) =
      (alarmed, [evidence_of ''a'' alarm_stats newStreamGovernor])"
    by (simp add: alarmed_def)
  have d: "gd_to (snd (observe ''a'' 2 alarm_stats [''a''] alarmed)) = 2 \<and> gd_from (snd (observe ''a'' 2 alarm_stats [''a''] alarmed)) = 0"
    by (simp add: alarmed_eq observe_def newStreamGovernor_def seen_client_def client_sample_def new_client_def
        view_all_def view_client_def decide_def Let_def map_filter_simps time_sub_def governorSampleTTL_def
        governorUnhealthySamples_def map_keep_def)
  then have "\<exists>j. newest_severe j [evidence_of ''a'' alarm_stats alarmed, evidence_of ''a'' alarm_stats newStreamGovernor]"
    using governor_downshift_has_evidence [OF run, of "''a''" 2 alarm_stats "[''a'']"] by auto
  then show ?thesis using d by (auto simp: evidence_of_def split: if_splits)
qed

section \<open>Applying a profile\<close>

lemma restart_encoder_cfg [simp]: "vp_cfg (restart_encoder ok now s) = vp_cfg s"
  by (simp add: restart_encoder_def)

lemma SetProfile_cfg:
  assumes "0 < bitrateK" "0 < frameRate"
  shows "vc_ScaleMaxW (vp_cfg (SetProfile mw mh bitrateK q frameRate ok now s)) = mw \<and>
    vc_ScaleMaxH (vp_cfg (SetProfile mw mh bitrateK q frameRate ok now s)) = mh \<and>
    vc_BitrateK (vp_cfg (SetProfile mw mh bitrateK q frameRate ok now s)) = bitrateK \<and>
    vc_Quantizer (vp_cfg (SetProfile mw mh bitrateK q frameRate ok now s)) = q \<and>
    vc_FrameRate (vp_cfg (SetProfile mw mh bitrateK q frameRate ok now s)) = frameRate"
  using assms by (simp add: SetProfile_def Let_def split: prod.split)

lemma profile_table:
  assumes "0 \<le> p" "p \<le> 3"
  shows "pr_frameRate (profile_at p) = 60 - 10 * p \<and> pr_quantizerDelta (profile_at p) = p \<and>
    pr_scaleNum (profile_at p) = 1 \<and> pr_scaleDen (profile_at p) = 1 \<and> pr_bitrateNum (profile_at p) = 1 \<and> pr_bitrateDen (profile_at p) = 1"
proof -
  have "p \<in> {0, 1, 2, 3}" using assms by auto
  then show ?thesis by (auto simp: profile_at_def adaptiveProfiles_def)
qed

text \<open>
  A changed decision reaches the encoder: when the report of a client changes the profile
  and the goroutine it starts runs while that profile is still the governor's, the pipeline's
  configuration is that of the new profile (its frame rate, 60 to 30 by tens, at native
  resolution, with a bit rate of at least 1000 and a quantizer within 0 to 51); if the
  governor has moved on meanwhile, the goroutine changes nothing.
\<close>
theorem applied_profile_reaches_encoder:
  assumes "handleMediaStats i now st ids b = (b1, Some (d, p))" "0 \<le> sg_profile (ad_governor b)" "sg_profile (ad_governor b) \<le> 3"
  shows "if sg_profile (ad_governor b2) = gd_to d
    then let cfg = vp_cfg (ad_video (applyAdaptiveProfile d p ok t b2))
         in vc_FrameRate cfg = 60 - 10 * sg_profile (ad_governor b2) \<and> vc_ScaleMaxW cfg = 0 \<and> vc_ScaleMaxH cfg = 0 \<and>
            vc_BitrateK cfg = max 1000 (ad_bitrateK b2) \<and> 0 \<le> vc_Quantizer cfg \<and> vc_Quantizer cfg \<le> 51
    else applyAdaptiveProfile d p ok t b2 = b2"
proof -
  define g where "g = ad_governor b"
  have d: "d = snd (observe i now st ids g)" "gd_changed d" "p = profile_at (sg_profile (fst (observe i now st ids g)))"
    using assms(1) by (auto simp: handleMediaStats_def g_def Let_def split: if_splits prod.splits)
  have to: "gd_to d = sg_profile (fst (observe i now st ids g)) \<and> 0 \<le> gd_to d \<and> gd_to d \<le> 3"
    using gov_change_facts [of "GReport i now st ids" g now d] d assms(2,3) by (simp add: g_def)
  have tbl: "pr_frameRate p = 60 - 10 * gd_to d" "pr_scaleNum p = 1" "pr_scaleDen p = 1" "pr_bitrateNum p = 1" "pr_bitrateDen p = 1"
    using profile_table [of "gd_to d"] to by (simp_all add: d(3))
  have quot: "go_quot x 1 = x" for x by (simp add: go_quot_def sgn_if abs_if)
  have set: "adaptiveEncoderSettings p (ad_bitrateK b2) (ad_quantizer b2) (ad_viewW b2) (ad_viewH b2) =
    (0, 0, max 1000 (ad_bitrateK b2), max 0 (min 51 (ad_quantizer b2 + pr_quantizerDelta p)), 60 - 10 * gd_to d)"
    using tbl by (simp add: adaptiveEncoderSettings_def adaptiveScale_def Let_def quot max_def)
  have "0 < max 1000 (ad_bitrateK b2)" "0 < 60 - 10 * gd_to d" using to by auto
  from SetProfile_cfg [OF this, of 0 0 "max 0 (min 51 (ad_quantizer b2 + pr_quantizerDelta p))" ok t "ad_video b2"]
  show ?thesis by (simp add: applyAdaptiveProfile_def set Let_def)
qed

definition tablet :: adaptive_state where
  "tablet = \<lparr>ad_governor = alarmed, ad_video = NewVideoPipeline 0 sample_config, ad_viewW = 1024, ad_viewH = 768,
     ad_adaptiveVideo = True, ad_bitrateK = 8000, ad_quantizer = 24\<rparr>"

theorem applied_profile_reaches_encoder_witness:
  "\<exists>b d p. handleMediaStats ''a'' 2 alarm_stats [''a''] tablet = (b, Some (d, p)) \<and>
     vc_FrameRate (vp_cfg (ad_video (applyAdaptiveProfile d p True 3 b))) = 40"
proof -
  obtain g d where obs: "observe ''a'' 2 alarm_stats [''a''] alarmed = (g, d)" by (cases "observe ''a'' 2 alarm_stats [''a''] alarmed")
  have "gd_changed d \<and> gd_to d = 2 \<and> sg_profile g = 2"
    using obs by (auto simp: alarmed_eq observe_def newStreamGovernor_def seen_client_def client_sample_def new_client_def
        view_all_def view_client_def decide_def Let_def map_filter_simps time_sub_def governorSampleTTL_def
        governorUnhealthySamples_def map_keep_def switch_profile_def)
  then have h: "handleMediaStats ''a'' 2 alarm_stats [''a''] tablet = (tablet\<lparr>ad_governor := g\<rparr>, Some (d, profile_at 2))"
    "sg_profile g = gd_to d" "gd_to d = 2"
    by (simp_all add: handleMediaStats_def tablet_def obs)
  have "sg_profile (ad_governor tablet) = 0" by (simp add: tablet_def alarmed_eq newStreamGovernor_def)
  then have "vc_FrameRate (vp_cfg (ad_video (applyAdaptiveProfile d (profile_at 2) True 3 (tablet\<lparr>ad_governor := g\<rparr>)))) = 40"
    using applied_profile_reaches_encoder [OF h(1), of "tablet\<lparr>ad_governor := g\<rparr>" True 3] h(2,3) by (simp add: Let_def)
  then show ?thesis using h(1) by blast
qed

end
