(* ===== verification/Input_Lane.thy ===== *)
theory Input_Lane
  imports Surf_Prelude
begin

text \<open>
  The contract of the two input lanes between a client's reader and the browser. Samples of motion may
  be replaced by newer ones or given up under overload; lifecycle edges (contacts or
  buttons going down and up, keys, text) must all arrive in order. A lane that cannot accept
  an edge closes the client instead of dropping it.
\<close>

fun submit_all :: "('w \<Rightarrow> 'w list \<Rightarrow> 'w list option) \<Rightarrow> 'w list \<Rightarrow> 'w list \<Rightarrow> 'w list option" where
  "submit_all submit [] q = Some q"
| "submit_all submit (w # ws) q = (case submit w q of None \<Rightarrow> None | Some q' \<Rightarrow> submit_all submit ws q')"

locale edge_lane =
  fixes submit :: "'w \<Rightarrow> 'w list \<Rightarrow> 'w list option"  \<comment> \<open>\<^const>\<open>None\<close>: the client is closed\<close>
    and edge :: "'w \<Rightarrow> bool" and cap :: nat
  assumes edges_kept: "submit w q = Some q' \<Longrightarrow> filter edge q' = filter edge q @ filter edge [w]"
    and within: "submit w q = Some q' \<Longrightarrow> length q \<le> cap \<Longrightarrow> length q' \<le> cap"
    and refused: "submit w q = None \<Longrightarrow> list_all edge q \<and> cap \<le> length q"
begin

lemma all_edges_kept: "submit_all submit ws q = Some q' \<Longrightarrow> filter edge q' = filter edge q @ filter edge ws"
proof (induction ws arbitrary: q)
  case (Cons w ws)
  then obtain q1 where q1: "submit w q = Some q1" "submit_all submit ws q1 = Some q'" by (auto split: option.splits)
  then show ?case using Cons.IH [OF q1(2)] edges_kept [OF q1(1)] by (auto split: if_splits)
qed simp

lemma all_within: "submit_all submit ws q = Some q' \<Longrightarrow> length q \<le> cap \<Longrightarrow> length q' \<le> cap"
proof (induction ws arbitrary: q)
  case (Cons w ws)
  then show ?case using within by (fastforce split: option.splits)
qed simp

lemma few_edges_accepted:
  "length q \<le> cap \<Longrightarrow> length (filter edge q) + length (filter edge ws) < cap \<Longrightarrow> \<exists>q'. submit_all submit ws q = Some q'"
proof (induction ws arbitrary: q)
  case (Cons w ws)
  show ?case
  proof (cases "submit w q")
    case None
    then have "length (filter edge q) = length q" "cap \<le> length q"
      using refused [OF None] by (auto simp: list_all_iff filter_id_conv)
    then show ?thesis using Cons.prems by simp
  next
    case (Some q1)
    have "length q1 \<le> cap" using within [OF Some] Cons.prems by simp
    moreover have "length (filter edge q1) + length (filter edge ws) < cap"
      using edges_kept [OF Some] Cons.prems by (auto split: if_splits)
    ultimately show ?thesis using Cons.IH Some by simp
  qed
qed simp

end

section \<open>Removing the first replaceable element\<close>

fun remove_first :: "('w \<Rightarrow> bool) \<Rightarrow> 'w list \<Rightarrow> 'w list option" where
  \<comment> \<open>\<^verbatim>\<open>for i, queued := range in.queue { if P(queued) { copy(in.queue[i:], in.queue[i+1:]); ...; break } }\<close>\<close>
  "remove_first P [] = None"
| "remove_first P (x # xs) = (if P x then Some xs else map_option (Cons x) (remove_first P xs))"

lemma remove_first_None: "remove_first P q = None \<longleftrightarrow> list_all (\<lambda>x. \<not> P x) q"
  by (induction q) auto

lemma remove_first_Some:
  "remove_first P q = Some q' \<Longrightarrow> Suc (length q') = length q \<and> filter (\<lambda>x. \<not> P x) q' = filter (\<lambda>x. \<not> P x) q"
proof (induction q arbitrary: q')
  case (Cons x q)
  show ?case
  proof (cases "P x")
    case False
    then obtain r where "remove_first P q = Some r" "q' = x # r" using Cons.prems by auto
    then show ?thesis using Cons.IH by auto
  qed (use Cons.prems in auto)
qed simp

definition lane_append :: "('w \<Rightarrow> bool) \<Rightarrow> nat \<Rightarrow> 'w \<Rightarrow> 'w list \<Rightarrow> 'w list option" where
  \<comment> \<open>append; a full queue first gives up its oldest replaceable element\<close>
  "lane_append P cap w q =
    (if length q \<ge> cap then map_option (\<lambda>q'. q' @ [w]) (remove_first P q) else Some (q @ [w]))"

lemma lane_append_kept:
  "lane_append P cap w q = Some q' \<Longrightarrow> filter (\<lambda>x. \<not> P x) q' = filter (\<lambda>x. \<not> P x) q @ filter (\<lambda>x. \<not> P x) [w]"
  by (auto simp: lane_append_def dest: remove_first_Some split: if_splits)

lemma lane_append_within: "lane_append P cap w q = Some q' \<Longrightarrow> length q \<le> cap \<Longrightarrow> length q' \<le> cap"
  by (auto simp: lane_append_def dest: remove_first_Some split: if_splits)

lemma lane_append_refused: "lane_append P cap w q = None \<Longrightarrow> list_all (\<lambda>x. \<not> P x) q \<and> cap \<le> length q"
  by (auto simp: lane_append_def remove_first_None split: if_splits)

section \<open>Lanes that merge samples\<close>

text \<open>
  Both lanes have the same shape: a sample that may replace the one at the tail of the queue is merged into
  it, anything else is appended. That shape gives the contract.
\<close>

lemma replace_last:
  assumes "q \<noteq> []" "P (last q)" "P w"
  shows "filter (\<lambda>x. \<not> P x) (butlast q @ [w]) = filter (\<lambda>x. \<not> P x) q" "length (butlast q @ [w]) = length q"
proof -
  have "q = butlast q @ [last q]" using assms(1) by simp
  then have "filter (\<lambda>x. \<not> P x) q = filter (\<lambda>x. \<not> P x) (butlast q) @ filter (\<lambda>x. \<not> P x) [last q]"
    by (metis filter_append)
  then show "filter (\<lambda>x. \<not> P x) (butlast q @ [w]) = filter (\<lambda>x. \<not> P x) q" using assms by simp
  show "length (butlast q @ [w]) = length q" using assms(1) by (cases q rule: rev_cases) auto
qed

locale merging_lane =
  fixes submit :: "'w \<Rightarrow> 'w list \<Rightarrow> 'w list option"
    and sample :: "'w \<Rightarrow> bool" and same :: "'w \<Rightarrow> 'w \<Rightarrow> bool" and merge :: "'w \<Rightarrow> 'w \<Rightarrow> 'w" and cap :: nat
  assumes submit_merges: "q \<noteq> [] \<Longrightarrow> same (last q) w \<Longrightarrow> submit w q = Some (butlast q @ [merge (last q) w])"
    and submit_appends: "\<not> (q \<noteq> [] \<and> same (last q) w) \<Longrightarrow> submit w q = lane_append sample cap w q"
    and only_samples: "same v w \<Longrightarrow> sample v \<and> sample w \<and> sample (merge v w)"

sublocale merging_lane \<subseteq> edge_lane submit "\<lambda>w. \<not> sample w" cap
proof unfold_locales
  fix w q q'
  show "filter (\<lambda>w. \<not> sample w) q' = filter (\<lambda>w. \<not> sample w) q @ filter (\<lambda>w. \<not> sample w) [w]" if s: "submit w q = Some q'"
  proof (cases "q \<noteq> [] \<and> same (last q) w")
    case True
    then show ?thesis
      using s only_samples [of "last q" w] replace_last(1) [of q sample "merge (last q) w"] by (simp add: submit_merges)
  next
    case False
    then show ?thesis using s lane_append_kept [of sample cap w q] by (simp add: submit_appends)
  qed
  show "length q' \<le> cap" if s: "submit w q = Some q'" and "length q \<le> cap"
  proof (cases "q \<noteq> [] \<and> same (last q) w")
    case True
    then show ?thesis
      using that only_samples [of "last q" w] replace_last(2) [of q sample "merge (last q) w"] by (auto simp: submit_merges)
  next
    case False
    then show ?thesis using that lane_append_within [of sample cap w q] by (simp add: submit_appends)
  qed
  show "list_all (\<lambda>w. \<not> sample w) q \<and> cap \<le> length q" if "submit w q = None"
  proof (cases "q \<noteq> [] \<and> same (last q) w")
    case False
    then show ?thesis using that lane_append_refused [of sample cap w q] by (simp add: submit_appends)
  qed (use that in \<open>simp add: submit_merges\<close>)
qed

end
