(* ===== verification/Touch_Input.thy ===== *)
theory Touch_Input
  imports Input_Lane Go_Float "HOL-Library.AList"
begin

text \<open>
  The touch lane, \<^verbatim>\<open>backend/internal/browser/touch_input.go\<close>: the queue between the client's reader and
  the worker, the mapping of contacts to dense browser identifiers, the validation of a command
  against the active gesture and its dispatch to Chromium. The maps of contacts are association
  lists with distinct keys. What a step reads of its surroundings (the active tab, the viewport
  replies of Chromium, the clock, the outcome of a CDP write) is an argument; what it does to
  them is appended to the list of effects.
\<close>

section \<open>Data\<close>

definition maxTouchContacts :: nat where "maxTouchContacts = 5"
definition touchQueueLimit :: nat where "touchQueueLimit = 64"
definition touchReleaseSettle :: duration where "touchReleaseSettle = 12 * millisecond"

record viewport =
  vw_OffsetX :: f64
  vw_OffsetY :: f64
  vw_ClientWidth :: f64
  vw_ClientHeight :: f64
  vw_Scale :: f64

record touch_point =
  tp_ID :: int
  tp_X :: f64
  tp_Y :: f64
  tp_RadiusX :: f64
  tp_RadiusY :: f64
  tp_Force :: f64

record touch_command =
  tc_IID :: uint64
  tc_Phase :: string
  tc_Sequence :: uint64
  tc_Surface :: uint32
  tc_TimestampNS :: uint64
  tc_Points :: "touch_point list"

record cdp_point =
  cp_id :: int
  cp_x :: f64
  cp_y :: f64
  cp_radiusX :: f64
  cp_radiusY :: f64
  cp_force :: f64

record touch_work =
  tw_client :: nat
  tw_command :: "touch_command option"
  tw_receivedNS :: uint64
  tw_cancel :: bool
  tw_done :: bool              \<comment> \<open>\<^verbatim>\<open>done != nil\<close>\<close>

datatype touch_effect =
    TouchEvent string string "cdp_point list" "f64 option"  \<comment> \<open>session, type, points, timestamp\<close>
  | MotionPhase string
  | TouchAccepted uint64 uint64                             \<comment> \<open>interaction, time received\<close>
  | CloseClient nat

record touch_input =
  ti_queue :: "touch_work list"
  ti_owner :: "nat option"
  ti_session :: string
  ti_surface :: uint32
  ti_lastSeq :: uint64
  ti_active :: "(int \<times> touch_point) list"
  ti_browserIDs :: "(int \<times> int) list"
  ti_viewport :: viewport
  ti_lastEventNS :: int
  ti_lastClientNS :: uint64
  ti_lastMoveSent :: gotime
  ti_effects :: "touch_effect list"

record touch_env =
  ev_suspended :: bool              \<comment> \<open>\<^verbatim>\<open>b.inputSuspended()\<close>\<close>
  ev_closed :: bool                 \<comment> \<open>the work's client is closed\<close>
  ev_session :: string              \<comment> \<open>the session of the active tab\<close>
  ev_surface :: uint32              \<comment> \<open>the generation of the video pipeline\<close>
  ev_first :: "viewport option"     \<comment> \<open>the layout metrics read when a gesture begins\<close>
  ev_again :: "viewport option"     \<comment> \<open>the layout metrics read for several contacts\<close>
  ev_nowNS :: int
  ev_sent :: gotime
  ev_dispatched :: bool             \<comment> \<open>\<^verbatim>\<open>cdp.Dispatch\<close> returns no error\<close>

definition zero_viewport :: viewport where
  "zero_viewport = \<lparr>vw_OffsetX = Fin 0, vw_OffsetY = Fin 0, vw_ClientWidth = Fin 0, vw_ClientHeight = Fin 0, vw_Scale = Fin 0\<rparr>"

definition newTouchInput :: touch_input where
  "newTouchInput = \<lparr>ti_queue = [], ti_owner = None, ti_session = [], ti_surface = 0, ti_lastSeq = 0, ti_active = [],
     ti_browserIDs = [], ti_viewport = zero_viewport, ti_lastEventNS = 0, ti_lastClientNS = 0, ti_lastMoveSent = 0, ti_effects = []\<rparr>"

definition effect :: "touch_effect \<Rightarrow> touch_input \<Rightarrow> touch_input" where
  "effect e s = s\<lparr>ti_effects := ti_effects s @ [e]\<rparr>"

section \<open>Points\<close>

definition viewport_valid :: "viewport \<Rightarrow> bool" where
  "viewport_valid v \<longleftrightarrow> f_less (Fin 0) (vw_ClientWidth v) \<and> f_less (Fin 0) (vw_ClientHeight v)
     \<and> vw_ClientWidth v \<noteq> NaN \<and> vw_ClientHeight v \<noteq> NaN"

definition clampUnit :: "f64 \<Rightarrow> f64" where
  "clampUnit value = (if f_less value (Fin 0) then Fin 0 else if f_less (Fin 1) value then Fin 1 else value)"

definition finiteUnit :: "f64 \<Rightarrow> bool" where
  "finiteUnit value \<longleftrightarrow> value \<noteq> NaN \<and> value \<noteq> Inf False \<and> value \<noteq> Inf True \<and> f_le (Fin 0) value \<and> f_le value (Fin 1)"

definition mapTouchPoint :: "touch_point \<Rightarrow> viewport \<Rightarrow> cdp_point option" where
  "mapTouchPoint point v =
    (if tp_ID point < 0 \<or> tp_ID point > 2147483647 \<or> \<not> finiteUnit (tp_X point) \<or> \<not> finiteUnit (tp_Y point)
        \<or> \<not> finiteUnit (tp_RadiusX point) \<or> \<not> finiteUnit (tp_RadiusY point) \<or> \<not> finiteUnit (tp_Force point) then None
     else
       let radiusX = f_max (Fin 1) (f_mul (clampUnit (tp_RadiusX point)) (vw_ClientWidth v));
           radiusY = f_max (Fin 1) (f_mul (clampUnit (tp_RadiusY point)) (vw_ClientHeight v));
           force = (if f_le (tp_Force point) (Fin 0) then Fin (1 / 2) else tp_Force point);
           force = clampUnit force
       in Some \<lparr>cp_id = tp_ID point,
            cp_x = f_add (vw_OffsetX v) (f_mul (clampUnit (tp_X point)) (vw_ClientWidth v)),
            cp_y = f_add (vw_OffsetY v) (f_mul (clampUnit (tp_Y point)) (vw_ClientHeight v)),
            cp_radiusX = radiusX, cp_radiusY = radiusY, cp_force = force\<rparr>)"

definition loadViewport :: "viewport option \<Rightarrow> viewport option" where
  \<comment> \<open>\<^const>\<open>None\<close>: the call fails or its reply cannot be decoded\<close>
  "loadViewport reply = (case reply of None \<Rightarrow> None | Some v \<Rightarrow> if viewport_valid v then Some v else None)"

definition addBrowserTouchID :: "int \<Rightarrow> (int \<times> int) list \<Rightarrow> (int \<times> (int \<times> int) list) option" where
  "addBrowserTouchID clientID ids =
    (case map_of ids clientID of
       Some i \<Rightarrow> Some (i, ids)
     | None \<Rightarrow>
        (case find (\<lambda>i. i \<notin> set (map snd ids)) (map int [0..<maxTouchContacts]) of
           Some i \<Rightarrow> Some (i, AList.update clientID i ids)
         | None \<Rightarrow> None))"

section \<open>The queue\<close>

definition replaceable_move :: "touch_work \<Rightarrow> bool" where
  "replaceable_move w \<longleftrightarrow> (case tw_command w of Some c \<Rightarrow> tc_Phase c = ''move'' | None \<Rightarrow> False)"

definition same_move :: "touch_work \<Rightarrow> touch_work \<Rightarrow> bool" where
  \<comment> \<open>the queued move that a newer one replaces\<close>
  "same_move queued w \<longleftrightarrow>
    (case (tw_command queued, tw_command w) of
       (Some c, Some d) \<Rightarrow> tc_Phase d = ''move'' \<and> tw_client queued = tw_client w \<and> tc_Phase c = ''move''
         \<and> tc_Surface c = tc_Surface d
     | _ \<Rightarrow> False)"

definition touch_submit :: "touch_work \<Rightarrow> touch_work list \<Rightarrow> touch_work list option" where
  "touch_submit w q =
    (if q \<noteq> [] \<and> same_move (last q) w then Some (butlast q @ [w])
     else lane_append replaceable_move touchQueueLimit w q)"

definition touch_enqueue :: "nat \<Rightarrow> touch_command \<Rightarrow> uint64 \<Rightarrow> touch_input \<Rightarrow> touch_input" where
  "touch_enqueue client command receivedNS s =
    (case touch_submit \<lparr>tw_client = client, tw_command = Some command, tw_receivedNS = receivedNS, tw_cancel = False, tw_done = False\<rparr>
            (ti_queue s) of
       Some q \<Rightarrow> s\<lparr>ti_queue := q\<rparr>
     | None \<Rightarrow> effect (CloseClient client) s)"

definition touch_cancel :: "bool \<Rightarrow> touch_input \<Rightarrow> touch_input" where
  "touch_cancel wait s =
     s\<lparr>ti_queue := ti_queue s @ [\<lparr>tw_client = 0, tw_command = None, tw_receivedNS = 0, tw_cancel = True, tw_done = wait\<rparr>]\<rparr>"

definition touch_cancelClient :: "nat option \<Rightarrow> touch_input \<Rightarrow> touch_input" where
  "touch_cancelClient client s = (if client = None then s else touch_cancel False s)"

section \<open>The gesture\<close>

definition touch_reset :: "touch_input \<Rightarrow> touch_input" where
  "touch_reset s = s\<lparr>ti_owner := None, ti_session := [], ti_surface := 0, ti_lastSeq := 0, ti_active := [],
     ti_browserIDs := [], ti_viewport := zero_viewport, ti_lastEventNS := 0, ti_lastClientNS := 0, ti_lastMoveSent := 0\<rparr>"

definition touch_cancelActive :: "touch_input \<Rightarrow> touch_input" where
  "touch_cancelActive s =
     touch_reset
       (if ti_owner s \<noteq> None \<and> ti_session s \<noteq> [] \<and> length (ti_active s) > 0
        then effect (MotionPhase ''end'') (effect (TouchEvent (ti_session s) ''touchCancel'' [] None) s)
        else s)"

definition validTouchCommand :: "touch_command option \<Rightarrow> bool" where
  "validTouchCommand command =
    (case command of
       None \<Rightarrow> False
     | Some c \<Rightarrow>
        \<not> (tc_Sequence c = 0 \<or> tc_Surface c = 0 \<or> tc_TimestampNS c = 0 \<or> uint (tc_TimestampNS c) > 2 ^ 63 - 1) \<and>
        (if tc_Phase c = ''start'' \<or> tc_Phase c = ''move'' \<or> tc_Phase c = ''end''
         then length (tc_Points c) > 0 \<and> length (tc_Points c) \<le> maxTouchContacts
         else if tc_Phase c = ''cancel'' then tc_Points c = [] else False))"

definition stringsTitle :: "string \<Rightarrow> string" where
  \<comment> \<open>only called with one of the four phases\<close>
  "stringsTitle phase = (if phase = ''start'' then ''Start'' else if phase = ''move'' then ''Move''
     else if phase = ''end'' then ''End'' else ''Cancel'')"

definition touch_acquire :: "nat \<Rightarrow> string \<Rightarrow> uint32 \<Rightarrow> viewport \<Rightarrow> touch_input \<Rightarrow> touch_input" where
  \<comment> \<open>the gesture begins\<close>
  "touch_acquire client session surface v s =
     effect (MotionPhase ''begin'')
       (s\<lparr>ti_owner := Some client, ti_session := session, ti_surface := surface, ti_viewport := v, ti_active := [],
          ti_browserIDs := [], ti_lastSeq := 0, ti_lastEventNS := 0, ti_lastMoveSent := 0\<rparr>)"

fun check_points :: "string \<Rightarrow> (int \<times> touch_point) list \<Rightarrow> touch_point list \<Rightarrow> int list \<Rightarrow> (int \<times> int) list \<Rightarrow>
    (int list \<times> (int \<times> int) list) option" where
  \<comment> \<open>the loop over \<^verbatim>\<open>command.Points\<close> that fills \<^verbatim>\<open>seen\<close> and assigns identifiers; \<^const>\<open>None\<close>: the gesture is cancelled\<close>
  "check_points phase active [] seen ids = Some (seen, ids)"
| "check_points phase active (p # ps) seen ids =
    (if tp_ID p \<in> set seen then None
     else
       let seen = tp_ID p # seen; exists = (map_of active (tp_ID p) \<noteq> None)
       in if (phase = ''start'' \<and> exists) \<or> (phase \<noteq> ''start'' \<and> \<not> exists) then None
          else if phase = ''start'' then
            (case addBrowserTouchID (tp_ID p) ids of
               None \<Rightarrow> None | Some (_, ids) \<Rightarrow> check_points phase active ps seen ids)
          else check_points phase active ps seen ids)"

fun map_points :: "(int \<times> int) list \<Rightarrow> viewport \<Rightarrow> touch_point list \<Rightarrow> cdp_point list option" where
  "map_points ids v [] = Some []"
| "map_points ids v (p # ps) =
    (case map_of ids (tp_ID p) of
       None \<Rightarrow> None
     | Some browserID \<Rightarrow>
        (case mapTouchPoint (p\<lparr>tp_ID := browserID\<rparr>) v of
           None \<Rightarrow> None
         | Some m \<Rightarrow> map_option (Cons m) (map_points ids v ps)))"

definition apply_point :: "string \<Rightarrow> touch_point \<Rightarrow> touch_input \<Rightarrow> touch_input" where
  "apply_point phase p s =
    (if phase = ''end''
     then s\<lparr>ti_active := AList.delete (tp_ID p) (ti_active s), ti_browserIDs := AList.delete (tp_ID p) (ti_browserIDs s)\<rparr>
     else if phase \<noteq> ''cancel'' then s\<lparr>ti_active := AList.update (tp_ID p) p (ti_active s)\<rparr>
     else s)"

definition apply_points :: "string \<Rightarrow> touch_point list \<Rightarrow> touch_input \<Rightarrow> touch_input" where
  \<comment> \<open>the contacts after a command was dispatched\<close>
  "apply_points phase ps s = fold (apply_point phase) ps s"

definition touch_dispatch :: "touch_env \<Rightarrow> touch_work \<Rightarrow> touch_command \<Rightarrow> cdp_point list \<Rightarrow> touch_input \<Rightarrow> touch_input" where
  \<comment> \<open>\<^verbatim>\<open>process\<close> from the release of the last move on; the sleep before a release has no other effect\<close>
  "touch_dispatch env w c points s =
    (let phase = tc_Phase c;
         points = (if phase = ''end'' \<and> length (tc_Points c) = length (ti_active s) then [] else points);
         eventNS = (if ev_nowNS env \<le> ti_lastEventNS s then ti_lastEventNS s + 1 else ev_nowNS env);
         points = (if phase = ''cancel'' then [] else points)
     in if \<not> ev_dispatched env then touch_reset (effect (MotionPhase ''end'') s)
        else
          let s = effect (TouchEvent (ev_session env) (''touch'' @ stringsTitle phase) points
                    (Some (f_div (f_of_int eventNS) (f_of_int second)))) s;
              s = (if phase = ''move'' then s\<lparr>ti_lastMoveSent := ev_sent env\<rparr> else s);
              s = s\<lparr>ti_lastSeq := tc_Sequence c, ti_lastEventNS := eventNS, ti_lastClientNS := tc_TimestampNS c\<rparr>;
              s = apply_points phase (tc_Points c) s;
              s = effect (TouchAccepted (tc_IID c) (tw_receivedNS w)) s;
              s = (if phase = ''move'' then effect (MotionPhase ''move'') s else s)
          in if phase = ''cancel'' \<or> length (ti_active s) = 0 then touch_reset (effect (MotionPhase ''end'') s) else s)"

definition touch_checked :: "touch_env \<Rightarrow> touch_work \<Rightarrow> touch_command \<Rightarrow> touch_input \<Rightarrow> touch_input" where
  \<comment> \<open>\<^verbatim>\<open>process\<close> from the loop over the points on\<close>
  "touch_checked env w c s =
    (case check_points (tc_Phase c) (ti_active s) (tc_Points c) [] (ti_browserIDs s) of
       None \<Rightarrow> touch_cancelActive s
     | Some (seen, ids) \<Rightarrow>
         let s = s\<lparr>ti_browserIDs := ids\<rparr>
         in if tc_Phase c = ''move'' \<and> length seen \<noteq> length (ti_active s) then touch_cancelActive s
            else (case map_points (ti_browserIDs s) (ti_viewport s) (tc_Points c) of
                    None \<Rightarrow> touch_cancelActive s
                  | Some points \<Rightarrow> touch_dispatch env w c points s))"

definition touch_gesture :: "touch_env \<Rightarrow> touch_work \<Rightarrow> touch_command \<Rightarrow> touch_input \<Rightarrow> touch_input" where
  \<comment> \<open>\<^verbatim>\<open>process\<close> once there is a gesture\<close>
  "touch_gesture env w c s =
    (if ti_owner s \<noteq> Some (tw_client w) \<or> ti_session s \<noteq> ev_session env \<or> ti_surface s \<noteq> ev_surface env
        \<or> tc_Sequence c \<le> ti_lastSeq s then touch_cancelActive s
     else if ti_lastClientNS s \<noteq> 0 \<and> tc_TimestampNS c < ti_lastClientNS s then touch_cancelActive s
     else if length (ti_active s) > 1 \<or> (tc_Phase c = ''start'' \<and> length (ti_active s) + length (tc_Points c) > 1) then
       (case loadViewport (ev_again env) of
          None \<Rightarrow> touch_cancelActive s
        | Some v \<Rightarrow> touch_checked env w c (s\<lparr>ti_viewport := v\<rparr>))
     else touch_checked env w c s)"

definition touch_process :: "touch_env \<Rightarrow> touch_work \<Rightarrow> touch_input \<Rightarrow> touch_input" where
  "touch_process env w s =
    (if ev_suspended env then s
     else if \<not> validTouchCommand (tw_command w) then touch_cancelActive s
     else
       let c = the (tw_command w)
       in if ev_closed env then touch_cancelActive s
          else if ev_session env = [] \<or> ev_surface env \<noteq> tc_Surface c then touch_cancelActive s
          else if ti_owner s = None then
            (if tc_Phase c \<noteq> ''start'' then s
             else (case loadViewport (ev_first env) of
                     None \<Rightarrow> s
                   | Some v \<Rightarrow> touch_gesture env w c (touch_acquire (tw_client w) (ev_session env) (ev_surface env) v s)))
          else touch_gesture env w c s)"

definition touch_run :: "touch_env \<Rightarrow> touch_input \<Rightarrow> touch_input" where
  \<comment> \<open>one iteration of the worker's loop\<close>
  "touch_run env s =
    (case ti_queue s of
       [] \<Rightarrow> s
     | w # q \<Rightarrow>
         let s = s\<lparr>ti_queue := q\<rparr>
         in if tw_cancel w then touch_cancelActive s else touch_process env w s)"

end
