(* ===== verification/Touch_Contacts.thy ===== *)
theory Touch_Contacts
  imports Touch_Input
begin

text \<open>
  What the touch lane guarantees: no lifecycle edge is lost or reordered in its queue, and the stream of touch
  events it dispatches is a legal contact protocol in every session, whatever the clients send.
\<close>

section \<open>The queue\<close>

abbreviation touch_edge :: "touch_work \<Rightarrow> bool" where
  "touch_edge w \<equiv> \<not> replaceable_move w"

lemma same_move_replaceable: "same_move v w \<Longrightarrow> replaceable_move v \<and> replaceable_move w"
  by (auto simp: same_move_def replaceable_move_def split: option.splits)

interpretation touch_lane: merging_lane touch_submit replaceable_move same_move "\<lambda>_ w. w" touchQueueLimit
  by unfold_locales (auto simp: touch_submit_def dest: same_move_replaceable)

text \<open>
  Lifecycle edges are reliable: whatever sequence of touch commands is submitted and accepted, the
  queue holds all starts, ends and cancels in the order of submission, within its limit; only moves
  are replaced or given up. Nobody is disconnected while fewer edges than the limit are queued.
\<close>
theorem touch_edges_reliable:
  "(submit_all touch_submit ws q = Some q' \<longrightarrow>
     filter touch_edge q' = filter touch_edge q @ filter touch_edge ws \<and>
     (length q \<le> touchQueueLimit \<longrightarrow> length q' \<le> touchQueueLimit)) \<and>
   (length q \<le> touchQueueLimit \<and> length (filter touch_edge q) + length (filter touch_edge ws) < touchQueueLimit \<longrightarrow>
     (\<exists>q''. submit_all touch_submit ws q = Some q''))"
  using touch_lane.all_edges_kept touch_lane.all_within touch_lane.few_edges_accepted by blast

definition tap :: "string \<Rightarrow> touch_work" where
  "tap phase = \<lparr>tw_client = 1, tw_command = Some \<lparr>tc_IID = 0, tc_Phase = phase, tc_Sequence = 1, tc_Surface = 1,
     tc_TimestampNS = 1, tc_Points = []\<rparr>, tw_receivedNS = 0, tw_cancel = False, tw_done = False\<rparr>"

theorem touch_edges_reliable_witness:
  "\<exists>q. submit_all touch_submit [tap ''start'', tap ''move'', tap ''move'', tap ''end''] [] = Some q \<and>
     filter touch_edge q = [tap ''start'', tap ''end'']"
  using touch_edges_reliable [of "[tap ''start'', tap ''move'', tap ''move'', tap ''end'']" "[]"]
  by (auto simp: tap_def replaceable_move_def touchQueueLimit_def)

section \<open>The contact protocol\<close>

type_synonym contacts = "string \<Rightarrow> int set"  \<comment> \<open>per session, the identifiers that are down\<close>

definition point_ids :: "cdp_point list \<Rightarrow> int list" where
  "point_ids ps = map cp_id ps"

definition contact_event :: "string \<Rightarrow> cdp_point list \<Rightarrow> int set \<Rightarrow> int set option" where
  \<comment> \<open>a start puts down contacts that are up; a move is a snapshot of all contacts; an end lifts the listed
     contacts, or all of them when it lists none; a cancel lifts all; nothing is lifted from an empty surface\<close>
  "contact_event type ps down =
    (let ids = set (point_ids ps) in
     if type = ''touchStart'' \<and> ps \<noteq> [] \<and> distinct (point_ids ps) \<and> ids \<inter> down = {} \<and> ids \<subseteq> {0..<int maxTouchContacts}
     then Some (down \<union> ids)
     else if type = ''touchMove'' \<and> ps \<noteq> [] \<and> distinct (point_ids ps) \<and> ids = down then Some down
     else if type = ''touchEnd'' \<and> down \<noteq> {} \<and> ps = [] then Some {}
     else if type = ''touchEnd'' \<and> ps \<noteq> [] \<and> distinct (point_ids ps) \<and> ids \<subset> down then Some (down - ids)
     else if type = ''touchCancel'' \<and> down \<noteq> {} \<and> ps = [] then Some {}
     else None)"

fun contact_run :: "touch_effect list \<Rightarrow> contacts \<Rightarrow> contacts option" where
  "contact_run [] down = Some down"
| "contact_run (TouchEvent session type ps _ # es) down =
     (case contact_event type ps (down session) of None \<Rightarrow> None | Some ids \<Rightarrow> contact_run es (down(session := ids)))"
| "contact_run (_ # es) down = contact_run es down"

lemma contact_run_append:
  "contact_run (es @ fs) down = (case contact_run es down of None \<Rightarrow> None | Some d \<Rightarrow> contact_run fs d)"
  by (induction es down rule: contact_run.induct) (auto split: option.split simp del: fun_upd_apply)

definition touch_down :: "touch_input \<Rightarrow> contacts" where
  \<comment> \<open>the contacts the lane believes to be down\<close>
  "touch_down s = (\<lambda>session. if ti_owner s \<noteq> None \<and> session = ti_session s then set (map snd (ti_browserIDs s)) else {})"

definition ids_ok :: "(int \<times> touch_point) list \<Rightarrow> (int \<times> int) list \<Rightarrow> bool" where
  "ids_ok active ids \<longleftrightarrow> distinct (map fst ids) \<and> distinct (map snd ids) \<and> set (map snd ids) \<subseteq> {0..<int maxTouchContacts} \<and>
     distinct (map fst active) \<and> set (map fst active) = set (map fst ids)"

definition touch_inv :: "touch_input \<Rightarrow> bool" where
  "touch_inv s \<longleftrightarrow> ids_ok (ti_active s) (ti_browserIDs s) \<and>
     (if ti_owner s = None then ti_active s = [] else ti_active s \<noteq> [] \<and> ti_session s \<noteq> []) \<and>
     contact_run (ti_effects s) (\<lambda>_. {}) = Some (touch_down s)"

lemma ids_ok_length: "ids_ok active ids \<Longrightarrow> length active = length ids"
  unfolding ids_ok_def by (metis distinct_card length_map)

lemma touch_reset_simps [simp]:
  "ti_owner (touch_reset s) = None" "ti_active (touch_reset s) = []" "ti_browserIDs (touch_reset s) = []"
  "ti_effects (touch_reset s) = ti_effects s" "ti_queue (touch_reset s) = ti_queue s"
  by (simp_all add: touch_reset_def)

lemma effect_simps [simp]:
  "ti_effects (effect e s) = ti_effects s @ [e]" "ti_owner (effect e s) = ti_owner s" "ti_active (effect e s) = ti_active s"
  "ti_browserIDs (effect e s) = ti_browserIDs s" "ti_session (effect e s) = ti_session s" "ti_surface (effect e s) = ti_surface s"
  "ti_lastSeq (effect e s) = ti_lastSeq s" "ti_lastClientNS (effect e s) = ti_lastClientNS s"
  by (simp_all add: effect_def)

lemma touch_down_simps [simp]: "touch_down (effect e s) = touch_down s" "touch_down (touch_reset s) = (\<lambda>_. {})"
  by (simp_all add: touch_down_def fun_eq_iff)

lemma touch_down_frame [simp]: "touch_down (s\<lparr>ti_viewport := v\<rparr>) = touch_down s" "touch_down (s\<lparr>ti_queue := q\<rparr>) = touch_down s"
  by (simp_all add: touch_down_def fun_eq_iff)

lemma ids_ok_Nil [simp]: "ids_ok [] []"
  by (simp add: ids_ok_def)

definition tracked :: "touch_input \<Rightarrow> bool" where
  \<comment> \<open>the invariant apart from the requirement that an owned gesture has contacts\<close>
  "tracked s \<longleftrightarrow> ids_ok (ti_active s) (ti_browserIDs s) \<and> (ti_owner s = None \<longrightarrow> ti_active s = []) \<and>
     (ti_owner s \<noteq> None \<longrightarrow> ti_session s \<noteq> []) \<and> contact_run (ti_effects s) (\<lambda>_. {}) = Some (touch_down s)"

lemma tracked_inv: "touch_inv s \<Longrightarrow> tracked s"
  by (auto simp: touch_inv_def tracked_def)

lemma inv_reset:
  "contact_run (ti_effects s) (\<lambda>_. {}) = Some (\<lambda>_. {}) \<Longrightarrow> touch_inv (touch_reset s)"
  by (simp add: touch_inv_def)

lemma inv_cancelActive:
  assumes "tracked s"
  shows "touch_inv (touch_cancelActive s)"
proof (cases "ti_owner s \<noteq> None \<and> ti_session s \<noteq> [] \<and> length (ti_active s) > 0")
  case True
  have "length (ti_active s) = length (ti_browserIDs s)" using assms ids_ok_length by (simp add: tracked_def)
  then have "ti_browserIDs s \<noteq> []" using True by auto
  then have "contact_event ''touchCancel'' [] (touch_down s (ti_session s)) = Some {}"
    using True by (simp add: contact_event_def touch_down_def)
  moreover have "(touch_down s)(ti_session s := {}) = (\<lambda>_. {})" by (simp add: touch_down_def fun_eq_iff)
  ultimately show ?thesis using assms True
    by (simp add: touch_cancelActive_def tracked_def contact_run_append inv_reset)
next
  case False
  have "ti_active s = []" using assms False by (auto simp: tracked_def)
  then have "ti_browserIDs s = []" using assms ids_ok_length [of "[]" "ti_browserIDs s"] by (simp add: tracked_def)
  then have "touch_down s = (\<lambda>_. {})" by (simp add: touch_down_def fun_eq_iff)
  then show ?thesis using assms False by (auto simp: touch_cancelActive_def tracked_def intro: inv_reset)
qed

section \<open>Assigning identifiers\<close>

lemma add_id_Some:
  assumes "addBrowserTouchID c ids = Some (i, ids')" "c \<notin> set (map fst ids)"
  shows "ids' = ids @ [(c, i)] \<and> i \<notin> set (map snd ids) \<and> 0 \<le> i \<and> i < int maxTouchContacts"
proof -
  have "map_of ids c = None" using assms(2) by (simp add: map_of_eq_None_iff)
  then obtain j where j: "find (\<lambda>i. i \<notin> set (map snd ids)) (map int [0..<maxTouchContacts]) = Some j"
    "i = j" "ids' = AList.update c j ids"
    using assms(1) by (auto simp: addBrowserTouchID_def split: option.splits)
  have "j \<in> set (map int [0..<maxTouchContacts])" "j \<notin> set (map snd ids)"
    using j(1) by (auto simp: find_Some_iff in_set_conv_nth)
  moreover have "AList.update c j ids = ids @ [(c, j)]"
    using assms(2) by (induction ids) auto
  ultimately show ?thesis using j by auto
qed

lemma check_points_start:
  assumes "check_points ''start'' active ps seen ids = Some (seen', ids')" "set (map fst active) \<subseteq> set (map fst ids)"
    "set (map fst ids) \<subseteq> set (map fst active) \<union> set seen"
    "distinct (map fst ids)" "distinct (map snd ids)" "set (map snd ids) \<subseteq> {0..<int maxTouchContacts}"
  shows "\<exists>new. ids' = ids @ zip (map tp_ID ps) new \<and> length new = length ps \<and> distinct (map fst ids') \<and> distinct (map snd ids') \<and>
    set (map snd ids') \<subseteq> {0..<int maxTouchContacts} \<and> set (map tp_ID ps) \<inter> set (map fst active) = {}"
  using assms
proof (induction ps arbitrary: seen ids)
  case (Cons p ps)
  have p: "tp_ID p \<notin> set seen" "map_of active (tp_ID p) = None"
    and rest: "\<exists>i ids1. addBrowserTouchID (tp_ID p) ids = Some (i, ids1) \<and> check_points ''start'' active ps (tp_ID p # seen) ids1 = Some (seen', ids')"
    using Cons.prems(1) by (auto simp: Let_def split: if_splits option.splits)
  obtain i ids1 where i: "addBrowserTouchID (tp_ID p) ids = Some (i, ids1)" "check_points ''start'' active ps (tp_ID p # seen) ids1 = Some (seen', ids')"
    using rest by blast
  have nact: "tp_ID p \<notin> set (map fst active)" using p(2) by (simp add: map_of_eq_None_iff)
  then have nin: "tp_ID p \<notin> set (map fst ids)" using p(1) Cons.prems(3) by blast
  note new = add_id_Some [OF i(1) nin]
  have "\<exists>new. ids' = ids1 @ zip (map tp_ID ps) new \<and> length new = length ps \<and> distinct (map fst ids') \<and> distinct (map snd ids') \<and>
      set (map snd ids') \<subseteq> {0..<int maxTouchContacts} \<and> set (map tp_ID ps) \<inter> set (map fst active) = {}"
    by (rule Cons.IH [OF i(2)]) (use Cons.prems new nin in auto)
  then obtain new where "ids' = ids1 @ zip (map tp_ID ps) new" "length new = length ps" "distinct (map fst ids')" "distinct (map snd ids')"
      "set (map snd ids') \<subseteq> {0..<int maxTouchContacts}" "set (map tp_ID ps) \<inter> set (map fst active) = {}" by blast
  then show ?case using new nact by (intro exI [of _ "i # new"]) auto
qed simp

lemma check_points_other:
  assumes "check_points phase active ps seen ids = Some (seen', ids')" "phase \<noteq> ''start''" "distinct seen"
  shows "ids' = ids \<and> seen' = rev (map tp_ID ps) @ seen \<and> distinct seen' \<and> set (map tp_ID ps) \<subseteq> set (map fst active)"
  using assms
proof (induction ps arbitrary: seen)
  case (Cons p ps)
  have p: "tp_ID p \<notin> set seen" "map_of active (tp_ID p) \<noteq> None" "check_points phase active ps (tp_ID p # seen) ids = Some (seen', ids')"
    using Cons.prems(1,2) by (auto simp: Let_def split: if_splits)
  have "tp_ID p \<in> set (map fst active)" using p(2) by (simp add: map_of_eq_None_iff)
  moreover have "ids' = ids \<and> seen' = rev (map tp_ID ps) @ tp_ID p # seen \<and> distinct seen' \<and> set (map tp_ID ps) \<subseteq> set (map fst active)"
    by (rule Cons.IH [OF p(3) Cons.prems(2)]) (use p(1) Cons.prems(3) in simp)
  moreover from this have "distinct seen'" by blast
  ultimately show ?case by (metis (no_types) append.simps append_assoc insert_subset list.simps(15) list.map(2) rev.simps(2))
qed simp

lemma mapTouchPoint_id: "mapTouchPoint p v = Some m \<Longrightarrow> cp_id m = tp_ID p"
  by (auto simp: mapTouchPoint_def Let_def split: if_splits)

lemma map_points_ids: "map_points ids v ps = Some ms \<Longrightarrow> map Some (point_ids ms) = map (map_of ids \<circ> tp_ID) ps"
proof (induction ps arbitrary: ms)
  case (Cons p ps)
  then show ?case by (auto simp: point_ids_def dest: mapTouchPoint_id split: option.splits)
qed (simp add: point_ids_def)

lemma map_points_length: "map_points ids v ps = Some ms \<Longrightarrow> length ms = length ps"
  by (metis map_points_ids length_map point_ids_def)

section \<open>Association lists of identifiers\<close>

definition vals_of :: "(int \<times> int) list \<Rightarrow> int set \<Rightarrow> int set" where
  "vals_of ids K = {i. \<exists>k\<in>K. map_of ids k = Some i}"

lemma vals_of_points: "map Some xs = map (map_of ids) ks \<Longrightarrow> set xs = vals_of ids (set ks)"
proof -
  assume eq: "map Some xs = map (map_of ids) ks"
  have "x \<in> set xs \<longleftrightarrow> Some x \<in> set (map Some xs)" for x by auto
  then show ?thesis unfolding eq vals_of_def by (auto simp: image_iff) (metis)+
qed

lemma map_of_inj:
  assumes "distinct (map snd ids)" "map_of ids k = Some i" "map_of ids l = Some i"
  shows "k = l"
  using assms by (metis distinct_map inj_onD map_of_SomeD prod.inject snd_conv)

lemma distinct_points:
  assumes "map Some xs = map (map_of ids) ks" "distinct ks" "distinct (map snd ids)"
  shows "distinct xs"
proof -
  have "inj_on (map_of ids) (set ks)"
  proof (rule inj_onI)
    fix k l
    assume kl: "k \<in> set ks" "l \<in> set ks" "map_of ids k = map_of ids l"
    have "map_of ids k \<in> set (map Some xs)" unfolding assms(1) using kl(1) by simp
    then show "k = l" using kl(3) map_of_inj [OF assms(3)] by auto
  qed
  then have "distinct (map Some xs)" unfolding assms(1) using assms(2) by (simp add: distinct_map)
  then show ?thesis by (simp add: distinct_map)
qed

lemma vals_of_keys: "distinct (map fst ids) \<Longrightarrow> set (map fst ids) \<subseteq> K \<Longrightarrow> vals_of ids K = set (map snd ids)"
  by (force simp: vals_of_def map_of_eq_Some_iff dest: map_of_SomeD)

lemma vals_of_sub: "vals_of ids K \<subseteq> set (map snd ids)"
  by (force simp: vals_of_def dest: map_of_SomeD)

lemma vals_of_new:
  assumes "length new = length ks" "distinct ks" "set ks \<inter> set (map fst ids) = {}"
  shows "vals_of (ids @ zip ks new) (set ks) = set new"
proof -
  have "map_of (ids @ zip ks new) k = map_of (zip ks new) k" if "k \<in> set ks" for k
  proof -
    have "k \<notin> set (map fst ids)" using assms(3) that by blast
    then have "map_of ids k = None" by (simp add: map_of_eq_None_iff)
    then show ?thesis by (simp add: map_add_def split: option.split)
  qed
  then have "vals_of (ids @ zip ks new) (set ks) = vals_of (zip ks new) (set ks)" by (auto simp: vals_of_def)
  also have "\<dots> = set new" using vals_of_keys [of "zip ks new" "set ks"] assms(1,2) by simp
  finally show ?thesis .
qed

abbreviation delete_all :: "int list \<Rightarrow> (int \<times> 'v) list \<Rightarrow> (int \<times> 'v) list" where
  "delete_all ks al \<equiv> filter (\<lambda>e. fst e \<notin> set ks) al"

lemma keys_delete_all: "set (map fst (delete_all ks al)) = set (map fst al) - set ks"
  by force

lemma delete_filter: "AList.delete k al = filter (\<lambda>e. fst e \<noteq> k) al"
  by (auto simp: AList.delete_eq intro: filter_cong)

lemma apply_points_simps [simp]:
  "apply_points ph [] s = s" "apply_points ph (p # ps) s = apply_points ph ps (apply_point ph p s)"
  by (simp_all add: apply_points_def)

lemma apply_points_end:
  "apply_points ''end'' ps s = s\<lparr>ti_active := delete_all (map tp_ID ps) (ti_active s),
     ti_browserIDs := delete_all (map tp_ID ps) (ti_browserIDs s)\<rparr>"
proof (induction ps arbitrary: s)
  case (Cons p ps)
  show ?case by (simp add: Cons.IH apply_point_def delete_filter)
qed simp

lemma apply_points_keep:
  assumes "phase \<noteq> ''end''" "phase \<noteq> ''cancel''"
  shows "\<exists>active. apply_points phase ps s = s\<lparr>ti_active := active\<rparr> \<and> set (map fst active) = set (map fst (ti_active s)) \<union> set (map tp_ID ps) \<and>
    (distinct (map fst (ti_active s)) \<longrightarrow> distinct (map fst active))"
proof (induction ps arbitrary: s)
  case Nil
  then show ?case by (intro exI [of _ "ti_active s"]) simp
next
  case (Cons p ps)
  define s1 where "s1 = s\<lparr>ti_active := AList.update (tp_ID p) p (ti_active s)\<rparr>"
  have step: "apply_point phase p s = s1" using assms by (simp add: apply_point_def s1_def)
  obtain active where a: "apply_points phase ps s1 = s1\<lparr>ti_active := active\<rparr>"
    "set (map fst active) = set (map fst (ti_active s1)) \<union> set (map tp_ID ps)" "distinct (map fst (ti_active s1)) \<longrightarrow> distinct (map fst active)"
    using Cons.IH by blast
  have "set (map fst (ti_active s1)) = insert (tp_ID p) (set (map fst (ti_active s)))" by (simp add: s1_def dom_update)
  moreover have "distinct (map fst (ti_active s)) \<longrightarrow> distinct (map fst (ti_active s1))" by (simp add: s1_def distinct_update)
  ultimately show ?case using a by (intro exI [of _ active]) (auto simp: step, simp_all add: s1_def)
qed

lemma snd_delete_all:
  assumes "distinct (map fst ids)" "distinct (map snd ids)"
  shows "set (map snd (delete_all ks ids)) = set (map snd ids) - vals_of ids (set ks)"
proof -
  have "i \<in> vals_of ids (set ks) \<longleftrightarrow> k \<in> set ks" if "(k, i) \<in> set ids" for k i
    using that assms map_of_inj [OF assms(2)] by (auto simp: vals_of_def)
  then show ?thesis by force
qed

section \<open>One command\<close>

lemma cancelActive_ids [simp]:
  "touch_cancelActive (s\<lparr>ti_browserIDs := x\<rparr>) = touch_cancelActive s"
  "touch_cancelActive (s\<lparr>ti_viewport := v\<rparr>) = touch_cancelActive s"
  by (simp_all add: touch_cancelActive_def touch_reset_def effect_def)

definition touch_type :: "string \<Rightarrow> string" where
  "touch_type phase = ''touch'' @ stringsTitle phase"

definition sent_points :: "touch_command \<Rightarrow> cdp_point list \<Rightarrow> touch_input \<Rightarrow> cdp_point list" where
  "sent_points c points s =
    (if tc_Phase c = ''cancel'' then []
     else if tc_Phase c = ''end'' \<and> length (tc_Points c) = length (ti_active s) then [] else points)"

lemma apply_point_frame:
  "ti_active t = ti_active u \<Longrightarrow> ti_active (apply_point ph p t) = ti_active (apply_point ph p u)"
  "ti_browserIDs t = ti_browserIDs u \<Longrightarrow> ti_browserIDs (apply_point ph p t) = ti_browserIDs (apply_point ph p u)"
  "ti_owner (apply_point ph p t) = ti_owner t" "ti_session (apply_point ph p t) = ti_session t"
  "ti_effects (apply_point ph p t) = ti_effects t"
  by (simp_all add: apply_point_def)

lemma apply_points_frame:
  "ti_owner (apply_points ph ps t) = ti_owner t" "ti_session (apply_points ph ps t) = ti_session t"
  "ti_effects (apply_points ph ps t) = ti_effects t"
  by (induction ps arbitrary: t) (simp_all add: apply_point_frame(3-5))

lemma apply_points_cong:
  assumes "ti_active t = ti_active u" "ti_browserIDs t = ti_browserIDs u"
  shows "ti_active (apply_points ph ps t) = ti_active (apply_points ph ps u) \<and>
    ti_browserIDs (apply_points ph ps t) = ti_browserIDs (apply_points ph ps u)"
  using assms
proof (induction ps arbitrary: t u)
  case (Cons p ps)
  show ?case unfolding apply_points_simps
    by (rule Cons.IH [OF apply_point_frame(1) [OF Cons.prems(1)] apply_point_frame(2) [OF Cons.prems(2)]])
qed simp

lemma touch_dispatch_fields:
  fixes w :: touch_work and c :: touch_command and points :: "cdp_point list" and s :: touch_input
  assumes "ev_dispatched env"
  defines "r \<equiv> touch_dispatch env w c points s" and "a \<equiv> apply_points (tc_Phase c) (tc_Points c) s"
  shows "contact_run (ti_effects r) down = contact_run (ti_effects s @ [TouchEvent (ev_session env) (touch_type (tc_Phase c)) (sent_points c points s) None]) down"
    and "tc_Phase c = ''cancel'' \<or> ti_active a = [] \<Longrightarrow> ti_owner r = None \<and> ti_active r = [] \<and> ti_browserIDs r = []"
    and "tc_Phase c \<noteq> ''cancel'' \<Longrightarrow> ti_active a \<noteq> [] \<Longrightarrow>
      ti_owner r = ti_owner s \<and> ti_session r = ti_session s \<and> ti_active r = ti_active a \<and> ti_browserIDs r = ti_browserIDs a"
proof -
  define ns where "ns = (if ev_nowNS env \<le> ti_lastEventNS s then ti_lastEventNS s + 1 else ev_nowNS env)"
  define t0 where "t0 = effect (TouchEvent (ev_session env) (''touch'' @ stringsTitle (tc_Phase c)) (sent_points c points s)
        (Some (f_div (f_of_int ns) (f_of_int second)))) s"
  define t1 where "t1 = (if tc_Phase c = ''move'' then t0\<lparr>ti_lastMoveSent := ev_sent env\<rparr> else t0)"
  define t where "t = t1\<lparr>ti_lastSeq := tc_Sequence c, ti_lastEventNS := ns, ti_lastClientNS := tc_TimestampNS c\<rparr>"
  define u0 where "u0 = effect (TouchAccepted (tc_IID c) (tw_receivedNS w)) (apply_points (tc_Phase c) (tc_Points c) t)"
  define u where "u = (if tc_Phase c = ''move'' then effect (MotionPhase ''move'') u0 else u0)"
  have r: "r = (if tc_Phase c = ''cancel'' \<or> length (ti_active u) = 0 then touch_reset (effect (MotionPhase ''end'') u) else u)"
    unfolding r_def touch_dispatch_def u_def u0_def t_def t1_def t0_def ns_def sent_points_def Let_def
    by (simp only: assms(1) not_True_eq_False if_False)
  have t: "ti_active t = ti_active s" "ti_browserIDs t = ti_browserIDs s" "ti_owner t = ti_owner s" "ti_session t = ti_session s"
    by (simp_all add: t_def t1_def t0_def)
  have u: "ti_active u = ti_active a" "ti_browserIDs u = ti_browserIDs a" "ti_owner u = ti_owner s" "ti_session u = ti_session s"
    using apply_points_cong [OF t(1,2)] t(3,4) by (simp_all add: u_def u0_def a_def apply_points_frame)
  have "contact_run (ti_effects u) down = contact_run (ti_effects s @ [TouchEvent (ev_session env) (touch_type (tc_Phase c)) (sent_points c points s) None]) down"
  proof -
    have t: "ti_effects t = ti_effects s @ [TouchEvent (ev_session env) (touch_type (tc_Phase c)) (sent_points c points s) (Some (f_div (f_of_int ns) (f_of_int second)))]"
      by (simp add: t_def t1_def t0_def touch_type_def)
    show ?thesis by (simp add: u_def u0_def apply_points_frame t contact_run_append split: option.split)
  qed
  then show "contact_run (ti_effects r) down = contact_run (ti_effects s @ [TouchEvent (ev_session env) (touch_type (tc_Phase c)) (sent_points c points s) None]) down"
    by (simp add: r contact_run_append split: option.split)
  show "ti_owner r = None \<and> ti_active r = [] \<and> ti_browserIDs r = []" if "tc_Phase c = ''cancel'' \<or> ti_active a = []"
    using that by (auto simp: r u)
  show "ti_owner r = ti_owner s \<and> ti_session r = ti_session s \<and> ti_active r = ti_active a \<and> ti_browserIDs r = ti_browserIDs a"
    if "tc_Phase c \<noteq> ''cancel''" "ti_active a \<noteq> []"
    using that by (simp add: r u)
qed

lemma dispatch_inv:
  assumes "ev_dispatched env" "contact_run (ti_effects s) (\<lambda>_. {}) = Some (\<lambda>x. if x = ti_session s then D else {})"
    "ti_owner s \<noteq> None" "ti_session s = ev_session env" "ti_session s \<noteq> []"
    "contact_event (touch_type (tc_Phase c)) (sent_points c points s) D = Some D'"
    "tc_Phase c = ''cancel'' \<or> ti_active (apply_points (tc_Phase c) (tc_Points c) s) = [] \<Longrightarrow> D' = {}"
    "tc_Phase c \<noteq> ''cancel'' \<Longrightarrow> ti_active (apply_points (tc_Phase c) (tc_Points c) s) \<noteq> [] \<Longrightarrow>
       ids_ok (ti_active (apply_points (tc_Phase c) (tc_Points c) s)) (ti_browserIDs (apply_points (tc_Phase c) (tc_Points c) s)) \<and>
       D' = set (map snd (ti_browserIDs (apply_points (tc_Phase c) (tc_Points c) s)))"
  shows "touch_inv (touch_dispatch env w c points s)"
proof -
  define r a where "r = touch_dispatch env w c points s" and "a = apply_points (tc_Phase c) (tc_Points c) s"
  note f = touch_dispatch_fields [OF assms(1), where w = w and c = c and points = points and s = s, folded r_def a_def]
  have upd: "(\<lambda>x. if x = ti_session s then D else {})(ti_session s := D') = (\<lambda>x. if x = ti_session s then D' else {})" by (simp add: fun_eq_iff)
  have run: "contact_run (ti_effects r) (\<lambda>_. {}) = Some (\<lambda>x. if x = ti_session s then D' else {})"
    unfolding f(1) contact_run_append assms(2) using assms(4,6) upd by simp
  show ?thesis
  proof (cases "tc_Phase c = ''cancel'' \<or> ti_active a = []")
    case True
    have "D' = {}" using assms(7) True by (simp add: a_def)
    then have "contact_run (ti_effects r) (\<lambda>_. {}) = Some (\<lambda>_. {})" using run by (simp add: if_distrib cong: if_cong)
    then show ?thesis unfolding r_def [symmetric] using f(2) [OF True] by (simp add: touch_inv_def touch_down_def)
  next
    case False
    have ok: "ids_ok (ti_active a) (ti_browserIDs a)" "D' = set (map snd (ti_browserIDs a))" using assms(8) False by (auto simp: a_def)
    have fr: "ti_owner r = ti_owner s" "ti_session r = ti_session s" "ti_active r = ti_active a" "ti_browserIDs r = ti_browserIDs a"
      using f(3) False by auto
    have "touch_down r = (\<lambda>x. if x = ti_session s then D' else {})" using fr ok(2) assms(3) by (simp add: touch_down_def fun_eq_iff)
    then show ?thesis unfolding r_def [symmetric] touch_inv_def using fr ok(1) assms(3,5) False run by simp
  qed
qed

lemma touch_types [simp]:
  "touch_type ''start'' = ''touchStart''" "touch_type ''move'' = ''touchMove''" "touch_type ''end'' = ''touchEnd''" "touch_type ''cancel'' = ''touchCancel''"
  by (simp_all add: touch_type_def stringsTitle_def)

lemma tracked_down:
  assumes "tracked s" "ti_owner s \<noteq> None"
  shows "contact_run (ti_effects s) (\<lambda>_. {}) = Some (\<lambda>x. if x = ti_session s then set (map snd (ti_browserIDs s)) else {})"
  using assms by (simp add: tracked_def touch_down_def)

lemma dispatch_start:
  assumes "tracked s" "ti_owner s \<noteq> None" "ev_dispatched env" "ti_session s = ev_session env" "tc_Phase c = ''start''" "tc_Points c \<noteq> []"
    "check_points ''start'' (ti_active s) (tc_Points c) [] (ti_browserIDs s) = Some (seen, ids)"
    "map_points ids v (tc_Points c) = Some points"
  shows "touch_inv (touch_dispatch env w c points (s\<lparr>ti_browserIDs := ids\<rparr>))"
proof -
  define ks where "ks = map tp_ID (tc_Points c)"
  have ok: "ids_ok (ti_active s) (ti_browserIDs s)" using assms(1) by (simp add: tracked_def)
  obtain new where new: "ids = ti_browserIDs s @ zip ks new" "length new = length (tc_Points c)" "distinct (map fst ids)" "distinct (map snd ids)"
    "set (map snd ids) \<subseteq> {0..<int maxTouchContacts}" "set ks \<inter> set (map fst (ti_active s)) = {}"
  proof -
    have "\<exists>new. ids = ti_browserIDs s @ zip ks new \<and> length new = length (tc_Points c) \<and> distinct (map fst ids) \<and> distinct (map snd ids) \<and>
      set (map snd ids) \<subseteq> {0..<int maxTouchContacts} \<and> set ks \<inter> set (map fst (ti_active s)) = {}"
      unfolding ks_def by (rule check_points_start [OF assms(7)]) (use ok in \<open>simp_all add: ids_ok_def\<close>)
    then show thesis using that by blast
  qed
  have len: "length new = length ks" by (simp add: new(2) ks_def)
  have dks: "distinct ks" "set ks \<inter> set (map fst (ti_browserIDs s)) = {}" using new(3) len by (auto simp: new(1))
  have pts: "map Some (point_ids points) = map (map_of ids) ks" using map_points_ids [OF assms(8)] by (simp add: ks_def)
  have set: "set (point_ids points) = set new"
    using vals_of_points [OF pts] vals_of_new [OF len dks] by (simp add: new(1))
  have dist: "distinct (point_ids points)" by (rule distinct_points [OF pts dks(1) new(4)])
  have ne: "points \<noteq> []" using map_points_length [OF assms(8)] assms(6) by auto
  have "distinct new" "set new \<inter> set (map snd (ti_browserIDs s)) = {}" "set new \<subseteq> {0..<int maxTouchContacts}"
    using new(4,5) len by (auto simp: new(1))
  then have ev: "contact_event ''touchStart'' points (set (map snd (ti_browserIDs s))) = Some (set (map snd ids))"
    using ne dist len by (auto simp: contact_event_def Let_def set new(1))
  obtain active where act: "apply_points ''start'' (tc_Points c) (s\<lparr>ti_browserIDs := ids\<rparr>) = s\<lparr>ti_browserIDs := ids, ti_active := active\<rparr>"
    "set (map fst active) = set (map fst (ti_active s)) \<union> set ks" "distinct (map fst active)"
    using apply_points_keep [of "''start''" "tc_Points c" "s\<lparr>ti_browserIDs := ids\<rparr>"] ok unfolding ids_ok_def ks_def by auto
  have "set (map fst ids) = set (map fst (ti_browserIDs s)) \<union> set ks" using len by (simp add: new(1))
  then have "ids_ok active ids" using act(2,3) new(3-5) ok by (auto simp: ids_ok_def)
  moreover have "active \<noteq> []" using act(2) assms(6) by (auto simp: ks_def)
  moreover have "sent_points c points (s\<lparr>ti_browserIDs := ids\<rparr>) = points" using assms(5) by (simp add: sent_points_def)
  ultimately show ?thesis
    by (intro dispatch_inv [where D = "set (map snd (ti_browserIDs s))" and D' = "set (map snd ids)"])
      (use assms(1-5) act(1) ev tracked_down [OF assms(1,2)] in \<open>simp_all add: tracked_def\<close>)
qed

lemma dispatch_move:
  assumes "tracked s" "ti_owner s \<noteq> None" "ev_dispatched env" "ti_session s = ev_session env" "tc_Phase c = ''move''" "tc_Points c \<noteq> []"
    "check_points ''move'' (ti_active s) (tc_Points c) [] (ti_browserIDs s) = Some (seen, ids)" "length seen = length (ti_active s)"
    "map_points (ti_browserIDs s) v (tc_Points c) = Some points"
  shows "touch_inv (touch_dispatch env w c points s)"
proof -
  define ks where "ks = map tp_ID (tc_Points c)"
  have ok: "ids_ok (ti_active s) (ti_browserIDs s)" using assms(1) by (simp add: tracked_def)
  have chk: "distinct ks" "length ks = length (ti_active s)" "set ks \<subseteq> set (map fst (ti_active s))"
    using check_points_other [OF assms(7)] assms(8) by (auto simp: ks_def)
  have "card (set ks) = card (set (map fst (ti_active s)))"
    using chk(1,2) ok distinct_card by (metis ids_ok_def length_map)
  then have keys: "set ks = set (map fst (ti_browserIDs s))" using card_subset_eq [OF _ chk(3)] ok by (simp add: ids_ok_def)
  have pts: "map Some (point_ids points) = map (map_of (ti_browserIDs s)) ks" using map_points_ids [OF assms(9)] by (simp add: ks_def)
  have set: "set (point_ids points) = set (map snd (ti_browserIDs s))"
    using vals_of_points [OF pts] vals_of_keys [of "ti_browserIDs s" "set ks"] keys ok by (simp add: ids_ok_def)
  have dist: "distinct (point_ids points)" using ok by (intro distinct_points [OF pts chk(1)]) (simp add: ids_ok_def)
  have ne: "points \<noteq> []" using map_points_length [OF assms(9)] assms(6) by auto
  have ev: "contact_event ''touchMove'' points (set (map snd (ti_browserIDs s))) = Some (set (map snd (ti_browserIDs s)))"
    using ne dist by (simp add: contact_event_def Let_def set)
  obtain active where act: "apply_points ''move'' (tc_Points c) s = s\<lparr>ti_active := active\<rparr>"
    "set (map fst active) = set (map fst (ti_active s)) \<union> set ks" "distinct (map fst active)"
    using apply_points_keep [of "''move''" "tc_Points c" s] ok unfolding ids_ok_def ks_def by auto
  have "ids_ok active (ti_browserIDs s)" using act(2,3) ok keys by (auto simp: ids_ok_def)
  moreover have "active \<noteq> []" using act(2) assms(6) by (auto simp: ks_def)
  moreover have "sent_points c points s = points" using assms(5) by (simp add: sent_points_def)
  ultimately show ?thesis
    by (intro dispatch_inv [where D = "set (map snd (ti_browserIDs s))" and D' = "set (map snd (ti_browserIDs s))"])
      (use assms(1-5) act(1) ev tracked_down [OF assms(1,2)] in \<open>simp_all add: tracked_def\<close>)
qed

lemma dispatch_end:
  assumes "tracked s" "ti_owner s \<noteq> None" "ev_dispatched env" "ti_session s = ev_session env" "tc_Phase c = ''end''" "tc_Points c \<noteq> []"
    "check_points ''end'' (ti_active s) (tc_Points c) [] (ti_browserIDs s) = Some (seen, ids)"
    "map_points (ti_browserIDs s) v (tc_Points c) = Some points"
  shows "touch_inv (touch_dispatch env w c points s)"
proof -
  define ks where "ks = map tp_ID (tc_Points c)"
  define D where "D = set (map snd (ti_browserIDs s))"
  define D' where "D' = set (map snd (delete_all ks (ti_browserIDs s)))"
  have ok: "ids_ok (ti_active s) (ti_browserIDs s)" using assms(1) by (simp add: tracked_def)
  have dist: "distinct (map fst (ti_browserIDs s))" "distinct (map snd (ti_browserIDs s))" "distinct (map fst (ti_active s))"
    and keys: "set (map fst (ti_active s)) = set (map fst (ti_browserIDs s))"
    using ok by (simp_all add: ids_ok_def)
  have chk: "distinct ks" "set ks \<subseteq> set (map fst (ti_active s))"
    using check_points_other [OF assms(7)] by (auto simp: ks_def)
  have ks: "ks \<noteq> []" using assms(6) by (simp add: ks_def)
  have D': "D' = D - vals_of (ti_browserIDs s) (set ks)" unfolding D'_def D_def by (rule snd_delete_all [OF dist(1,2)])
  have pts: "map Some (point_ids points) = map (map_of (ti_browserIDs s)) ks" using map_points_ids [OF assms(8)] by (simp add: ks_def)
  have ids: "set (point_ids points) = vals_of (ti_browserIDs s) (set ks)" by (rule vals_of_points [OF pts])
  have left: "delete_all ks (ti_active s) = [] \<longleftrightarrow> length ks = length (ti_active s)"
  proof -
    have "delete_all ks (ti_active s) = [] \<longleftrightarrow> set (map fst (ti_active s)) \<subseteq> set ks" by (auto simp: filter_empty_conv)
    also have "\<dots> \<longleftrightarrow> card (set ks) = card (set (map fst (ti_active s)))"
      using chk(2) card_subset_eq [OF finite_set chk(2)] by (metis subset_antisym subset_refl)
    also have "\<dots> \<longleftrightarrow> length ks = length (ti_active s)" using distinct_card [OF chk(1)] distinct_card [OF dist(3)] by simp
    finally show ?thesis .
  qed
  have same_left: "delete_all ks (ti_browserIDs s) = [] \<longleftrightarrow> delete_all ks (ti_active s) = []"
    using keys by (simp add: filter_empty_conv) (metis (no_types, lifting) imageE imageI)
  have ev: "contact_event ''touchEnd'' (sent_points c points s) D = Some D'"
  proof (cases "length ks = length (ti_active s)")
    case True
    have "D' = {}" using True left same_left unfolding D'_def set_empty map_is_Nil_conv by blast
    moreover have "D \<noteq> {}" using chk(2) ks keys by (auto simp: D_def)
    ultimately show ?thesis using True assms(5) by (simp add: contact_event_def sent_points_def ks_def)
  next
    case False
    have "D' \<noteq> {}" using False left same_left unfolding D'_def set_empty map_is_Nil_conv by blast
    then have "vals_of (ti_browserIDs s) (set ks) \<subset> D" using D' vals_of_sub [of "ti_browserIDs s" "set ks"] by (auto simp: D_def)
    moreover have "points \<noteq> []" using map_points_length [OF assms(8)] assms(6) by auto
    moreover have "sent_points c points s = points" using False assms(5) by (simp add: sent_points_def ks_def)
    ultimately show ?thesis using distinct_points [OF pts chk(1) dist(2)] by (simp add: contact_event_def Let_def ids D')
  qed
  have app: "apply_points ''end'' (tc_Points c) s = s\<lparr>ti_active := delete_all ks (ti_active s), ti_browserIDs := delete_all ks (ti_browserIDs s)\<rparr>"
    by (simp add: apply_points_end ks_def)
  have "ids_ok (delete_all ks (ti_active s)) (delete_all ks (ti_browserIDs s))"
    using ok unfolding ids_ok_def keys_delete_all by (simp add: distinct_map_filter) blast
  moreover have "contact_run (ti_effects s) (\<lambda>_. {}) = Some (\<lambda>x. if x = ti_session s then D else {})"
    unfolding D_def by (rule tracked_down [OF assms(1,2)])
  moreover have "D' = {}" if "delete_all ks (ti_active s) = []"
    using that same_left unfolding D'_def set_empty map_is_Nil_conv by blast
  ultimately show ?thesis
    by (intro dispatch_inv [where D = D and D' = D'])
      (use assms(1-5) app ev in \<open>simp_all add: tracked_def D'_def [symmetric] del: set_filter\<close>, simp add: D'_def)
qed

lemma dispatch_cancel:
  assumes "touch_inv s" "ti_owner s \<noteq> None" "ev_dispatched env" "ti_session s = ev_session env" "tc_Phase c = ''cancel''"
  shows "touch_inv (touch_dispatch env w c points s)"
proof -
  have "ti_browserIDs s \<noteq> []" using assms(1,2) ids_ok_length [of "ti_active s" "ti_browserIDs s"] by (auto simp: touch_inv_def)
  then have "contact_event ''touchCancel'' [] (set (map snd (ti_browserIDs s))) = Some {}" by (simp add: contact_event_def)
  then show ?thesis
    by (intro dispatch_inv [where D = "set (map snd (ti_browserIDs s))" and D' = "{}"])
      (use assms tracked_down [OF tracked_inv [OF assms(1)] assms(2)] in \<open>simp_all add: touch_inv_def sent_points_def\<close>)
qed

lemma phases:
  assumes "validTouchCommand (Some c)"
  obtains "tc_Phase c = ''start''" "tc_Points c \<noteq> []" | "tc_Phase c = ''move''" "tc_Points c \<noteq> []"
  | "tc_Phase c = ''end''" "tc_Points c \<noteq> []" | "tc_Phase c = ''cancel''" "tc_Points c = []"
  using assms unfolding validTouchCommand_def by (simp split: if_splits) blast+

lemma inv_checked:
  assumes "tracked s" "ti_active s = [] \<Longrightarrow> tc_Phase c = ''start''" "ti_owner s \<noteq> None" "validTouchCommand (Some c)" "ev_dispatched env"
    "ti_session s = ev_session env"
  shows "touch_inv (touch_checked env w c s)"
proof (cases "check_points (tc_Phase c) (ti_active s) (tc_Points c) [] (ti_browserIDs s)")
  case None
  then show ?thesis using inv_cancelActive [OF assms(1)] by (simp add: touch_checked_def)
next
  case (Some r)
  obtain seen ids where r: "r = (seen, ids)" by (cases r)
  note other = check_points_other [OF Some [unfolded r]]
  show ?thesis
  proof (cases "(tc_Phase c = ''move'' \<and> length seen \<noteq> length (ti_active s)) \<or> map_points ids (ti_viewport s) (tc_Points c) = None")
    case True
    then have "touch_checked env w c s = touch_cancelActive s" by (auto simp: touch_checked_def Some r Let_def)
    then show ?thesis using inv_cancelActive [OF assms(1)] by simp
  next
    case False
    then obtain points where pts: "map_points ids (ti_viewport s) (tc_Points c) = Some points" by auto
    have eq: "touch_checked env w c s = touch_dispatch env w c points (s\<lparr>ti_browserIDs := ids\<rparr>)"
      using False pts by (auto simp: touch_checked_def Some r Let_def)
    have same: "ids = ti_browserIDs s" "s\<lparr>ti_browserIDs := ids\<rparr> = s" if "tc_Phase c \<noteq> ''start''" using other that by simp_all
    show ?thesis unfolding eq
    proof (rule phases [OF assms(4)])
      assume ph: "tc_Phase c = ''start''" "tc_Points c \<noteq> []"
      show "touch_inv (touch_dispatch env w c points (s\<lparr>ti_browserIDs := ids\<rparr>))"
        by (rule dispatch_start [OF assms(1,3,5,6) ph Some [unfolded r ph(1)] pts])
    next
      assume ph: "tc_Phase c = ''move''" "tc_Points c \<noteq> []"
      have ne: "tc_Phase c \<noteq> ''start''" using ph by simp
      have l: "length seen = length (ti_active s)" using False ph by simp
      show "touch_inv (touch_dispatch env w c points (s\<lparr>ti_browserIDs := ids\<rparr>))"
        unfolding same(2) [OF ne] by (rule dispatch_move [OF assms(1,3,5,6) ph Some [unfolded r ph(1)] l pts [unfolded same(1) [OF ne]]])
    next
      assume ph: "tc_Phase c = ''end''" "tc_Points c \<noteq> []"
      have ne: "tc_Phase c \<noteq> ''start''" using ph by simp
      show "touch_inv (touch_dispatch env w c points (s\<lparr>ti_browserIDs := ids\<rparr>))"
        unfolding same(2) [OF ne] by (rule dispatch_end [OF assms(1,3,5,6) ph Some [unfolded r ph(1)] pts [unfolded same(1) [OF ne]]])
    next
      assume ph: "tc_Phase c = ''cancel''"
      have ne: "tc_Phase c \<noteq> ''start''" using ph by simp
      have "touch_inv s" using assms(1-3) ne by (auto simp: touch_inv_def tracked_def)
      then show "touch_inv (touch_dispatch env w c points (s\<lparr>ti_browserIDs := ids\<rparr>))"
        unfolding same(2) [OF ne] by (rule dispatch_cancel [OF _ assms(3,5,6) ph])
    qed
  qed
qed

lemma inv_gesture:
  assumes "tracked s" "ti_active s = [] \<Longrightarrow> tc_Phase c = ''start''" "ti_owner s \<noteq> None" "validTouchCommand (Some c)" "ev_dispatched env"
  shows "touch_inv (touch_gesture env w c s)"
proof -
  note cancel = inv_cancelActive [OF assms(1)]
  have tv: "tracked (s\<lparr>ti_viewport := v\<rparr>)" for v using assms(1) by (simp add: tracked_def)
  have chk: "touch_inv (touch_checked env w c s)" "touch_inv (touch_checked env w c (s\<lparr>ti_viewport := v\<rparr>))"
    if "ti_session s = ev_session env" for v
    by (rule inv_checked; use assms tv that in simp)+
  show ?thesis using cancel chk by (simp add: touch_gesture_def split: option.split)
qed

lemma inv_process:
  assumes "touch_inv s" "ev_dispatched env"
  shows "touch_inv (touch_process env w s)"
proof -
  note cancel = inv_cancelActive [OF tracked_inv [OF assms(1)]]
  show ?thesis
  proof (cases "ev_suspended env \<or> \<not> validTouchCommand (tw_command w)")
    case True
    then show ?thesis using assms(1) cancel by (auto simp: touch_process_def)
  next
    case False
    then obtain c where c: "tw_command w = Some c" "validTouchCommand (Some c)"
      by (cases "tw_command w") (auto simp: validTouchCommand_def)
    show ?thesis
    proof (cases "ev_closed env \<or> ev_session env = [] \<or> ev_surface env \<noteq> tc_Surface c")
      case True
      then have "touch_process env w s = touch_cancelActive s" using False unfolding touch_process_def Let_def c(1) option.sel by auto
      then show ?thesis using cancel by simp
    next
      case ok: False
      show ?thesis
      proof (cases "ti_owner s")
        case None
        have p: "touch_process env w s = (if tc_Phase c \<noteq> ''start'' then s
             else (case loadViewport (ev_first env) of None \<Rightarrow> s
                   | Some v \<Rightarrow> touch_gesture env w c (touch_acquire (tw_client w) (ev_session env) (ev_surface env) v s)))"
          using False ok None unfolding touch_process_def Let_def c(1) option.sel by simp
        have "touch_inv (touch_gesture env w c (touch_acquire (tw_client w) (ev_session env) (ev_surface env) v s))"
          if "tc_Phase c = ''start''" for v
        proof (rule inv_gesture)
          have "touch_down s = (\<lambda>_. {})" using None by (simp add: touch_down_def)
          then show "tracked (touch_acquire (tw_client w) (ev_session env) (ev_surface env) v s)"
            using assms(1) ok by (simp add: tracked_def touch_inv_def touch_acquire_def contact_run_append) (simp add: touch_down_def fun_eq_iff)
        qed (use that c(2) assms(2) in \<open>simp_all add: touch_acquire_def\<close>)
        then show ?thesis using assms(1) unfolding p by (simp split: option.split)
      next
        case (Some o)
        have "touch_process env w s = touch_gesture env w c s"
          using False ok Some unfolding touch_process_def Let_def c(1) option.sel by simp
        moreover have "touch_inv (touch_gesture env w c s)"
          by (rule inv_gesture [OF tracked_inv [OF assms(1)] _ _ c(2) assms(2)]) (use assms(1) Some in \<open>auto simp: touch_inv_def\<close>)
        ultimately show ?thesis by simp
      qed
    qed
  qed
qed

section \<open>The lane\<close>

datatype touch_op =
    TEnqueue nat touch_command uint64
  | TCancel bool
  | TRun touch_env

fun touch_step :: "touch_op \<Rightarrow> touch_input \<Rightarrow> touch_input" where
  "touch_step (TEnqueue client c ns) s = touch_enqueue client c ns s"
| "touch_step (TCancel wait) s = touch_cancel wait s"
| "touch_step (TRun env) s = touch_run env s"

fun connected :: "touch_op \<Rightarrow> bool" where
  "connected (TRun env) = ev_dispatched env"
| "connected _ = True"

lemma inv_queue: "touch_inv s \<Longrightarrow> touch_inv (s\<lparr>ti_queue := q\<rparr>)"
  by (simp add: touch_inv_def)

lemma inv_touch_step:
  assumes "touch_inv s" "connected e"
  shows "touch_inv (touch_step e s)"
proof (cases e)
  case (TEnqueue client c ns)
  have "touch_inv (effect (CloseClient client) s)" using assms(1) by (simp add: touch_inv_def contact_run_append)
  then show ?thesis using inv_queue [OF assms(1)] by (simp add: TEnqueue touch_enqueue_def split: option.split)
next
  case (TCancel wait)
  then show ?thesis using inv_queue [OF assms(1)] by (simp add: touch_cancel_def)
next
  case (TRun env)
  then show ?thesis using inv_process [OF inv_queue [OF assms(1)]] inv_cancelActive [OF tracked_inv [OF inv_queue [OF assms(1)]]] assms
    by (simp add: touch_run_def Let_def split: list.split)
qed

lemma inv_touch_run: "list_all connected es \<Longrightarrow> touch_inv s \<Longrightarrow> touch_inv (fold touch_step es s)"
  by (induction es arbitrary: s) (simp_all add: inv_touch_step)

text \<open>
  C18 (refinement). Whatever clients send and however the lane's operations interleave, as long as the connection to
  Chromium accepts the writes, the dispatched events form a legal contact protocol in every session: a start puts
  down only contacts that are up, with identifiers below five; a move is a snapshot of exactly the
  contacts that are down; an end lifts contacts that are down; nothing is cancelled on an empty surface.
  The contacts down in a session are those of the lane's own gesture, and none without a gesture.
\<close>
theorem touch_stream_legal:
  assumes "list_all connected es"
  shows "contact_run (ti_effects (fold touch_step es newTouchInput)) (\<lambda>_. {}) = Some (touch_down (fold touch_step es newTouchInput))"
proof -
  have "touch_inv newTouchInput" by (simp add: newTouchInput_def touch_inv_def touch_down_def)
  from inv_touch_run [OF assms this] show ?thesis by (simp add: touch_inv_def)
qed

definition finger :: "int \<Rightarrow> touch_point" where
  "finger i = \<lparr>tp_ID = i, tp_X = Fin 0, tp_Y = Fin 1, tp_RadiusX = Fin 0, tp_RadiusY = Fin 0, tp_Force = Fin 0\<rparr>"

definition desk :: touch_env where
  "desk = \<lparr>ev_suspended = False, ev_closed = False, ev_session = ''S'', ev_surface = 7,
     ev_first = Some \<lparr>vw_OffsetX = Fin 0, vw_OffsetY = Fin 0, vw_ClientWidth = Fin 1, vw_ClientHeight = Fin 1, vw_Scale = Fin 1\<rparr>,
     ev_again = None, ev_nowNS = 0, ev_sent = 1, ev_dispatched = True\<rparr>"

definition one_touch :: "touch_op list" where
  "one_touch = [TEnqueue 1 \<lparr>tc_IID = 0, tc_Phase = ''start'', tc_Sequence = 1, tc_Surface = 7, tc_TimestampNS = 5, tc_Points = [finger 40]\<rparr> 0, TRun desk]"

lemma first_touch_id: "addBrowserTouchID 40 [] = Some (0, [(40, 0)])"
  by (simp add: addBrowserTouchID_def maxTouchContacts_def upt_rec)

lemma one_touch_down: "touch_down (fold touch_step one_touch newTouchInput) ''S'' = {0}"
  by (simp add: one_touch_def newTouchInput_def touch_enqueue_def touch_submit_def lane_append_def touchQueueLimit_def touch_run_def
      touch_process_def validTouchCommand_def maxTouchContacts_def desk_def loadViewport_def viewport_valid_def touch_acquire_def
      touch_gesture_def touch_checked_def first_touch_id mapTouchPoint_def finiteUnit_def finger_def touch_dispatch_def
      apply_point_def effect_def touch_down_def Let_def)

theorem touch_stream_legal_witness:
  "(case contact_run (ti_effects (fold touch_step one_touch newTouchInput)) (\<lambda>_. {}) of Some down \<Rightarrow> down ''S'' = {0} | None \<Rightarrow> False)"
  using touch_stream_legal [of one_touch] one_touch_down by (simp add: one_touch_def desk_def)

end
