(* ===== verification/Pointer_Input.thy ===== *)
theory Pointer_Input
  imports Touch_Input
begin

text \<open>
  The desktop input lane, \<^verbatim>\<open>backend/internal/browser/pointer_input.go\<close>, with the ordered page input of
  \<^verbatim>\<open>backend/internal/browser/input.go\<close> it shares with the controller. A queued work is a pointer command, a wheel
  command, a page command or a cancellation: the pointers of the Go struct of which exactly one is set. The
  environment and the effects are treated as in the touch lane; a write that Chromium's connection refuses leaves no
  event.
\<close>

unbundle bit_operations_syntax

section \<open>Data\<close>

definition pointerQueueLimit :: nat where "pointerQueueLimit = 64"

record pointer_command =
  pc_IID :: uint64
  pc_Phase :: string
  pc_Sequence :: uint64
  pc_Surface :: uint32
  pc_TimestampNS :: uint64
  pc_X :: f64
  pc_Y :: f64
  pc_Button :: string
  pc_Buttons :: int
  pc_Modifiers :: int
  pc_ClickCount :: int

record wheel_command =
  wc_IID :: uint64
  wc_Sequence :: uint64
  wc_Surface :: uint32
  wc_TimestampNS :: uint64
  wc_X :: f64
  wc_Y :: f64
  wc_DeltaX :: f64
  wc_DeltaY :: f64
  wc_Buttons :: int
  wc_Modifiers :: int

record key_command =
  kc_Down :: bool
  kc_Key :: string
  kc_Code :: string
  kc_KeyCode :: int
  kc_Text :: string
  kc_Modifiers :: int

record composition_command =
  cc_Phase :: string
  cc_Text :: string
  cc_SelectionStart :: int
  cc_SelectionEnd :: int

datatype page_body =
    KeyCommand key_command
  | CompositionCommand composition_command
  | TextCommand string
  | OtherCommand

record page_command =
  pg_T :: string       \<comment> \<open>\<^verbatim>\<open>Kind()\<close>\<close>
  pg_IID :: uint64
  pg_body :: page_body

datatype pointer_payload =
    Pointer pointer_command
  | Wheel wheel_command
  | Page page_command
  | Cancel bool         \<comment> \<open>\<^verbatim>\<open>done != nil\<close>\<close>

record pointer_work =
  pw_client :: nat
  pw_payload :: pointer_payload
  pw_receivedNS :: uint64

record mouse_event =
  me_type :: string
  me_x :: f64
  me_y :: f64
  me_deltaX :: f64
  me_deltaY :: f64
  me_button :: string
  me_buttons :: int
  me_modifiers :: int
  me_clickCount :: int

record key_event =
  ke_type :: string
  ke_key :: string
  ke_code :: string
  ke_keyCode :: int
  ke_modifiers :: int
  ke_text :: "string option"    \<comment> \<open>\<^verbatim>\<open>text\<close> and \<^verbatim>\<open>unmodifiedText\<close>\<close>

datatype page_event = InsertText string | KeyEvent key_event | SetComposition string int int

datatype pointer_effect =
    MouseEvent string mouse_event
  | PageEvent string page_event
  | PMotionPhase string
  | Accepted string uint64 uint64         \<comment> \<open>kind, interaction, time received\<close>
  | PCloseClient nat

record pointer_input =
  pi_queue :: "pointer_work list"
  pi_owner :: "nat option"
  pi_session :: string
  pi_surface :: uint32
  pi_lastSeq :: uint64
  pi_lastClientNS :: uint64
  pi_viewport :: viewport
  pi_buttons :: int
  pi_effects :: "pointer_effect list"

record pointer_env =
  pe_suspended :: bool
  pe_closed :: bool
  pe_session :: string
  pe_surface :: uint32
  pe_viewport :: "viewport option"
  pe_dispatched :: bool           \<comment> \<open>\<^verbatim>\<open>cdp.Dispatch\<close> returns no error\<close>

definition newPointerInput :: pointer_input where
  "newPointerInput = \<lparr>pi_queue = [], pi_owner = None, pi_session = [], pi_surface = 0, pi_lastSeq = 0, pi_lastClientNS = 0,
     pi_viewport = zero_viewport, pi_buttons = 0, pi_effects = []\<rparr>"

definition p_effect :: "pointer_effect \<Rightarrow> pointer_input \<Rightarrow> pointer_input" where
  "p_effect e s = s\<lparr>pi_effects := pi_effects s @ [e]\<rparr>"

section \<open>The queue\<close>

definition replaceable :: "pointer_work \<Rightarrow> bool" where
  "replaceable w = (case pw_payload w of Wheel _ \<Rightarrow> True | Pointer c \<Rightarrow> pc_Phase c = ''move'' | _ \<Rightarrow> False)"

definition replaceablePointerWork :: "pointer_work \<Rightarrow> pointer_work \<Rightarrow> bool" where
  "replaceablePointerWork previous next \<longleftrightarrow>
     pw_client previous = pw_client next \<and> replaceable previous \<and> replaceable next \<and>
     (case (pw_payload previous, pw_payload next) of
        (Pointer p, Pointer n) \<Rightarrow> pc_Surface p = pc_Surface n \<and> pc_Buttons p = pc_Buttons n
      | (Wheel p, Wheel n) \<Rightarrow> wc_Surface p = wc_Surface n \<and> wc_Modifiers p = wc_Modifiers n \<and> wc_Buttons p = wc_Buttons n
      | _ \<Rightarrow> False)"

definition clampWheelDelta :: "f64 \<Rightarrow> f64" where
  "clampWheelDelta value = f_max (Fin (- 4)) (f_min (Fin 4) value)"

definition coalescePointerWork :: "pointer_work \<Rightarrow> pointer_work \<Rightarrow> pointer_work" where
  "coalescePointerWork previous next =
    (case (pw_payload previous, pw_payload next) of
       (Wheel p, Wheel n) \<Rightarrow>
         next\<lparr>pw_payload := Wheel (n\<lparr>wc_DeltaX := clampWheelDelta (f_add (wc_DeltaX p) (wc_DeltaX n)),
                                      wc_DeltaY := clampWheelDelta (f_add (wc_DeltaY p) (wc_DeltaY n))\<rparr>)\<rparr>
     | _ \<Rightarrow> next)"

definition pointer_submit :: "pointer_work \<Rightarrow> pointer_work list \<Rightarrow> pointer_work list option" where
  "pointer_submit w q =
    (if q \<noteq> [] \<and> replaceablePointerWork (last q) w then Some (butlast q @ [coalescePointerWork (last q) w])
     else lane_append replaceable pointerQueueLimit w q)"

definition pointer_enqueue :: "pointer_work \<Rightarrow> pointer_input \<Rightarrow> pointer_input" where
  "pointer_enqueue w s =
    (case pointer_submit w (pi_queue s) of
       Some q \<Rightarrow> s\<lparr>pi_queue := q\<rparr>
     | None \<Rightarrow> p_effect (PCloseClient (pw_client w)) s)"

definition enqueuePointer :: "nat \<Rightarrow> pointer_command \<Rightarrow> uint64 \<Rightarrow> pointer_input \<Rightarrow> pointer_input" where
  "enqueuePointer client command receivedNS = pointer_enqueue \<lparr>pw_client = client, pw_payload = Pointer command, pw_receivedNS = receivedNS\<rparr>"

definition enqueueWheel :: "nat \<Rightarrow> wheel_command \<Rightarrow> uint64 \<Rightarrow> pointer_input \<Rightarrow> pointer_input" where
  "enqueueWheel client command receivedNS = pointer_enqueue \<lparr>pw_client = client, pw_payload = Wheel command, pw_receivedNS = receivedNS\<rparr>"

definition enqueueCommand :: "nat \<Rightarrow> page_command \<Rightarrow> uint64 \<Rightarrow> pointer_input \<Rightarrow> pointer_input" where
  "enqueueCommand client command receivedNS = pointer_enqueue \<lparr>pw_client = client, pw_payload = Page command, pw_receivedNS = receivedNS\<rparr>"

definition pointer_cancel :: "bool \<Rightarrow> pointer_input \<Rightarrow> pointer_input" where
  "pointer_cancel wait s = s\<lparr>pi_queue := pi_queue s @ [\<lparr>pw_client = 0, pw_payload = Cancel wait, pw_receivedNS = 0\<rparr>]\<rparr>"

definition pointer_cancelClient :: "nat option \<Rightarrow> pointer_input \<Rightarrow> pointer_input" where
  "pointer_cancelClient client s = (if client \<noteq> None then pointer_cancel False s else s)"

section \<open>Validation\<close>

definition validPointerCommand :: "pointer_command \<Rightarrow> bool" where
  "validPointerCommand c =
    (if pc_Sequence c = 0 \<or> pc_Surface c = 0 \<or> pc_TimestampNS c = 0 \<or> uint (pc_TimestampNS c) > 2 ^ 63 - 1
        \<or> \<not> finiteUnit (pc_X c) \<or> \<not> finiteUnit (pc_Y c) \<or> pc_Buttons c < 0 \<or> pc_Buttons c > 31
        \<or> pc_Modifiers c < 0 \<or> pc_Modifiers c > 15 \<or> pc_ClickCount c < 0 \<or> pc_ClickCount c > 3 then False
     else
       let validButton = (pc_Button c = ''none'' \<or> pc_Button c = ''left'' \<or> pc_Button c = ''middle'' \<or> pc_Button c = ''right''
             \<or> pc_Button c = ''back'' \<or> pc_Button c = ''forward'')
       in if \<not> validButton then False
          else if pc_Phase c = ''move'' \<or> pc_Phase c = ''leave'' then pc_Button c = ''none'' \<and> pc_ClickCount c = 0
          else if pc_Phase c = ''down'' \<or> pc_Phase c = ''up'' then pc_Button c \<noteq> ''none'' \<and> pc_ClickCount c > 0
          else False)"

definition wheel_delta_ok :: "f64 \<Rightarrow> bool" where
  "wheel_delta_ok d \<longleftrightarrow> d \<noteq> NaN \<and> d \<noteq> Inf False \<and> d \<noteq> Inf True \<and> f_le (Fin (- 4)) d \<and> f_le d (Fin 4)"

definition validWheelCommand :: "wheel_command \<Rightarrow> bool" where
  "validWheelCommand c \<longleftrightarrow>
     wc_Sequence c \<noteq> 0 \<and> wc_Surface c \<noteq> 0 \<and> wc_TimestampNS c \<noteq> 0 \<and> uint (wc_TimestampNS c) \<le> 2 ^ 63 - 1 \<and>
     finiteUnit (wc_X c) \<and> finiteUnit (wc_Y c) \<and> wheel_delta_ok (wc_DeltaX c) \<and> wheel_delta_ok (wc_DeltaY c) \<and>
     wc_Buttons c \<ge> 0 \<and> wc_Buttons c \<le> 31 \<and> wc_Modifiers c \<ge> 0 \<and> wc_Modifiers c \<le> 15"

section \<open>Cancellation\<close>

definition button_candidates :: "(int \<times> string) list" where
  "button_candidates = [(1, ''left''), (2, ''right''), (4, ''middle''), (8, ''back''), (16, ''forward'')]"

definition pressedButtons :: "int \<Rightarrow> (int \<times> string) list" where
  "pressedButtons buttons = filter (\<lambda>(msk, _). buttons AND msk \<noteq> 0) button_candidates"

fun release_events :: "int \<Rightarrow> (int \<times> string) list \<Rightarrow> mouse_event list" where
  \<comment> \<open>the loop of \<^verbatim>\<open>cancelActive\<close>\<close>
  "release_events remaining [] = []"
| "release_events remaining ((msk, name) # bs) =
    (let remaining = remaining AND NOT msk
     in \<lparr>me_type = ''mouseReleased'', me_x = Fin (- 1), me_y = Fin (- 1), me_deltaX = Fin 0, me_deltaY = Fin 0, me_button = name,
          me_buttons = remaining, me_modifiers = 0, me_clickCount = 1\<rparr> # release_events remaining bs)"

definition dispatch_mouse :: "bool \<Rightarrow> mouse_event \<Rightarrow> pointer_input \<Rightarrow> pointer_input" where
  "dispatch_mouse ok e s = (if ok then p_effect (MouseEvent (pi_session s) e) s else s)"

definition pointer_clear :: "pointer_input \<Rightarrow> pointer_input" where
  "pointer_clear s = s\<lparr>pi_owner := None, pi_session := [], pi_surface := 0, pi_lastSeq := 0, pi_lastClientNS := 0,
     pi_viewport := zero_viewport, pi_buttons := 0\<rparr>"

definition pointer_cancelActive :: "bool \<Rightarrow> pointer_input \<Rightarrow> pointer_input" where
  "pointer_cancelActive ok s =
     pointer_clear
       (if pi_session s \<noteq> [] \<and> pi_buttons s \<noteq> 0
        then p_effect (PMotionPhase ''end'')
               (fold (dispatch_mouse ok) (release_events (pi_buttons s) (pressedButtons (pi_buttons s))) s)
        else s)"

section \<open>Dispatch\<close>

definition pointer_type :: "string \<Rightarrow> string" where
  \<comment> \<open>a phase that is not in the map gives the empty string\<close>
  "pointer_type phase = (if phase = ''move'' \<or> phase = ''leave'' then ''mouseMoved'' else if phase = ''down'' then ''mousePressed''
     else if phase = ''up'' then ''mouseReleased'' else [])"

definition pointer_event :: "viewport \<Rightarrow> pointer_command \<Rightarrow> mouse_event" where
  "pointer_event v c =
    (let x = f_add (vw_OffsetX v) (f_mul (clampUnit (pc_X c)) (vw_ClientWidth v));
         y = f_add (vw_OffsetY v) (f_mul (clampUnit (pc_Y c)) (vw_ClientHeight v));
         (x, y) = (if pc_Phase c = ''leave'' then (Fin (- 1), Fin (- 1)) else (x, y))
     in \<lparr>me_type = pointer_type (pc_Phase c), me_x = x, me_y = y, me_deltaX = Fin 0, me_deltaY = Fin 0,
          me_button = pc_Button c, me_buttons = pc_Buttons c, me_modifiers = pc_Modifiers c, me_clickCount = pc_ClickCount c\<rparr>)"

definition pointer_phase :: "pointer_command \<Rightarrow> string option" where
  \<comment> \<open>the motion phase a dispatched command reports\<close>
  "pointer_phase c =
    (if pc_Phase c = ''down'' then Some ''begin''
     else if pc_Phase c = ''move'' then (if pc_Buttons c \<noteq> 0 then Some ''move'' else None)
     else if pc_Phase c = ''up'' then (if pc_Buttons c = 0 then Some ''end'' else None)
     else None)"

definition dispatchPointer :: "bool \<Rightarrow> pointer_command \<Rightarrow> pointer_input \<Rightarrow> bool \<times> pointer_input" where
  "dispatchPointer ok c s =
    (if \<not> ok then (False, pointer_cancelActive ok s)
     else
       let s = (dispatch_mouse ok (pointer_event (pi_viewport s) c) s)\<lparr>pi_buttons := pc_Buttons c\<rparr>
       in (True, case pointer_phase c of Some ph \<Rightarrow> p_effect (PMotionPhase ph) s | None \<Rightarrow> s))"

definition wheel_event :: "viewport \<Rightarrow> wheel_command \<Rightarrow> mouse_event" where
  "wheel_event v c =
    \<lparr>me_type = ''mouseWheel'', me_x = f_add (vw_OffsetX v) (f_mul (clampUnit (wc_X c)) (vw_ClientWidth v)),
     me_y = f_add (vw_OffsetY v) (f_mul (clampUnit (wc_Y c)) (vw_ClientHeight v)),
     me_deltaX = f_mul (wc_DeltaX c) (vw_ClientWidth v), me_deltaY = f_mul (wc_DeltaY c) (vw_ClientHeight v),
     me_button = ''none'', me_buttons = wc_Buttons c, me_modifiers = wc_Modifiers c, me_clickCount = 0\<rparr>"

definition dispatchWheel :: "bool \<Rightarrow> wheel_command \<Rightarrow> pointer_input \<Rightarrow> bool \<times> pointer_input" where
  "dispatchWheel ok c s =
    (if \<not> ok then (False, pointer_cancelActive ok s)
     else (True, dispatch_mouse ok (wheel_event (pi_viewport s) c) s))"

definition key_params :: "key_command \<Rightarrow> key_event" where
  "key_params m =
    (let e = \<lparr>ke_type = (if kc_Down m then ''rawKeyDown'' else ''keyUp''), ke_key = kc_Key m, ke_code = kc_Code m,
              ke_keyCode = kc_KeyCode m, ke_modifiers = kc_Modifiers m, ke_text = None\<rparr>
     in if kc_Down m \<and> kc_KeyCode m = 13 then e\<lparr>ke_type := ''keyDown'', ke_text := Some [CHR 0x0D]\<rparr> else e)"

definition dispatchOrderedPageInput :: "page_command \<Rightarrow> page_event list option" where
  \<comment> \<open>the writes to the session, their errors being ignored; \<^const>\<open>None\<close>: not a valid text-input command\<close>
  "dispatchOrderedPageInput command =
    (case pg_body command of
       KeyCommand m \<Rightarrow>
         if kc_Modifiers m < 0 \<or> kc_Modifiers m > 15 then None
         else if kc_Text m \<noteq> [] then Some [InsertText (kc_Text m)]
         else Some [KeyEvent (key_params m)]
     | CompositionCommand m \<Rightarrow>
         if cc_Phase m = ''update'' then Some [SetComposition (cc_Text m) (cc_SelectionStart m) (cc_SelectionEnd m)]
         else if cc_Phase m = ''commit'' then Some [InsertText (cc_Text m)]
         else if cc_Phase m = ''cancel'' then Some [SetComposition [] 0 0]
         else None
     | TextCommand text \<Rightarrow>
         if pg_T command \<noteq> ''paste'' then None
         else if text \<noteq> [] then Some [InsertText text] else Some []
     | OtherCommand \<Rightarrow> None)"

definition processCommand :: "pointer_env \<Rightarrow> pointer_work \<Rightarrow> page_command \<Rightarrow> pointer_input \<Rightarrow> pointer_input" where
  "processCommand env w command s =
    (if pe_closed env then pointer_cancelActive (pe_dispatched env) s
     else if pe_session env = [] then s
     else
       let s = (if (pi_owner s \<noteq> None \<and> pi_owner s \<noteq> Some (pw_client w)) \<or> (pi_session s \<noteq> [] \<and> pi_session s \<noteq> pe_session env)
                then pointer_cancelActive (pe_dispatched env) s else s)
       in (case dispatchOrderedPageInput command of
             None \<Rightarrow> s
           | Some es \<Rightarrow>
               p_effect (Accepted (pg_T command) (pg_IID command) (pw_receivedNS w))
                 (if pe_dispatched env then fold (\<lambda>e. p_effect (PageEvent (pe_session env) e)) es s else s)))"

definition pointer_attach :: "pointer_env \<Rightarrow> nat \<Rightarrow> pointer_input \<Rightarrow> bool \<times> pointer_input" where
  \<comment> \<open>another client, page or surface takes over; \<^const>\<open>False\<close>: its viewport cannot be read\<close>
  "pointer_attach env client s =
    (if pi_owner s \<noteq> Some client \<or> pi_session s \<noteq> pe_session env \<or> pi_surface s \<noteq> pe_surface env then
       let s = pointer_cancelActive (pe_dispatched env) s
       in (case loadViewport (pe_viewport env) of
             None \<Rightarrow> (False, s)
           | Some v \<Rightarrow> (True, s\<lparr>pi_owner := Some client, pi_session := pe_session env, pi_surface := pe_surface env, pi_viewport := v\<rparr>))
     else (True, s))"

definition pointer_accept :: "pointer_env \<Rightarrow> uint64 \<Rightarrow> uint64 \<Rightarrow> (pointer_input \<Rightarrow> bool \<times> pointer_input) \<Rightarrow> pointer_effect \<Rightarrow>
    pointer_input \<Rightarrow> pointer_input" where
  \<comment> \<open>\<^verbatim>\<open>process\<close> from the check of the sequence on: the dispatch of the command and what \<^verbatim>\<open>noteAccepted\<close> records\<close>
  "pointer_accept env sequence clientNS dispatch accepted s =
    (if sequence \<le> pi_lastSeq s \<or> (pi_lastClientNS s \<noteq> 0 \<and> clientNS < pi_lastClientNS s)
     then pointer_cancelActive (pe_dispatched env) s
     else
       let (ok, s) = dispatch s
       in (if ok then p_effect accepted s else s)\<lparr>pi_lastSeq := sequence, pi_lastClientNS := clientNS\<rparr>)"

definition pointer_sample :: "pointer_env \<Rightarrow> pointer_work \<Rightarrow> bool \<Rightarrow> uint32 \<Rightarrow> uint64 \<Rightarrow> uint64 \<Rightarrow>
    (pointer_input \<Rightarrow> bool \<times> pointer_input) \<Rightarrow> pointer_effect \<Rightarrow> pointer_input \<Rightarrow> pointer_input" where
  \<comment> \<open>the body of \<^verbatim>\<open>process\<close> for a pointer or a wheel command of the given validity, surface, sequence and time\<close>
  "pointer_sample env w valid surface sequence clientNS dispatch accepted s =
    (if \<not> valid then pointer_cancelActive (pe_dispatched env) s
     else if pe_closed env then pointer_cancelActive (pe_dispatched env) s
     else if pe_session env = [] \<or> pe_surface env = 0 \<or> surface \<noteq> pe_surface env then pointer_cancelActive (pe_dispatched env) s
     else
       let (attached, s) = pointer_attach env (pw_client w) s
       in if \<not> attached then s else pointer_accept env sequence clientNS dispatch accepted s)"

definition pointer_process :: "pointer_env \<Rightarrow> pointer_work \<Rightarrow> pointer_input \<Rightarrow> pointer_input" where
  "pointer_process env w s =
    (if pe_suspended env then s
     else (case pw_payload w of
       Page command \<Rightarrow> processCommand env w command s
     | Pointer c \<Rightarrow>
         pointer_sample env w (validPointerCommand c) (pc_Surface c) (pc_Sequence c) (pc_TimestampNS c)
           (dispatchPointer (pe_dispatched env) c) (Accepted ''pointer'' (pc_IID c) (pw_receivedNS w)) s
     | Wheel c \<Rightarrow>
         pointer_sample env w (validWheelCommand c) (wc_Surface c) (wc_Sequence c) (wc_TimestampNS c)
           (dispatchWheel (pe_dispatched env) c) (Accepted ''wheel'' (wc_IID c) (pw_receivedNS w)) s
     | Cancel _ \<Rightarrow> s))"

definition pointer_run :: "pointer_env \<Rightarrow> pointer_input \<Rightarrow> pointer_input" where
  \<comment> \<open>one iteration of the worker's loop; a cancellation never reaches \<^const>\<open>pointer_process\<close>\<close>
  "pointer_run env s =
    (case pi_queue s of
       [] \<Rightarrow> s
     | w # q \<Rightarrow>
         let s = s\<lparr>pi_queue := q\<rparr>
         in (case pw_payload w of
               Cancel _ \<Rightarrow> pointer_cancelActive (pe_dispatched env) s
             | _ \<Rightarrow> pointer_process env w s))"

end
