(* ===== verification/Pointer_Buttons.thy ===== *)
theory Pointer_Buttons
  imports Pointer_Input
begin

text \<open>
  What the desktop input lane guarantees: button edges, keys and text are never lost or reordered in its queue, and no
  mouse button stays down in the browser once the lane has turned away from a page.
\<close>

section \<open>The queue\<close>

lemma only_samples_merge:
  "replaceablePointerWork v w \<Longrightarrow> replaceable v \<and> replaceable w \<and> replaceable (coalescePointerWork v w)"
  by (auto simp: replaceablePointerWork_def coalescePointerWork_def replaceable_def split: pointer_payload.splits)

interpretation pointer_lane: merging_lane pointer_submit replaceable replaceablePointerWork coalescePointerWork pointerQueueLimit
  by unfold_locales (auto simp: pointer_submit_def dest: only_samples_merge)

abbreviation pointer_edge :: "pointer_work \<Rightarrow> bool" where
  "pointer_edge w \<equiv> \<not> replaceable w"

text \<open>
  Button edges, keys, compositions and pasted text are reliable: whatever sequence of works is submitted and
  accepted, the queue holds all of them in the order of submission, within its limit, and only pointer moves and
  wheel samples are merged or given up; nobody is disconnected while fewer edges than the limit are queued.
\<close>
theorem pointer_edges_reliable:
  "(submit_all pointer_submit ws q = Some q' \<longrightarrow>
     filter pointer_edge q' = filter pointer_edge q @ filter pointer_edge ws \<and>
     (length q \<le> pointerQueueLimit \<longrightarrow> length q' \<le> pointerQueueLimit)) \<and>
   (length q \<le> pointerQueueLimit \<and> length (filter pointer_edge q) + length (filter pointer_edge ws) < pointerQueueLimit \<longrightarrow>
     (\<exists>q''. submit_all pointer_submit ws q = Some q''))"
  using pointer_lane.all_edges_kept pointer_lane.all_within pointer_lane.few_edges_accepted by blast

definition mouse :: "string \<Rightarrow> int \<Rightarrow> uint64 \<Rightarrow> pointer_command" where
  "mouse phase buttons seq = \<lparr>pc_IID = 0, pc_Phase = phase, pc_Sequence = seq, pc_Surface = 7, pc_TimestampNS = 5, pc_X = Fin 0, pc_Y = Fin 1,
     pc_Button = (if phase = ''down'' \<or> phase = ''up'' then ''left'' else ''none''), pc_Buttons = buttons, pc_Modifiers = 0,
     pc_ClickCount = (if phase = ''down'' \<or> phase = ''up'' then 1 else 0)\<rparr>"

definition click :: "string \<Rightarrow> int \<Rightarrow> uint64 \<Rightarrow> pointer_work" where
  "click phase buttons seq = \<lparr>pw_client = 1, pw_payload = Pointer (mouse phase buttons seq), pw_receivedNS = 0\<rparr>"

theorem pointer_edges_reliable_witness:
  "\<exists>q. submit_all pointer_submit [click ''down'' 1 1, click ''move'' 1 2, click ''move'' 1 3, click ''up'' 0 4] [] = Some q \<and>
     filter pointer_edge q = [click ''down'' 1 1, click ''up'' 0 4]"
  using pointer_edges_reliable [of "[click ''down'' 1 1, click ''move'' 1 2, click ''move'' 1 3, click ''up'' 0 4]" "[]"]
  by (auto simp: click_def mouse_def replaceable_def pointerQueueLimit_def)

section \<open>The buttons of the browser\<close>

type_synonym masks = "string \<Rightarrow> int"  \<comment> \<open>per session, the buttons that are down\<close>

fun button_run :: "pointer_effect list \<Rightarrow> masks \<Rightarrow> masks" where
  \<comment> \<open>a mouse event reports the buttons that are down; a wheel event presses and releases nothing\<close>
  "button_run [] m = m"
| "button_run (MouseEvent session e # es) m =
     button_run es (if me_type e = ''mouseWheel'' then m else m(session := me_buttons e))"
| "button_run (_ # es) m = button_run es m"

lemma button_run_append: "button_run (es @ fs) m = button_run fs (button_run es m)"
  by (induction es m rule: button_run.induct) simp_all

abbreviation pressed_in :: "pointer_input \<Rightarrow> masks" where
  "pressed_in s \<equiv> button_run (pi_effects s) (\<lambda>_. 0)"

definition held :: "string \<Rightarrow> int \<Rightarrow> masks" where
  "held session buttons = (\<lambda>x. if x = session then buttons else 0)"

lemma held_simps [simp]: "(held session b)(session := c) = held session c" "held session 0 = (\<lambda>_. 0)"
  by (auto simp: held_def)

definition buttons_inv :: "pointer_input \<Rightarrow> bool" where
  "buttons_inv s \<longleftrightarrow> pressed_in s = held (pi_session s) (pi_buttons s) \<and> 0 \<le> pi_buttons s \<and> pi_buttons s \<le> 31 \<and>
     (pi_session s = [] \<longrightarrow> pi_buttons s = 0)"

lemma p_effect_simps [simp]:
  "pi_session (p_effect e s) = pi_session s" "pi_buttons (p_effect e s) = pi_buttons s" "pi_owner (p_effect e s) = pi_owner s"
  "pi_queue (p_effect e s) = pi_queue s" "pi_effects (p_effect e s) = pi_effects s @ [e]" "pi_surface (p_effect e s) = pi_surface s"
  by (simp_all add: p_effect_def)

lemma pointer_clear_simps [simp]:
  "pi_session (pointer_clear s) = []" "pi_buttons (pointer_clear s) = 0" "pi_owner (pointer_clear s) = None"
  "pi_queue (pointer_clear s) = pi_queue s" "pi_effects (pointer_clear s) = pi_effects s"
  by (simp_all add: pointer_clear_def)

lemma releases_all:
  assumes "0 < b" "b \<le> 31"
  shows "release_events b (pressedButtons b) \<noteq> []" "me_buttons (last (release_events b (pressedButtons b))) = 0"
    "list_all (\<lambda>e. me_type e = ''mouseReleased'') (release_events b (pressedButtons b))"
proof -
  have "list_all (\<lambda>b. release_events b (pressedButtons b) \<noteq> [] \<and> me_buttons (last (release_events b (pressedButtons b))) = 0
      \<and> list_all (\<lambda>e. me_type e = ''mouseReleased'') (release_events b (pressedButtons b))) [1..31]"
    by code_simp
  then have "\<forall>b\<in>{1..31}. release_events b (pressedButtons b) \<noteq> [] \<and> me_buttons (last (release_events b (pressedButtons b))) = 0
      \<and> list_all (\<lambda>e. me_type e = ''mouseReleased'') (release_events b (pressedButtons b))"
    by (simp add: list_all_iff)
  then show "release_events b (pressedButtons b) \<noteq> []" "me_buttons (last (release_events b (pressedButtons b))) = 0"
    "list_all (\<lambda>e. me_type e = ''mouseReleased'') (release_events b (pressedButtons b))"
    using assms by auto
qed

lemma dispatch_mouse_simps [simp]:
  "pi_session (dispatch_mouse ok e s) = pi_session s" "pi_buttons (dispatch_mouse ok e s) = pi_buttons s"
  "pi_queue (dispatch_mouse ok e s) = pi_queue s" "pi_owner (dispatch_mouse ok e s) = pi_owner s"
  by (simp_all add: dispatch_mouse_def)

lemma release_frame:
  "pi_session (fold (dispatch_mouse ok) es s) = pi_session s \<and> pi_queue (fold (dispatch_mouse ok) es s) = pi_queue s"
  by (induction es arbitrary: s) simp_all

lemma release_run:
  assumes "list_all (\<lambda>e. me_type e = ''mouseReleased'') es" "es \<noteq> []"
  shows "pressed_in (fold (dispatch_mouse True) es s) = (pressed_in s)(pi_session s := me_buttons (last es))"
  using assms
proof (induction es arbitrary: s)
  case (Cons e es)
  have e: "pressed_in (dispatch_mouse True e s) = (pressed_in s)(pi_session s := me_buttons e)"
    using Cons.prems by (simp add: dispatch_mouse_def button_run_append)
  show ?case
  proof (cases "es = []")
    case False
    then show ?thesis using Cons.IH [of "dispatch_mouse True e s"] Cons.prems by (simp add: e fun_eq_iff)
  qed (simp add: e)
qed simp

lemma cancelActive_releases:
  assumes "buttons_inv s"
  shows "pressed_in (pointer_cancelActive True s) = (\<lambda>_. 0)"
proof (cases "pi_session s \<noteq> [] \<and> pi_buttons s \<noteq> 0")
  case True
  then have b: "0 < pi_buttons s" "pi_buttons s \<le> 31" using assms by (auto simp: buttons_inv_def)
  have "pressed_in s = held (pi_session s) (pi_buttons s)" using assms by (simp add: buttons_inv_def)
  then have "pressed_in (fold (dispatch_mouse True) (release_events (pi_buttons s) (pressedButtons (pi_buttons s))) s) = (\<lambda>_. 0)"
    by (simp add: release_run [OF releases_all(3,1) [OF b]] releases_all(2) [OF b])
  then show ?thesis using True by (simp add: pointer_cancelActive_def button_run_append)
next
  case False
  then have "pressed_in s = (\<lambda>_. 0)" using assms by (auto simp: buttons_inv_def)
  moreover have "pointer_cancelActive True s = pointer_clear s" using False by (simp only: pointer_cancelActive_def if_False)
  ultimately show ?thesis by simp
qed

lemma cancelActive_cleared [simp]:
  "pi_session (pointer_cancelActive ok s) = []" "pi_buttons (pointer_cancelActive ok s) = 0" "pi_owner (pointer_cancelActive ok s) = None"
  by (simp_all add: pointer_cancelActive_def)

lemma buttons_inv_cancelActive [simp]: "buttons_inv s \<Longrightarrow> buttons_inv (pointer_cancelActive True s)"
  by (simp add: buttons_inv_def [of "pointer_cancelActive True s"] cancelActive_releases)

section \<open>The steps\<close>

lemma inv_unrelated:
  assumes "buttons_inv s"
  shows "buttons_inv (s\<lparr>pi_queue := q\<rparr>)" "buttons_inv (s\<lparr>pi_lastSeq := n, pi_lastClientNS := t\<rparr>)"
    "buttons_inv (p_effect (PMotionPhase ph) s)" "buttons_inv (p_effect (Accepted k i r) s)" "buttons_inv (p_effect (PageEvent x pe) s)"
    "buttons_inv (p_effect (PCloseClient c) s)"
  using assms by (simp_all add: buttons_inv_def button_run_append)

lemma inv_page_events: "buttons_inv s \<Longrightarrow> buttons_inv (fold (\<lambda>e. p_effect (PageEvent x e)) es s)"
  by (induction es arbitrary: s) (simp_all add: inv_unrelated)

lemma inv_acquire:
  assumes "buttons_inv s"
  shows "buttons_inv ((pointer_cancelActive True s)\<lparr>pi_owner := c, pi_session := x, pi_surface := n, pi_viewport := v\<rparr>)"
  using cancelActive_releases [OF assms] by (simp add: buttons_inv_def)

lemma validPointer_buttons: "validPointerCommand c \<Longrightarrow> 0 \<le> pc_Buttons c \<and> pc_Buttons c \<le> 31"
  by (auto simp: validPointerCommand_def split: if_splits)

lemma pointer_event_fields [simp]: "me_buttons (pointer_event v c) = pc_Buttons c" "me_type (pointer_event v c) = pointer_type (pc_Phase c)"
  by (simp_all add: pointer_event_def Let_def split: prod.split)

lemma pointer_type_not_wheel [simp]: "pointer_type phase \<noteq> ''mouseWheel''"
  by (simp add: pointer_type_def)

lemma inv_dispatchPointer:
  assumes "buttons_inv s" "pi_session s \<noteq> []" "validPointerCommand c"
  shows "buttons_inv (snd (dispatchPointer True c s))"
proof -
  let ?s = "(dispatch_mouse True (pointer_event (pi_viewport s) c) s)\<lparr>pi_buttons := pc_Buttons c\<rparr>"
  have "buttons_inv ?s" using assms validPointer_buttons [OF assms(3)]
    by (simp add: buttons_inv_def dispatch_mouse_def button_run_append)
  then show ?thesis using inv_unrelated(3) by (simp add: dispatchPointer_def Let_def split: option.split)
qed

lemma inv_dispatchWheel: "buttons_inv s \<Longrightarrow> buttons_inv (snd (dispatchWheel True c s))"
  by (simp add: dispatchWheel_def dispatch_mouse_def buttons_inv_def button_run_append wheel_event_def)

lemma inv_attach:
  assumes "buttons_inv s" "pe_dispatched env"
  shows "buttons_inv (snd (pointer_attach env client s))"
  using assms inv_acquire [OF assms(1)] by (simp add: pointer_attach_def Let_def split: option.split)

lemma attach_session: "fst (pointer_attach env client s) \<Longrightarrow> pi_session (snd (pointer_attach env client s)) = pe_session env"
  by (auto simp: pointer_attach_def Let_def split: if_splits option.splits)

lemma inv_accept:
  assumes "buttons_inv t" "pe_dispatched env" "buttons_inv (snd (dispatch t))"
  shows "buttons_inv (pointer_accept env sequence clientNS dispatch (Accepted k i r) t)"
  using assms by (cases "dispatch t") (simp add: pointer_accept_def inv_unrelated)

lemma inv_sample:
  assumes "buttons_inv s" "pe_dispatched env"
    and step: "\<And>t. valid \<Longrightarrow> buttons_inv t \<Longrightarrow> pi_session t \<noteq> [] \<Longrightarrow> buttons_inv (snd (dispatch t))"
  shows "buttons_inv (pointer_sample env w valid surface sequence clientNS dispatch (Accepted k i r) s)"
proof (cases "valid \<and> \<not> pe_closed env \<and> \<not> (pe_session env = [] \<or> pe_surface env = 0 \<or> surface \<noteq> pe_surface env)")
  case True
  obtain a t where at: "pointer_attach env (pw_client w) s = (a, t)" by force
  then have t: "buttons_inv t" "a \<Longrightarrow> pi_session t = pe_session env"
    using inv_attach [OF assms(1,2), of "pw_client w"] attach_session [of env "pw_client w" s] by simp_all
  then show ?thesis using True step [of t] inv_accept [OF t(1) assms(2)] by (cases a) (simp_all add: pointer_sample_def at)
next
  case False
  then show ?thesis using assms(1,2) by (auto simp: pointer_sample_def)
qed

lemma inv_processCommand:
  assumes "buttons_inv s" "pe_dispatched env"
  shows "buttons_inv (processCommand env w c s)"
  using assms by (simp add: processCommand_def Let_def inv_unrelated inv_page_events split: option.split)

lemma inv_pointer_process:
  assumes "buttons_inv s" "pe_dispatched env"
  shows "buttons_inv (pointer_process env w s)"
proof (cases "pw_payload w")
  case (Pointer c)
  then show ?thesis
    using assms inv_sample [OF assms, of "validPointerCommand c" "dispatchPointer True c"] inv_dispatchPointer
    by (simp add: pointer_process_def)
next
  case (Wheel c)
  then show ?thesis
    using assms inv_sample [OF assms, of "validWheelCommand c" "dispatchWheel True c"] inv_dispatchWheel
    by (simp add: pointer_process_def)
qed (use assms inv_processCommand in \<open>simp_all add: pointer_process_def\<close>)

datatype pointer_op = PEnqueue pointer_work | PCancel bool | PRun pointer_env

fun pointer_step :: "pointer_op \<Rightarrow> pointer_input \<Rightarrow> pointer_input" where
  "pointer_step (PEnqueue w) s = pointer_enqueue w s"
| "pointer_step (PCancel wait) s = pointer_cancel wait s"
| "pointer_step (PRun env) s = pointer_run env s"

fun writes_pass :: "pointer_op \<Rightarrow> bool" where
  "writes_pass (PRun env) = pe_dispatched env"
| "writes_pass _ = True"

lemma inv_pointer_step:
  assumes "buttons_inv s" "writes_pass e"
  shows "buttons_inv (pointer_step e s)"
proof (cases e)
  case (PEnqueue w)
  then show ?thesis using assms(1) by (simp add: pointer_enqueue_def inv_unrelated split: option.split)
next
  case (PCancel wait)
  then show ?thesis using assms(1) by (simp add: pointer_cancel_def inv_unrelated)
next
  case (PRun env)
  then show ?thesis using assms inv_pointer_process [OF inv_unrelated(1) [OF assms(1)]] inv_unrelated(1) [OF assms(1)]
    by (simp add: pointer_run_def Let_def split: list.split pointer_payload.split)
qed

lemma inv_pointer_steps: "list_all writes_pass es \<Longrightarrow> buttons_inv s \<Longrightarrow> buttons_inv (fold pointer_step es s)"
  by (induction es arbitrary: s) (simp_all add: inv_pointer_step)

text \<open>
  C19 (safety). No mouse button gets stuck. Whatever clients send and however the lane's operations interleave, as long as the
  connection to Chromium accepts the writes, the buttons that are down in the page the lane is attached to are the
  ones it tracks, and no button is down in any other page: switching tabs, surfaces or clients releases them first.
  Processing a cancellation (a disconnect, a suspension) leaves no button down anywhere.
\<close>
theorem pointer_no_stuck_buttons:
  assumes "list_all writes_pass es" "pe_dispatched env"
  defines "s \<equiv> fold pointer_step es newPointerInput"
  shows "pressed_in s = held (pi_session s) (pi_buttons s) \<and> pi_buttons s \<in> {0..31} \<and>
     (case pi_queue s of w # q \<Rightarrow> (case pw_payload w of Cancel _ \<Rightarrow> pressed_in (pointer_run env s) = (\<lambda>_. 0) | _ \<Rightarrow> True) | [] \<Rightarrow> True)"
proof -
  have "buttons_inv newPointerInput" by (simp add: buttons_inv_def newPointerInput_def)
  then have inv: "buttons_inv s" unfolding s_def using inv_pointer_steps [OF assms(1)] by simp
  have "pressed_in (pointer_cancelActive True (s\<lparr>pi_queue := q\<rparr>)) = (\<lambda>_. 0)" for q
    by (rule cancelActive_releases) (simp add: inv_unrelated inv)
  with inv show ?thesis
    using assms(2) by (simp add: buttons_inv_def pointer_run_def Let_def split: list.split pointer_payload.split)
qed

definition office :: pointer_env where
  "office = \<lparr>pe_suspended = False, pe_closed = False, pe_session = ''S'', pe_surface = 7,
     pe_viewport = Some \<lparr>vw_OffsetX = Fin 0, vw_OffsetY = Fin 0, vw_ClientWidth = Fin 1, vw_ClientHeight = Fin 1, vw_Scale = Fin 1\<rparr>,
     pe_dispatched = True\<rparr>"

definition half_click :: "pointer_op list" where
  \<comment> \<open>a press that is dispatched, then a disconnect\<close>
  "half_click = [PEnqueue (click ''down'' 1 1), PRun office, PCancel False]"

lemma half_click_state:
  "pi_buttons (fold pointer_step half_click newPointerInput) = 1 \<and> pi_session (fold pointer_step half_click newPointerInput) = ''S'' \<and>
   pi_queue (fold pointer_step half_click newPointerInput) = [\<lparr>pw_client = 0, pw_payload = Cancel False, pw_receivedNS = 0\<rparr>]"
  by (simp add: half_click_def click_def mouse_def office_def newPointerInput_def pointer_enqueue_def pointer_submit_def lane_append_def
      pointerQueueLimit_def pointer_run_def pointer_process_def pointer_sample_def validPointerCommand_def finiteUnit_def
      pointer_attach_def loadViewport_def viewport_valid_def pointer_cancelActive_def pointer_clear_def pointer_accept_def
      dispatchPointer_def dispatch_mouse_def p_effect_def pointer_phase_def pointer_cancel_def Let_def)

theorem pointer_no_stuck_buttons_witness:
  "pressed_in (fold pointer_step half_click newPointerInput) = held ''S'' 1 \<and>
   pressed_in (pointer_run office (fold pointer_step half_click newPointerInput)) = (\<lambda>_. 0)"
  using pointer_no_stuck_buttons [of half_click office] half_click_state by (simp add: half_click_def office_def)

end
