(* ===== verification/Library_Store.thy ===== *)
theory Library_Store
  imports Go_Text
begin

text \<open>
  History and bookmarks, \<^verbatim>\<open>backend/internal/browser/store.go\<close>. The two files of the profile are part of the model: the
  history file is a list of lines, each the JSON of an entry or something that does not decode; the bookmarks file is the
  decoded list. The JSON text itself is not modelled; the one thing that matters of it is the length of a line, a
  parameter, since the scanner that reads the file back gives up at a line of a mebibyte. \<^verbatim>\<open>strings.ToLower\<close> (the Unicode
  tables) is a parameter too, and so are the clock and whether the files can be written.
\<close>

section \<open>Data\<close>

record entry =
  en_URL :: string
  en_Title :: string
  en_TS :: int

datatype hist_line = Line entry | Junk string

record profile_dir =
  pd_history :: "hist_line list option"    \<comment> \<open>\<^verbatim>\<open>history.jsonl\<close>; \<^const>\<open>None\<close>: no such file\<close>
  pd_bookmarks :: "entry list option"      \<comment> \<open>\<^verbatim>\<open>bookmarks.json\<close>; \<^const>\<open>None\<close>: no such file, or nothing that decodes\<close>

record store =
  st_hist :: "entry list"
  st_bookmarks :: "entry list"
  st_disk :: profile_dir

definition histKeep :: nat where "histKeep = 50000"

definition max_line :: nat where "max_line = 1024 * 1024"

definition keep_newest :: "nat \<Rightarrow> 'a list \<Rightarrow> 'a list" where
  \<comment> \<open>\<^verbatim>\<open>if len(s) > n { s = s[len(s)-n:] }\<close>\<close>
  "keep_newest n xs = (if length xs > n then drop (length xs - n) xs else xs)"

fun decode_line :: "hist_line \<Rightarrow> entry option" where
  "decode_line (Line e) = (if en_URL e \<noteq> [] then Some e else None)"
| "decode_line (Junk _) = None"

definition scan_lines :: "(hist_line \<Rightarrow> nat) \<Rightarrow> hist_line list \<Rightarrow> hist_line list" where
  \<comment> \<open>\<^verbatim>\<open>sc.Scan()\<close> stops at the first line that does not fit its buffer with the newline\<close>
  "scan_lines size_of ls = takeWhile (\<lambda>l. size_of l < max_line) ls"

definition NewStore :: "(hist_line \<Rightarrow> nat) \<Rightarrow> profile_dir \<Rightarrow> store" where
  "NewStore size_of disk =
    \<lparr>st_hist = (case pd_history disk of
        None \<Rightarrow> []
      | Some ls \<Rightarrow> keep_newest histKeep (List.map_filter decode_line (scan_lines size_of ls))),
     st_bookmarks = (case pd_bookmarks disk of None \<Rightarrow> [] | Some bs \<Rightarrow> bs),
     st_disk = disk\<rparr>"

section \<open>History\<close>

definition historyWorthy :: "string \<Rightarrow> bool" where
  "historyWorthy url \<longleftrightarrow> has_prefix url ''http://'' \<or> has_prefix url ''https://''"

definition append_line :: "bool \<Rightarrow> entry \<Rightarrow> profile_dir \<Rightarrow> profile_dir" where
  "append_line writable e disk =
    (if writable then disk\<lparr>pd_history := Some ((case pd_history disk of None \<Rightarrow> [] | Some ls \<Rightarrow> ls) @ [Line e])\<rparr> else disk)"

definition AddHistory :: "int \<Rightarrow> bool \<Rightarrow> string \<Rightarrow> string \<Rightarrow> store \<Rightarrow> store" where
  "AddHistory now writable url title s =
    (if \<not> historyWorthy url then s
     else if st_hist s \<noteq> [] \<and> en_URL (last (st_hist s)) = url then
       (if title \<noteq> [] \<and> en_Title (last (st_hist s)) \<noteq> title
        then s\<lparr>st_hist := butlast (st_hist s) @ [(last (st_hist s))\<lparr>en_Title := title\<rparr>]\<rparr> else s)
     else
       let e = \<lparr>en_URL = url, en_Title = title, en_TS = now\<rparr>
       in s\<lparr>st_hist := keep_newest histKeep (st_hist s @ [e]), st_disk := append_line writable e (st_disk s)\<rparr>)"

fun patch_first :: "string \<Rightarrow> string \<Rightarrow> entry list \<Rightarrow> entry list" where
  "patch_first url title [] = []"
| "patch_first url title (e # es) = (if en_URL e = url then e\<lparr>en_Title := title\<rparr> # es else e # patch_first url title es)"

definition SetTitle :: "string \<Rightarrow> string \<Rightarrow> store \<Rightarrow> store" where
  \<comment> \<open>the ten newest entries, newest first\<close>
  "SetTitle url title s =
    (if title = [] then s
     else let newest = rev (st_hist s)
          in s\<lparr>st_hist := rev (patch_first url title (take 10 newest) @ drop 10 newest)\<rparr>)"

definition rewriteHistoryLocked :: "bool \<Rightarrow> store \<Rightarrow> store" where
  \<comment> \<open>the temporary file can be created; it is then written and renamed whole\<close>
  "rewriteHistoryLocked writable s = (if \<not> writable then s else s\<lparr>st_disk := (st_disk s)\<lparr>pd_history := Some (map Line (st_hist s))\<rparr>\<rparr>)"

definition DeleteHistory :: "bool \<Rightarrow> string \<Rightarrow> int \<Rightarrow> store \<Rightarrow> store" where
  "DeleteHistory writable url ts s =
     rewriteHistoryLocked writable (s\<lparr>st_hist := filter (\<lambda>e. \<not> (en_URL e = url \<and> (ts = 0 \<or> en_TS e = ts))) (st_hist s)\<rparr>)"

definition ClearHistory :: "store \<Rightarrow> store" where
  "ClearHistory s = s\<lparr>st_hist := [], st_disk := (st_disk s)\<lparr>pd_history := None\<rparr>\<rparr>"

section \<open>Queries\<close>

definition trim_space :: "string \<Rightarrow> string" where
  \<comment> \<open>\<^verbatim>\<open>strings.TrimSpace\<close> of a string that is valid UTF-8, as every decoded command is\<close>
  "trim_space s = string_of_runes (trim_runes (runes s))"

definition entry_matches :: "(string \<Rightarrow> string) \<Rightarrow> string \<Rightarrow> entry \<Rightarrow> bool" where
  "entry_matches lower q e \<longleftrightarrow> contains (lower (en_URL e)) q \<or> contains (lower (en_Title e)) q"

fun suggest_loop :: "(string \<Rightarrow> string) \<Rightarrow> string \<Rightarrow> entry list \<Rightarrow> string list \<Rightarrow> entry list \<Rightarrow> bool \<times> string list \<times> entry list" where
  \<comment> \<open>\<^verbatim>\<open>for _, e := range es { if add(e) { ... } }\<close>: whether the loop was left early, \<^verbatim>\<open>seen\<close>, \<^verbatim>\<open>out\<close>\<close>
  "suggest_loop lower q [] seen out = (False, seen, out)"
| "suggest_loop lower q (e # es) seen out =
    (if en_URL e \<in> set seen then suggest_loop lower q es seen out
     else
       let (seen, out) = (if entry_matches lower q e then (en_URL e # seen, out @ [e]) else (seen, out))
       in if length out \<ge> 6 then (True, seen, out) else suggest_loop lower q es seen out)"

definition Suggest :: "(string \<Rightarrow> string) \<Rightarrow> string \<Rightarrow> store \<Rightarrow> entry list" where
  "Suggest lower q s =
    (let q = lower (trim_space q)
     in if q = [] then []
        else
          let (full, seen, out) = suggest_loop lower q (st_bookmarks s) [] []
          in if full then out else snd (snd (suggest_loop lower q (rev (st_hist s)) seen out)))"

definition Recent :: "int \<Rightarrow> store \<Rightarrow> entry list option" where
  \<comment> \<open>\<^const>\<open>None\<close>: \<^verbatim>\<open>make\<close> panics on a negative capacity\<close>
  "Recent n s = (if n < 0 then None else Some (take (nat n) (rev (st_hist s))))"

fun search_loop :: "(entry \<Rightarrow> bool) \<Rightarrow> int \<Rightarrow> int \<Rightarrow> entry list \<Rightarrow> entry list \<Rightarrow> int \<Rightarrow> entry list \<times> int" where
  "search_loop keep offset limit [] page count = (page, count)"
| "search_loop keep offset limit (e # es) page count =
    (if \<not> keep e then search_loop keep offset limit es page count
     else search_loop keep offset limit es
            (if count \<ge> offset \<and> int (length page) < limit then page @ [e] else page) (count + 1))"

definition Search :: "(string \<Rightarrow> string) \<Rightarrow> string \<Rightarrow> int \<Rightarrow> int \<Rightarrow> store \<Rightarrow> entry list \<times> int" where
  "Search lower q offset limit s =
    (let q = lower (trim_space q);
         limit = (if limit \<le> 0 \<or> limit > 200 then 50 else limit)
     in search_loop (\<lambda>e. \<not> (q \<noteq> [] \<and> \<not> contains (lower (en_URL e)) q \<and> \<not> contains (lower (en_Title e)) q)) offset limit
          (rev (st_hist s)) [] 0)"

section \<open>Bookmarks\<close>

definition saveBookmarksLocked :: "bool \<Rightarrow> store \<Rightarrow> store" where
  "saveBookmarksLocked writable s = (if writable then s\<lparr>st_disk := (st_disk s)\<lparr>pd_bookmarks := Some (st_bookmarks s)\<rparr>\<rparr> else s)"

fun drop_bookmark :: "string \<Rightarrow> entry list \<Rightarrow> entry list option" where
  \<comment> \<open>\<^verbatim>\<open>for i, e := range s.bookmarks { if e.URL == url { append(s.bookmarks[:i], s.bookmarks[i+1:]...) } }\<close>; \<^const>\<open>None\<close>: not found\<close>
  "drop_bookmark url [] = None"
| "drop_bookmark url (e # es) = (if en_URL e = url then Some es else map_option (Cons e) (drop_bookmark url es))"

definition ToggleBookmark :: "int \<Rightarrow> bool \<Rightarrow> string \<Rightarrow> string \<Rightarrow> store \<Rightarrow> bool \<times> store" where
  "ToggleBookmark now writable url title s =
    (if \<not> historyWorthy url then (False, s)
     else (case drop_bookmark url (st_bookmarks s) of
             Some bs \<Rightarrow> (False, saveBookmarksLocked writable (s\<lparr>st_bookmarks := bs\<rparr>))
           | None \<Rightarrow> (True, saveBookmarksLocked writable
               (s\<lparr>st_bookmarks := \<lparr>en_URL = url, en_Title = title, en_TS = now\<rparr> # st_bookmarks s\<rparr>))))"

definition RemoveBookmark :: "bool \<Rightarrow> string \<Rightarrow> store \<Rightarrow> store" where
  "RemoveBookmark writable url s =
    (case drop_bookmark url (st_bookmarks s) of
       Some bs \<Rightarrow> saveBookmarksLocked writable (s\<lparr>st_bookmarks := bs\<rparr>)
     | None \<Rightarrow> s)"

definition IsBookmarked :: "string \<Rightarrow> store \<Rightarrow> bool" where
  "IsBookmarked url s \<longleftrightarrow> list_ex (\<lambda>e. en_URL e = url) (st_bookmarks s)"

definition Bookmarks :: "store \<Rightarrow> entry list" where
  "Bookmarks s = st_bookmarks s"

end
