(* ===== verification/Library_Facts.thy ===== *)
theory Library_Facts
  imports Library_Store
begin

text \<open>
  What the library guarantees: the visits and bookmarks survive a restart, the history is bounded and paging shows
  every match once; and what it does not: titles learnt after the visit are not on disk, and a line that is too
  long hides the newer ones.
\<close>

section \<open>The newest entries\<close>

lemma keep_newest_drop: "keep_newest n xs = drop (length xs - n) xs"
  by (simp add: keep_newest_def)

lemma length_keep_newest: "length (keep_newest n xs) \<le> n"
  by (simp add: keep_newest_drop)

lemma keep_newest_append: "keep_newest n (keep_newest n xs @ [x]) = keep_newest n (xs @ [x])"
  by (cases n) (auto simp: keep_newest_def Suc_diff_Suc)

lemma map_keep_newest: "map f (keep_newest n xs) = keep_newest n (map f xs)"
  by (simp add: keep_newest_drop drop_map)

lemma set_keep_newest: "set (keep_newest n xs) \<subseteq> set xs"
  by (simp add: keep_newest_drop set_drop_subset)

section \<open>Restarts\<close>

definition visit :: "entry \<Rightarrow> string \<times> int" where
  "visit e = (en_URL e, en_TS e)"

definition hist_lines :: "profile_dir \<Rightarrow> hist_line list" where
  "hist_lines disk = (case pd_history disk of None \<Rightarrow> [] | Some ls \<Rightarrow> ls)"

definition lines_fit :: "(hist_line \<Rightarrow> nat) \<Rightarrow> profile_dir \<Rightarrow> bool" where
  "lines_fit size_of disk \<longleftrightarrow> list_all (\<lambda>l. size_of l < max_line) (hist_lines disk)"

definition durable :: "store \<Rightarrow> bool" where
  "durable s \<longleftrightarrow>
     map visit (st_hist s) = keep_newest histKeep (map visit (List.map_filter decode_line (hist_lines (st_disk s)))) \<and>
     list_all (\<lambda>e. en_URL e \<noteq> []) (st_hist s) \<and>
     st_bookmarks s = (case pd_bookmarks (st_disk s) of None \<Rightarrow> [] | Some bs \<Rightarrow> bs)"

datatype library_op =
    Visit int string string
  | Title string string
  | Forget string int
  | ForgetAll
  | Toggle int string string
  | Unbookmark string

fun library_step :: "library_op \<Rightarrow> store \<Rightarrow> store" where
  \<comment> \<open>the operations on a profile that can be written\<close>
  "library_step (Visit now url title) s = AddHistory now True url title s"
| "library_step (Title url title) s = SetTitle url title s"
| "library_step (Forget url ts) s = DeleteHistory True url ts s"
| "library_step ForgetAll s = ClearHistory s"
| "library_step (Toggle now url title) s = snd (ToggleBookmark now True url title s)"
| "library_step (Unbookmark url) s = RemoveBookmark True url s"

lemma worthy_nonempty: "historyWorthy url \<Longrightarrow> url \<noteq> []"
  by (auto simp: historyWorthy_def)

lemma visit_title [simp]: "visit (e\<lparr>en_Title := t\<rparr>) = visit e"
  by (simp add: visit_def)

lemma scan_all: "lines_fit size_of disk \<Longrightarrow> scan_lines size_of (hist_lines disk) = hist_lines disk"
  by (simp add: lines_fit_def scan_lines_def list_all_iff takeWhile_eq_all_conv)

lemma NewStore_hist:
  "lines_fit size_of disk \<Longrightarrow> st_hist (NewStore size_of disk) = keep_newest histKeep (List.map_filter decode_line (hist_lines disk))"
  using scan_all [of size_of disk]
  by (cases "pd_history disk") (simp_all add: NewStore_def hist_lines_def keep_newest_def)

lemma NewStore_fields [simp]:
  "st_bookmarks (NewStore size_of disk) = (case pd_bookmarks disk of None \<Rightarrow> [] | Some bs \<Rightarrow> bs)" "st_disk (NewStore size_of disk) = disk"
  by (simp_all add: NewStore_def)

lemma decoded_urls: "e \<in> set (List.map_filter decode_line ls) \<Longrightarrow> en_URL e \<noteq> []"
proof (induction ls)
  case (Cons l ls)
  then show ?case by (cases l) (auto split: if_splits)
qed simp

lemma durable_NewStore: "lines_fit size_of disk \<Longrightarrow> durable (NewStore size_of disk)"
  using set_keep_newest decoded_urls
  by (fastforce simp: durable_def NewStore_hist map_keep_newest list_all_iff)

lemma decoded_entries: "list_all (\<lambda>e. en_URL e \<noteq> []) es \<Longrightarrow> List.map_filter decode_line (map Line es) = es"
  by (induction es) simp_all

lemma map_filter_append: "List.map_filter f (xs @ ys) = List.map_filter f xs @ List.map_filter f ys"
  by (simp add: List.map_filter_def)

lemma durable_AddHistory:
  assumes "durable s"
  shows "durable (AddHistory now True url title s)"
proof -
  consider (unworthy) "\<not> historyWorthy url" | (again) "historyWorthy url" "st_hist s \<noteq> []" "en_URL (last (st_hist s)) = url"
    | (new) "historyWorthy url" "\<not> (st_hist s \<noteq> [] \<and> en_URL (last (st_hist s)) = url)" by blast
  then show ?thesis
  proof cases
    case again
    then obtain es e where es: "st_hist s = es @ [e]" by (cases "st_hist s" rule: rev_cases) auto
    then show ?thesis using assms again by (auto simp: AddHistory_def durable_def)
  next
    case new
    let ?e = "\<lparr>en_URL = url, en_Title = title, en_TS = now\<rparr>"
    have u: "url \<noteq> []" using new worthy_nonempty by simp
    have lines: "hist_lines (append_line True ?e (st_disk s)) = hist_lines (st_disk s) @ [Line ?e]"
      by (simp add: append_line_def hist_lines_def split: option.split)
    have bm: "pd_bookmarks (append_line True ?e (st_disk s)) = pd_bookmarks (st_disk s)" by (simp add: append_line_def)
    have "AddHistory now True url title s =
        s\<lparr>st_hist := keep_newest histKeep (st_hist s @ [?e]), st_disk := append_line True ?e (st_disk s)\<rparr>"
      using new by (auto simp: AddHistory_def Let_def)
    moreover have "list_all (\<lambda>e. en_URL e \<noteq> []) (keep_newest histKeep (st_hist s @ [?e]))"
      using assms u set_keep_newest [of histKeep "st_hist s @ [?e]"] by (auto simp: durable_def list_all_iff)
    ultimately show ?thesis using assms u
      by (simp add: durable_def lines bm map_keep_newest map_filter_append keep_newest_append)
  qed (simp add: AddHistory_def assms)
qed

lemma patch_first_visits: "map visit (patch_first url title es) = map visit es" "list_all (\<lambda>e. en_URL e \<noteq> []) (patch_first url title es) = list_all (\<lambda>e. en_URL e \<noteq> []) es"
  by (induction es) auto

lemma durable_SetTitle:
  assumes "durable s"
  shows "durable (SetTitle url title s)"
proof -
  have "list_all (\<lambda>e. en_URL e \<noteq> []) (take 10 (rev (st_hist s)) @ drop 10 (rev (st_hist s)))"
    using assms by (simp add: durable_def list_all_iff)
  then have "list_all (\<lambda>e. en_URL e \<noteq> []) (rev (patch_first url title (take 10 (rev (st_hist s))) @ drop 10 (rev (st_hist s))))"
    by (simp only: list_all_append list_all_rev patch_first_visits(2))
  moreover have "map visit (patch_first url title (take 10 (rev (st_hist s))) @ drop 10 (rev (st_hist s))) = map visit (rev (st_hist s))"
    by (simp only: map_append patch_first_visits(1)) (simp only: map_append [symmetric] append_take_drop_id)
  then have "map visit (rev (patch_first url title (take 10 (rev (st_hist s))) @ drop 10 (rev (st_hist s)))) = map visit (st_hist s)"
    by (simp only: rev_map [symmetric] rev_rev_ident)
  ultimately show ?thesis using assms by (simp add: SetTitle_def Let_def durable_def)
qed

lemma durable_DeleteHistory:
  assumes "durable s"
  shows "durable (DeleteHistory True url ts s)"
proof -
  have "length (st_hist s) \<le> histKeep"
    using assms length_keep_newest by (metis durable_def length_map)
  then have "length (filter P (st_hist s)) \<le> histKeep" for P using length_filter_le le_trans by blast
  moreover have "list_all (\<lambda>e. en_URL e \<noteq> []) (filter P (st_hist s))" for P using assms by (simp add: durable_def list_all_iff)
  ultimately show ?thesis using assms
    by (simp add: DeleteHistory_def rewriteHistoryLocked_def durable_def hist_lines_def decoded_entries keep_newest_def not_less)
qed

lemma durable_bookmarks:
  "durable s \<Longrightarrow> durable (saveBookmarksLocked True (s\<lparr>st_bookmarks := bs\<rparr>))"
  by (simp add: saveBookmarksLocked_def durable_def hist_lines_def)

lemma durable_step: "durable s \<Longrightarrow> durable (library_step e s)"
proof (cases e)
  case ForgetAll
  then show "durable s \<Longrightarrow> ?thesis" by (simp add: ClearHistory_def durable_def hist_lines_def keep_newest_def)
qed (simp_all add: durable_AddHistory durable_SetTitle durable_DeleteHistory durable_bookmarks ToggleBookmark_def RemoveBookmark_def
       split: option.split)

lemma durable_steps: "durable s \<Longrightarrow> durable (fold library_step es s)"
  by (rule fold_invariant [where Q = "\<lambda>_. True"]) (simp_all add: durable_step)


definition fresh_profile :: profile_dir where
  "fresh_profile = \<lparr>pd_history = None, pd_bookmarks = None\<rparr>"

definition browsing :: "library_op list" where
  "browsing = [Visit 1 ''http://a'' [], Title ''http://a'' ''A'', Visit 2 ''https://b'' [], Toggle 3 ''https://b'' ''B'']"

lemma browsing_store:
  "fold library_step browsing (NewStore (\<lambda>_. 100) fresh_profile) =
    \<lparr>st_hist = [\<lparr>en_URL = ''http://a'', en_Title = ''A'', en_TS = 1\<rparr>, \<lparr>en_URL = ''https://b'', en_Title = [], en_TS = 2\<rparr>],
     st_bookmarks = [\<lparr>en_URL = ''https://b'', en_Title = ''B'', en_TS = 3\<rparr>],
     st_disk = \<lparr>pd_history = Some [Line \<lparr>en_URL = ''http://a'', en_Title = [], en_TS = 1\<rparr>, Line \<lparr>en_URL = ''https://b'', en_Title = [], en_TS = 2\<rparr>],
       pd_bookmarks = Some [\<lparr>en_URL = ''https://b'', en_Title = ''B'', en_TS = 3\<rparr>]\<rparr>\<rparr>"
  by (simp add: browsing_def NewStore_def fresh_profile_def AddHistory_def SetTitle_def ToggleBookmark_def saveBookmarksLocked_def
      historyWorthy_def append_line_def keep_newest_def histKeep_def Let_def)


text \<open>The titles of the two pages of the example do not survive: a title learnt after the visit is only in memory.\<close>
lemma titles_do_not_survive_restart:
  "map en_Title (st_hist (fold library_step browsing (NewStore (\<lambda>_. 100) fresh_profile))) = [''A'', []]"
  "map en_Title (st_hist (NewStore (\<lambda>_. 100) (st_disk (fold library_step browsing (NewStore (\<lambda>_. 100) fresh_profile))))) = [[], []]"
  by (simp_all add: browsing_store) (simp add: NewStore_def scan_lines_def max_line_def keep_newest_def histKeep_def)

text \<open>The file is never shortened by visits: \<^const>\<open>histKeep\<close> bounds the memory only.\<close>
lemma history_file_grows:
  assumes "historyWorthy url" "st_hist s = [] \<or> en_URL (last (st_hist s)) \<noteq> url"
  shows "length (hist_lines (st_disk (AddHistory now True url title s))) = Suc (length (hist_lines (st_disk s)))"
  using assms by (auto simp: AddHistory_def append_line_def hist_lines_def Let_def split: option.split)

text \<open>Everything written after a line that is too long is invisible to the next process.\<close>
lemma oversized_line_hides_newer:
  assumes "pd_history disk = Some (older @ l # newer)" "max_line \<le> size_of l"
  shows "st_hist (NewStore size_of disk) = st_hist (NewStore size_of (disk\<lparr>pd_history := Some older\<rparr>))"
  using assms by (simp add: NewStore_def scan_lines_def takeWhile_append takeWhile_eq_all_conv [THEN iffD2])

section \<open>Queries\<close>

definition history_matches :: "(string \<Rightarrow> string) \<Rightarrow> string \<Rightarrow> store \<Rightarrow> entry list" where
  \<comment> \<open>newest first\<close>
  "history_matches lower q s =
    (let q = lower (trim_space q) in filter (\<lambda>e. q = [] \<or> entry_matches lower q e) (rev (st_hist s)))"

lemma search_loop_page:
  "0 \<le> limit \<Longrightarrow> int (length page) \<le> limit \<Longrightarrow> 0 \<le> count \<Longrightarrow> (int (length page) < limit \<Longrightarrow> page = [] \<or> offset \<le> count) \<Longrightarrow>
   search_loop keep offset limit es page count =
     (page @ take (nat limit - length page) (drop (nat (offset - count)) (filter keep es)), count + int (length (filter keep es)))"
proof (induction es arbitrary: page count)
  case (Cons e es)
  show ?case
  proof (cases "keep e")
    case True
    consider (take) "offset \<le> count" "int (length page) < limit" | (full) "int (length page) = limit"
      | (skip) "count < offset" "int (length page) < limit" using Cons.prems(2) by linarith
    then show ?thesis
    proof cases
      case take
      then have "nat limit - length page = Suc (nat limit - Suc (length page))" by linarith
      then show ?thesis using True take Cons.prems Cons.IH [of "page @ [e]" "count + 1"] by simp
    next
      case full
      then have "nat limit - length page = 0" by simp
      then show ?thesis using True full Cons.prems Cons.IH [of page "count + 1"] by simp
    next
      case skip
      then have "nat (offset - count) = Suc (nat (offset - (count + 1)))" by linarith
      then show ?thesis using True skip Cons.prems Cons.IH [of page "count + 1"] by simp
    qed
  qed (use Cons in simp)
qed simp

definition page_limit :: "int \<Rightarrow> int" where
  "page_limit limit = (if limit \<le> 0 \<or> limit > 200 then 50 else limit)"

lemma Search_page:
  "Search lower q offset limit s =
     (take (nat (page_limit limit)) (drop (nat offset) (history_matches lower q s)), int (length (history_matches lower q s)))"
proof -
  have "(\<lambda>e. \<not> (p \<noteq> [] \<and> \<not> contains (lower (en_URL e)) p \<and> \<not> contains (lower (en_Title e)) p)) = (\<lambda>e. p = [] \<or> entry_matches lower p e)" for p
    by (auto simp: entry_matches_def)
  then show ?thesis
    by (simp add: Search_def Let_def history_matches_def search_loop_page page_limit_def)
qed

lemma concat_pages: "concat (map (\<lambda>i. take k (drop (k * i) xs)) [0..<n]) = take (k * n) xs"
proof (induction n)
  case (Suc n)
  then show ?case by (simp add: take_add add.commute [of k])
qed simp

text \<open>
  Paging shows every match once: a page is the corresponding segment of the matching history, newest first, with
  the total number of matches, and the first pages put together are exactly its beginning, for every query,
  including limits out of range and negative offsets.
\<close>
theorem search_pages_partition:
  "Search lower q offset limit s =
     (take (nat (page_limit limit)) (drop (nat offset) (history_matches lower q s)), int (length (history_matches lower q s))) \<and>
   concat (map (\<lambda>i. fst (Search lower q (page_limit limit * int i) limit s)) [0..<n]) =
     take (nat (page_limit limit) * n) (history_matches lower q s)"
proof -
  have "nat (page_limit limit * int i) = nat (page_limit limit) * i" for i
    by (simp add: nat_mult_distrib page_limit_def)
  then show ?thesis by (simp add: Search_page concat_pages)
qed

lemma suggest_loop_inv:
  assumes "suggest_loop lower q es seen out = (full, seen', out')" "set seen = en_URL ` set out" "distinct (map en_URL out)" "length out < 6"
  shows "set seen' = en_URL ` set out' \<and> distinct (map en_URL out') \<and> length out' \<le> 6 \<and> (\<not> full \<longrightarrow> length out' < 6) \<and>
     (\<forall>e\<in>set out'. e \<in> set out \<or> (e \<in> set es \<and> entry_matches lower q e)) \<and> set out \<subseteq> set out' \<and>
     (full \<or> (\<forall>e\<in>set es. entry_matches lower q e \<longrightarrow> en_URL e \<in> en_URL ` set out'))"
  using assms
proof (induction es arbitrary: seen out)
  case (Cons e es)
  show ?case
  proof (cases "en_URL e \<in> set seen")
    case True
    then show ?thesis using Cons.IH [of seen out] Cons.prems by auto
  next
    case new: False
    show ?thesis
    proof (cases "entry_matches lower q e")
      case True
      show ?thesis
      proof (cases "length out = 5")
        case False
        then have "suggest_loop lower q es (en_URL e # seen) (out @ [e]) = (full, seen', out')" using new True Cons.prems by simp
        from Cons.IH [OF this] show ?thesis using new True Cons.prems(2-4) False by auto
      qed (use new True Cons.prems in auto)
    next
      case False
      then have "suggest_loop lower q es seen out = (full, seen', out')" using new Cons.prems by simp
      from Cons.IH [OF this] show ?thesis using Cons.prems(2-4) False by auto
    qed
  qed
qed simp

lemma suggest_loop_full: "suggest_loop lower q es seen out = (full, seen', out') \<Longrightarrow> full \<Longrightarrow> 6 \<le> length out'"
  by (induction es arbitrary: seen out) (auto simp: Let_def split: if_splits prod.splits)

text \<open>Suggestions: at most six, each address once, every one a match, and all matching addresses when there are fewer than six.\<close>
lemma suggestions:
  fixes lower :: "string \<Rightarrow> string" and q :: string
  defines "p \<equiv> lower (trim_space q)"
  assumes "p \<noteq> []"
  shows "length (Suggest lower q s) \<le> 6" "distinct (map en_URL (Suggest lower q s))"
    "e \<in> set (Suggest lower q s) \<Longrightarrow> entry_matches lower p e \<and> e \<in> set (st_bookmarks s) \<union> set (st_hist s)"
    "length (Suggest lower q s) < 6 \<Longrightarrow> f \<in> set (st_bookmarks s) \<union> set (st_hist s) \<Longrightarrow> entry_matches lower p f \<Longrightarrow>
       en_URL f \<in> en_URL ` set (Suggest lower q s)"
proof -
  obtain full seen out where first: "suggest_loop lower p (st_bookmarks s) [] [] = (full, seen, out)" by (metis surj_pair)
  note f = suggest_loop_inv [OF first]
  obtain full' seen' out' where second: "suggest_loop lower p (rev (st_hist s)) seen out = (full', seen', out')" by (metis surj_pair)
  have out: "Suggest lower q s = (if full then out else out')"
    using assms(2) by (simp add: Suggest_def p_def [symmetric] first second)
  note g = suggest_loop_inv [OF second]
  show "length (Suggest lower q s) \<le> 6" "distinct (map en_URL (Suggest lower q s))"
    using f g by (auto simp: out)
  show "e \<in> set (Suggest lower q s) \<Longrightarrow> entry_matches lower p e \<and> e \<in> set (st_bookmarks s) \<union> set (st_hist s)"
    using f g by (auto simp: out split: if_splits)
  have full_len: "full \<Longrightarrow> 6 \<le> length out" "full' \<Longrightarrow> 6 \<le> length out'"
    using suggest_loop_full [OF first] suggest_loop_full [OF second] by auto
  show "length (Suggest lower q s) < 6 \<Longrightarrow> f \<in> set (st_bookmarks s) \<union> set (st_hist s) \<Longrightarrow> entry_matches lower p f \<Longrightarrow>
       en_URL f \<in> en_URL ` set (Suggest lower q s)" for f
    using f g full_len image_mono [of "set out" "set out'" en_URL] by (auto simp: out split: if_splits dest!: subsetD)
qed

end
