(* ===== verification/Clipboard.thy ===== *)
theory Clipboard
  imports Go_Text
begin

text \<open>
  The shared clipboard, \<^verbatim>\<open>backend/internal/clipboard/controller.go\<close>, as a machine of threads: every operation
  runs in its own goroutine and its critical sections, system calls and lock acquisitions are separate steps, so that
  all interleavings are covered. The operating system's clipboard answers anything; the settings file and
  the texts handed to the system are part of the state, and so are the states the operations returned.
\<close>

section \<open>Data\<close>

definition MaxBytes :: nat where "MaxBytes = 64 * 1024"

datatype clip_error = TooLongOrNotUTF8 | NulByte | Unavailable | SystemFailed | SettingsNotSaved

record clip_state =
  cs_Enabled :: bool
  cs_Available :: bool
  cs_System :: string
  cs_Known :: bool
  cs_Text :: string
  cs_Revision :: uint64

record clip_ctl =
  cl_system :: string        \<comment> \<open>\<^verbatim>\<open>system.Name()\<close>\<close>
  cl_enabled :: bool
  cl_known :: bool
  cl_text :: string
  cl_revision :: uint64

definition Validate :: "string \<Rightarrow> clip_error option" where
  "Validate text =
    (if \<not> valid_utf8 (map of_char text) \<or> length text > MaxBytes then Some TooLongOrNotUTF8
     else if CHR 0x00 \<in> set text then Some NulByte
     else None)"

definition snapshotLocked :: "clip_ctl \<Rightarrow> clip_state" where
  "snapshotLocked c = \<lparr>cs_Enabled = cl_enabled c, cs_Available = (cl_system c \<noteq> ''unavailable''), cs_System = cl_system c,
     cs_Known = cl_known c, cs_Text = cl_text c, cs_Revision = cl_revision c\<rparr>"

definition clip_apply :: "string \<Rightarrow> clip_ctl \<Rightarrow> bool \<times> clip_ctl" where
  "clip_apply text c =
    (if cl_known c \<and> cl_text c = text then (False, c)
     else (True, c\<lparr>cl_known := True, cl_text := text, cl_revision := cl_revision c + 1\<rparr>))"

definition set_flag :: "bool \<Rightarrow> clip_ctl \<Rightarrow> clip_ctl" where
  \<comment> \<open>the critical section of \<^verbatim>\<open>SetEnabled\<close>\<close>
  "set_flag enabled c = (let c = c\<lparr>cl_enabled := enabled\<rparr> in if \<not> enabled then c\<lparr>cl_known := False, cl_text := []\<rparr> else c)"

datatype saved_settings = NoFile | Unreadable | Saved bool

definition newController :: "string \<Rightarrow> saved_settings \<Rightarrow> clip_ctl" where
  \<comment> \<open>the controller it returns, also beside an error\<close>
  "newController system saved = \<lparr>cl_system = system, cl_enabled = (case saved of Saved b \<Rightarrow> b | _ \<Rightarrow> False), cl_known = False, cl_text = [],
     cl_revision = 0\<rparr>"

section \<open>Threads\<close>

datatype clip_pc =
    Idle
  | Persist bool                        \<comment> \<open>\<^verbatim>\<open>SetEnabled\<close> holds \<^verbatim>\<open>settingsMu\<close>\<close>
  | Flag bool                           \<comment> \<open>the preference is saved\<close>
  | Refresh1 bool                       \<comment> \<open>\<^verbatim>\<open>Refresh\<close>, called by \<^verbatim>\<open>SetEnabled\<close> or not\<close>
  | Refresh2 bool clip_state            \<comment> \<open>waits for \<^verbatim>\<open>systemMu\<close>\<close>
  | Refresh3 bool clip_state            \<comment> \<open>reads the system's clipboard\<close>
  | Refresh4 bool string                \<comment> \<open>looks at the flag again\<close>
  | Refresh5 bool string                \<comment> \<open>applies the text\<close>
  | Host1 string                        \<comment> \<open>\<^verbatim>\<open>SetHost\<close> waits for \<^verbatim>\<open>systemMu\<close>\<close>
  | Host2 string
  | Host3 string "clip_error option"
  | Remote1 string                      \<comment> \<open>\<^verbatim>\<open>SetRemote\<close>: the first look at the flag\<close>
  | Remote2 string                      \<comment> \<open>waits for \<^verbatim>\<open>systemMu\<close>\<close>
  | Remote3 string                      \<comment> \<open>the second look\<close>
  | Remote4 string                      \<comment> \<open>writes the system's clipboard\<close>
  | Remote5 string "clip_error option"  \<comment> \<open>the third look\<close>
  | Remote6 string "clip_error option"  \<comment> \<open>applies the text\<close>
  | Read1                               \<comment> \<open>\<^verbatim>\<open>Read\<close> waits for \<^verbatim>\<open>systemMu\<close>\<close>
  | Read2
  | Read3 string
  | Read4 clip_error                    \<comment> \<open>the fallback\<close>

record clip_world =
  cw_ctl :: clip_ctl
  cw_saved :: saved_settings
  cw_settingsMu :: "nat option"
  cw_systemMu :: "nat option"
  cw_pc :: "nat \<Rightarrow> clip_pc"
  cw_system :: "string list"                                      \<comment> \<open>texts handed to the system's clipboard\<close>
  cw_returned :: "(clip_state \<times> bool \<times> clip_error option) list"   \<comment> \<open>newest last\<close>

definition new_world :: "string \<Rightarrow> saved_settings \<Rightarrow> clip_world" where
  "new_world system saved = \<lparr>cw_ctl = newController system saved, cw_saved = saved, cw_settingsMu = None, cw_systemMu = None,
     cw_pc = (\<lambda>_. Idle), cw_system = [], cw_returned = []\<rparr>"

definition go :: "nat \<Rightarrow> clip_pc \<Rightarrow> clip_world \<Rightarrow> clip_world" where
  "go t pc w = w\<lparr>cw_pc := (cw_pc w)(t := pc)\<rparr>"

definition unlock :: "nat \<Rightarrow> clip_world \<Rightarrow> clip_world" where
  \<comment> \<open>the deferred unlocks of a returning operation\<close>
  "unlock t w = w\<lparr>cw_systemMu := (if cw_systemMu w = Some t then None else cw_systemMu w),
     cw_settingsMu := (if cw_settingsMu w = Some t then None else cw_settingsMu w)\<rparr>"

definition ret :: "nat \<Rightarrow> clip_state \<Rightarrow> bool \<Rightarrow> clip_error option \<Rightarrow> clip_world \<Rightarrow> clip_world" where
  "ret t st changed err w = unlock t (go t Idle (w\<lparr>cw_returned := cw_returned w @ [(st, changed, err)]\<rparr>))"

definition clip_State :: "clip_world \<Rightarrow> clip_state" where
  "clip_State w = snapshotLocked (cw_ctl w)"

definition refresh_error :: "bool \<Rightarrow> clip_error \<Rightarrow> clip_error option" where
  \<comment> \<open>\<^verbatim>\<open>SetEnabled\<close> forgives an unavailable system\<close>
  "refresh_error enabling err = (if enabling \<and> err = Unavailable then None else Some err)"

definition apply_return :: "nat \<Rightarrow> string \<Rightarrow> clip_error option \<Rightarrow> clip_world \<Rightarrow> clip_world" where
  \<comment> \<open>\<^verbatim>\<open>state, changed := c.apply(text)\<close>, then return\<close>
  "apply_return t text err w =
    (let (changed, c) = clip_apply text (cw_ctl w) in ret t (snapshotLocked c) changed err (w\<lparr>cw_ctl := c\<rparr>))"

inductive clip_step :: "nat \<Rightarrow> clip_world \<Rightarrow> clip_world \<Rightarrow> bool" for t :: nat where
  \<comment> \<open>\<^verbatim>\<open>SetEnabled\<close>\<close>
  enable: "cw_pc w t = Idle \<Longrightarrow> cw_settingsMu w = None \<Longrightarrow> clip_step t w (go t (Persist b) (w\<lparr>cw_settingsMu := Some t\<rparr>))"
| persist_fails: "cw_pc w t = Persist b \<Longrightarrow> clip_step t w (ret t (clip_State w) False (Some SettingsNotSaved) w)"
| persisted: "cw_pc w t = Persist b \<Longrightarrow> clip_step t w (go t (Flag b) (w\<lparr>cw_saved := Saved b\<rparr>))"
| disabled: "cw_pc w t = Flag False \<Longrightarrow>
    clip_step t w (ret t (snapshotLocked (set_flag False (cw_ctl w))) False None (w\<lparr>cw_ctl := set_flag False (cw_ctl w)\<rparr>))"
| enabled: "cw_pc w t = Flag True \<Longrightarrow> clip_step t w (go t (Refresh1 True) (w\<lparr>cw_ctl := set_flag True (cw_ctl w)\<rparr>))"
  \<comment> \<open>\<^verbatim>\<open>Refresh\<close>\<close>
| refresh: "cw_pc w t = Idle \<Longrightarrow> clip_step t w (go t (Refresh1 False) w)"
| refresh_off: "cw_pc w t = Refresh1 enabling \<Longrightarrow> \<not> cl_enabled (cw_ctl w) \<Longrightarrow> clip_step t w (ret t (clip_State w) False None w)"
| refresh_on: "cw_pc w t = Refresh1 enabling \<Longrightarrow> cl_enabled (cw_ctl w) \<Longrightarrow> clip_step t w (go t (Refresh2 enabling (clip_State w)) w)"
| refresh_lock: "cw_pc w t = Refresh2 enabling st \<Longrightarrow> cw_systemMu w = None \<Longrightarrow>
    clip_step t w (go t (Refresh3 enabling st) (w\<lparr>cw_systemMu := Some t\<rparr>))"
| refresh_fails: "cw_pc w t = Refresh3 enabling st \<Longrightarrow> clip_step t w (ret t st False (refresh_error enabling err) w)"
| refresh_invalid: "cw_pc w t = Refresh3 enabling st \<Longrightarrow> Validate text = Some err \<Longrightarrow> clip_step t w (ret t st False (Some err) w)"
| refresh_read: "cw_pc w t = Refresh3 enabling st \<Longrightarrow> Validate text = None \<Longrightarrow> clip_step t w (go t (Refresh4 enabling text) w)"
| refresh_off_again: "cw_pc w t = Refresh4 enabling text \<Longrightarrow> \<not> cl_enabled (cw_ctl w) \<Longrightarrow> clip_step t w (ret t (clip_State w) False None w)"
| refresh_still_on: "cw_pc w t = Refresh4 enabling text \<Longrightarrow> cl_enabled (cw_ctl w) \<Longrightarrow> clip_step t w (go t (Refresh5 enabling text) w)"
| refresh_apply: "cw_pc w t = Refresh5 enabling text \<Longrightarrow> clip_step t w (apply_return t text None w)"
  \<comment> \<open>\<^verbatim>\<open>SetHost\<close>\<close>
| host_invalid: "cw_pc w t = Idle \<Longrightarrow> Validate text = Some err \<Longrightarrow> clip_step t w (ret t (clip_State w) False (Some err) w)"
| host: "cw_pc w t = Idle \<Longrightarrow> Validate text = None \<Longrightarrow> clip_step t w (go t (Host1 text) w)"
| host_lock: "cw_pc w t = Host1 text \<Longrightarrow> cw_systemMu w = None \<Longrightarrow> clip_step t w (go t (Host2 text) (w\<lparr>cw_systemMu := Some t\<rparr>))"
| host_write: "cw_pc w t = Host2 text \<Longrightarrow> clip_step t w (go t (Host3 text err) (w\<lparr>cw_system := cw_system w @ [text]\<rparr>))"
| host_apply: "cw_pc w t = Host3 text err \<Longrightarrow> clip_step t w (apply_return t text err w)"
  \<comment> \<open>\<^verbatim>\<open>SetRemote\<close>\<close>
| remote_invalid: "cw_pc w t = Idle \<Longrightarrow> Validate text = Some err \<Longrightarrow> clip_step t w (ret t (clip_State w) False (Some err) w)"
| remote: "cw_pc w t = Idle \<Longrightarrow> Validate text = None \<Longrightarrow> clip_step t w (go t (Remote1 text) w)"
| remote_off: "cw_pc w t = Remote1 text \<Longrightarrow> \<not> cl_enabled (cw_ctl w) \<Longrightarrow> clip_step t w (ret t (clip_State w) False None w)"
| remote_on: "cw_pc w t = Remote1 text \<Longrightarrow> cl_enabled (cw_ctl w) \<Longrightarrow> clip_step t w (go t (Remote2 text) w)"
| remote_lock: "cw_pc w t = Remote2 text \<Longrightarrow> cw_systemMu w = None \<Longrightarrow> clip_step t w (go t (Remote3 text) (w\<lparr>cw_systemMu := Some t\<rparr>))"
| remote_off2: "cw_pc w t = Remote3 text \<Longrightarrow> \<not> cl_enabled (cw_ctl w) \<Longrightarrow> clip_step t w (ret t (clip_State w) False None w)"
| remote_on2: "cw_pc w t = Remote3 text \<Longrightarrow> cl_enabled (cw_ctl w) \<Longrightarrow> clip_step t w (go t (Remote4 text) w)"
| remote_write: "cw_pc w t = Remote4 text \<Longrightarrow> clip_step t w (go t (Remote5 text err) (w\<lparr>cw_system := cw_system w @ [text]\<rparr>))"
| remote_off3: "cw_pc w t = Remote5 text err \<Longrightarrow> \<not> cl_enabled (cw_ctl w) \<Longrightarrow> clip_step t w (ret t (clip_State w) False err w)"
| remote_on3: "cw_pc w t = Remote5 text err \<Longrightarrow> cl_enabled (cw_ctl w) \<Longrightarrow> clip_step t w (go t (Remote6 text err) w)"
| remote_apply: "cw_pc w t = Remote6 text err \<Longrightarrow> clip_step t w (apply_return t text err w)"
  \<comment> \<open>\<^verbatim>\<open>Read\<close>, whose callers get no \<^verbatim>\<open>changed\<close>\<close>
| read: "cw_pc w t = Idle \<Longrightarrow> clip_step t w (go t Read1 w)"
| read_lock: "cw_pc w t = Read1 \<Longrightarrow> cw_systemMu w = None \<Longrightarrow> clip_step t w (go t Read2 (w\<lparr>cw_systemMu := Some t\<rparr>))"
| read_invalid: "cw_pc w t = Read2 \<Longrightarrow> Validate text = Some err \<Longrightarrow> clip_step t w (ret t (clip_State w) False (Some err) w)"
| read_text: "cw_pc w t = Read2 \<Longrightarrow> Validate text = None \<Longrightarrow> clip_step t w (go t (Read3 text) w)"
| read_apply: "cw_pc w t = Read3 text \<Longrightarrow> clip_step t w (apply_return t text None w)"
| read_fails: "cw_pc w t = Read2 \<Longrightarrow> clip_step t w (go t (Read4 err) w)"
| read_fallback: "cw_pc w t = Read4 err \<Longrightarrow>
    clip_step t w (ret t (clip_State w) False (if cl_known (cw_ctl w) then None else Some err) w)"

inductive_cases clip_stepE: "clip_step t w w'"

inductive clip_run :: "clip_world \<Rightarrow> nat \<Rightarrow> clip_world \<Rightarrow> bool" for w0 :: clip_world where
  run_start: "clip_run w0 0 w0"
| run_step: "clip_run w0 n w \<Longrightarrow> clip_step t w w' \<Longrightarrow> clip_run w0 (Suc n) w'"

end
