(* ===== verification/Clipboard_Facts.thy ===== *)
theory Clipboard_Facts
  imports Clipboard
begin

text \<open>
  Invariants of the clipboard under all interleavings of its operations: the texts it hands out are valid, a
  revision stands for one text, and the system's clipboard is used by one operation at a time. The last section shows
  that a device's value can still land after sync has been turned off.
\<close>

section \<open>Revisions\<close>

definition sound_state :: "string list \<Rightarrow> clip_state \<Rightarrow> bool" where
  \<comment> \<open>the texts are those applied so far, the oldest first; the revision of a state is the position of its text\<close>
  "sound_state texts st \<longleftrightarrow> (cs_Known st \<longrightarrow> Validate (cs_Text st) = None \<and>
     (\<exists>k<length texts. cs_Revision st = of_nat (Suc k) \<and> cs_Text st = texts ! k))"

fun sound_pc :: "string list \<Rightarrow> clip_pc \<Rightarrow> bool" where
  "sound_pc texts (Refresh2 _ st) = sound_state texts st"
| "sound_pc texts (Refresh3 _ st) = sound_state texts st"
| "sound_pc texts (Refresh4 _ text) = (Validate text = None)"
| "sound_pc texts (Refresh5 _ text) = (Validate text = None)"
| "sound_pc texts (Host1 text) = (Validate text = None)"
| "sound_pc texts (Host2 text) = (Validate text = None)"
| "sound_pc texts (Host3 text _) = (Validate text = None)"
| "sound_pc texts (Remote1 text) = (Validate text = None)"
| "sound_pc texts (Remote2 text) = (Validate text = None)"
| "sound_pc texts (Remote3 text) = (Validate text = None)"
| "sound_pc texts (Remote4 text) = (Validate text = None)"
| "sound_pc texts (Remote5 text _) = (Validate text = None)"
| "sound_pc texts (Remote6 text _) = (Validate text = None)"
| "sound_pc texts (Read3 text) = (Validate text = None)"
| "sound_pc texts _ = True"

definition clip_inv :: "string list \<Rightarrow> clip_world \<Rightarrow> bool" where
  "clip_inv texts w \<longleftrightarrow>
     cl_revision (cw_ctl w) = of_nat (length texts) \<and> sound_state texts (clip_State w) \<and>
     (\<forall>t. sound_pc texts (cw_pc w t)) \<and> (\<forall>r\<in>set (cw_returned w). sound_state texts (fst r))"

lemma sound_state_more: "sound_state texts st \<Longrightarrow> sound_state (texts @ [x]) st"
  by (auto simp: sound_state_def nth_append)

lemma sound_pc_more: "sound_pc texts pc \<Longrightarrow> sound_pc (texts @ [x]) pc"
  by (cases pc) (simp_all add: sound_state_more)

lemma clip_inv_pc: "clip_inv texts w \<Longrightarrow> cw_pc w t = pc \<Longrightarrow> sound_pc texts pc"
  by (auto simp: clip_inv_def)

lemma clip_inv_State: "clip_inv texts w \<Longrightarrow> sound_state texts (clip_State w)"
  by (simp add: clip_inv_def)

lemma clip_inv_go: "clip_inv texts w \<Longrightarrow> sound_pc texts pc \<Longrightarrow> clip_inv texts (go t pc w)"
  by (simp add: clip_inv_def go_def clip_State_def)

lemma clip_inv_ret: "clip_inv texts w \<Longrightarrow> sound_state texts st \<Longrightarrow> clip_inv texts (ret t st changed err w)"
  by (auto simp: clip_inv_def ret_def go_def unlock_def clip_State_def)

lemma inv_other_fields:
  assumes "clip_inv texts w"
  shows "clip_inv texts (w\<lparr>cw_settingsMu := m\<rparr>)" "clip_inv texts (w\<lparr>cw_systemMu := m\<rparr>)" "clip_inv texts (w\<lparr>cw_saved := sv\<rparr>)"
    "clip_inv texts (w\<lparr>cw_system := ts\<rparr>)"
  using assms by (simp_all add: clip_inv_def clip_State_def)

lemma sound_flag: "sound_state texts (snapshotLocked c) \<Longrightarrow> sound_state texts (snapshotLocked (set_flag b c))"
  by (auto simp: sound_state_def snapshotLocked_def set_flag_def Let_def)

lemma clip_inv_flag: "clip_inv texts w \<Longrightarrow> clip_inv texts (w\<lparr>cw_ctl := set_flag b (cw_ctl w)\<rparr>)"
  using sound_flag by (simp add: clip_inv_def clip_State_def) (simp add: set_flag_def Let_def)

lemma clip_inv_apply:
  assumes "clip_inv texts w" "Validate text = None"
  shows "\<exists>new. length new \<le> 1 \<and> clip_inv (texts @ new) (apply_return t text err w)"
proof (cases "cl_known (cw_ctl w) \<and> cl_text (cw_ctl w) = text")
  case True
  then have "apply_return t text err w = ret t (clip_State w) False err w"
    by (simp add: apply_return_def clip_apply_def clip_State_def)
  then show ?thesis using clip_inv_ret [OF assms(1) clip_inv_State [OF assms(1)]] by (intro exI [of _ "[]"]) simp
next
  case False
  let ?c = "(cw_ctl w)\<lparr>cl_known := True, cl_text := text, cl_revision := cl_revision (cw_ctl w) + 1\<rparr>"
  have st: "sound_state (texts @ [text]) (snapshotLocked ?c)"
    using assms by (auto simp: sound_state_def snapshotLocked_def clip_inv_def intro!: exI [of _ "length texts"])
  moreover have "clip_inv (texts @ [text]) (w\<lparr>cw_ctl := ?c\<rparr>)"
    using assms st by (simp add: clip_inv_def clip_State_def sound_pc_more sound_state_more)
  moreover have "apply_return t text err w = ret t (snapshotLocked ?c) True err (w\<lparr>cw_ctl := ?c\<rparr>)"
    using False by (auto simp: apply_return_def clip_apply_def)
  ultimately show ?thesis using clip_inv_ret by (intro exI [of _ "[text]"]) simp
qed

lemma clip_inv_step:
  assumes "clip_step t w w'" "clip_inv texts w"
  shows "\<exists>new. length new \<le> 1 \<and> clip_inv (texts @ new) w'"
proof -
  have quiet: ?thesis if "clip_inv texts w'" using that by (intro exI [of _ "[]"]) simp
  note facts = clip_inv_go clip_inv_ret inv_other_fields clip_inv_flag clip_inv_State assms(2)
  show ?thesis using assms(1)
  proof (cases rule: clip_step.cases)
    case disabled
    have f: "clip_inv texts (w\<lparr>cw_ctl := set_flag False (cw_ctl w)\<rparr>)" by (rule clip_inv_flag) (rule assms(2))
    then have "sound_state texts (snapshotLocked (set_flag False (cw_ctl w)))" using clip_inv_State [OF f] by (simp add: clip_State_def)
    then have "clip_inv texts w'" unfolding disabled(1) using f clip_inv_ret by simp
    then show ?thesis by (rule quiet)
  next
    case (refresh_apply enabling x)
    then show ?thesis using clip_inv_apply [OF assms(2)] clip_inv_pc [OF assms(2) refresh_apply(2)] by simp
  next
    case (host_apply x err)
    then show ?thesis using clip_inv_apply [OF assms(2)] clip_inv_pc [OF assms(2) host_apply(2)] by simp
  next
    case (remote_apply x err)
    then show ?thesis using clip_inv_apply [OF assms(2)] clip_inv_pc [OF assms(2) remote_apply(2)] by simp
  next
    case (read_apply x)
    then show ?thesis using clip_inv_apply [OF assms(2)] clip_inv_pc [OF assms(2) read_apply(2)] by simp
  qed (rule quiet, use clip_inv_pc [OF assms(2)] in \<open>fastforce simp: facts\<close>)+
qed

lemma clip_inv_run:
  assumes "clip_run (new_world system saved) n w"
  shows "\<exists>texts. length texts \<le> n \<and> clip_inv texts w"
  using assms
proof (induction rule: clip_run.induct)
  case run_start
  show ?case by (intro exI [of _ "[]"])
      (simp add: clip_inv_def new_world_def newController_def clip_State_def snapshotLocked_def sound_state_def)
next
  case (run_step n w t w')
  then obtain texts where t: "length texts \<le> n" "clip_inv texts w" by blast
  then obtain new where "length new \<le> 1" "clip_inv (texts @ new) w'" using clip_inv_step [OF run_step(2)] by blast
  then show ?case using t(1) by (intro exI [of _ "texts @ new"]) simp
qed

text \<open>
  C39 (invariant). Clients can trust what the clipboard hands out, whatever operations run concurrently and whatever the
  operating system answers: every state returned with a known text has valid text (UTF-8 of at most 64 KiB without NUL
  bytes), and two such states with the same revision have the same text, within the range of the revision counter.
\<close>
theorem clipboard_revision_identifies_text:
  assumes "clip_run (new_world system saved) n w" "n < 2 ^ 64"
    and "(a, ac, ae) \<in> set (cw_returned w)" "(b, bc, be) \<in> set (cw_returned w)" "cs_Known a" "cs_Known b"
  shows "Validate (cs_Text a) = None \<and> (cs_Revision a = cs_Revision b \<longrightarrow> cs_Text a = cs_Text b)"
proof -
  obtain texts where texts: "length texts \<le> n" "clip_inv texts w" using clip_inv_run [OF assms(1)] by blast
  then have s: "sound_state texts a" "sound_state texts b" using assms(3,4) by (auto simp: clip_inv_def)
  then obtain i j where ij: "i < length texts" "cs_Revision a = of_nat (Suc i)" "cs_Text a = texts ! i"
      "j < length texts" "cs_Revision b = of_nat (Suc j)" "cs_Text b = texts ! j"
    using assms(5,6) unfolding sound_state_def by blast
  have "i = j" if "cs_Revision a = cs_Revision b"
  proof -
    have "(of_nat (Suc i) :: uint64) = of_nat (Suc j)" using that ij(2,5) by simp
    then have "unat (of_nat (Suc i) :: uint64) = unat (of_nat (Suc j) :: uint64)" by simp
    moreover have "Suc i < 2 ^ 64" "Suc j < 2 ^ 64" using ij(1,4) texts(1) assms(2) by linarith+
    ultimately show ?thesis by (simp only: unat_of_nat take_bit_nat_eq_self len_num1 len_bit0 mod_less) simp
  qed
  then show ?thesis using s(1) assms(5) ij by (auto simp: sound_state_def)
qed

section \<open>The system's clipboard\<close>

fun holding :: "clip_pc \<Rightarrow> bool" where
  "holding (Refresh3 _ _) = True"
| "holding (Refresh4 _ _) = True"
| "holding (Refresh5 _ _) = True"
| "holding (Host2 _) = True"
| "holding (Host3 _ _) = True"
| "holding (Remote3 _) = True"
| "holding (Remote4 _) = True"
| "holding (Remote5 _ _) = True"
| "holding (Remote6 _ _) = True"
| "holding Read2 = True"
| "holding (Read3 _) = True"
| "holding (Read4 _) = True"
| "holding _ = False"

definition mutex_inv :: "clip_world \<Rightarrow> bool" where
  "mutex_inv w \<longleftrightarrow> (\<forall>t. holding (cw_pc w t) \<longleftrightarrow> cw_systemMu w = Some t)"

lemma mutex_go: "mutex_inv w \<Longrightarrow> holding (cw_pc w t) = holding pc \<Longrightarrow> mutex_inv (go t pc w)"
  by (simp add: mutex_inv_def go_def)

lemma mutex_lock: "mutex_inv w \<Longrightarrow> cw_systemMu w = None \<Longrightarrow> holding pc \<Longrightarrow> mutex_inv (go t pc (w\<lparr>cw_systemMu := Some t\<rparr>))"
  by (auto simp: mutex_inv_def go_def)

lemma mutex_ret: "mutex_inv w \<Longrightarrow> mutex_inv (ret t st changed err w)"
  by (auto simp: mutex_inv_def ret_def go_def unlock_def)

lemma mutex_other_fields [simp]:
  "mutex_inv (w\<lparr>cw_settingsMu := m\<rparr>) = mutex_inv w" "mutex_inv (w\<lparr>cw_saved := sv\<rparr>) = mutex_inv w"
  "mutex_inv (w\<lparr>cw_system := ts\<rparr>) = mutex_inv w" "mutex_inv (w\<lparr>cw_ctl := c\<rparr>) = mutex_inv w"
  by (simp_all add: mutex_inv_def)

lemma mutex_apply_return: "mutex_inv w \<Longrightarrow> mutex_inv (apply_return t x err w)"
  by (simp add: apply_return_def mutex_ret split: prod.split)

lemma mutex_step:
  assumes "clip_step t w w'" "mutex_inv w"
  shows "mutex_inv w'"
  using assms(1) by (cases rule: clip_step.cases) (use assms(2) in \<open>simp_all add: mutex_go mutex_lock mutex_ret mutex_apply_return\<close>)

text \<open>One operation at a time is between its lock and its unlock of \<^verbatim>\<open>systemMu\<close>.\<close>
lemma system_exclusive:
  assumes "clip_run (new_world system saved) n w" "holding (cw_pc w t)" "holding (cw_pc w u)"
  shows "t = u"
proof -
  have "mutex_inv w" using assms(1)
  proof (induction rule: clip_run.induct)
    case run_start
    show ?case by (simp add: mutex_inv_def new_world_def)
  next
    case (run_step n w t w')
    then show ?case using mutex_step by blast
  qed
  then show ?thesis using assms(2,3) by (auto simp: mutex_inv_def)
qed

section \<open>Runs\<close>

lemma Validate_x: "Validate ''x'' = None"
  by (simp add: Validate_def MaxBytes_def valid_utf8.simps RuneError_def)

lemmas world_defs = go_def ret_def unlock_def apply_return_def clip_apply_def clip_State_def new_world_def newController_def
  snapshotLocked_def set_flag_def

lemma run_then: "clip_run w0 n w \<Longrightarrow> clip_step t w w' \<Longrightarrow> m = Suc n \<Longrightarrow> clip_run w0 m w'"
  by (simp add: run_step)

lemma host_run:
  "\<exists>w. clip_run (new_world ''pasteboard'' NoFile) 4 w \<and>
     cw_returned w = [(\<lparr>cs_Enabled = False, cs_Available = True, cs_System = ''pasteboard'', cs_Known = True, cs_Text = ''x'', cs_Revision = 1\<rparr>, True, None)]"
proof -
  let ?w0 = "new_world ''pasteboard'' NoFile"
  let ?w1 = "go 1 (Host1 ''x'') ?w0"
  let ?w2 = "go 1 (Host2 ''x'') (?w1\<lparr>cw_systemMu := Some 1\<rparr>)"
  let ?w3 = "go 1 (Host3 ''x'' None) (?w2\<lparr>cw_system := cw_system ?w2 @ [''x'']\<rparr>)"
  let ?w4 = "apply_return 1 ''x'' None ?w3"
  have "clip_run ?w0 1 ?w1" by (rule run_then [OF run_start host]) (simp_all add: world_defs Validate_x)
  then have "clip_run ?w0 2 ?w2" by (rule run_then [OF _ host_lock]) (simp_all add: world_defs)
  then have "clip_run ?w0 3 ?w3" by (rule run_then [OF _ host_write]) (simp_all add: world_defs)
  then have "clip_run ?w0 4 ?w4" by (rule run_then [OF _ host_apply]) (simp_all add: world_defs)
  then show ?thesis by (intro exI [of _ ?w4] conjI) (simp_all add: world_defs)
qed

theorem clipboard_revision_identifies_text_witness:
  "\<exists>w a. clip_run (new_world ''pasteboard'' NoFile) 4 w \<and> (a, True, None) \<in> set (cw_returned w) \<and> cs_Known a \<and>
     Validate (cs_Text a) = None"
proof -
  let ?a = "\<lparr>cs_Enabled = False, cs_Available = True, cs_System = ''pasteboard'', cs_Known = True, cs_Text = ''x'', cs_Revision = 1\<rparr>"
  obtain w where w: "clip_run (new_world ''pasteboard'' NoFile) 4 w" "cw_returned w = [(?a, True, None)]" using host_run by blast
  then have "Validate (cs_Text ?a) = None"
    using clipboard_revision_identifies_text [OF w(1), of ?a True None ?a True None] by simp
  then show ?thesis using w by (intro exI [of _ w] exI [of _ ?a]) simp
qed

text \<open>
  A value of a device that has passed its last look at the flag is applied even when another request turns sync off and clears
  the clipboard in between: the device is told that its value was accepted and the text stays.
\<close>
lemma remote_value_lands_after_disabling:
  "\<exists>w st. clip_run (new_world ''pasteboard'' (Saved True)) 10 w \<and> \<not> cl_enabled (cw_ctl w) \<and> cl_known (cw_ctl w) \<and>
     cl_text (cw_ctl w) = ''x'' \<and> (st, True, None) \<in> set (cw_returned w) \<and> cw_saved w = Saved False"
proof -
  let ?w0 = "new_world ''pasteboard'' (Saved True)"
  let ?w1 = "go 1 (Remote1 ''x'') ?w0"
  let ?w2 = "go 1 (Remote2 ''x'') ?w1"
  let ?w3 = "go 1 (Remote3 ''x'') (?w2\<lparr>cw_systemMu := Some 1\<rparr>)"
  let ?w4 = "go 1 (Remote4 ''x'') ?w3"
  let ?w5 = "go 1 (Remote5 ''x'' None) (?w4\<lparr>cw_system := cw_system ?w4 @ [''x'']\<rparr>)"
  let ?w6 = "go 1 (Remote6 ''x'' None) ?w5"
  let ?w7 = "go 2 (Persist False) (?w6\<lparr>cw_settingsMu := Some 2\<rparr>)"
  let ?w8 = "go 2 (Flag False) (?w7\<lparr>cw_saved := Saved False\<rparr>)"
  let ?w9 = "ret 2 (snapshotLocked (set_flag False (cw_ctl ?w8))) False None (?w8\<lparr>cw_ctl := set_flag False (cw_ctl ?w8)\<rparr>)"
  let ?w10 = "apply_return 1 ''x'' None ?w9"
  have "clip_run ?w0 1 ?w1" by (rule run_then [OF run_start remote]) (simp_all add: world_defs Validate_x)
  then have "clip_run ?w0 2 ?w2" by (rule run_then [OF _ remote_on]) (simp_all add: world_defs)
  then have "clip_run ?w0 3 ?w3" by (rule run_then [OF _ remote_lock]) (simp_all add: world_defs)
  then have "clip_run ?w0 4 ?w4" by (rule run_then [OF _ remote_on2]) (simp_all add: world_defs)
  then have "clip_run ?w0 5 ?w5" by (rule run_then [OF _ remote_write]) (simp_all add: world_defs)
  then have "clip_run ?w0 6 ?w6" by (rule run_then [OF _ remote_on3]) (simp_all add: world_defs)
  then have "clip_run ?w0 7 ?w7" by (rule run_then [OF _ enable]) (simp_all add: world_defs)
  then have "clip_run ?w0 8 ?w8" by (rule run_then [OF _ persisted [where b = False]]) (simp_all add: world_defs)
  then have "clip_run ?w0 9 ?w9" by (rule run_then [OF _ disabled]) (simp_all add: world_defs)
  then have "clip_run ?w0 10 ?w10" by (rule run_then [OF _ remote_apply]) (simp_all add: world_defs)
  then show ?thesis by (intro exI [of _ ?w10] exI [of _ "snapshotLocked (cw_ctl ?w10)"] conjI) (simp_all add: world_defs)
qed

end
