(* ===== verification/Viewport.thy ===== *)
theory Viewport
  imports Governor_Control Touch_Input Pointer_Input
begin

text \<open>
  The size of the page, \<^verbatim>\<open>handleSize\<close>, \<^verbatim>\<open>normalizeViewportSize\<close>, \<^verbatim>\<open>scheduleViewportApply\<close> and \<^verbatim>\<open>applySettledViewport\<close> of
  \<^verbatim>\<open>backend/internal/browser/input.go\<close>: a client's layout is normalized to what the encoder accepts, the input lanes are
  cancelled, and a timer that later layouts re-arm applies the last one to the page and the video pipeline. A
  timer that was stopped too late still runs its callback, so callbacks of any generation may run at any time.
\<close>

unbundle bit_operations_syntax

definition minViewportDimension :: int where "minViewportDimension = 64"
definition maxViewportDimension :: int where "maxViewportDimension = 1600"

definition go_min_f :: "f64 \<Rightarrow> f64 \<Rightarrow> f64" where
  \<comment> \<open>the built-in \<^verbatim>\<open>min\<close> on \<^verbatim>\<open>float64\<close>\<close>
  "go_min_f x y = (if x = NaN \<or> y = NaN then NaN else if f_less y x then y else x)"

definition clampDim :: "int \<Rightarrow> int \<Rightarrow> int" where
  "clampDim v fallback =
    (let v = (if v = 0 then fallback else v) in min maxViewportDimension (max minViewportDimension v) AND NOT 1)"

definition viewport_scale :: "int \<Rightarrow> int \<Rightarrow> f64" where
  "viewport_scale width height =
    (let scale = Fin 1;
         scale = (if width > maxViewportDimension then go_min_f scale (f_div (f_of_int maxViewportDimension) (f_of_int width)) else scale);
         scale = (if height > maxViewportDimension then go_min_f scale (f_div (f_of_int maxViewportDimension) (f_of_int height)) else scale)
     in scale)"

definition normalizeViewportSize :: "int \<Rightarrow> int \<Rightarrow> int \<Rightarrow> int \<Rightarrow> int \<times> int" where
  "normalizeViewportSize width height defaultWidth defaultHeight =
    (let width = (if width = 0 then defaultWidth else width);
         height = (if height = 0 then defaultHeight else height);
         scale = viewport_scale width height;
         (width, height) =
           (if f_less scale (Fin 1)
            then (int_of_f (f_floor (f_mul (f_of_int width) scale)), int_of_f (f_floor (f_mul (f_of_int height) scale)))
            else (width, height))
     in (clampDim width defaultWidth, clampDim height defaultHeight))"

record view_ctl =
  vw_ad :: adaptive_state             \<comment> \<open>view size, governor, video pipeline\<close>
  vw_touch :: touch_input
  vw_pointer :: pointer_input
  vw_closed :: bool                   \<comment> \<open>\<^verbatim>\<open>resizeClosed\<close>\<close>
  vw_gen :: uint64                    \<comment> \<open>\<^verbatim>\<open>resizeGen\<close>\<close>
  vw_timer :: "uint64 option"         \<comment> \<open>\<^verbatim>\<open>resizeTimer\<close>, with the generation its callback holds\<close>
  vw_views :: "(int \<times> int) list"      \<comment> \<open>the sizes given to the active tab by \<^verbatim>\<open>applyView\<close>, newest last\<close>

definition scheduleViewportApply :: "view_ctl \<Rightarrow> view_ctl" where
  "scheduleViewportApply b = (if vw_closed b then b else b\<lparr>vw_gen := vw_gen b + 1, vw_timer := Some (vw_gen b + 1)\<rparr>)"

definition handleSize :: "int \<Rightarrow> int \<Rightarrow> view_ctl \<Rightarrow> view_ctl" where
  "handleSize mW mH b =
    (let (w, h) = normalizeViewportSize mW mH (ad_viewW (vw_ad b)) (ad_viewH (vw_ad b));
         w = w AND NOT 1; h = h AND NOT 1;
         changed = (w \<noteq> ad_viewW (vw_ad b) \<or> h \<noteq> ad_viewH (vw_ad b))
     in if \<not> changed then b
        else scheduleViewportApply
          (b\<lparr>vw_ad := (vw_ad b)\<lparr>ad_viewW := w, ad_viewH := h\<rparr>,
             vw_touch := touch_cancel True (vw_touch b), vw_pointer := pointer_cancel True (vw_pointer b)\<rparr>))"

definition applySettledViewport :: "uint64 \<Rightarrow> bool \<Rightarrow> bool \<Rightarrow> gotime \<Rightarrow> view_ctl \<Rightarrow> view_ctl" where
  \<comment> \<open>whether there is an active tab; the outcome and the time of an encoder start\<close>
  "applySettledViewport generation tab ok now b =
    (if vw_closed b \<or> generation \<noteq> vw_gen b then b
     else
       let w = ad_viewW (vw_ad b); h = ad_viewH (vw_ad b);
           profile = profile_at (sg_profile (ad_governor (vw_ad b)));
           (maxW, maxH) = adaptiveScale profile w h
       in b\<lparr>vw_timer := None, vw_views := (if tab then vw_views b @ [(w, h)] else vw_views b),
            vw_ad := (vw_ad b)\<lparr>ad_video := SetViewport w h maxW maxH ok now (ad_video (vw_ad b))\<rparr>\<rparr>)"

definition resize_close :: "view_ctl \<Rightarrow> view_ctl" where
  \<comment> \<open>the part of \<^verbatim>\<open>Shutdown\<close> under \<^verbatim>\<open>resizeMu\<close>\<close>
  "resize_close b = b\<lparr>vw_closed := True, vw_gen := vw_gen b + 1, vw_timer := None\<rparr>"

section \<open>Bounds\<close>

lemma and_not_1 [simp]: "(x :: int) AND - 2 = 2 * (x div 2)"
  by (simp add: and_int_rec [of x "- 2"])

definition encodable :: "int \<Rightarrow> bool" where
  "encodable d \<longleftrightarrow> 64 \<le> d \<and> d \<le> 1600 \<and> even d"

lemma encodable_clampDim: "encodable (clampDim v fallback)"
proof -
  have "encodable (2 * (x div 2))" if "64 \<le> x" "x \<le> 1600" for x using that by (simp add: encodable_def) linarith
  then show ?thesis
    by (simp add: clampDim_def Let_def minViewportDimension_def maxViewportDimension_def)
qed

lemma encodable_even: "encodable d \<Longrightarrow> d AND NOT 1 = d"
  by (simp add: encodable_def)

lemma clampDim_exact: "encodable d \<Longrightarrow> clampDim d fallback = d"
  by (simp add: clampDim_def Let_def minViewportDimension_def maxViewportDimension_def encodable_def)

lemma normalize_encodable:
  "encodable (fst (normalizeViewportSize w h dw dh))" "encodable (snd (normalizeViewportSize w h dw dh))"
  by (simp_all add: normalizeViewportSize_def Let_def encodable_clampDim split: prod.split)

lemma normalize_exact:
  assumes "encodable w" "encodable h"
  shows "normalizeViewportSize w h dw dh = (w, h)"
proof -
  have "viewport_scale w h = Fin 1" using assms by (simp add: viewport_scale_def maxViewportDimension_def encodable_def)
  moreover have "w \<noteq> 0" "h \<noteq> 0" using assms by (auto simp: encodable_def)
  ultimately show ?thesis using assms by (simp add: normalizeViewportSize_def clampDim_exact)
qed

section \<open>Settling\<close>

lemma SetViewport_capture:
  assumes "64 \<le> w" "64 \<le> h"
  shows "vc_CaptureW (vp_cfg (SetViewport w h mw mh ok now s)) = w \<and> vc_CaptureH (vp_cfg (SetViewport w h mw mh ok now s)) = h"
  using assms by (simp add: SetViewport_def Let_def split: prod.split)

datatype view_op = Layout int int | Callback uint64 bool bool gotime | Profile bool gotime governor_decision | CloseResize

fun view_step :: "view_op \<Rightarrow> view_ctl \<Rightarrow> view_ctl" where
  "view_step (Layout w h) b = handleSize w h b"
| "view_step (Callback g tab ok now) b = applySettledViewport g tab ok now b"
| "view_step (Profile ok now d) b = b\<lparr>vw_ad := applyAdaptiveProfile d (profile_at (gd_to d)) ok now (vw_ad b)\<rparr>"
| "view_step CloseResize b = resize_close b"

abbreviation captured :: "view_ctl \<Rightarrow> int \<times> int" where
  "captured b \<equiv> (vc_CaptureW (vp_cfg (ad_video (vw_ad b))), vc_CaptureH (vp_cfg (ad_video (vw_ad b))))"

abbreviation view_size :: "view_ctl \<Rightarrow> int \<times> int" where
  "view_size b \<equiv> (ad_viewW (vw_ad b), ad_viewH (vw_ad b))"

definition view_inv :: "view_ctl \<Rightarrow> bool" where
  "view_inv b \<longleftrightarrow> encodable (ad_viewW (vw_ad b)) \<and> encodable (ad_viewH (vw_ad b)) \<and>
     (\<not> vw_closed b \<longrightarrow> (case vw_timer b of None \<Rightarrow> captured b = view_size b | Some g \<Rightarrow> g = vw_gen b))"

lemma SetProfile_capture:
  "vc_CaptureW (vp_cfg (SetProfile mw mh br q fr ok now s)) = vc_CaptureW (vp_cfg s)"
  "vc_CaptureH (vp_cfg (SetProfile mw mh br q fr ok now s)) = vc_CaptureH (vp_cfg s)"
  by (simp_all add: SetProfile_def Let_def split: prod.split)

lemma apply_profile_view:
  "ad_viewW (applyAdaptiveProfile d p ok now a) = ad_viewW a" "ad_viewH (applyAdaptiveProfile d p ok now a) = ad_viewH a"
  "vc_CaptureW (vp_cfg (ad_video (applyAdaptiveProfile d p ok now a))) = vc_CaptureW (vp_cfg (ad_video a))"
  "vc_CaptureH (vp_cfg (ad_video (applyAdaptiveProfile d p ok now a))) = vc_CaptureH (vp_cfg (ad_video a))"
  by (simp_all add: applyAdaptiveProfile_def SetProfile_capture split: prod.split)

lemma inv_handleSize: 
  assumes "view_inv b"
  shows "view_inv (handleSize mW mH b)"
proof -
  obtain w h where n: "normalizeViewportSize mW mH (ad_viewW (vw_ad b)) (ad_viewH (vw_ad b)) = (w, h)" by force
  then have "encodable w" "encodable h"
    using normalize_encodable [of mW mH "ad_viewW (vw_ad b)" "ad_viewH (vw_ad b)"] by simp_all
  then show ?thesis using assms
    by (simp add: handleSize_def Let_def n encodable_even [simplified] scheduleViewportApply_def view_inv_def)
qed

lemma inv_applySettled:
  assumes "view_inv b"
  shows "view_inv (applySettledViewport g tab ok now b)"
proof (cases "vw_closed b \<or> g \<noteq> vw_gen b")
  case False
  have "64 \<le> ad_viewW (vw_ad b)" "64 \<le> ad_viewH (vw_ad b)" using assms by (auto simp: view_inv_def encodable_def)
  from SetViewport_capture [OF this] show ?thesis
    using assms False by (simp add: applySettledViewport_def Let_def view_inv_def split: prod.split)
qed (use assms in \<open>auto simp: applySettledViewport_def\<close>)

lemma inv_view_step: "view_inv b \<Longrightarrow> view_inv (view_step e b)"
  by (cases e) (simp_all add: inv_handleSize inv_applySettled, simp_all add: view_inv_def apply_profile_view resize_close_def split: option.splits)

lemma settled_capture:
  assumes "view_inv b" "\<not> vw_closed b"
  shows "captured (applySettledViewport (vw_gen b) tab ok now b) = view_size b"
proof -
  have "64 \<le> ad_viewW (vw_ad b)" "64 \<le> ad_viewH (vw_ad b)" using assms by (auto simp: view_inv_def encodable_def)
  from SetViewport_capture [OF this] show ?thesis
    using assms(2) by (simp add: applySettledViewport_def Let_def split: prod.split)
qed


definition showroom :: view_ctl where
  "showroom = \<lparr>vw_ad = tablet, vw_touch = newTouchInput, vw_pointer = newPointerInput, vw_closed = False, vw_gen = 0, vw_timer = Some 0,
     vw_views = []\<rparr>"

lemma rotated_showroom:
  "vw_timer (handleSize 768 1024 showroom) = Some 1" "ad_viewW (vw_ad (handleSize 768 1024 showroom)) = 768"
  "ad_viewH (vw_ad (handleSize 768 1024 showroom)) = 1024" "\<not> vw_closed (handleSize 768 1024 showroom)"
  by (simp_all add: handleSize_def normalize_exact encodable_def showroom_def tablet_def scheduleViewportApply_def)


text \<open>
  The scaling that keeps the aspect ratio has one exception: a side that it shrinks to nothing falls back to the size of the
  current view.
\<close>
lemma extreme_aspect_falls_back: "normalizeViewportSize 1 3200 1280 720 = (1280, 1600)"
proof -
  have half: "round_f64 (1 / 2) = Fin (1 / 2)"
    using representable_dyadic [of 1 1] by (simp add: round_f64_small rnd_signed_exact)
  have full: "round_f64 1600 = Fin 1600"
    using representable_int [of 1600] by (simp add: round_f64_small rnd_signed_exact)
  have ints: "f_of_int 1 = Fin 1" "f_of_int 1600 = Fin 1600" "f_of_int 3200 = Fin 3200"
    by (simp_all add: f_of_int_small)
  have "viewport_scale 1 3200 = Fin (1 / 2)"
    using half by (simp add: viewport_scale_def maxViewportDimension_def go_min_f_def ints)
  moreover have "\<lfloor>1 / 2 :: rat\<rfloor> = 0" by (simp add: floor_eq_iff)
  ultimately show ?thesis
    using half full by (simp add: normalizeViewportSize_def ints clampDim_def maxViewportDimension_def minViewportDimension_def int_of_f_def
        trunc_rat_def)
qed

end
