(* ===== verification/Browser_Mode.thy ===== *)
theory Browser_Mode
  imports Surf_Prelude
begin

text \<open>
  The browser manager, \<^verbatim>\<open>backend/internal/browser/mode.go\<close>: it hands the profile over between the streaming
  browser and the visible setup browser. The operation lock serializes complete handoffs, so a handoff started by a
  request is one step between the request and its end, and the observer's poll, which runs without the lock, is a step of its
  own. Controllers and setup browsers are numbers; the outcomes of launching, closing and saving are
  arguments; the calls made to them are logged, and the model keeps the browsers that are alive. The messages about progress end in an
  ellipsis, written in UTF-8.
\<close>

section \<open>Data\<close>

datatype browser = Streaming nat | SetupBrowser nat

record mode_state =
  ms_State :: string
  ms_Revision :: uint64
  ms_Host :: string
  ms_Message :: string
  ms_Standalone :: bool
  ms_CanForce :: bool

datatype mode_message = ModeEvent mode_state | Toast string

datatype mode_command = Watch | Resume uint64 bool | OtherInput nat

record setup_browser =
  sb_id :: nat
  sb_closed :: bool

datatype mode_call =
    Launch browser "browser list"        \<comment> \<open>with the browsers alive at that moment\<close>
  | CloseCall browser bool bool          \<comment> \<open>\<^verbatim>\<open>CloseBrowser\<close>: forced, succeeded\<close>
  | ShutdownCall nat
  | CancelInput nat
  | DisconnectAll nat "nat set"
  | ReconnectAll nat "nat set"
  | Connect nat nat                      \<comment> \<open>controller, client\<close>
  | Disconnect nat nat
  | Deliver nat nat nat                  \<comment> \<open>controller, client, command\<close>
  | FocusSetup nat

datatype mode_job = JOpen | JResume bool | JFocus nat

record manager_mode =
  mm_current :: "nat option"
  mm_resources :: "nat option"
  mm_setup :: "setup_browser option"
  mm_state :: mode_state
  mm_clients :: "nat \<rightharpoonup> bool"           \<comment> \<open>whether the client watches the mode\<close>
  mm_stop :: bool
  mm_done :: bool
  mm_shutdown :: bool                     \<comment> \<open>\<^verbatim>\<open>Shutdown\<close> has run to its end\<close>
  mm_job :: "mode_job option"             \<comment> \<open>the goroutine that holds \<^verbatim>\<open>op\<close>\<close>
  mm_watch :: "(nat \<times> bool) option"       \<comment> \<open>the observer between its two locks: the setup browser it polled, closed or not\<close>
  mm_next :: nat
  mm_suspended :: "nat \<Rightarrow> bool"            \<comment> \<open>per controller\<close>
  mm_paused :: "nat \<Rightarrow> bool"               \<comment> \<open>per client, \<^verbatim>\<open>SetMediaPaused\<close>\<close>
  mm_sent :: "nat \<Rightarrow> mode_message list"    \<comment> \<open>per client, newest last\<close>
  mm_calls :: "mode_call list"
  mm_live :: "browser list"

definition mode_call :: "mode_call \<Rightarrow> manager_mode \<Rightarrow> manager_mode" where
  "mode_call c m = m\<lparr>mm_calls := mm_calls m @ [c]\<rparr>"

definition send_to :: "nat \<Rightarrow> mode_message \<Rightarrow> manager_mode \<Rightarrow> manager_mode" where
  "send_to c msg m = m\<lparr>mm_sent := (mm_sent m)(c := mm_sent m c @ [msg])\<rparr>"

definition dies :: "browser \<Rightarrow> manager_mode \<Rightarrow> manager_mode" where
  "dies b m = m\<lparr>mm_live := removeAll b (mm_live m)\<rparr>"

definition ellipsis :: string where "ellipsis = [CHR 0xE2, CHR 0x80, CHR 0xA6]"

section \<open>States\<close>

definition setState :: "string \<Rightarrow> string \<Rightarrow> bool \<Rightarrow> manager_mode \<Rightarrow> manager_mode" where
  "setState state message force m =
    (let event = (mm_state m)\<lparr>ms_State := state, ms_Message := message, ms_CanForce := force, ms_Revision := ms_Revision (mm_state m) + 1\<rparr>;
         paused = (state \<noteq> ''streaming'')
     in m\<lparr>mm_state := event,
          mm_suspended := (case mm_current m of None \<Rightarrow> mm_suspended m | Some b \<Rightarrow> (mm_suspended m)(b := paused)),
          mm_paused := (\<lambda>c. if mm_clients m c = None then mm_paused m c else paused),
          mm_sent := (\<lambda>c. case mm_clients m c of
              None \<Rightarrow> mm_sent m c
            | Some True \<Rightarrow> mm_sent m c @ [ModeEvent event]
            | Some False \<Rightarrow> if paused
                then mm_sent m c @ [Toast (''Browser setup on '' @ ms_Host event @ ''. Browsing is paused; update this client for remote resume controls.'')]
                else mm_sent m c)\<rparr>)"

definition launch :: "browser \<Rightarrow> manager_mode \<Rightarrow> manager_mode" where
  "launch b m = mode_call (Launch b (mm_live m)) (m\<lparr>mm_next := Suc (mm_next m)\<rparr>)"

definition startStreaming :: "string option \<Rightarrow> string option \<Rightarrow> manager_mode \<Rightarrow> string option \<times> manager_mode" where
  \<comment> \<open>the errors of \<^verbatim>\<open>New\<close> and of \<^verbatim>\<open>Start\<close>, which shuts down what it launched; whether the exact session is restored is up to the controller\<close>
  "startStreaming new_err start_err m =
    (case new_err of
       Some e \<Rightarrow> (Some e, m)
     | None \<Rightarrow>
        let b = mm_next m; m = launch (Streaming b) m
        in (case start_err of
              Some e \<Rightarrow> (Some e, m)
            | None \<Rightarrow>
               let m = m\<lparr>mm_current := Some b, mm_resources := Some b, mm_live := mm_live m @ [Streaming b]\<rparr>
               in (None, mode_call (ReconnectAll b (dom (mm_clients m))) (setState ''streaming'' [] False m))))"

datatype setup_result =
    SetupStarted
  | SetupFailed string      \<comment> \<open>nothing is left running\<close>
  | SetupStuck string       \<comment> \<open>the browser that failed is still closing and stays owned\<close>

record handoff =
  ho_flushed :: bool                \<comment> \<open>\<^verbatim>\<open>flushSession\<close> succeeds\<close>
  ho_close :: "string option"       \<comment> \<open>the error of closing the streaming browser\<close>
  ho_setup :: setup_result
  ho_setup_close :: "string option" \<comment> \<open>the error of closing the setup browser\<close>
  ho_forced_close :: bool           \<comment> \<open>\<^verbatim>\<open>Shutdown\<close>'s forced close succeeds\<close>
  ho_new :: "string option"
  ho_start :: "string option"

section \<open>Handoffs\<close>

definition close_current :: "bool \<Rightarrow> string option \<Rightarrow> nat \<Rightarrow> manager_mode \<Rightarrow> manager_mode" where
  \<comment> \<open>\<^verbatim>\<open>CloseBrowser(old.cdp, old.cmd, force, ...)\<close>, then \<^verbatim>\<open>old.Shutdown()\<close>, or back to the old controller\<close>
  "close_current force err b m =
    (case err of
       Some e \<Rightarrow> setState ''failed'' e True ((mode_call (CloseCall (Streaming b) force False) m)\<lparr>mm_current := Some b\<rparr>)
     | None \<Rightarrow> mode_call (ShutdownCall b) (dies (Streaming b) (mode_call (CloseCall (Streaming b) force True) m)))"

definition launch_setup :: "handoff \<Rightarrow> manager_mode \<Rightarrow> manager_mode" where
  "launch_setup env m =
    (let s = mm_next m; m = launch (SetupBrowser s) m
     in case ho_setup env of
          SetupStarted \<Rightarrow>
            setState ''setup'' ''Close all setup windows to resume automatically, or choose Resume on devices.'' False
              (m\<lparr>mm_setup := Some \<lparr>sb_id = s, sb_closed = False\<rparr>, mm_live := mm_live m @ [SetupBrowser s]\<rparr>)
        | SetupStuck _ \<Rightarrow>
            setState ''setup'' ''Setup could not start and its browser is still closing. Try Resume again before forcing it closed.'' True
              (m\<lparr>mm_setup := Some \<lparr>sb_id = s, sb_closed = False\<rparr>, mm_live := mm_live m @ [SetupBrowser s]\<rparr>)
        | SetupFailed e \<Rightarrow>
            (case startStreaming (ho_new env) (ho_start env) m of
               (Some rollback, m) \<Rightarrow> setState ''failed'' (''Browser setup failed and Surf could not resume: '' @ rollback) False m
             | (None, m) \<Rightarrow> setState ''streaming'' (''Could not open browser setup: '' @ e) False m))"

definition openSetup :: "handoff \<Rightarrow> manager_mode \<Rightarrow> manager_mode" where
  "openSetup env m =
    (case mm_current m of
       None \<Rightarrow> launch_setup env m
     | Some b \<Rightarrow>
        let m = mode_call (DisconnectAll b (dom (mm_clients m))) (mode_call (CancelInput b) (m\<lparr>mm_current := None\<rparr>))
        in if \<not> ho_flushed env
           then mode_call (ReconnectAll b (dom (mm_clients m)))
                  (setState ''streaming'' ''Could not save tabs; browser setup was canceled.'' False (m\<lparr>mm_current := Some b\<rparr>))
           else if ho_close env \<noteq> None then close_current False (ho_close env) b m
           else launch_setup env (close_current False None b m))"

definition close_setup :: "bool \<Rightarrow> bool \<Rightarrow> setup_browser \<Rightarrow> manager_mode \<Rightarrow> bool \<times> manager_mode" where
  \<comment> \<open>\<^verbatim>\<open>setupBrowser.close\<close>; \<open>ok\<close> is the outcome of \<^verbatim>\<open>CloseBrowser\<close>\<close>
  "close_setup force ok s m =
    (if sb_closed s then (True, m)
     else
       let m = mode_call (CloseCall (SetupBrowser (sb_id s)) force ok) m
       in if ok then (True, (dies (SetupBrowser (sb_id s)) m)\<lparr>mm_setup := Some (s\<lparr>sb_closed := True\<rparr>)\<rparr>) else (False, m))"

definition resume_streaming :: "bool \<Rightarrow> handoff \<Rightarrow> manager_mode \<Rightarrow> manager_mode" where
  \<comment> \<open>\<^verbatim>\<open>resume\<close> once no setup browser is left\<close>
  "resume_streaming force env m =
    (let start = (\<lambda>m. case startStreaming (ho_new env) (ho_start env) m of
           (Some e, m) \<Rightarrow> setState ''failed'' (''Could not resume Surf: '' @ e) False m
         | (None, m) \<Rightarrow> m)
     in case mm_current m of
          None \<Rightarrow> start m
        | Some b \<Rightarrow>
           let m = m\<lparr>mm_current := None\<rparr>
           in if ho_close env \<noteq> None then close_current force (ho_close env) b m else start (close_current force None b m))"

definition mode_resume :: "bool \<Rightarrow> handoff \<Rightarrow> manager_mode \<Rightarrow> manager_mode" where
  "mode_resume force env m =
    (case mm_setup m of
       None \<Rightarrow> resume_streaming force env m
     | Some s \<Rightarrow>
        (case close_setup force (ho_setup_close env = None) s m of
           (False, m) \<Rightarrow> setState ''setup'' (the (ho_setup_close env)) True m
         | (True, m) \<Rightarrow> resume_streaming force env (m\<lparr>mm_setup := None\<rparr>)))"

section \<open>Requests\<close>

datatype mode_error =
    UnknownAction | ChangingMode | ShuttingDown | StateChanged | NoStreamingServer | ForceNotOffered | ResumeFirst

definition request_refused :: "string \<Rightarrow> uint64 \<Rightarrow> bool \<Rightarrow> manager_mode \<Rightarrow> mode_error option" where
  "request_refused action revision force m =
    (if action \<noteq> ''open'' \<and> action \<noteq> ''resume'' then Some UnknownAction
     else if mm_job m \<noteq> None then Some ChangingMode
     else if mm_stop m then Some ShuttingDown
     else if revision \<noteq> ms_Revision (mm_state m) then Some StateChanged
     else if action = ''resume'' \<and> ms_Standalone (mm_state m) then Some NoStreamingServer
     else if force \<and> (action \<noteq> ''resume'' \<or> \<not> ms_CanForce (mm_state m)) then Some ForceNotOffered
     else if action = ''open'' \<and> (ms_State (mm_state m) = ''failed'' \<or> ms_CanForce (mm_state m)) then Some ResumeFirst
     else None)"

definition Request :: "string \<Rightarrow> uint64 \<Rightarrow> bool \<Rightarrow> manager_mode \<Rightarrow> mode_error option \<times> manager_mode" where
  "Request action revision force m =
    (case request_refused action revision force m of
       Some e \<Rightarrow> (Some e, m)
     | None \<Rightarrow>
        if action = ''resume'' \<and> ms_State (mm_state m) = ''streaming'' then (None, m)
        else if action = ''open'' \<and> ms_State (mm_state m) = ''setup''
        then (None, m\<lparr>mm_job := Some (JFocus (case mm_setup m of Some s \<Rightarrow> sb_id s | None \<Rightarrow> 0))\<rparr>)
        else if action = ''open''
        then (None, (setState ''opening'' (''Opening the browser on this computer'' @ ellipsis) False m)\<lparr>mm_job := Some JOpen\<rparr>)
        else (None, (setState ''resuming'' (''Closing the local browser and resuming Surf'' @ ellipsis) False m)\<lparr>mm_job := Some (JResume force)\<rparr>))"

definition run_job :: "handoff \<Rightarrow> manager_mode \<Rightarrow> manager_mode" where
  \<comment> \<open>the goroutine of \<^verbatim>\<open>Request\<close>\<close>
  "run_job env m =
    (case mm_job m of
       None \<Rightarrow> m
     | Some JOpen \<Rightarrow> (openSetup env m)\<lparr>mm_job := None\<rparr>
     | Some (JResume force) \<Rightarrow> (mode_resume force env m)\<lparr>mm_job := None\<rparr>
     | Some (JFocus s) \<Rightarrow> (mode_call (FocusSetup s) m)\<lparr>mm_job := None\<rparr>)"

definition PrepareShutdown :: "uint64 \<Rightarrow> manager_mode \<Rightarrow> mode_error option \<times> manager_mode" where
  "PrepareShutdown revision m =
    (if mm_job m \<noteq> None then (Some ChangingMode, m)
     else if ms_Standalone (mm_state m) \<or> ms_Revision (mm_state m) \<noteq> revision then (Some StateChanged, m)
     else (None, m\<lparr>mm_stop := True\<rparr>))"

section \<open>The observer\<close>

definition monitor_look :: "bool \<Rightarrow> manager_mode \<Rightarrow> manager_mode" where
  \<comment> \<open>a tick up to the second lock; \<open>seen\<close>: the setup browser is gone, or the streaming browser has died\<close>
  "monitor_look seen m =
    (if mm_stop m \<or> mm_job m \<noteq> None then m
     else (case mm_setup m of
             Some s \<Rightarrow> m\<lparr>mm_watch := Some (sb_id s, seen)\<rparr>
           | None \<Rightarrow> if ms_State (mm_state m) = ''streaming'' \<and> mm_current m \<noteq> None \<and> seen then m\<lparr>mm_done := True\<rparr> else m))"

definition monitor_act :: "handoff \<Rightarrow> manager_mode \<Rightarrow> manager_mode" where
  "monitor_act env m =
    (case (mm_watch m, mm_setup m) of
       (Some (i, closed), Some s) \<Rightarrow>
         let m = m\<lparr>mm_watch := None\<rparr>
         in if mm_job m \<noteq> None \<or> sb_id s \<noteq> i \<or> mm_stop m \<or> \<not> closed then m
            else if ms_Standalone (mm_state m) then (snd (close_setup False (ho_setup_close env = None) s m))\<lparr>mm_done := True\<rparr>
            else mode_resume False env (setState ''resuming'' (''Resuming Surf'' @ ellipsis) False m)
     | _ \<Rightarrow> m\<lparr>mm_watch := None\<rparr>)"

section \<open>Shutdown\<close>

definition shutdown_begin :: "manager_mode \<Rightarrow> manager_mode" where
  "shutdown_begin m = m\<lparr>mm_stop := True\<rparr>"

definition shutdown_finish :: "handoff \<Rightarrow> manager_mode \<Rightarrow> manager_mode" where
  \<comment> \<open>\<^verbatim>\<open>Shutdown\<close> once it holds \<^verbatim>\<open>op\<close>\<close>
  "shutdown_finish env m =
    (let m = (case mm_setup m of
                None \<Rightarrow> m
              | Some s \<Rightarrow>
                 (case close_setup False (ho_setup_close env = None) s m of
                    (True, m) \<Rightarrow> m
                  | (False, m) \<Rightarrow> snd (close_setup True (ho_forced_close env) s m)));
         m = (case mm_current m of
                None \<Rightarrow> m
              | Some b \<Rightarrow> mode_call (ShutdownCall b) (dies (Streaming b) (m\<lparr>mm_current := None\<rparr>)))
     in m\<lparr>mm_shutdown := True\<rparr>)"

section \<open>Clients\<close>

definition ClientConnected :: "nat \<Rightarrow> manager_mode \<Rightarrow> manager_mode" where
  "ClientConnected c m =
    (let streaming = (ms_State (mm_state m) = ''streaming'');
         m = m\<lparr>mm_clients := (mm_clients m)(c \<mapsto> False), mm_paused := (mm_paused m)(c := \<not> streaming)\<rparr>
     in case mm_current m of
          Some b \<Rightarrow> if streaming then mode_call (Connect b c) m
                    else send_to c (Toast ''Browser setup is active on the computer. Browsing is paused.'') m
        | None \<Rightarrow> send_to c (Toast ''Browser setup is active on the computer. Browsing is paused.'') m)"

definition ClientDisconnected :: "nat \<Rightarrow> manager_mode \<Rightarrow> manager_mode" where
  "ClientDisconnected c m =
    (let m = m\<lparr>mm_clients := (mm_clients m)(c := None)\<rparr>
     in case mm_current m of None \<Rightarrow> m | Some b \<Rightarrow> mode_call (Disconnect b c) m)"

definition HandleMessage :: "(mode_error \<Rightarrow> string) \<Rightarrow> nat \<Rightarrow> mode_command \<Rightarrow> manager_mode \<Rightarrow> manager_mode" where
  \<comment> \<open>\<open>text_of\<close>: the texts of the errors\<close>
  "HandleMessage text_of c command m =
    (case command of
       Watch \<Rightarrow> send_to c (ModeEvent (mm_state m)) (m\<lparr>mm_clients := (mm_clients m)(c \<mapsto> True)\<rparr>)
     | Resume revision force \<Rightarrow>
         (case Request ''resume'' revision force m of
            (None, m) \<Rightarrow> m
          | (Some e, m) \<Rightarrow> send_to c (ModeEvent (mm_state m)) (send_to c (Toast (text_of e)) m))
     | OtherInput n \<Rightarrow>
         (case mm_current m of
            Some b \<Rightarrow> if ms_State (mm_state m) = ''streaming'' then mode_call (Deliver b c n) m else m
          | None \<Rightarrow> m))"

section \<open>Start\<close>

definition NewManager :: "string \<Rightarrow> bool \<Rightarrow> manager_mode" where
  "NewManager host standalone =
    \<lparr>mm_current = None, mm_resources = None, mm_setup = None,
     mm_state = \<lparr>ms_State = ''starting'', ms_Revision = 1, ms_Host = host, ms_Message = [], ms_Standalone = standalone, ms_CanForce = False\<rparr>,
     mm_clients = Map.empty, mm_stop = False, mm_done = False, mm_shutdown = False, mm_job = None, mm_watch = None, mm_next = 0,
     mm_suspended = (\<lambda>_. True), mm_paused = (\<lambda>_. False), mm_sent = (\<lambda>_. []), mm_calls = [], mm_live = []\<rparr>"

definition mode_Start :: "manager_mode \<Rightarrow> manager_mode" where
  \<comment> \<open>\<^verbatim>\<open>Start\<close> when the browser starts; with an error it does not serve\<close>
  "mode_Start m =
    (if ms_Standalone (mm_state m) then
       let s = mm_next m; m = launch (SetupBrowser s) m
       in setState ''setup'' ''Close this browser to finish standalone setup.'' False
            (m\<lparr>mm_setup := Some \<lparr>sb_id = s, sb_closed = False\<rparr>, mm_live := mm_live m @ [SetupBrowser s]\<rparr>)
     else snd (startStreaming None None m))"

end
