(* ===== verification/Browser_Handoff.thy ===== *)
theory Browser_Handoff
  imports Browser_Mode
begin

text \<open>
  Safety of the handoff between the streaming browser and the setup browser: one browser at a time owns the profile, a
  browser is launched only when no other is alive, media and input flow exactly while a controller streams, and a
  request acts only on the state its sender has seen.
\<close>

section \<open>Ownership\<close>

definition owned :: "nat option \<Rightarrow> setup_browser option \<Rightarrow> browser set" where
  "owned current setup =
     (case current of None \<Rightarrow> {} | Some b \<Rightarrow> {Streaming b}) \<union>
     (case setup of None \<Rightarrow> {} | Some s \<Rightarrow> if sb_closed s then {} else {SetupBrowser (sb_id s)})"

definition owns :: "manager_mode \<Rightarrow> bool" where
  "owns m \<longleftrightarrow> set (mm_live m) \<subseteq> owned (mm_current m) (mm_setup m) \<and> (mm_current m = None \<or> mm_setup m = None) \<and> distinct (mm_live m)"

definition launches_ok :: "mode_call list \<Rightarrow> bool" where
  "launches_ok calls \<longleftrightarrow> (\<forall>b others. Launch b others \<in> set calls \<longrightarrow> others = [])"

definition clients_ok :: "manager_mode \<Rightarrow> bool" where
  "clients_ok m \<longleftrightarrow> (\<forall>c\<in>dom (mm_clients m). mm_paused m c = (ms_State (mm_state m) \<noteq> ''streaming''))"

definition streams :: "manager_mode \<Rightarrow> bool" where
  "streams m \<longleftrightarrow> mm_setup m = None \<and> (\<exists>b. mm_current m = Some b \<and> \<not> mm_suspended m b)"

definition idle_phase :: "string \<Rightarrow> bool" where
  "idle_phase state \<longleftrightarrow> state = ''streaming'' \<or> state = ''setup'' \<or> state = ''failed''"

definition settled :: "manager_mode \<Rightarrow> bool" where
  \<comment> \<open>what every handoff ends in\<close>
  "settled m \<longleftrightarrow> owns m \<and> launches_ok (mm_calls m) \<and> clients_ok m \<and> idle_phase (ms_State (mm_state m)) \<and>
     (ms_State (mm_state m) = ''streaming'' \<longrightarrow> streams m)"

definition vacant :: "manager_mode \<Rightarrow> bool" where
  "vacant m \<longleftrightarrow> mm_live m = [] \<and> mm_current m = None \<and> mm_setup m = None"

lemma one_browser: "owns m \<Longrightarrow> length (mm_live m) \<le> 1"
proof -
  assume o: "owns m"
  obtain x where x: "owned (mm_current m) (mm_setup m) \<subseteq> {x}"
    using o by (auto simp: owns_def owned_def split: option.splits if_splits)
  then have "card (set (mm_live m)) \<le> card {x}" using o by (intro card_mono) (auto simp: owns_def)
  then show ?thesis using o by (simp add: owns_def distinct_card)
qed

lemma mode_call_simps [simp]:
  "mm_current (mode_call c m) = mm_current m" "mm_setup (mode_call c m) = mm_setup m" "mm_live (mode_call c m) = mm_live m"
  "mm_state (mode_call c m) = mm_state m" "mm_calls (mode_call c m) = mm_calls m @ [c]" "mm_clients (mode_call c m) = mm_clients m"
  "mm_job (mode_call c m) = mm_job m" "mm_stop (mode_call c m) = mm_stop m" "mm_shutdown (mode_call c m) = mm_shutdown m"
  "mm_paused (mode_call c m) = mm_paused m" "mm_suspended (mode_call c m) = mm_suspended m" "mm_next (mode_call c m) = mm_next m"
  by (simp_all add: mode_call_def)

lemma send_to_simps [simp]:
  "mm_current (send_to c x m) = mm_current m" "mm_setup (send_to c x m) = mm_setup m" "mm_live (send_to c x m) = mm_live m"
  "mm_state (send_to c x m) = mm_state m" "mm_calls (send_to c x m) = mm_calls m" "mm_clients (send_to c x m) = mm_clients m"
  "mm_job (send_to c x m) = mm_job m" "mm_stop (send_to c x m) = mm_stop m" "mm_shutdown (send_to c x m) = mm_shutdown m"
  "mm_paused (send_to c x m) = mm_paused m" "mm_suspended (send_to c x m) = mm_suspended m"
  by (simp_all add: send_to_def)

lemma dies_simps [simp]:
  "mm_current (dies b m) = mm_current m" "mm_setup (dies b m) = mm_setup m" "mm_live (dies b m) = removeAll b (mm_live m)"
  "mm_state (dies b m) = mm_state m" "mm_calls (dies b m) = mm_calls m" "mm_clients (dies b m) = mm_clients m"
  "mm_job (dies b m) = mm_job m" "mm_stop (dies b m) = mm_stop m" "mm_shutdown (dies b m) = mm_shutdown m"
  "mm_paused (dies b m) = mm_paused m" "mm_suspended (dies b m) = mm_suspended m"
  by (simp_all add: dies_def)

lemma setState_simps [simp]:
  "mm_current (setState st msg f m) = mm_current m" "mm_setup (setState st msg f m) = mm_setup m" "mm_live (setState st msg f m) = mm_live m"
  "mm_calls (setState st msg f m) = mm_calls m" "mm_clients (setState st msg f m) = mm_clients m" "mm_job (setState st msg f m) = mm_job m"
  "mm_stop (setState st msg f m) = mm_stop m" "mm_shutdown (setState st msg f m) = mm_shutdown m"
  "ms_State (mm_state (setState st msg f m)) = st" "ms_Standalone (mm_state (setState st msg f m)) = ms_Standalone (mm_state m)"
  "ms_Revision (mm_state (setState st msg f m)) = ms_Revision (mm_state m) + 1" "ms_CanForce (mm_state (setState st msg f m)) = f"
  by (simp_all add: setState_def Let_def)

lemma launch_simps [simp]:
  "mm_current (launch b m) = mm_current m" "mm_setup (launch b m) = mm_setup m" "mm_live (launch b m) = mm_live m"
  "mm_calls (launch b m) = mm_calls m @ [Launch b (mm_live m)]" "mm_shutdown (launch b m) = mm_shutdown m" "mm_stop (launch b m) = mm_stop m"
  "mm_clients (launch b m) = mm_clients m" "mm_state (launch b m) = mm_state m"
  by (simp_all add: launch_def)

lemma launches_ok_simps [simp]:
  "launches_ok []" "launches_ok (c # cs) \<longleftrightarrow> (case c of Launch b others \<Rightarrow> others = [] | _ \<Rightarrow> True) \<and> launches_ok cs"
  "launches_ok (cs @ ds) \<longleftrightarrow> launches_ok cs \<and> launches_ok ds"
  by (auto simp: launches_ok_def split: mode_call.splits)

lemma setState_streams:
  "streams (setState ''streaming'' msg f m) \<longleftrightarrow> mm_setup m = None \<and> mm_current m \<noteq> None"
  by (auto simp: streams_def setState_def Let_def)

lemma setState_clients [simp]: "clients_ok (setState st msg f m)"
  by (auto simp: clients_ok_def setState_def Let_def)

lemma owns_setState [simp]: "owns (setState st msg f m) = owns m"
  by (simp add: owns_def)

lemma settled_call: "launches_ok [c] \<Longrightarrow> settled (mode_call c m) = settled m"
  by (simp add: settled_def owns_def clients_ok_def streams_def)

lemma settled_setState:
  assumes "owns m" "launches_ok (mm_calls m)" "idle_phase st" "st = ''streaming'' \<Longrightarrow> mm_setup m = None \<and> mm_current m \<noteq> None"
  shows "settled (setState st msg f m)"
  using assms setState_streams by (auto simp: settled_def)

lemma vacant_owns: "vacant m \<Longrightarrow> owns m"
  by (simp add: vacant_def owns_def)

section \<open>Handoffs end settled\<close>

lemma startStreaming_ok:
  assumes "vacant m" "launches_ok (mm_calls m)" "startStreaming ne se m = (None, m')"
  shows "settled m'" "ms_State (mm_state m') = ''streaming''"
proof -
  let ?b = "mm_next m" and ?m = "launch (Streaming (mm_next m)) m"
  let ?n = "?m\<lparr>mm_current := Some ?b, mm_resources := Some ?b, mm_live := mm_live ?m @ [Streaming ?b]\<rparr>"
  have m': "m' = mode_call (ReconnectAll ?b (dom (mm_clients ?n))) (setState ''streaming'' [] False ?n)"
    using assms(3) by (auto simp: startStreaming_def Let_def split: option.splits)
  have "settled (setState ''streaming'' [] False ?n)"
    by (rule settled_setState) (use assms(1,2) in \<open>simp_all add: vacant_def owns_def owned_def idle_phase_def\<close>)
  then show "settled m'" "ms_State (mm_state m') = ''streaming''" by (simp_all add: m' settled_call)
qed

lemma startStreaming_failed:
  assumes "vacant m" "launches_ok (mm_calls m)" "startStreaming ne se m = (Some e, m')"
  shows "vacant m'" "launches_ok (mm_calls m')"
  using assms by (auto simp: startStreaming_def Let_def vacant_def split: option.splits)

lemma launch_setup_settled:
  assumes "vacant m" "launches_ok (mm_calls m)"
  shows "settled (launch_setup env m)"
proof -
  let ?m = "launch (SetupBrowser (mm_next m)) m"
  have v: "vacant ?m" "launches_ok (mm_calls ?m)" using assms by (simp_all add: vacant_def)
  have s: "settled (setState ''setup'' msg f (?m\<lparr>mm_setup := Some \<lparr>sb_id = i, sb_closed = False\<rparr>, mm_live := mm_live ?m @ [SetupBrowser i]\<rparr>))"
    for msg f i
    by (rule settled_setState) (use assms in \<open>simp_all add: vacant_def owns_def owned_def idle_phase_def\<close>)
  show ?thesis
  proof (cases "ho_setup env")
    case (SetupFailed e)
    obtain r m' where r: "startStreaming (ho_new env) (ho_start env) ?m = (r, m')" by force
    show ?thesis
    proof (cases r)
      case None
      note ok = startStreaming_ok [OF v r [unfolded None]]
      then have "settled (setState ''streaming'' msg False m')" for msg
        by (intro settled_setState) (auto simp: settled_def streams_def idle_phase_def)
      then show ?thesis using r None SetupFailed by (simp add: launch_setup_def Let_def)
    next
      case (Some x)
      note bad = startStreaming_failed [OF v r [unfolded Some]]
      then have "settled (setState ''failed'' msg False m')" for msg
        by (intro settled_setState) (auto simp: vacant_owns idle_phase_def)
      then show ?thesis using r Some SetupFailed by (simp add: launch_setup_def Let_def)
    qed
  qed (use s in \<open>simp_all add: launch_setup_def Let_def\<close>)
qed

definition detached :: "nat \<Rightarrow> manager_mode \<Rightarrow> bool" where
  \<comment> \<open>the manager has taken the controller out and is about to close its browser\<close>
  "detached b m \<longleftrightarrow> set (mm_live m) \<subseteq> {Streaming b} \<and> distinct (mm_live m) \<and> mm_current m = None \<and> mm_setup m = None"

lemma close_current_failed:
  assumes "detached b m" "launches_ok (mm_calls m)"
  shows "settled (close_current force (Some e) b m)"
  unfolding close_current_def option.case
  by (rule settled_setState) (use assms in \<open>simp_all add: detached_def owns_def owned_def idle_phase_def\<close>)

lemma close_current_vacant:
  assumes "detached b m" "launches_ok (mm_calls m)"
  shows "vacant (close_current force None b m)" "launches_ok (mm_calls (close_current force None b m))"
  using assms by (auto simp: close_current_def detached_def vacant_def removeAll_filter_not_eq filter_empty_conv)

lemma detach: "owns m \<Longrightarrow> mm_current m = Some b \<Longrightarrow> detached b (m\<lparr>mm_current := None\<rparr>)"
  by (auto simp: owns_def detached_def owned_def)

lemma openSetup_settled:
  assumes "owns m" "launches_ok (mm_calls m)" "mm_setup m = None"
  shows "settled (openSetup env m)"
proof (cases "mm_current m")
  case None
  then have "vacant m" using assms by (simp add: vacant_def owns_def owned_def)
  then show ?thesis using launch_setup_settled [OF _ assms(2)] None by (simp add: openSetup_def)
next
  case (Some b)
  let ?m = "mode_call (DisconnectAll b (dom (mm_clients m))) (mode_call (CancelInput b) (m\<lparr>mm_current := None\<rparr>))"
  have d: "detached b ?m" using detach [OF assms(1) Some] by (simp add: detached_def)
  have l: "launches_ok (mm_calls ?m)" using assms(2) by simp
  have flush: "settled (setState ''streaming'' msg False (?m\<lparr>mm_current := Some b\<rparr>))" for msg
    by (rule settled_setState) (use d l in \<open>simp_all add: detached_def owns_def owned_def idle_phase_def\<close>)
  have calls: "mm_clients ?m = mm_clients m" by simp
  show ?thesis
  proof (cases "ho_flushed env")
    case False
    then show ?thesis using Some flush by (simp add: openSetup_def Let_def settled_call)
  next
    case True
    show ?thesis
    proof (cases "ho_close env")
      case None
      then show ?thesis using True Some launch_setup_settled [OF close_current_vacant [OF d l]] by (simp add: openSetup_def Let_def)
    next
      case (Some e)
      then show ?thesis using True \<open>mm_current m = Some b\<close> close_current_failed [OF d l] by (simp add: openSetup_def Let_def)
    qed
  qed
qed

lemma start_settled:
  assumes "vacant m" "launches_ok (mm_calls m)"
  shows "settled (case startStreaming ne se m of (Some e, m) \<Rightarrow> setState ''failed'' (''Could not resume Surf: '' @ e) False m | (None, m) \<Rightarrow> m)"
proof -
  obtain r m' where r: "startStreaming ne se m = (r, m')" by force
  show ?thesis
  proof (cases r)
    case None
    then show ?thesis using startStreaming_ok [OF assms r [unfolded None]] r by simp
  next
    case (Some e)
    note bad = startStreaming_failed [OF assms r [unfolded Some]]
    have "settled (setState ''failed'' (''Could not resume Surf: '' @ e) False m')"
      by (rule settled_setState) (use bad in \<open>simp_all add: vacant_owns idle_phase_def\<close>)
    then show ?thesis using r Some by simp
  qed
qed

lemma resume_streaming_settled:
  assumes "owns m" "launches_ok (mm_calls m)" "mm_setup m = None"
  shows "settled (resume_streaming force env m)"
proof (cases "mm_current m")
  case None
  then have "vacant m" using assms by (simp add: vacant_def owns_def owned_def)
  then show ?thesis using start_settled [OF _ assms(2)] None by (simp add: resume_streaming_def Let_def)
next
  case (Some b)
  have d: "detached b (m\<lparr>mm_current := None\<rparr>)" by (rule detach [OF assms(1) Some])
  have l: "launches_ok (mm_calls (m\<lparr>mm_current := None\<rparr>))" using assms(2) by simp
  show ?thesis
  proof (cases "ho_close env")
    case None
    then show ?thesis using Some start_settled [OF close_current_vacant [OF d l]] by (simp add: resume_streaming_def Let_def)
  next
    case (Some e)
    then show ?thesis using \<open>mm_current m = Some b\<close> close_current_failed [OF d l] by (simp add: resume_streaming_def Let_def)
  qed
qed

lemma close_setup_owns:
  assumes "owns m" "launches_ok (mm_calls m)" "mm_setup m = Some s" "close_setup force ok s m = (r, m')"
  shows "owns m'" "launches_ok (mm_calls m')" "mm_current m' = None" "r \<Longrightarrow> mm_live m' = []" "\<not> r \<Longrightarrow> mm_setup m' = Some s"
    "mm_clients m' = mm_clients m" "mm_state m' = mm_state m" "mm_stop m' = mm_stop m" "mm_shutdown m' = mm_shutdown m" "mm_job m' = mm_job m"
    "mm_paused m' = mm_paused m"
  using assms
  by (auto simp: close_setup_def owns_def owned_def Let_def removeAll_filter_not_eq filter_empty_conv split: if_splits)

lemma mode_resume_settled:
  assumes "owns m" "launches_ok (mm_calls m)"
  shows "settled (mode_resume force env m)"
proof (cases "mm_setup m")
  case None
  then show ?thesis using resume_streaming_settled [OF assms] by (simp add: mode_resume_def)
next
  case (Some s)
  obtain r m' where r: "close_setup force (ho_setup_close env = None) s m = (r, m')" by force
  note c = close_setup_owns [OF assms Some r]
  show ?thesis
  proof (cases r)
    case True
    have "settled (resume_streaming force env (m'\<lparr>mm_setup := None\<rparr>))"
      by (rule resume_streaming_settled) (use c True in \<open>simp_all add: owns_def\<close>)
    then show ?thesis using Some r True by (simp add: mode_resume_def)
  next
    case False
    have "settled (setState ''setup'' msg True m')" for msg
      by (rule settled_setState) (use c in \<open>simp_all add: idle_phase_def\<close>)
    then show ?thesis using Some r False by (simp add: mode_resume_def)
  qed
qed

section \<open>Reachable states\<close>

datatype mode_op =
    MRequest string uint64 bool
  | MJob handoff
  | MPrepare uint64
  | MLook bool
  | MAct handoff
  | MStop
  | MFinish handoff
  | MConnect nat
  | MDisconnect nat
  | MMessage nat mode_command
  | MDies browser                   \<comment> \<open>a browser ends on its own\<close>

fun mode_apply :: "(mode_error \<Rightarrow> string) \<Rightarrow> mode_op \<Rightarrow> manager_mode \<Rightarrow> manager_mode" where
  "mode_apply text_of (MRequest action revision force) m = snd (Request action revision force m)"
| "mode_apply text_of (MJob env) m = run_job env m"
| "mode_apply text_of (MPrepare revision) m = snd (PrepareShutdown revision m)"
| "mode_apply text_of (MLook seen) m = monitor_look seen m"
| "mode_apply text_of (MAct env) m = monitor_act env m"
| "mode_apply text_of MStop m = shutdown_begin m"
| "mode_apply text_of (MFinish env) m = shutdown_finish env m"
| "mode_apply text_of (MConnect c) m = ClientConnected c m"
| "mode_apply text_of (MDisconnect c) m = ClientDisconnected c m"
| "mode_apply text_of (MMessage c command) m = HandleMessage text_of c command m"
| "mode_apply text_of (MDies b) m = dies b m"

fun mode_enabled :: "mode_op \<Rightarrow> manager_mode \<Rightarrow> bool" where
  \<comment> \<open>\<^verbatim>\<open>Shutdown\<close> waits for \<^verbatim>\<open>op\<close> after it has closed \<^verbatim>\<open>stop\<close>; the transport delivers messages of connected clients\<close>
  "mode_enabled (MFinish env) m \<longleftrightarrow> mm_stop m \<and> mm_job m = None \<and> \<not> mm_shutdown m"
| "mode_enabled (MMessage c command) m \<longleftrightarrow> mm_clients m c \<noteq> None"
| "mode_enabled _ m \<longleftrightarrow> True"

inductive mode_reach :: "(mode_error \<Rightarrow> string) \<Rightarrow> string \<Rightarrow> bool \<Rightarrow> manager_mode \<Rightarrow> bool" for text_of host standalone where
  reach_start: "mode_reach text_of host standalone (mode_Start (NewManager host standalone))"
| reach_step: "mode_reach text_of host standalone m \<Longrightarrow> mode_enabled op m \<Longrightarrow> mode_reach text_of host standalone (mode_apply text_of op m)"

definition job_phase :: "mode_job option \<Rightarrow> string \<Rightarrow> bool" where
  "job_phase job state \<longleftrightarrow>
    (case job of None \<Rightarrow> idle_phase state | Some JOpen \<Rightarrow> state = ''opening'' | Some (JResume _) \<Rightarrow> state = ''resuming'' | Some (JFocus _) \<Rightarrow> state = ''setup'')"

definition mode_inv :: "manager_mode \<Rightarrow> bool" where
  "mode_inv m \<longleftrightarrow>
     owns m \<and> launches_ok (mm_calls m) \<and> clients_ok m \<and> (mm_shutdown m \<longrightarrow> mm_stop m \<and> mm_job m = None) \<and>
     (\<not> mm_shutdown m \<longrightarrow> job_phase (mm_job m) (ms_State (mm_state m)) \<and>
        (ms_State (mm_state m) = ''streaming'' \<longrightarrow> streams m) \<and> (ms_State (mm_state m) = ''opening'' \<longrightarrow> mm_setup m = None))"

lemma settled_inv: "settled m \<Longrightarrow> mm_job m = None \<Longrightarrow> \<not> mm_shutdown m \<Longrightarrow> mode_inv m"
  by (auto simp: settled_def mode_inv_def job_phase_def idle_phase_def)

lemma settled_job: "settled (m\<lparr>mm_job := j\<rparr>) = settled m"
  by (simp add: settled_def owns_def clients_ok_def streams_def)

lemma handoff_frame:
  "mm_shutdown (launch_setup env m) = mm_shutdown m" "mm_job (launch_setup env m) = mm_job m"
  "mm_shutdown (close_current f e b m) = mm_shutdown m" "mm_job (close_current f e b m) = mm_job m"
  "mm_shutdown (resume_streaming f env m) = mm_shutdown m" "mm_job (resume_streaming f env m) = mm_job m"
  by (auto simp: launch_setup_def resume_streaming_def close_current_def startStreaming_def launch_def Let_def
      split: setup_result.split option.split prod.split)

lemma openSetup_frame: "mm_shutdown (openSetup env m) = mm_shutdown m"
  by (simp add: openSetup_def Let_def handoff_frame split: option.split)

lemma mode_resume_frame: "mm_shutdown (mode_resume f env m) = mm_shutdown m" "mm_job (mode_resume f env m) = mm_job m"
  by (simp_all add: mode_resume_def close_setup_def Let_def handoff_frame split: option.split)

lemma inv_Start: "mode_inv (mode_Start (NewManager host standalone))"
proof -
  let ?m = "NewManager host standalone"
  have v: "vacant ?m" "launches_ok (mm_calls ?m)" by (simp_all add: NewManager_def vacant_def)
  show ?thesis
  proof (cases standalone)
    case True
    let ?n = "launch (SetupBrowser 0) ?m"
    have "settled (setState ''setup'' msg False (?n\<lparr>mm_setup := Some \<lparr>sb_id = 0, sb_closed = False\<rparr>, mm_live := mm_live ?n @ [SetupBrowser 0]\<rparr>))" for msg
      by (rule settled_setState) (simp_all add: NewManager_def owns_def owned_def idle_phase_def)
    then show ?thesis using True
      by (intro settled_inv) (simp_all add: mode_Start_def NewManager_def Let_def, simp_all add: launch_def)
  next
    case False
    obtain r m' where r: "startStreaming None None ?m = (r, m')" by force
    then have "r = None" by (auto simp: startStreaming_def Let_def)
    note ok = startStreaming_ok [OF v r [unfolded this]]
    have "mm_shutdown m' = False" "mm_job m' = None" using r by (auto simp: startStreaming_def Let_def launch_def NewManager_def)
    then show ?thesis using False r ok(1) by (auto simp: mode_Start_def NewManager_def intro!: settled_inv)
  qed
qed

lemma job_frame [simp]:
  "owns (m\<lparr>mm_job := j\<rparr>) = owns m" "clients_ok (m\<lparr>mm_job := j\<rparr>) = clients_ok m" "streams (m\<lparr>mm_job := j\<rparr>) = streams m"
  by (simp_all add: owns_def clients_ok_def streams_def)

lemma inv_begin:
  assumes "mode_inv m" "\<not> mm_shutdown m"
  shows "mm_setup m = None \<Longrightarrow> mode_inv ((setState ''opening'' msg f m)\<lparr>mm_job := Some JOpen\<rparr>)"
    "mode_inv ((setState ''resuming'' msg f m)\<lparr>mm_job := Some (JResume force)\<rparr>)"
  using assms by (simp_all add: mode_inv_def job_phase_def)

lemma inv_focus:
  assumes "mode_inv m" "\<not> mm_shutdown m" "ms_State (mm_state m) = ''setup''"
  shows "mode_inv (m\<lparr>mm_job := Some (JFocus i)\<rparr>)"
  using assms by (simp add: mode_inv_def job_phase_def)

lemma inv_Request:
  assumes "mode_inv m"
  shows "mode_inv (snd (Request action revision force m))"
proof (cases "request_refused action revision force m")
  case None
  then have r: "mm_job m = None" "\<not> mm_stop m" "action = ''open'' \<or> action = ''resume''"
    by (auto simp: request_refused_def split: if_splits)
  then have s: "\<not> mm_shutdown m" "idle_phase (ms_State (mm_state m))" using assms by (auto simp: mode_inv_def job_phase_def)
  have no_setup: "mm_setup m = None" if "action = ''open''" "ms_State (mm_state m) \<noteq> ''setup''"
  proof -
    have "ms_State (mm_state m) = ''streaming''" using None s(2) that by (auto simp: request_refused_def idle_phase_def split: if_splits)
    then show ?thesis using assms s(1) by (simp add: mode_inv_def streams_def)
  qed
  show ?thesis
    by (simp add: Request_def None assms inv_begin [OF assms s(1)] inv_focus [OF assms s(1)] no_setup)
qed (simp add: Request_def assms)

lemma inv_job:
  assumes "mode_inv m"
  shows "mode_inv (run_job env m)"
proof (cases "mm_job m")
  case (Some j)
  then have s: "\<not> mm_shutdown m" "job_phase (Some j) (ms_State (mm_state m))" "owns m" "launches_ok (mm_calls m)" "clients_ok m"
    using assms by (auto simp: mode_inv_def)
  show ?thesis
  proof (cases j)
    case JOpen
    have "mm_setup m = None" using assms s JOpen by (simp add: mode_inv_def job_phase_def)
    then have "settled (openSetup env m)" by (rule openSetup_settled [OF s(3,4)])
    then show ?thesis using Some JOpen s by (simp add: run_job_def settled_inv settled_job openSetup_frame)
  next
    case (JResume force)
    have "settled (mode_resume force env m)" by (rule mode_resume_settled [OF s(3,4)])
    then show ?thesis using Some JResume s by (simp add: run_job_def settled_inv settled_job mode_resume_frame)
  next
    case (JFocus i)
    then have "ms_State (mm_state m) = ''setup''" using s(2) by (simp add: job_phase_def)
    then show ?thesis using Some JFocus s assms
      by (simp add: run_job_def mode_inv_def job_phase_def idle_phase_def owns_def clients_ok_def)
  qed
qed (simp add: run_job_def assms)

lemma inv_fields:
  assumes "mode_inv m"
  shows "mode_inv (m\<lparr>mm_watch := w\<rparr>)" "mode_inv (m\<lparr>mm_done := d\<rparr>)" "mode_inv (m\<lparr>mm_stop := True\<rparr>)" "mode_inv (send_to c x m)"
    "launches_ok [k] \<Longrightarrow> mode_inv (mode_call k m)"
  using assms by (simp_all add: mode_inv_def owns_def clients_ok_def streams_def)

lemma inv_close_setup:
  assumes "mode_inv m" "mm_setup m = Some s"
  shows "mode_inv (snd (close_setup force ok s m))"
proof -
  obtain r m' where r: "close_setup force ok s m = (r, m')" by force
  note c = close_setup_owns [OF _ _ assms(2) r]
  have "mm_setup m' \<noteq> None" using r assms(2) by (auto simp: close_setup_def Let_def split: if_splits)
  then show ?thesis using r c assms by (auto simp: mode_inv_def clients_ok_def streams_def)
qed

lemma inv_act:
  assumes "mode_inv m"
  shows "mode_inv (monitor_act env m)"
proof (cases "mm_watch m")
  case None
  then show ?thesis by (simp add: monitor_act_def inv_fields assms)
next
  case (Some w)
  obtain i closed where w: "w = (i, closed)" by force
  let ?m = "m\<lparr>mm_watch := None\<rparr>"
  show ?thesis
  proof (cases "mm_setup m")
    case None
    then show ?thesis using Some w by (simp add: monitor_act_def inv_fields assms)
  next
    case (Some s)
    have inv: "mode_inv ?m" by (rule inv_fields(1) [OF assms])
    show ?thesis
    proof (cases "mm_job m \<noteq> None \<or> sb_id s \<noteq> i \<or> mm_stop m \<or> \<not> closed")
      case True
      then show ?thesis using Some w inv \<open>mm_watch m = Some w\<close> by (auto simp: monitor_act_def Let_def)
    next
      case False
      show ?thesis
      proof (cases "ms_Standalone (mm_state m)")
        case True
        have "mode_inv (snd (close_setup False (ho_setup_close env = None) s ?m))" by (rule inv_close_setup [OF inv]) (simp add: Some)
        then show ?thesis using False True Some w \<open>mm_watch m = Some w\<close> inv_fields(2) by (simp add: monitor_act_def Let_def)
      next
        case nostand: False
        have "settled (mode_resume False env (setState ''resuming'' msg False ?m))" for msg
          by (rule mode_resume_settled) (use inv in \<open>simp_all add: mode_inv_def\<close>)
        moreover have "\<not> mm_shutdown m" using False assms by (auto simp: mode_inv_def)
        ultimately show ?thesis using False nostand Some w \<open>mm_watch m = Some w\<close>
          by (simp add: monitor_act_def Let_def settled_inv mode_resume_frame)
      qed
    qed
  qed
qed

lemma inv_finish:
  assumes "mode_inv m" "mode_enabled (MFinish env) m"
  shows "mode_inv (shutdown_finish env m)"
proof -
  define n where "n = (case mm_setup m of None \<Rightarrow> m | Some s \<Rightarrow>
    (case close_setup False (ho_setup_close env = None) s m of (True, m) \<Rightarrow> m | (False, m) \<Rightarrow> snd (close_setup True (ho_forced_close env) s m)))"
  have n: "mode_inv n \<and> mm_stop n \<and> mm_job n = None"
  proof (cases "mm_setup m")
    case None
    then show ?thesis using assms by (simp add: n_def)
  next
    case (Some s)
    obtain r m1 where r: "close_setup False (ho_setup_close env = None) s m = (r, m1)" by force
    have o: "owns m" "launches_ok (mm_calls m)" using assms(1) by (simp_all add: mode_inv_def)
    note c = close_setup_owns [OF o Some r]
    have i: "mode_inv m1" using inv_close_setup [OF assms(1) Some, of False "ho_setup_close env = None"] r by simp
    show ?thesis
    proof (cases r)
      case True
      then show ?thesis using Some r i c assms(2) by (simp add: n_def)
    next
      case False
      obtain r2 m2 where r2: "close_setup True (ho_forced_close env) s m1 = (r2, m2)" by force
      note c2 = close_setup_owns [OF c(1,2) c(5) [OF False] r2]
      have "mode_inv m2" using inv_close_setup [OF i c(5) [OF False], of True "ho_forced_close env"] r2 by simp
      then show ?thesis using Some r r2 False c c2 assms(2) by (simp add: n_def)
    qed
  qed
  show ?thesis
  proof (cases "mm_current n")
    case None
    then have "shutdown_finish env m = n\<lparr>mm_shutdown := True\<rparr>" by (simp add: shutdown_finish_def n_def [symmetric] Let_def)
    then show ?thesis using n by (simp add: mode_inv_def owns_def clients_ok_def)
  next
    case (Some b)
    then have "shutdown_finish env m = (mode_call (ShutdownCall b) (dies (Streaming b) (n\<lparr>mm_current := None\<rparr>)))\<lparr>mm_shutdown := True\<rparr>"
      by (simp add: shutdown_finish_def n_def [symmetric] Let_def)
    moreover have "removeAll (Streaming b) (mm_live n) = []"
      using n Some by (auto simp: mode_inv_def owns_def owned_def removeAll_filter_not_eq filter_empty_conv)
    ultimately show ?thesis using n by (simp add: mode_inv_def owns_def clients_ok_def)
  qed
qed

lemma inv_clients:
  assumes "mode_inv m"
  shows "mode_inv (ClientConnected c m)" "mode_inv (ClientDisconnected c m)"
    "mm_clients m c \<noteq> None \<Longrightarrow> mode_inv (m\<lparr>mm_clients := (mm_clients m)(c \<mapsto> True)\<rparr>)"
proof -
  have "mode_inv (m\<lparr>mm_clients := (mm_clients m)(c \<mapsto> False), mm_paused := (mm_paused m)(c := ms_State (mm_state m) \<noteq> ''streaming'')\<rparr>)"
    using assms by (auto simp: mode_inv_def owns_def clients_ok_def streams_def)
  then show "mode_inv (ClientConnected c m)"
    by (cases "ms_State (mm_state m) = ''streaming''") (auto simp: ClientConnected_def Let_def inv_fields(4,5) split: option.split)
  have "mode_inv (m\<lparr>mm_clients := (mm_clients m)(c := None)\<rparr>)"
    using assms by (auto simp: mode_inv_def owns_def clients_ok_def streams_def)
  then show "mode_inv (ClientDisconnected c m)" using inv_fields(5) by (simp add: ClientDisconnected_def Let_def split: option.split)
  show "mm_clients m c \<noteq> None \<Longrightarrow> mode_inv (m\<lparr>mm_clients := (mm_clients m)(c \<mapsto> True)\<rparr>)"
    using assms by (auto simp: mode_inv_def owns_def clients_ok_def streams_def)
qed

lemma inv_message:
  assumes "mode_inv m" "mm_clients m c \<noteq> None"
  shows "mode_inv (HandleMessage text_of c command m)"
proof (cases command)
  case Watch
  then show ?thesis using inv_clients(3) [OF assms] by (simp add: HandleMessage_def inv_fields(4))
next
  case (Resume revision force)
  obtain r m' where "Request ''resume'' revision force m = (r, m')" by force
  then show ?thesis using Resume inv_Request [OF assms(1), of "''resume''" revision force]
    by (simp add: HandleMessage_def inv_fields(4) split: option.split)
next
  case (OtherInput n)
  then show ?thesis using assms(1) by (simp add: HandleMessage_def inv_fields(5) split: option.split)
qed

lemma inv_dies: "mode_inv m \<Longrightarrow> mode_inv (dies b m)"
  by (auto simp: mode_inv_def owns_def clients_ok_def streams_def removeAll_filter_not_eq)

lemma inv_mode_apply:
  assumes "mode_inv m" "mode_enabled op m"
  shows "mode_inv (mode_apply text_of op m)"
proof (cases op)
  case (MLook seen)
  then show ?thesis using assms(1) by (simp add: monitor_look_def inv_fields split: option.split)
next
  case (MPrepare revision)
  then show ?thesis using assms(1) by (simp add: PrepareShutdown_def inv_fields)
qed (use assms in \<open>simp_all add: inv_Request inv_job inv_act inv_finish inv_clients inv_message inv_dies shutdown_begin_def inv_fields\<close>)

lemma mode_reach_inv: "mode_reach text_of host standalone m \<Longrightarrow> mode_inv m"
  by (induction rule: mode_reach.induct) (simp_all add: inv_Start inv_mode_apply)


definition desktop :: manager_mode where
  "desktop = mode_Start (NewManager ''h'' False)"

definition smooth :: handoff where
  "smooth = \<lparr>ho_flushed = True, ho_close = None, ho_setup = SetupStarted, ho_setup_close = None, ho_forced_close = True, ho_new = None, ho_start = None\<rparr>"

lemma desktop_fields:
  "ms_State (mm_state desktop) = ''streaming''" "ms_Revision (mm_state desktop) = 2" "mm_job desktop = None" "\<not> mm_stop desktop"
  "mm_current desktop = Some 0" "mm_setup desktop = None" "\<not> ms_CanForce (mm_state desktop)" "mm_clients desktop = Map.empty"
  by (simp_all add: desktop_def mode_Start_def NewManager_def startStreaming_def launch_def Let_def)

lemma desktop_open:
  "Request ''open'' 2 False desktop =
     (None, (setState ''opening'' (''Opening the browser on this computer'' @ ellipsis) False desktop)\<lparr>mm_job := Some JOpen\<rparr>)"
  by (simp add: Request_def request_refused_def desktop_fields)

lemma desktop_setup:
  "ms_State (mm_state (run_job smooth (snd (Request ''open'' 2 False (ClientConnected 7 desktop))))) = ''setup''"
  "mm_clients (run_job smooth (snd (Request ''open'' 2 False (ClientConnected 7 desktop)))) 7 = Some False"
  by (simp_all add: Request_def request_refused_def ClientConnected_def desktop_fields Let_def run_job_def openSetup_def smooth_def
      close_current_def launch_setup_def)


section \<open>Requests\<close>

lemma startStreaming_revision:
  "ms_Revision (mm_state (snd (startStreaming ne se m))) =
     ms_Revision (mm_state m) + (if fst (startStreaming ne se m) = None then 1 else 0)"
  by (simp add: startStreaming_def Let_def split: option.split)

lemma launch_setup_revision:
  "ms_Revision (mm_state (launch_setup env m)) \<in> {ms_Revision (mm_state m) + 1, ms_Revision (mm_state m) + 2}"
proof -
  obtain r m' where r: "startStreaming (ho_new env) (ho_start env) (launch (SetupBrowser (mm_next m)) m) = (r, m')" by force
  then show ?thesis using startStreaming_revision [of "ho_new env" "ho_start env" "launch (SetupBrowser (mm_next m)) m"]
    by (simp add: launch_setup_def Let_def split: setup_result.split option.split)
qed

lemma openSetup_revision:
  "ms_Revision (mm_state (openSetup env m)) \<in> {ms_Revision (mm_state m) + 1, ms_Revision (mm_state m) + 2}"
  using launch_setup_revision [of env m] launch_setup_revision [of env "close_current False None b (mode_call (DisconnectAll b (dom (mm_clients m))) (mode_call (CancelInput b) (m\<lparr>mm_current := None\<rparr>)))" for b]
  by (auto simp: openSetup_def Let_def close_current_def split: option.split)

lemma resume_streaming_revision: "ms_Revision (mm_state (resume_streaming f env m)) = ms_Revision (mm_state m) + 1"
proof -
  have start: "ms_Revision (mm_state (case startStreaming ne se n of (Some e, m) \<Rightarrow> setState ''failed'' (''Could not resume Surf: '' @ e) False m | (None, m) \<Rightarrow> m)) =
      ms_Revision (mm_state n) + 1" for ne se n
    using startStreaming_revision [of ne se n] by (cases "startStreaming ne se n") (simp split: option.split)
  have "ms_Revision (mm_state (close_current f (Some e) b n)) = ms_Revision (mm_state n) + 1" 
    "ms_Revision (mm_state (close_current f None b n)) = ms_Revision (mm_state n)" for e b n by (simp_all add: close_current_def)
  then show ?thesis by (cases "mm_current m"; cases "ho_close env") (simp_all add: resume_streaming_def Let_def start)
qed

lemma mode_resume_revision: "ms_Revision (mm_state (mode_resume f env m)) = ms_Revision (mm_state m) + 1"
  by (auto simp: mode_resume_def close_setup_def Let_def resume_streaming_revision split: option.split)

lemma run_job_revision:
  assumes "mm_job m = Some j" "j \<noteq> JFocus i" "\<not> (\<exists>i. j = JFocus i)"
  shows "ms_Revision (mm_state (run_job env m)) \<in> {ms_Revision (mm_state m) + 1, ms_Revision (mm_state m) + 2}"
  using assms openSetup_revision [of env m] mode_resume_revision by (cases j) (auto simp: run_job_def)

lemma run_job_done: "mm_job (run_job env m) = None"
  by (simp add: run_job_def split: option.split mode_job.split)

lemma Request_accepted:
  assumes "Request action revision force m = (None, m')" "m' \<noteq> m"
  shows "mm_job m = None \<and> \<not> mm_stop m \<and> revision = ms_Revision (mm_state m) \<and>
     (force \<longrightarrow> action = ''resume'' \<and> ms_CanForce (mm_state m)) \<and> (action = ''resume'' \<longrightarrow> \<not> ms_Standalone (mm_state m))"
  using assms by (cases "request_refused action revision force m") (auto simp: Request_def request_refused_def split: if_splits)

lemma Request_new_revision:
  assumes "Request action revision force m = (None, m')" "m' \<noteq> m" "mm_job m' = Some j" "\<not> (\<exists>i. j = JFocus i)"
  shows "ms_Revision (mm_state m') = revision + 1"
proof (cases "request_refused action revision force m")
  case None
  then have "revision = ms_Revision (mm_state m)" by (auto simp: request_refused_def split: if_splits)
  then show ?thesis using assms None by (auto simp: Request_def split: if_splits)
qed (use assms in \<open>simp add: Request_def\<close>)

lemma stale_revision_refused: "revision \<noteq> ms_Revision (mm_state m) \<Longrightarrow> \<exists>e. Request action revision force m = (Some e, m)"
  by (auto simp: Request_def request_refused_def)



text \<open>
  The offer to force a setup browser closed does not last: while the observer sees its windows gone, every tick tries
  the normal close again and moves to a new revision, so that the confirmation of the offer is refused.
\<close>
lemma force_offer_expires:
  assumes "mm_setup m = Some s" "mm_job m = None" "\<not> mm_stop m" "\<not> ms_Standalone (mm_state m)"
  shows "\<exists>e. Request ''resume'' (ms_Revision (mm_state m)) True (monitor_act env (monitor_look True m)) = (Some e, monitor_act env (monitor_look True m))"
proof -
  have "ms_Revision (mm_state (monitor_act env (monitor_look True m))) = ms_Revision (mm_state m) + 2"
    using assms by (simp add: monitor_act_def monitor_look_def Let_def mode_resume_revision)
  then show ?thesis by (intro stale_revision_refused) simp
qed

end
