(* ===== verification/Browser_Session.thy ===== *)
theory Browser_Session
  imports Library_Store
begin

text \<open>
  The tabs of the browser controller and the durable session,
  \<^verbatim>\<open>backend/internal/browser/session.go\<close> with the fields of \<^verbatim>\<open>controller.go\<close> it uses. A \<^verbatim>\<open>*Tab\<close> is an index
  into the list of the tabs ever created, so that the three maps of the controller share tabs as they do in the code. The
  session file holds a decoded session; its JSON is not modelled. What Chromium answers to a command, and
  whether a file can be written, are arguments; the commands given to Chromium and to the other parts of the
  controller are appended to a trace, in order.
\<close>

section \<open>Data\<close>

record tab =
  ta_ID :: int
  ta_TargetID :: string
  ta_Session :: string
  ta_Title :: string
  ta_URL :: string
  ta_loading :: bool
  ta_loadingGeneration :: uint64
  ta_awaitingPageFrame :: bool
  ta_mainFrameID :: string
  ta_IconKey :: string
  ta_Security :: string
  ta_Fullscreen :: bool

record target_info =
  tg_TargetID :: string
  tg_Type :: string
  tg_Title :: string
  tg_URL :: string

definition browserSessionVersion :: int where "browserSessionVersion = 1"

record browser_session =
  bs_Version :: int
  bs_Tabs :: "string list"
  bs_Active :: int
  bs_Mobile :: bool
  bs_Dark :: bool
  bs_FromSetup :: bool

definition no_session :: browser_session where
  \<comment> \<open>\<^verbatim>\<open>browserSession{}\<close>\<close>
  "no_session = \<lparr>bs_Version = 0, bs_Tabs = [], bs_Active = 0, bs_Mobile = False, bs_Dark = False, bs_FromSetup = False\<rparr>"

datatype session_file = Missing | Undecodable | Decodes browser_session

record tab_info =
  tf_ID :: int
  tf_Title :: string
  tf_URL :: string
  tf_Active :: bool
  tf_Icon :: string

datatype tab_event =
    LoadingEvent bool
  | FullscreenEvent bool
  | URLStateEvent string string bool string   \<comment> \<open>type, address, starred, security\<close>
  | SecurityEvent string
  | HistoryStateEvent bool bool
  | TabsEvent "tab_info list"

datatype tab_call =
    Broadcast tab_event
  | CreateTarget string
  | CloseTarget string
  | ActivateTarget string
  | AttachToTarget string
  | DetachFromTarget string
  | GetTargets
  | Navigate string string              \<comment> \<open>session, address\<close>
  | NavigationHistory string
  | Reload string
  | StopLoading string
  | NavigateToHistory string bool
  | PageEnable string
  | SetupSession string                 \<comment> \<open>\<^verbatim>\<open>Runtime.enable\<close> through \<^verbatim>\<open>setupFeatures\<close>\<close>
  | SetTouchMode string
  | TouchCancel bool
  | PointerCancel bool
  | GovernorSettle
  | CaptureSwitch
  | ApplyView nat
  | OverrideUserAgent string            \<comment> \<open>\<^verbatim>\<open>Network.enable\<close>, and the override where there is one\<close>
  | SetEmulatedMedia string bool

record tab_ctl =
  tc_heap :: "tab list"                  \<comment> \<open>every tab ever created; a \<^verbatim>\<open>*Tab\<close> is an index\<close>
  tc_tabs :: "int \<rightharpoonup> nat"
  tc_byTarget :: "string \<rightharpoonup> nat"
  tc_bySession :: "string \<rightharpoonup> nat"
  tc_seq :: int
  tc_activeID :: int
  tc_activeGen :: uint64
  tc_mobile :: bool
  tc_dark :: bool
  tc_startupSession :: browser_session
  tc_exactSession :: bool
  tc_restorePending :: "string set"
  tc_restoreOrder :: "string \<rightharpoonup> int"
  tc_restoreActiveTarget :: string
  tc_restoreActiveID :: int
  tc_sessionTimer :: "uint64 option"     \<comment> \<open>the generation of the timer that is set\<close>
  tc_sessionTimerGen :: uint64
  tc_sessionClosed :: bool
  tc_store :: store
  tc_alive :: bool
  tc_suspended :: bool
  tc_startedAt :: gotime
  tc_loadingTimers :: "(nat \<times> uint64) list"   \<comment> \<open>the \<^verbatim>\<open>time.AfterFunc\<close> of \<^verbatim>\<open>scheduleTabLoadingGeneration\<close>\<close>
  tc_file :: session_file                \<comment> \<open>\<^verbatim>\<open>browser-session.json\<close>\<close>
  tc_calls :: "tab_call list"            \<comment> \<open>the trace\<close>

abbreviation tab_at :: "tab_ctl \<Rightarrow> nat \<Rightarrow> tab" where
  "tab_at b r \<equiv> tc_heap b ! r"

definition call :: "tab_call \<Rightarrow> tab_ctl \<Rightarrow> tab_ctl" where
  "call c b = b\<lparr>tc_calls := tc_calls b @ [c]\<rparr>"

definition set_tab :: "nat \<Rightarrow> (tab \<Rightarrow> tab) \<Rightarrow> tab_ctl \<Rightarrow> tab_ctl" where
  "set_tab r f b = b\<lparr>tc_heap := (tc_heap b)[r := f (tab_at b r)]\<rparr>"

definition broadcast :: "tab_event \<Rightarrow> tab_ctl \<Rightarrow> tab_ctl" where
  "broadcast ev b = (if tc_alive b \<and> \<not> tc_suspended b then call (Broadcast ev) b else b)"

section \<open>The session file\<close>

definition loadBrowserSession :: "session_file \<Rightarrow> browser_session" where
  "loadBrowserSession f = (case f of
      Missing \<Rightarrow> no_session
    | Undecodable \<Rightarrow> no_session
    | Decodes s \<Rightarrow>
        if bs_Version s \<noteq> browserSessionVersion then no_session
        else if bs_Active s < 0 \<or> bs_Active s \<ge> int (length (bs_Tabs s)) then s\<lparr>bs_Active := 0\<rparr>
        else s)"

definition restorableURL :: "string \<Rightarrow> bool" where
  "restorableURL raw =
    (let raw = trim_space raw
     in has_prefix raw ''http://'' \<or> has_prefix raw ''https://'' \<or> raw = ''about:blank'' \<or> raw = ''about:blank#surf-new'')"

datatype session_error = WriteFailed | InstallFailed

datatype disk = DiskOk | DiskWriteFails | DiskReplaceFails

definition writeBrowserSession :: "disk \<Rightarrow> browser_session \<Rightarrow> session_file \<Rightarrow> session_file \<times> session_error option" where
  \<comment> \<open>written to a temporary file that replaces the old one, or is removed\<close>
  "writeBrowserSession d s f = (case d of
      DiskOk \<Rightarrow> (Decodes s, None)
    | DiskWriteFails \<Rightarrow> (f, Some WriteFailed)
    | DiskReplaceFails \<Rightarrow> (f, Some InstallFailed))"

definition tab_ids :: "tab_ctl \<Rightarrow> int list" where
  \<comment> \<open>the sorted keys of \<^verbatim>\<open>b.tabs\<close>\<close>
  "tab_ids b = sorted_list_of_set (dom (tc_tabs b))"

definition add_saved_tab :: "tab_ctl \<Rightarrow> int \<Rightarrow> browser_session \<Rightarrow> browser_session" where
  \<comment> \<open>the body of the loop of \<^verbatim>\<open>SaveSession\<close>\<close>
  "add_saved_tab b i s = (case tc_tabs b i of
      None \<Rightarrow> s
    | Some r \<Rightarrow>
        if \<not> restorableURL (ta_URL (tab_at b r)) then s
        else let s = (if i = tc_activeID b then s\<lparr>bs_Active := int (length (bs_Tabs s))\<rparr> else s)
             in s\<lparr>bs_Tabs := bs_Tabs s @ [ta_URL (tab_at b r)]\<rparr>)"

definition session_of :: "tab_ctl \<Rightarrow> browser_session" where
  "session_of b = fold (add_saved_tab b) (tab_ids b)
     (no_session\<lparr>bs_Version := browserSessionVersion, bs_Mobile := tc_mobile b, bs_Dark := tc_dark b\<rparr>)"

definition SaveSession :: "disk \<Rightarrow> tab_ctl \<Rightarrow> tab_ctl \<times> session_error option" where
  "SaveSession d b =
    (let s = session_of b
     in if bs_Tabs s = [] then (b, None)
        else let (f, err) = writeBrowserSession d s (tc_file b) in (b\<lparr>tc_file := f\<rparr>, err))"

section \<open>When it is saved\<close>

definition scheduleSessionSave :: "tab_ctl \<Rightarrow> tab_ctl" where
  "scheduleSessionSave b =
    (if tc_sessionClosed b then b
     else b\<lparr>tc_sessionTimerGen := tc_sessionTimerGen b + 1, tc_sessionTimer := Some (tc_sessionTimerGen b + 1)\<rparr>)"

definition runScheduledSessionSave :: "disk \<Rightarrow> uint64 \<Rightarrow> tab_ctl \<Rightarrow> tab_ctl" where
  \<comment> \<open>an error is only logged\<close>
  "runScheduledSessionSave d generation b =
    (if tc_sessionClosed b \<or> generation \<noteq> tc_sessionTimerGen b then b
     else fst (SaveSession d (b\<lparr>tc_sessionTimer := None\<rparr>)))"

definition flushSession :: "disk \<Rightarrow> tab_ctl \<Rightarrow> tab_ctl \<times> session_error option" where
  "flushSession d b =
    (if tc_sessionClosed b then (b, None)
     else SaveSession d (b\<lparr>tc_sessionClosed := True, tc_sessionTimerGen := tc_sessionTimerGen b + 1, tc_sessionTimer := None\<rparr>))"

section \<open>Restoring\<close>

definition newTargetParams :: "string \<Rightarrow> string" where
  \<comment> \<open>the one parameter of \<^verbatim>\<open>Target.createTarget\<close>\<close>
  "newTargetParams rawURL = rawURL"

definition beginRestore :: "target_info list \<Rightarrow> string \<Rightarrow> tab_ctl \<Rightarrow> tab_ctl" where
  "beginRestore targets activeTarget b =
     b\<lparr>tc_restorePending := tg_TargetID ` set targets,
       tc_restoreOrder := map_of (rev (zip (map tg_TargetID targets) (map int [1..<Suc (length targets)]))),
       tc_seq := (if tc_seq b < int (length targets) then int (length targets) else tc_seq b),
       tc_restoreActiveTarget := activeTarget, tc_restoreActiveID := 0\<rparr>"

definition newest_tab :: "tab_ctl \<Rightarrow> int" where
  \<comment> \<open>\<^verbatim>\<open>for id := range b.tabs { if id > n { n = id } }\<close> from \<open>0\<close>\<close>
  "newest_tab b = Max (insert 0 (dom (tc_tabs b)))"

definition finishRestoreTarget :: "string \<Rightarrow> int \<Rightarrow> tab_ctl \<Rightarrow> (bool \<times> int) \<times> tab_ctl" where
  "finishRestoreTarget targetID tabID b =
    (if targetID \<notin> tc_restorePending b then ((False, 0), b)
     else
       let b = b\<lparr>tc_restorePending := tc_restorePending b - {targetID}\<rparr>;
           b = (if targetID = tc_restoreActiveTarget b then b\<lparr>tc_restoreActiveID := tabID\<rparr> else b)
       in if tc_restorePending b \<noteq> {} then ((True, 0), b)
          else
            let activate = (if tc_restoreActiveID b = 0 then newest_tab b else tc_restoreActiveID b)
            in ((True, activate),
                b\<lparr>tc_restorePending := {}, tc_restoreOrder := Map.empty, tc_restoreActiveTarget := [], tc_restoreActiveID := 0\<rparr>))"

fun create_targets :: "(string \<Rightarrow> nat \<Rightarrow> string option) \<Rightarrow> nat \<Rightarrow> (nat \<times> string) list \<Rightarrow> (nat \<times> target_info) list" where
  \<comment> \<open>\<^verbatim>\<open>Target.createTarget\<close> for each address; \<open>answer\<close> is the target of the \<open>n\<close>-th command, if it can be had\<close>
  "create_targets answer n [] = []"
| "create_targets answer n ((i, url) # us) =
    (case answer url n of
       None \<Rightarrow> create_targets answer (Suc n) us
     | Some t \<Rightarrow>
         if t = [] then create_targets answer (Suc n) us
         else (i, \<lparr>tg_TargetID = t, tg_Type = ''page'', tg_Title = [], tg_URL = url\<rparr>) # create_targets answer (Suc n) us)"

definition active_created :: "int \<Rightarrow> (nat \<times> target_info) list \<Rightarrow> string" where
  \<comment> \<open>the last of the targets whose tab is the active one, or the first\<close>
  "active_created active created =
    (case filter (\<lambda>(i, t). int i = active) created of
       [] \<Rightarrow> (case created of [] \<Rightarrow> [] | (i, t) # _ \<Rightarrow> tg_TargetID t)
     | ts \<Rightarrow> tg_TargetID (snd (last ts)))"

fun take_match :: "string \<Rightarrow> string set \<Rightarrow> target_info list \<Rightarrow> target_info option" where
  \<comment> \<open>the first target with this address that is not used\<close>
  "take_match url used [] = None"
| "take_match url used (t # ts) = (if tg_TargetID t \<in> used \<or> tg_URL t \<noteq> url then take_match url used ts else Some t)"

fun match_session :: "target_info list \<Rightarrow> int \<Rightarrow> nat \<Rightarrow> string list \<Rightarrow> string set \<Rightarrow> target_info list \<Rightarrow> string \<Rightarrow>
    string set \<times> target_info list \<times> string" where
  \<comment> \<open>\<^verbatim>\<open>for index, pageURL := range session.Tabs\<close> with \<^verbatim>\<open>used\<close>, \<^verbatim>\<open>ordered\<close> and \<^verbatim>\<open>activeTarget\<close>\<close>
  "match_session pages active i [] used ordered act = (used, ordered, act)"
| "match_session pages active i (url # urls) used ordered act =
    (case take_match url used pages of
       None \<Rightarrow> match_session pages active (Suc i) urls used ordered act
     | Some t \<Rightarrow> match_session pages active (Suc i) urls (insert (tg_TargetID t) used) (ordered @ [t])
         (if int i = active then tg_TargetID t else act))"

definition order_pages :: "browser_session \<Rightarrow> target_info list \<Rightarrow> target_info list \<times> string" where
  \<comment> \<open>the branch of \<^verbatim>\<open>prepareStartupSession\<close> for pages Chromium restored itself\<close>
  "order_pages s pages =
    (let (used, ordered, act) = match_session pages (bs_Active s) 0 (bs_Tabs s) {} [] [];
         ordered = ordered @ filter (\<lambda>t. tg_TargetID t \<notin> used) pages;
         act = (if act \<noteq> [] then act
                else case filter (\<lambda>t. tg_URL t = bs_Tabs s ! nat (bs_Active s)) ordered of
                       [] \<Rightarrow> tg_TargetID (hd ordered)
                     | t # _ \<Rightarrow> tg_TargetID t)
     in (ordered, act))"

definition prepareStartupSession :: "target_info list option \<Rightarrow> (string \<Rightarrow> nat \<Rightarrow> string option) \<Rightarrow> tab_ctl \<Rightarrow> tab_ctl" where
  "prepareStartupSession found answer b =
    (let s = tc_startupSession b
     in if bs_Tabs s = [] then b
        else case found of
          None \<Rightarrow> call GetTargets b
        | Some ts \<Rightarrow>
            let b = call GetTargets b;
                pages = filter (\<lambda>t. tg_Type t = ''page'') ts;
                realPages = filter (\<lambda>t. restorableURL (tg_URL t) \<and> tg_URL t \<noteq> ''about:blank'') pages
            in if realPages \<noteq> [] then (let (ordered, act) = order_pages s realPages in beginRestore ordered act b)
               else
                 let wanted = filter (restorableURL \<circ> snd) (enumerate 0 (bs_Tabs s));
                     b = fold (call \<circ> CreateTarget \<circ> newTargetParams \<circ> snd) wanted b;
                     created = create_targets answer 0 wanted
                 in if created = [] then b
                    else
                      let b = fold (call \<circ> CloseTarget \<circ> tg_TargetID) pages b
                      in beginRestore (map snd created) (active_created (bs_Active s) created) b)"

datatype handoff_error = CallFailed

fun create_all :: "(string \<Rightarrow> nat \<Rightarrow> string option) \<Rightarrow> nat \<Rightarrow> string list \<Rightarrow> string list \<times> target_info list option" where
  \<comment> \<open>the addresses asked for, and the targets if every one was created\<close>
  "create_all answer n [] = ([], Some [])"
| "create_all answer n (url # urls) =
    (case answer url n of
       None \<Rightarrow> ([url], None)
     | Some t \<Rightarrow>
         let (asked, rest) = create_all answer (Suc n) urls
         in (url # asked, map_option ((#) \<lparr>tg_TargetID = t, tg_Type = ''page'', tg_Title = [], tg_URL = url\<rparr>) rest))"

fun handoff_active :: "int \<Rightarrow> nat \<Rightarrow> string \<Rightarrow> target_info list \<Rightarrow> string" where
  \<comment> \<open>\<^verbatim>\<open>if active == "" || i == session.Active\<close> along the created targets\<close>
  "handoff_active active i act [] = act"
| "handoff_active active i act (t # ts) =
     handoff_active active (Suc i) (if act = [] \<or> int i = active then tg_TargetID t else act) ts"

definition restoreHandoff :: "target_info list option \<Rightarrow> (string \<Rightarrow> nat \<Rightarrow> string option) \<Rightarrow> bool \<Rightarrow> browser_session \<Rightarrow>
    (target_info list \<Rightarrow> string \<Rightarrow> tab_ctl \<Rightarrow> tab_ctl) list \<Rightarrow> tab_ctl \<Rightarrow> tab_ctl \<times> handoff_error option" where
  \<comment> \<open>\<open>activated\<close>: \<^verbatim>\<open>Target.activateTarget\<close> succeeds\<close>
  "restoreHandoff found answer activated s restored b =
    (case found of
       None \<Rightarrow> (call GetTargets b, Some CallFailed)
     | Some old \<Rightarrow>
         let b = call GetTargets b;
             urls = (if bs_Tabs s = [] then [''about:blank#surf-new''] else bs_Tabs s);
             (asked, targets) = create_all answer 0 urls;
             b = fold (call \<circ> CreateTarget) asked b
         in case targets of
              None \<Rightarrow> (b, Some CallFailed)
            | Some created \<Rightarrow>
                let b = fold (call \<circ> CloseTarget \<circ> tg_TargetID) (filter (\<lambda>t. tg_Type t = ''page'') old) b;
                    act = handoff_active (bs_Active s) 0 [] created;
                    b = call (ActivateTarget act) b
                in if activated then (fold (\<lambda>fn. fn created act) restored b, None) else (b, Some CallFailed))"

section \<open>The session of the setup browser\<close>

definition setup_url :: "string \<Rightarrow> string" where
  "setup_url url =
    (if url = ''chrome://newtab/'' \<or> url = ''edge://newtab/'' \<or> url = ''brave://newtab/'' then ''about:blank#surf-new'' else url)"

definition add_setup_tab :: "int \<Rightarrow> nat \<times> string \<Rightarrow> browser_session \<Rightarrow> browser_session" where
  "add_setup_tab active = (\<lambda>(i, url) s.
     let url = setup_url url
     in if \<not> restorableURL url then s
        else let s = (if int i = active then s\<lparr>bs_Active := int (length (bs_Tabs s))\<rparr> else s)
             in s\<lparr>bs_Tabs := bs_Tabs s @ [url]\<rparr>)"

definition filteredSetupSession :: "string list \<Rightarrow> int \<Rightarrow> browser_session \<Rightarrow> browser_session" where
  "filteredSetupSession urls active previous =
    (let s = fold (add_setup_tab active) (enumerate 0 urls)
       (no_session\<lparr>bs_Version := browserSessionVersion, bs_Mobile := bs_Mobile previous, bs_Dark := bs_Dark previous, bs_FromSetup := True\<rparr>)
     in if bs_Tabs s = [] then s\<lparr>bs_Tabs := [''about:blank#surf-new'']\<rparr> else s)"

definition sameSession :: "browser_session \<Rightarrow> browser_session \<Rightarrow> bool" where
  "sameSession a b \<longleftrightarrow>
     \<not> (bs_Active a \<noteq> bs_Active b \<or> bs_Mobile a \<noteq> bs_Mobile b \<or> bs_Dark a \<noteq> bs_Dark b \<or> bs_FromSetup a \<noteq> bs_FromSetup b
        \<or> length (bs_Tabs a) \<noteq> length (bs_Tabs b))
     \<and> list_all (\<lambda>i. bs_Tabs a ! i = bs_Tabs b ! i) [0..<length (bs_Tabs a)]"

record setup_watch =
  sw_closed :: bool
  sw_snapshot :: browser_session
  sw_windows :: int
  sw_ready :: bool
  sw_file :: session_file

datatype observed = ObserverFailed | NotReady | Observed "string list" int int   \<comment> \<open>tabs, active, windows\<close>

datatype poll_error = ObserverError | SessionNotSaved session_error

definition setup_poll :: "observed \<Rightarrow> disk \<Rightarrow> setup_watch \<Rightarrow> setup_watch \<times> poll_error option" where
  "setup_poll seen d w =
    (if sw_closed w then (w, None)
     else case seen of
       ObserverFailed \<Rightarrow> (w, Some ObserverError)
     | NotReady \<Rightarrow> (w, None)
     | Observed urls active windows \<Rightarrow>
         let nxt = filteredSetupSession urls active (sw_snapshot w);
             changed = \<not> sameSession (sw_snapshot w) nxt;
             w = w\<lparr>sw_windows := windows, sw_ready := True\<rparr>
         in if \<not> changed then (w, None)
            else case writeBrowserSession d nxt (sw_file w) of
              (f, Some e) \<Rightarrow> (w\<lparr>sw_file := f\<rparr>, Some (SessionNotSaved e))
            | (f, None) \<Rightarrow> (w\<lparr>sw_file := f, sw_snapshot := nxt\<rparr>, None))"

end
