(* ===== verification/Browser_Tabs.thy ===== *)
theory Browser_Tabs
  imports Browser_Session
begin

text \<open>
  The tab registry, \<^verbatim>\<open>backend/internal/browser/tabs.go\<close>, and the events and commands that drive it
  (\<^verbatim>\<open>Controller.onEvent\<close>, \<^verbatim>\<open>handleTab\<close>). Targets are attached and dropped by goroutines: such a goroutine
  is the list of the actions it still has to do, an action being what it does between two blocking calls or
  critical sections, so that goroutines interleave at those points. The parser of addresses
  (\<^verbatim>\<open>net/url\<close>), the favicon cache, the clock and the writability of the profile are the fields of \<open>tab_env\<close>.
\<close>

section \<open>Goroutines and their environment\<close>

record tab_env =
  te_parse :: "string \<Rightarrow> (string \<times> string) option"   \<comment> \<open>\<^verbatim>\<open>url.Parse\<close>: scheme and host\<close>
  te_icon :: "tab \<Rightarrow> string"                          \<comment> \<open>\<^verbatim>\<open>iconURLLocked\<close>\<close>
  te_history :: "string \<Rightarrow> (bool \<times> bool) option"      \<comment> \<open>\<^verbatim>\<open>NavigationHistory\<close> of a session: can go back, forward\<close>
  te_now :: gotime
  te_stamp :: int                                     \<comment> \<open>\<^verbatim>\<open>time.Now().UnixMilli()\<close>\<close>
  te_writable :: bool
  te_StartURL :: string

datatype reply = Failed | Reply string

datatype tab_act =
    AttachBegin target_info
  | AttachReply nat target_info bool            \<comment> \<open>\<^verbatim>\<open>Target.attachToTarget\<close> answers\<close>
  | CaptureFrame nat                            \<comment> \<open>\<^verbatim>\<open>Page.getFrameTree\<close> answers\<close>
  | AttachSetup nat target_info string bool
  | FinishRestore string int "int option"       \<comment> \<open>and the tab to activate outside a restoration\<close>
  | DropBegin string
  | DropRest bool int
  | DropEnd
  | SwitchBegin int
  | SwitchReply int nat uint64 string           \<comment> \<open>\<^verbatim>\<open>Target.activateTarget\<close> answers\<close>
  | SwitchShow int nat uint64 string
  | ShowURL string
  | ShowFlags nat
  | TitleAsk nat
  | TitleReply nat string string                \<comment> \<open>\<^verbatim>\<open>Runtime.evaluate\<close> answers\<close>
  | NavState string                             \<comment> \<open>\<^verbatim>\<open>Page.getNavigationHistory\<close> answers\<close>

section \<open>Looking tabs up\<close>

definition tabBySession :: "tab_ctl \<Rightarrow> string \<Rightarrow> nat option \<times> bool" where
  "tabBySession b session =
    (if session = [] then (None, False)
     else (tc_bySession b session, (case tc_bySession b session of None \<Rightarrow> False | Some r \<Rightarrow> ta_ID (tab_at b r) = tc_activeID b)))"

definition tabByPrimarySession :: "tab_ctl \<Rightarrow> string \<Rightarrow> nat option \<times> bool" where
  "tabByPrimarySession b session =
    (if session = [] then (None, False)
     else case tc_bySession b session of
       None \<Rightarrow> (None, False)
     | Some r \<Rightarrow> if ta_Session (tab_at b r) \<noteq> session then (None, False) else (Some r, ta_ID (tab_at b r) = tc_activeID b))"

definition tabByMainFrame :: "tab_ctl \<Rightarrow> string \<Rightarrow> string \<Rightarrow> nat option \<times> bool" where
  "tabByMainFrame b session frameID =
    (if frameID = [] then (None, False)
     else case fst (tabByPrimarySession b session) of
       None \<Rightarrow> (None, False)
     | Some r \<Rightarrow>
         if tc_tabs b (ta_ID (tab_at b r)) \<noteq> Some r \<or> ta_mainFrameID (tab_at b r) \<noteq> frameID then (None, False)
         else (Some r, ta_ID (tab_at b r) = tc_activeID b))"

definition isMainFrameEvent :: "tab_ctl \<Rightarrow> string \<Rightarrow> string \<Rightarrow> bool" where
  "isMainFrameEvent b session frameID \<longleftrightarrow> fst (tabByMainFrame b session frameID) \<noteq> None"

definition rememberMainFrame :: "string \<Rightarrow> string \<Rightarrow> tab_ctl \<Rightarrow> bool \<times> tab_ctl" where
  "rememberMainFrame session frameID b =
    (if session = [] \<or> frameID = [] then (False, b)
     else case tc_bySession b session of
       None \<Rightarrow> (False, b)
     | Some r \<Rightarrow>
         if ta_Session (tab_at b r) \<noteq> session \<or> tc_tabs b (ta_ID (tab_at b r)) \<noteq> Some r then (False, b)
         else (True, set_tab r (\<lambda>t. t\<lparr>ta_mainFrameID := frameID\<rparr>) b))"

definition captureMainFrame :: "reply \<Rightarrow> nat \<Rightarrow> tab_ctl \<Rightarrow> tab_ctl" where
  "captureMainFrame reply r b =
    (if ta_Session (tab_at b r) = [] then b
     else case reply of Failed \<Rightarrow> b | Reply f \<Rightarrow> snd (rememberMainFrame (ta_Session (tab_at b r)) f b))"

definition active :: "tab_ctl \<Rightarrow> nat option" where
  "active b = tc_tabs b (tc_activeID b)"

definition isActiveSession :: "tab_ctl \<Rightarrow> string \<Rightarrow> bool" where
  "isActiveSession b session = snd (tabBySession b session)"

definition isActiveGeneration :: "int \<Rightarrow> uint64 \<Rightarrow> tab_ctl \<Rightarrow> bool" where
  "isActiveGeneration i generation b \<longleftrightarrow> tc_activeID b = i \<and> tc_activeGen b = generation \<and> tc_tabs b i \<noteq> None"

section \<open>What clients see\<close>

definition meaningfulPageTitle :: "tab_env \<Rightarrow> string \<Rightarrow> string \<Rightarrow> string" where
  "meaningfulPageTitle env title rawURL =
    (let title = trim_space title
     in if title = [] \<or> title = trim_space rawURL then []
        else case te_parse env title of
          Some (scheme, host) \<Rightarrow> if scheme \<noteq> [] \<and> host \<noteq> [] then [] else title
        | None \<Rightarrow> title)"

definition displayTabTitle :: "tab_env \<Rightarrow> string \<Rightarrow> string \<Rightarrow> string" where
  "displayTabTitle env title rawURL =
    (let title = meaningfulPageTitle env title rawURL
     in if title \<noteq> [] then title
        else if has_prefix rawURL ''about:blank'' \<or> rawURL = [] then ''New Tab''
        else case te_parse env rawURL of
          Some (scheme, host) \<Rightarrow> if host \<noteq> [] then host else ''New Tab''
        | None \<Rightarrow> ''New Tab'')"

definition tabList :: "tab_env \<Rightarrow> tab_ctl \<Rightarrow> tab_info list" where
  "tabList env b = List.map_filter (\<lambda>i. map_option (\<lambda>r. let t = tab_at b r in
     \<lparr>tf_ID = i, tf_Title = displayTabTitle env (ta_Title t) (ta_URL t), tf_URL = ta_URL t, tf_Active = (i = tc_activeID b), tf_Icon = te_icon env t\<rparr>)
     (tc_tabs b i)) (tab_ids b)"

definition broadcastTabs :: "tab_env \<Rightarrow> tab_ctl \<Rightarrow> tab_ctl" where
  "broadcastTabs env b = broadcast (TabsEvent (tabList env b)) b"

definition urlMessage :: "string \<Rightarrow> tab_ctl \<Rightarrow> tab_event" where
  "urlMessage url b = URLStateEvent ''url'' url (IsBookmarked url (tc_store b))
     (case active b of None \<Rightarrow> [] | Some r \<Rightarrow> ta_Security (tab_at b r))"

definition pushNavState :: "tab_ctl \<Rightarrow> tab_ctl \<times> tab_act list list" where
  \<comment> \<open>and the goroutine it starts\<close>
  "pushNavState b = (case active b of
      None \<Rightarrow> (b, [])
    | Some r \<Rightarrow> (call (NavigationHistory (ta_Session (tab_at b r))) b, [[NavState (ta_Session (tab_at b r))]]))"

definition nav_state :: "tab_env \<Rightarrow> string \<Rightarrow> tab_ctl \<Rightarrow> tab_ctl" where
  "nav_state env s b = (case te_history env s of
      None \<Rightarrow> b
    | Some (bk, fwd) \<Rightarrow> if \<not> isActiveSession b s then b else broadcast (HistoryStateEvent bk fwd) b)"

section \<open>Loading\<close>

definition scheduleTabLoadingGeneration :: "nat \<Rightarrow> uint64 \<Rightarrow> tab_ctl \<Rightarrow> tab_ctl" where
  "scheduleTabLoadingGeneration r generation b = b\<lparr>tc_loadingTimers := tc_loadingTimers b @ [(r, generation)]\<rparr>"

definition setTabLoading :: "nat \<Rightarrow> bool \<Rightarrow> tab_ctl \<Rightarrow> tab_ctl" where
  "setTabLoading r on b =
    (if tc_tabs b (ta_ID (tab_at b r)) \<noteq> Some r then b
     else
       let b = set_tab r (\<lambda>t. t\<lparr>ta_loading := on, ta_loadingGeneration := ta_loadingGeneration t + 1\<rparr>) b;
           generation = ta_loadingGeneration (tab_at b r);
           b = (if ta_ID (tab_at b r) = tc_activeID b then broadcast (LoadingEvent on) b else b)
       in if on then scheduleTabLoadingGeneration r generation b else b)"

definition activeTabLoading :: "tab_ctl \<Rightarrow> bool" where
  "activeTabLoading b = (case active b of None \<Rightarrow> False | Some r \<Rightarrow> ta_loading (tab_at b r))"

definition scheduleTabLoadingCompletion :: "nat \<Rightarrow> tab_ctl \<Rightarrow> tab_ctl" where
  "scheduleTabLoadingCompletion r b =
    (if tc_tabs b (ta_ID (tab_at b r)) \<noteq> Some r \<or> \<not> ta_loading (tab_at b r) then b
     else scheduleTabLoadingGeneration r (ta_loadingGeneration (tab_at b r)) b)"

definition finishTabLoadingGeneration :: "nat \<Rightarrow> uint64 \<Rightarrow> tab_ctl \<Rightarrow> bool \<times> tab_ctl" where
  "finishTabLoadingGeneration r generation b =
    (if tc_tabs b (ta_ID (tab_at b r)) \<noteq> Some r \<or> \<not> ta_loading (tab_at b r) \<or> ta_loadingGeneration (tab_at b r) \<noteq> generation
     then (False, b)
     else (ta_ID (tab_at b r) = tc_activeID b,
       set_tab r (\<lambda>t. t\<lparr>ta_loading := False, ta_loadingGeneration := ta_loadingGeneration t + 1\<rparr>) b))"

definition loading_timer :: "nat \<Rightarrow> uint64 \<Rightarrow> tab_ctl \<Rightarrow> tab_ctl" where
  \<comment> \<open>the function of the timer\<close>
  "loading_timer r generation b =
    (let (cleared, b) = finishTabLoadingGeneration r generation b in if cleared then broadcast (LoadingEvent False) b else b)"

section \<open>Attaching and dropping targets\<close>

definition blank_url :: "string \<Rightarrow> bool" where
  "blank_url url \<longleftrightarrow> url = [] \<or> url = ''about:blank'' \<or> url = ''chrome://newtab/''"

definition has_real_page :: "tab_ctl \<Rightarrow> bool" where
  "has_real_page b = list_ex (\<lambda>i. case tc_tabs b i of None \<Rightarrow> False | Some r \<Rightarrow> \<not> blank_url (ta_URL (tab_at b r))) (tab_ids b)"

definition new_tab :: "int \<Rightarrow> target_info \<Rightarrow> tab" where
  "new_tab i info = \<lparr>ta_ID = i, ta_TargetID = tg_TargetID info, ta_Session = [], ta_Title = tg_Title info, ta_URL = tg_URL info,
     ta_loading = False, ta_loadingGeneration = 0, ta_awaitingPageFrame = False, ta_mainFrameID = [], ta_IconKey = [], ta_Security = [],
     ta_Fullscreen = False\<rparr>"

definition attach_begin :: "tab_env \<Rightarrow> target_info \<Rightarrow> tab_ctl \<Rightarrow> tab_ctl \<times> tab_act list" where
  "attach_begin env info b =
    (if tc_byTarget b (tg_TargetID info) \<noteq> None then (b, [])
     else if time_sub (te_now env) (tc_startedAt b) < 5 * second \<and> blank_url (tg_URL info) \<and> has_real_page b
     then (call (CloseTarget (tg_TargetID info)) b, [])
     else
       let (i, b) = (case tc_restoreOrder b (tg_TargetID info) of
                       Some i \<Rightarrow> (i, b)
                     | None \<Rightarrow> (tc_seq b + 1, b\<lparr>tc_seq := tc_seq b + 1\<rparr>));
           r = length (tc_heap b);
           b = b\<lparr>tc_heap := tc_heap b @ [new_tab i info], tc_tabs := (tc_tabs b)(i \<mapsto> r),
                 tc_byTarget := (tc_byTarget b)(tg_TargetID info \<mapsto> r)\<rparr>
       in (call (AttachToTarget (tg_TargetID info)) b, [AttachReply r info (i = 1)]))"

definition attach_reply :: "reply \<Rightarrow> nat \<Rightarrow> target_info \<Rightarrow> bool \<Rightarrow> tab_ctl \<Rightarrow> tab_ctl \<times> tab_act list" where
  "attach_reply reply r info first b = (case reply of
      Failed \<Rightarrow> (b\<lparr>tc_tabs := (tc_tabs b)(ta_ID (tab_at b r) := None), tc_byTarget := (tc_byTarget b)(tg_TargetID info := None)\<rparr>,
        [FinishRestore (tg_TargetID info) 0 None])
    | Reply s \<Rightarrow>
        if s = [] then (b, [FinishRestore (tg_TargetID info) 0 None])
        else if tc_byTarget b (tg_TargetID info) \<noteq> Some r then (call (DetachFromTarget s) b, [])
        else (call (PageEnable s) ((set_tab r (\<lambda>t. t\<lparr>ta_Session := s\<rparr>) b)\<lparr>tc_bySession := (tc_bySession b)(s \<mapsto> r)\<rparr>),
          [CaptureFrame r, AttachSetup r info s first]))"

definition attach_setup :: "tab_env \<Rightarrow> nat \<Rightarrow> target_info \<Rightarrow> string \<Rightarrow> bool \<Rightarrow> tab_ctl \<Rightarrow> tab_ctl \<times> tab_act list" where
  "attach_setup env r info s first b =
    (let b = scheduleSessionSave (call (SetupSession s) b);
         b = (if first \<and> blank_url (tg_URL info) then call (Navigate s (te_StartURL env)) b else b)
     in (b, [FinishRestore (tg_TargetID info) (ta_ID (tab_at b r)) (Some (ta_ID (tab_at b r)))]))"

definition finish_restore :: "string \<Rightarrow> int \<Rightarrow> int option \<Rightarrow> tab_ctl \<Rightarrow> tab_ctl \<times> tab_act list" where
  "finish_restore targetID i otherwise b =
    (let ((handled, activate), b) = finishRestoreTarget targetID i b
     in (b, if handled then (if activate \<noteq> 0 then [SwitchBegin activate] else [])
            else case otherwise of None \<Rightarrow> [] | Some i \<Rightarrow> [SwitchBegin i]))"

definition drop_begin :: "string \<Rightarrow> tab_ctl \<Rightarrow> tab_ctl \<times> tab_act list" where
  "drop_begin targetID b = (case tc_byTarget b targetID of
      None \<Rightarrow> (b, [FinishRestore targetID 0 None])
    | Some r \<Rightarrow>
        let t = tab_at b r;
            b = b\<lparr>tc_tabs := (tc_tabs b)(ta_ID t := None), tc_byTarget := (tc_byTarget b)(targetID := None)\<rparr>;
            b = (if ta_Session t \<noteq> [] then b\<lparr>tc_bySession := map_keep (\<lambda>_ a. a \<noteq> r) (tc_bySession b)\<rparr> else b);
            wasActive = (tc_activeID b = ta_ID t);
            b = (if wasActive then b\<lparr>tc_activeID := 0, tc_activeGen := tc_activeGen b + 1\<rparr> else b)
        in (b, [FinishRestore targetID 0 None, DropRest wasActive (newest_tab b)]))"

definition drop_rest :: "bool \<Rightarrow> int \<Rightarrow> tab_ctl \<Rightarrow> tab_ctl \<times> tab_act list" where
  "drop_rest wasActive nextID b =
    (if wasActive then
       (let b = broadcast (LoadingEvent False) b
        in if nextID \<noteq> 0 then (b, [SwitchBegin nextID, DropEnd])
           else (call (CreateTarget (newTargetParams ''about:blank#surf-new'')) b, [DropEnd]))
     else (b, [DropEnd]))"

definition drop_end :: "tab_env \<Rightarrow> tab_ctl \<Rightarrow> tab_ctl" where
  "drop_end env b = scheduleSessionSave (broadcastTabs env b)"

section \<open>Activating a tab\<close>

definition switch_begin :: "int \<Rightarrow> tab_ctl \<Rightarrow> tab_ctl \<times> tab_act list" where
  "switch_begin i b =
    (let b = call (PointerCancel True) (call (TouchCancel True) b)
     in case tc_tabs b i of
       None \<Rightarrow> (b, [])
     | Some r \<Rightarrow>
         let b = call GovernorSettle (b\<lparr>tc_activeID := i, tc_activeGen := tc_activeGen b + 1\<rparr>)
         in (call (ActivateTarget (ta_TargetID (tab_at b r))) b, [SwitchReply i r (tc_activeGen b) (ta_URL (tab_at b r))]))"

definition switch_reply :: "reply \<Rightarrow> int \<Rightarrow> nat \<Rightarrow> uint64 \<Rightarrow> string \<Rightarrow> tab_ctl \<Rightarrow> tab_ctl \<times> tab_act list" where
  "switch_reply reply i r generation url b =
    (if reply = Failed \<or> \<not> isActiveGeneration i generation b then (b, [])
     else (call (ApplyView r) (call CaptureSwitch (scheduleSessionSave b)), [SwitchShow i r generation url]))"

definition switch_show :: "int \<Rightarrow> nat \<Rightarrow> uint64 \<Rightarrow> string \<Rightarrow> tab_ctl \<Rightarrow> tab_ctl \<times> tab_act list" where
  "switch_show i r generation url b = (b, if isActiveGeneration i generation b then [ShowURL url, ShowFlags r] else [])"

definition show_flags :: "tab_env \<Rightarrow> nat \<Rightarrow> tab_ctl \<Rightarrow> tab_ctl \<times> tab_act list list" where
  "show_flags env r b =
    (let b = broadcast (LoadingEvent (ta_loading (tab_at b r))) (broadcast (FullscreenEvent (ta_Fullscreen (tab_at b r))) b);
         (b, started) = pushNavState b
     in (broadcastTabs env b, started))"

section \<open>Pages\<close>

definition pageOrigin :: "tab_env \<Rightarrow> string \<Rightarrow> string" where
  "pageOrigin env raw = (case te_parse env raw of
      None \<Rightarrow> []
    | Some (scheme, host) \<Rightarrow> if scheme \<noteq> ''http'' \<and> scheme \<noteq> ''https'' then [] else scheme @ ''://'' @ host)"

definition onURLChanged :: "tab_env \<Rightarrow> string \<Rightarrow> tab_ctl \<Rightarrow> tab_ctl" where
  "onURLChanged env u b = b\<lparr>tc_store := AddHistory (te_stamp env) (te_writable env) u [] (tc_store b)\<rparr>"

definition store_title :: "string \<Rightarrow> string \<Rightarrow> tab_ctl \<Rightarrow> tab_ctl" where
  "store_title url title b = b\<lparr>tc_store := SetTitle url title (tc_store b)\<rparr>"

definition targetInfoChanged :: "tab_env \<Rightarrow> target_info \<Rightarrow> tab_ctl \<Rightarrow> tab_ctl \<times> tab_act list list" where
  "targetInfoChanged env info b = (case tc_byTarget b (tg_TargetID info) of
      None \<Rightarrow> (b, [])
    | Some r \<Rightarrow>
        let t = tab_at b r;
            urlChanged = (tg_URL info \<noteq> [] \<and> tg_URL info \<noteq> ta_URL t);
            nextURL = (if urlChanged then tg_URL info else ta_URL t);
            nextTitle = meaningfulPageTitle env (tg_Title info) nextURL;
            nextTitle = (if urlChanged \<and> nextTitle = ta_Title t then [] else nextTitle);
            titleChanged = (nextTitle \<noteq> [] \<and> nextTitle \<noteq> ta_Title t \<or> urlChanged \<and> nextTitle = [] \<and> ta_Title t \<noteq> []);
            b = (if titleChanged then set_tab r (\<lambda>t. t\<lparr>ta_Title := nextTitle\<rparr>) b else b);
            b = (if urlChanged then set_tab r (\<lambda>t. t\<lparr>ta_URL := nextURL, ta_awaitingPageFrame := True\<rparr>) b else b);
            b = (if urlChanged then scheduleSessionSave b else b);
            (b, started) =
              (if urlChanged \<and> ta_ID t = tc_activeID b
               then (let b = call (SetTouchMode (ta_Session t)) b in pushNavState (broadcast (urlMessage nextURL b) b))
               else (b, []));
            b = (if titleChanged \<or> urlChanged then broadcastTabs env b else b);
            b = (if urlChanged then onURLChanged env nextURL b else b)
        in (if titleChanged \<and> nextTitle \<noteq> [] then store_title nextURL nextTitle b else b, started))"

definition noteNavigationError :: "nat \<Rightarrow> tab_ctl \<Rightarrow> tab_ctl" where
  "noteNavigationError r b =
    (let b = setTabLoading r False b
     in if ta_ID (tab_at b r) = tc_activeID b then broadcast (URLStateEvent ''pageerror'' (ta_URL (tab_at b r)) False []) b else b)"

definition tabNavigated :: "tab_env \<Rightarrow> string \<Rightarrow> string \<Rightarrow> tab_ctl \<Rightarrow> tab_ctl \<times> tab_act list list" where
  "tabNavigated env session url b = (case tc_bySession b session of
      None \<Rightarrow> (b, [])
    | Some r \<Rightarrow>
        if url = [] \<or> ta_URL (tab_at b r) = url then (b, [])
        else if has_prefix url ''chrome-error://'' then (noteNavigationError r b, [])
        else
          let b = (if pageOrigin env (ta_URL (tab_at b r)) \<noteq> pageOrigin env url then set_tab r (\<lambda>t. t\<lparr>ta_IconKey := []\<rparr>) b else b);
              b = set_tab r (\<lambda>t. t\<lparr>ta_URL := url, ta_Title := [], ta_awaitingPageFrame := True\<rparr>) b;
              (b, started) =
                (if ta_ID (tab_at b r) = tc_activeID b
                 then (let b = call (SetTouchMode session) (call (PointerCancel False) (call (TouchCancel False) b))
                       in pushNavState (broadcast (urlMessage url b) b))
                 else (b, []))
          in (onURLChanged env url (broadcastTabs env b), started))"

definition title_ask :: "nat \<Rightarrow> tab_ctl \<Rightarrow> tab_ctl \<times> tab_act list" where
  "title_ask r b =
    (if ta_Session (tab_at b r) = [] \<or> tc_bySession b (ta_Session (tab_at b r)) \<noteq> Some r then (b, [])
     else (b, [TitleReply r (ta_Session (tab_at b r)) (ta_URL (tab_at b r))]))"

definition title_reply :: "tab_env \<Rightarrow> reply \<Rightarrow> nat \<Rightarrow> string \<Rightarrow> string \<Rightarrow> tab_ctl \<Rightarrow> tab_ctl" where
  "title_reply env reply r session pageURL b = (case reply of
      Failed \<Rightarrow> b
    | Reply v \<Rightarrow>
        let title = meaningfulPageTitle env v pageURL
        in if title = [] then b
           else if tc_bySession b session \<noteq> Some r \<or> ta_URL (tab_at b r) \<noteq> pageURL \<or> ta_Title (tab_at b r) = title then b
           else broadcastTabs env (store_title pageURL title (set_tab r (\<lambda>t. t\<lparr>ta_Title := title\<rparr>) b)))"

definition onSecurityStateChanged :: "string \<Rightarrow> string \<Rightarrow> tab_ctl \<Rightarrow> tab_ctl" where
  "onSecurityStateChanged session state b =
    (if state = [] then b
     else case tc_bySession b session of
       None \<Rightarrow> b
     | Some r \<Rightarrow>
         let b = set_tab r (\<lambda>t. t\<lparr>ta_Security := state\<rparr>) b
         in if ta_ID (tab_at b r) = tc_activeID b then broadcast (SecurityEvent state) b else b)"

definition onFullscreenBinding :: "string \<Rightarrow> bool \<Rightarrow> tab_ctl \<Rightarrow> tab_ctl" where
  "onFullscreenBinding session on b = (case tc_bySession b session of
      None \<Rightarrow> b
    | Some r \<Rightarrow>
        let changed = (ta_Fullscreen (tab_at b r) \<noteq> on);
            b = set_tab r (\<lambda>t. t\<lparr>ta_Fullscreen := on\<rparr>) b
        in if changed \<and> ta_ID (tab_at b r) = tc_activeID b then broadcast (FullscreenEvent on) b else b)"

definition onEditableTargetAttached :: "string \<Rightarrow> string \<Rightarrow> tab_ctl \<Rightarrow> tab_ctl" where
  \<comment> \<open>the session of an iframe is one more session of its tab\<close>
  "onEditableTargetAttached parent child b =
    (if parent = [] \<or> child = [] then b
     else case tc_bySession b parent of None \<Rightarrow> b | Some r \<Rightarrow> b\<lparr>tc_bySession := (tc_bySession b)(child \<mapsto> r)\<rparr>)"

definition onEditableTargetDetached :: "string \<Rightarrow> tab_ctl \<Rightarrow> tab_ctl" where
  "onEditableTargetDetached session b =
    (if session = [] then b
     else case tc_bySession b session of
       None \<Rightarrow> b
     | Some r \<Rightarrow> if ta_Session (tab_at b r) \<noteq> session then b\<lparr>tc_bySession := (tc_bySession b)(session := None)\<rparr> else b)"

section \<open>Events of Chromium and commands of clients\<close>

datatype cdp_event =
    TargetCreated target_info
  | TargetDestroyed string
  | TargetInfoChanged target_info
  | AttachedToTarget string string                  \<comment> \<open>session, session of an iframe\<close>
  | DetachedFromTarget string
  | FrameNavigated string string string string      \<comment> \<open>session, frame, parent frame, address\<close>
  | NavigatedWithinDocument string string string    \<comment> \<open>session, frame, address\<close>
  | FrameStartedLoading string string
  | FrameStoppedLoading string string
  | DomContentEventFired string
  | LoadEventFired string
  | SecurityStateChanged string string
  | FullscreenBinding string bool

definition stopped_loading :: "nat option \<times> bool \<Rightarrow> tab_ctl \<Rightarrow> tab_ctl \<times> tab_act list list" where
  \<comment> \<open>the end of a load, for a tab and whether it is active\<close>
  "stopped_loading found b = (case found of
      (None, _) \<Rightarrow> (b, [])
    | (Some r, act) \<Rightarrow>
        let b = setTabLoading r False b;
            (b, started) = (if act then pushNavState b else (b, []))
        in (b, started @ [[TitleAsk r]]))"

fun onEvent :: "tab_env \<Rightarrow> cdp_event \<Rightarrow> tab_ctl \<Rightarrow> tab_ctl \<times> tab_act list list" where
  "onEvent env (TargetCreated info) b = (b, if tg_Type info = ''page'' then [[AttachBegin info]] else [])"
| "onEvent env (TargetDestroyed t) b = (b, [[DropBegin t]])"
| "onEvent env (TargetInfoChanged info) b = targetInfoChanged env info b"
| "onEvent env (AttachedToTarget session child) b = (onEditableTargetAttached session child b, [])"
| "onEvent env (DetachedFromTarget session) b = (onEditableTargetDetached session b, [])"
| "onEvent env (FrameNavigated session frame parent url) b =
    (if parent \<noteq> [] then (b, [])
     else let (ok, b) = rememberMainFrame session frame b in if ok then tabNavigated env session url b else (b, []))"
| "onEvent env (NavigatedWithinDocument session frame url) b =
    (if isMainFrameEvent b session frame then tabNavigated env session url b else (b, []))"
| "onEvent env (FrameStartedLoading session frame) b =
    (case fst (tabByMainFrame b session frame) of None \<Rightarrow> (b, []) | Some r \<Rightarrow> (setTabLoading r True b, []))"
| "onEvent env (FrameStoppedLoading session frame) b = stopped_loading (tabByMainFrame b session frame) b"
| "onEvent env (DomContentEventFired session) b =
    (case fst (tabByPrimarySession b session) of
       None \<Rightarrow> (b, []) | Some r \<Rightarrow> (scheduleTabLoadingCompletion r b, [[TitleAsk r]]))"
| "onEvent env (LoadEventFired session) b = stopped_loading (tabByPrimarySession b session) b"
| "onEvent env (SecurityStateChanged session state) b = (onSecurityStateChanged session state b, [])"
| "onEvent env (FullscreenBinding session on) b = (onFullscreenBinding session on b, [])"

datatype tab_command = TabSelect int | TabClose int | TabNew | OpenInNewTab string

definition handleTab :: "tab_command \<Rightarrow> tab_ctl \<Rightarrow> tab_ctl \<times> tab_act list" where
  \<comment> \<open>what the controller's goroutine does next\<close>
  "handleTab c b = (case c of
      TabSelect i \<Rightarrow> (b, [SwitchBegin i])
    | TabClose i \<Rightarrow>
        let lastTab = (card (dom (tc_tabs b)) \<le> 1);
            (target, session) = (case tc_tabs b i of None \<Rightarrow> ([], []) | Some r \<Rightarrow> (ta_TargetID (tab_at b r), ta_Session (tab_at b r)))
        in (if lastTab \<and> session \<noteq> [] then call (Navigate session ''about:blank#surf-new'') b
            else if target \<noteq> [] then call (CloseTarget target) b else b, [])
    | TabNew \<Rightarrow> (call (CreateTarget (newTargetParams ''about:blank#surf-new'')) b, [])
    | OpenInNewTab rawURL \<Rightarrow> (if rawURL = [] then b else call (CreateTarget (newTargetParams rawURL)) b, []))"

datatype nav_command = NavTo string | NavReload | NavStop | NavHistory bool bool   \<comment> \<open>back, and whether it navigated\<close>

definition handle_nav :: "bool \<Rightarrow> nav_command \<Rightarrow> tab_ctl \<Rightarrow> tab_ctl" where
  \<comment> \<open>\<^verbatim>\<open>nav\<close> (its address already normalised), \<^verbatim>\<open>reload\<close>, \<^verbatim>\<open>stop\<close>, \<^verbatim>\<open>back\<close>, \<^verbatim>\<open>fwd\<close>; \<open>sent\<close>: the dispatch succeeds\<close>
  "handle_nav sent c b = (case active b of
      None \<Rightarrow> b
    | Some r \<Rightarrow>
        let s = ta_Session (tab_at b r);
            started = (\<lambda>what ok b. let b = call what (setTabLoading r True b) in if ok then b else setTabLoading r False b)
        in (case c of
              NavTo u \<Rightarrow> if u = [] then b else started (Navigate s u) sent b
            | NavReload \<Rightarrow> started (Reload s) sent b
            | NavStop \<Rightarrow> setTabLoading r False (call (StopLoading s) b)
            | NavHistory bk ok \<Rightarrow> started (NavigateToHistory s bk) ok b))"

definition tab_sessions :: "tab_ctl \<Rightarrow> string list" where
  \<comment> \<open>Go visits the map in any order\<close>
  "tab_sessions b = filter (\<lambda>s. s \<noteq> []) (List.map_filter (\<lambda>i. map_option (\<lambda>r. ta_Session (tab_at b r)) (tc_tabs b i)) (tab_ids b))"

definition handleMobileLayout :: "bool \<Rightarrow> tab_ctl \<Rightarrow> tab_ctl" where
  "handleMobileLayout on b =
    (let changed = (tc_mobile b \<noteq> on);
         b = b\<lparr>tc_mobile := on\<rparr>
     in if \<not> changed then b
        else
          let b = call (PointerCancel True) (call (TouchCancel True) (scheduleSessionSave b));
              b = fold (call \<circ> OverrideUserAgent) (tab_sessions b) b
          in case active b of
               None \<Rightarrow> b
             | Some r \<Rightarrow>
                 let b = call (ApplyView r) b
                 in if has_prefix (ta_URL (tab_at b r)) ''http://'' \<or> has_prefix (ta_URL (tab_at b r)) ''https://''
                    then call (Reload (ta_Session (tab_at b r))) (set_tab r (\<lambda>t. t\<lparr>ta_loading := True\<rparr>) b)
                    else b)"

definition handleDarkMode :: "bool \<Rightarrow> tab_ctl \<Rightarrow> tab_ctl" where
  "handleDarkMode on b =
    (let changed = (tc_dark b \<noteq> on);
         b = b\<lparr>tc_dark := on\<rparr>
     in if \<not> changed then b
        else fold (\<lambda>s. call (SetEmulatedMedia s on)) (tab_sessions b) (scheduleSessionSave b))"

section \<open>Goroutines\<close>

definition tab_exec :: "tab_env \<Rightarrow> reply \<Rightarrow> tab_act \<Rightarrow> tab_ctl \<Rightarrow> tab_ctl \<times> tab_act list \<times> tab_act list list" where
  \<comment> \<open>one action: the new state, what the goroutine does next, and the goroutines it starts\<close>
  "tab_exec env reply a b =
    (let next = (\<lambda>(b, acts). (b, acts, [])) in case a of
       AttachBegin info \<Rightarrow> next (attach_begin env info b)
     | AttachReply r info first \<Rightarrow> next (attach_reply reply r info first b)
     | CaptureFrame r \<Rightarrow> (captureMainFrame reply r b, [], [])
     | AttachSetup r info s first \<Rightarrow> next (attach_setup env r info s first b)
     | FinishRestore t i otherwise \<Rightarrow> next (finish_restore t i otherwise b)
     | DropBegin t \<Rightarrow> next (drop_begin t b)
     | DropRest wasActive n \<Rightarrow> next (drop_rest wasActive n b)
     | DropEnd \<Rightarrow> (drop_end env b, [], [])
     | SwitchBegin i \<Rightarrow> next (switch_begin i b)
     | SwitchReply i r g url \<Rightarrow> next (switch_reply reply i r g url b)
     | SwitchShow i r g url \<Rightarrow> next (switch_show i r g url b)
     | ShowURL url \<Rightarrow> (broadcast (urlMessage url b) b, [], [])
     | ShowFlags r \<Rightarrow> (case show_flags env r b of (b, started) \<Rightarrow> (b, [], started))
     | TitleAsk r \<Rightarrow> next (title_ask r b)
     | TitleReply r s url \<Rightarrow> (title_reply env reply r s url b, [], [])
     | NavState s \<Rightarrow> (nav_state env s b, [], []))"


record tab_world =
  tw_ctl :: tab_ctl
  tw_threads :: "tab_act list list"
  tw_announced :: "string set"       \<comment> \<open>the targets Chromium has announced\<close>

datatype tab_move =
    Event cdp_event
  | Run nat reply                    \<comment> \<open>a goroutine does its next action\<close>
  | TabCommand tab_command
  | NavCommand bool nav_command
  | MobileLayout bool
  | DarkMode bool
  | LoadTimer nat                    \<comment> \<open>a loading timer fires\<close>
  | SaveTimer disk uint64            \<comment> \<open>a session timer fires, also one that was stopped too late\<close>

definition tab_move_ok :: "tab_world \<Rightarrow> tab_move \<Rightarrow> bool" where
  \<comment> \<open>Chromium announces a target once\<close>
  "tab_move_ok w m = (case m of
      Event (TargetCreated info) \<Rightarrow> tg_TargetID info \<notin> tw_announced w
    | Run i _ \<Rightarrow> i < length (tw_threads w) \<and> tw_threads w ! i \<noteq> []
    | LoadTimer i \<Rightarrow> i < length (tc_loadingTimers (tw_ctl w))
    | _ \<Rightarrow> True)"

definition start_threads :: "tab_ctl \<times> tab_act list list \<Rightarrow> tab_world \<Rightarrow> tab_world" where
  "start_threads = (\<lambda>(b, started) w. w\<lparr>tw_ctl := b, tw_threads := tw_threads w @ started\<rparr>)"

definition run_thread :: "tab_env \<Rightarrow> nat \<Rightarrow> reply \<Rightarrow> tab_world \<Rightarrow> tab_world" where
  "run_thread env i reply w = (case tw_threads w ! i of
      [] \<Rightarrow> w
    | a # rest \<Rightarrow>
        let (b, acts, started) = tab_exec env reply a (tw_ctl w)
        in w\<lparr>tw_ctl := b, tw_threads := (tw_threads w)[i := acts @ rest] @ started\<rparr>)"

definition tab_move_step :: "tab_env \<Rightarrow> tab_move \<Rightarrow> tab_world \<Rightarrow> tab_world" where
  "tab_move_step env m w = (case m of
      Event ev \<Rightarrow> start_threads (onEvent env ev (tw_ctl w))
        (case ev of TargetCreated info \<Rightarrow> w\<lparr>tw_announced := insert (tg_TargetID info) (tw_announced w)\<rparr> | _ \<Rightarrow> w)
    | Run i reply \<Rightarrow> run_thread env i reply w
    | TabCommand c \<Rightarrow> (case handleTab c (tw_ctl w) of (b, acts) \<Rightarrow> start_threads (b, [acts]) w)
    | NavCommand sent c \<Rightarrow> w\<lparr>tw_ctl := handle_nav sent c (tw_ctl w)\<rparr>
    | MobileLayout on \<Rightarrow> w\<lparr>tw_ctl := handleMobileLayout on (tw_ctl w)\<rparr>
    | DarkMode on \<Rightarrow> w\<lparr>tw_ctl := handleDarkMode on (tw_ctl w)\<rparr>
    | LoadTimer i \<Rightarrow>
        let b = tw_ctl w;
            (r, g) = tc_loadingTimers b ! i
        in w\<lparr>tw_ctl := loading_timer r g (b\<lparr>tc_loadingTimers := take i (tc_loadingTimers b) @ drop (Suc i) (tc_loadingTimers b)\<rparr>)\<rparr>
    | SaveTimer d g \<Rightarrow> w\<lparr>tw_ctl := runScheduledSessionSave d g (tw_ctl w)\<rparr>)"

definition NewTabs :: "session_file \<Rightarrow> store \<Rightarrow> gotime \<Rightarrow> tab_ctl" where
  \<comment> \<open>the tab fields of \<^verbatim>\<open>New\<close>\<close>
  "NewTabs f st now = \<lparr>tc_heap = [], tc_tabs = Map.empty, tc_byTarget = Map.empty, tc_bySession = Map.empty, tc_seq = 0, tc_activeID = 0,
     tc_activeGen = 0, tc_mobile = bs_Mobile (loadBrowserSession f), tc_dark = bs_Dark (loadBrowserSession f),
     tc_startupSession = loadBrowserSession f, tc_exactSession = False, tc_restorePending = {}, tc_restoreOrder = Map.empty,
     tc_restoreActiveTarget = [], tc_restoreActiveID = 0, tc_sessionTimer = None, tc_sessionTimerGen = 0, tc_sessionClosed = False,
     tc_store = st, tc_alive = True, tc_suspended = False, tc_startedAt = now, tc_loadingTimers = [], tc_file = f, tc_calls = []\<rparr>"

inductive tab_reach :: "nat \<Rightarrow> tab_world \<Rightarrow> bool" where
  \<comment> \<open>by so many moves, from a start without or with a session to restore\<close>
  fresh: "tab_reach 0 \<lparr>tw_ctl = NewTabs f st now, tw_threads = [], tw_announced = {}\<rparr>"
| native: "tab_reach 0 \<lparr>tw_ctl = prepareStartupSession found answer (NewTabs f st now), tw_threads = [], tw_announced = {}\<rparr>"
| handoff: "tab_reach 0 \<lparr>tw_ctl = fst (restoreHandoff found answer activated (tc_startupSession b) [beginRestore] b), tw_threads = [], tw_announced = {}\<rparr>"
  if "b = (NewTabs f st now)\<lparr>tc_exactSession := True\<rparr>"
| move: "tab_reach (Suc n) (tab_move_step env m w)" if "tab_reach n w" "tab_move_ok w m"

end
