(* ===== verification/Session_Facts.thy ===== *)
theory Session_Facts
  imports Browser_Session "HOL-Library.Multiset"
begin

text \<open>
  Facts about the session: what is saved is what a restart restores, native pages are brought back into the saved
  order, the restored batch is activated once, and the observer of the setup browser keeps the file and its snapshot equal.
\<close>

section \<open>Saving\<close>

definition saved_ids :: "tab_ctl \<Rightarrow> int list" where
  \<comment> \<open>the tabs worth saving, in the order of the tab strip\<close>
  "saved_ids b = filter (\<lambda>i. case tc_tabs b i of None \<Rightarrow> False | Some r \<Rightarrow> restorableURL (ta_URL (tab_at b r))) (tab_ids b)"

definition url_of :: "tab_ctl \<Rightarrow> int \<Rightarrow> string" where
  "url_of b i = (case tc_tabs b i of None \<Rightarrow> [] | Some r \<Rightarrow> ta_URL (tab_at b r))"

lemma add_saved_skip:
  "tc_tabs b i = None \<Longrightarrow> add_saved_tab b i s = s"
  "tc_tabs b i = Some r \<Longrightarrow> \<not> restorableURL (ta_URL (tab_at b r)) \<Longrightarrow> add_saved_tab b i s = s"
  by (simp_all add: add_saved_tab_def)

lemma add_saved_take:
  "tc_tabs b i = Some r \<Longrightarrow> restorableURL (ta_URL (tab_at b r)) \<Longrightarrow> add_saved_tab b i s =
     (if i = tc_activeID b then s\<lparr>bs_Active := int (length (bs_Tabs s)), bs_Tabs := bs_Tabs s @ [ta_URL (tab_at b r)]\<rparr>
      else s\<lparr>bs_Tabs := bs_Tabs s @ [ta_URL (tab_at b r)]\<rparr>)"
  by (simp add: add_saved_tab_def)

lemma fold_add_saved:
  fixes b :: tab_ctl and s0 :: browser_session and ids :: "int list"
  defines "L \<equiv> filter (\<lambda>i. case tc_tabs b i of None \<Rightarrow> False | Some r \<Rightarrow> restorableURL (ta_URL (tab_at b r))) ids"
  assumes "distinct ids" "bs_Tabs s0 = []" "bs_Active s0 = 0"
  shows "\<exists>k. fold (add_saved_tab b) ids s0 = s0\<lparr>bs_Tabs := map (url_of b) L, bs_Active := int k\<rparr> \<and>
     (if tc_activeID b \<in> set L then k < length L \<and> L ! k = tc_activeID b else k = 0)"
  unfolding L_def using assms(2)
proof (induction ids rule: rev_induct)
  case Nil
  then show ?case using assms(3,4) by simp
next
  case (snoc i ids)
  define L where "L = filter (\<lambda>i. case tc_tabs b i of None \<Rightarrow> False | Some r \<Rightarrow> restorableURL (ta_URL (tab_at b r))) ids"
  from snoc obtain k where k: "fold (add_saved_tab b) ids s0 = s0\<lparr>bs_Tabs := map (url_of b) L, bs_Active := int k\<rparr>"
    "if tc_activeID b \<in> set L then k < length L \<and> L ! k = tc_activeID b else k = 0"
    by (auto simp: L_def)
  have i: "i \<notin> set L" using snoc.prems by (auto simp: L_def)
  show ?case
  proof (cases "tc_tabs b i")
    case None
    then show ?thesis using k by (auto simp: add_saved_skip simp flip: L_def)
  next
    case (Some r)
    show ?thesis
    proof (cases "restorableURL (ta_URL (tab_at b r))")
      case False
      then show ?thesis using k Some by (auto simp: add_saved_skip simp flip: L_def)
    next
      case True
      have [simp]: "url_of b i = ta_URL (tab_at b r)" by (simp add: url_of_def Some)
      show ?thesis
        using k True Some i
        by (intro exI [of _ "if i = tc_activeID b then length L else k"])
          (auto simp: add_saved_take nth_append simp flip: L_def)
    qed
  qed
qed

lemma session_of_spec:
  "\<exists>k. session_of b = \<lparr>bs_Version = browserSessionVersion, bs_Tabs = map (url_of b) (saved_ids b), bs_Active = int k,
       bs_Mobile = tc_mobile b, bs_Dark = tc_dark b, bs_FromSetup = False\<rparr> \<and>
     (if tc_activeID b \<in> set (saved_ids b) then k < length (saved_ids b) \<and> saved_ids b ! k = tc_activeID b else k = 0)"
  using fold_add_saved [of "tab_ids b" "no_session\<lparr>bs_Version := browserSessionVersion, bs_Mobile := tc_mobile b, bs_Dark := tc_dark b\<rparr>" b]
  by (auto simp: session_of_def saved_ids_def no_session_def tab_ids_def)

lemma saved_restorable: "i \<in> set (saved_ids b) \<Longrightarrow> restorableURL (url_of b i)"
  by (auto simp: saved_ids_def url_of_def split: option.splits)

text \<open>A loaded session can be indexed at its active tab: the start of the controller does not panic.\<close>
lemma loaded_active_in_range:
  "bs_Tabs (loadBrowserSession f) \<noteq> [] \<Longrightarrow>
   0 \<le> bs_Active (loadBrowserSession f) \<and> bs_Active (loadBrowserSession f) < int (length (bs_Tabs (loadBrowserSession f)))"
  by (auto simp: loadBrowserSession_def no_session_def split: session_file.splits)

lemma load_saved:
  assumes "\<not> tc_sessionClosed b" "saved_ids b \<noteq> []"
  shows "loadBrowserSession (tc_file (fst (flushSession DiskOk b))) = session_of b"
proof -
  have same: "session_of (b\<lparr>tc_sessionClosed := True, tc_sessionTimerGen := g, tc_sessionTimer := None\<rparr>) = session_of b" for g
    unfolding session_of_def tab_ids_def by (rule fold_cong) (simp_all add: add_saved_tab_def fun_eq_iff split: option.split)
  obtain k where k: "session_of b = \<lparr>bs_Version = browserSessionVersion, bs_Tabs = map (url_of b) (saved_ids b), bs_Active = int k,
       bs_Mobile = tc_mobile b, bs_Dark = tc_dark b, bs_FromSetup = False\<rparr>"
     "if tc_activeID b \<in> set (saved_ids b) then k < length (saved_ids b) \<and> saved_ids b ! k = tc_activeID b else k = 0"
    using session_of_spec by blast
  then have "k < length (saved_ids b)" using assms(2) by (auto split: if_splits)
  then show ?thesis
    using assms by (simp add: flushSession_def SaveSession_def writeBrowserSession_def same k(1) loadBrowserSession_def)
qed

section \<open>The batch of restored targets\<close>

fun finish_all :: "(string \<times> int) list \<Rightarrow> tab_ctl \<Rightarrow> (bool \<times> int) list \<times> tab_ctl" where
  "finish_all [] b = ([], b)"
| "finish_all ((t, i) # ts) b = (let (r, b) = finishRestoreTarget t i b; (rs, b) = finish_all ts b in (r # rs, b))"

lemma finish_all_batch:
  assumes "ts \<noteq> []" "distinct (map fst ts)" "tc_restorePending b = fst ` set ts" "\<forall>p\<in>set ts. snd p \<noteq> 0"
    "(tc_restoreActiveTarget b, i) \<in> set ts \<or> tc_restoreActiveTarget b \<notin> fst ` set ts \<and> tc_restoreActiveID b = i" "i \<noteq> 0"
  shows "fst (finish_all ts b) = replicate (length ts - 1) (True, 0) @ [(True, i)] \<and>
    tc_restorePending (snd (finish_all ts b)) = {} \<and> tc_restoreOrder (snd (finish_all ts b)) = Map.empty"
  using assms
proof (induction ts arbitrary: b)
  case Nil
  then show ?case by simp
next
  case (Cons p ts)
  obtain t j where p: "p = (t, j)" by force
  have t: "t \<in> tc_restorePending b" "t \<notin> fst ` set ts" using Cons.prems p by auto
  let ?b = "b\<lparr>tc_restorePending := fst ` set ts\<rparr>"
  let ?b = "if t = tc_restoreActiveTarget b then ?b\<lparr>tc_restoreActiveID := j\<rparr> else ?b"
  have rest: "tc_restorePending b - {t} = fst ` set ts" using Cons.prems(3) t p by auto
  have j: "j = i" if "t = tc_restoreActiveTarget b" using Cons.prems(5) that t(2) p by force
  show ?case
  proof (cases "ts = []")
    case True
    then show ?thesis
      using t rest Cons.prems(5,6) j p by (auto simp: finishRestoreTarget_def Let_def)
  next
    case False
    have f: "finishRestoreTarget t j b = ((True, 0), ?b)"
      using t rest False by (simp add: finishRestoreTarget_def Let_def)
    have "(tc_restoreActiveTarget ?b, i) \<in> set ts \<or> tc_restoreActiveTarget ?b \<notin> fst ` set ts \<and> tc_restoreActiveID ?b = i"
      using Cons.prems(5) p t(2) j by auto
    then have "fst (finish_all ts ?b) = replicate (length ts - 1) (True, 0) @ [(True, i)] \<and>
        tc_restorePending (snd (finish_all ts ?b)) = {} \<and> tc_restoreOrder (snd (finish_all ts ?b)) = Map.empty"
      using Cons.prems False by (intro Cons.IH) auto
    then show ?thesis
      using False by (auto simp: p f split: prod.split simp flip: replicate_Suc append_Cons)
  qed
qed

lemma create_targets_enumerate:
  assumes "\<forall>n. t n \<noteq> []"
  shows "create_targets (\<lambda>_ n. Some (t n)) n (enumerate m us) =
     enumerate m (map (\<lambda>k. \<lparr>tg_TargetID = t (n + k), tg_Type = ''page'', tg_Title = [], tg_URL = us ! k\<rparr>) [0..<length us])"
proof (induction us arbitrary: n m)
  case Nil
  then show ?case by simp
next
  case (Cons u us)
  have "map f [0..<Suc (length us)] = f 0 # map (\<lambda>k. f (Suc k)) [0..<length us]" for f :: "nat \<Rightarrow> target_info"
    by (simp add: upt_conv_Cons map_Suc_upt [symmetric] del: upt_Suc)
  then show ?case using assms by (simp add: Cons.IH del: upt_Suc)
qed

lemma filter_enumerate_eq:
  assumes "m \<le> k" "k < m + length xs"
  shows "filter (\<lambda>(i, t). int i = int k) (enumerate m xs) = [(k, xs ! (k - m))]"
  using assms
proof (induction xs arbitrary: m)
  case (Cons x xs)
  have "filter (\<lambda>(i, t). int i = int m) (enumerate (Suc m) xs) = []"
    by (auto simp: filter_empty_conv enumerate_eq_zip dest: set_zip_leftD)
  then show ?case using Cons by (cases "k = m") (auto simp: nth_Cons' Suc_le_eq)
qed simp

lemma map_of_rev_distinct:
  "distinct (map fst xs) \<Longrightarrow> map_of (rev xs) = map_of xs"
  by (rule map_of_inject_set [THEN iffD2]) (simp_all add: rev_map [symmetric])

lemma fold_call [simp]: "fold (call \<circ> f) xs b = b\<lparr>tc_calls := tc_calls b @ map f xs\<rparr>"
  by (induction xs arbitrary: b) (simp_all add: call_def)

lemma fold_call_of: "fold (call \<circ> f \<circ> g) xs b = b\<lparr>tc_calls := tc_calls b @ map (f \<circ> g) xs\<rparr>"
  using fold_call [of "f \<circ> g" xs b] by (simp add: comp_assoc)

lemma fold_call_of_of: "fold (call \<circ> f \<circ> g \<circ> h) xs b = b\<lparr>tc_calls := tc_calls b @ map (f \<circ> g \<circ> h) xs\<rparr>"
  using fold_call [of "f \<circ> g \<circ> h" xs b] by (simp add: comp_assoc)

lemma beginRestore_order:
  assumes "distinct (map tg_TargetID ts)" "k < length ts"
  shows "tc_restoreOrder (beginRestore ts act b) (tg_TargetID (ts ! k)) = Some (int k + 1)"
proof -
  let ?z = "zip (map tg_TargetID ts) (map int [1..<Suc (length ts)])"
  have z: "length ?z = length ts" "?z ! k = (tg_TargetID (ts ! k), int k + 1)" using assms(2) by (simp_all del: upt_Suc)
  have "(tg_TargetID (ts ! k), int k + 1) \<in> set ?z" using nth_mem [of k ?z] z assms(2) by simp
  moreover have d: "distinct (map fst ?z)" using assms(1) by simp
  ultimately have "map_of ?z (tg_TargetID (ts ! k)) = Some (int k + 1)" by simp
  then show ?thesis unfolding beginRestore_def using map_of_rev_distinct [OF d] by simp
qed

lemma prepare_recreates:
  fixes t :: "nat \<Rightarrow> string"
  assumes "tc_startupSession b = s" "bs_Tabs s \<noteq> []" "\<forall>u\<in>set (bs_Tabs s). restorableURL u" "\<forall>n. t n \<noteq> []"
    "filter (\<lambda>t. restorableURL (tg_URL t) \<and> tg_URL t \<noteq> ''about:blank'') (filter (\<lambda>t. tg_Type t = ''page'') found) = []"
    "bs_Active s = int k" "k < length (bs_Tabs s)"
  defines "page \<equiv> \<lambda>k. \<lparr>tg_TargetID = t k, tg_Type = ''page'', tg_Title = [], tg_URL = bs_Tabs s ! k\<rparr>"
  shows "prepareStartupSession (Some found) (\<lambda>_ n. Some (t n)) b =
    beginRestore (map page [0..<length (bs_Tabs s)]) (t k)
      (b\<lparr>tc_calls := tc_calls b @ GetTargets # map CreateTarget (bs_Tabs s)
         @ map (CloseTarget \<circ> tg_TargetID) (filter (\<lambda>t. tg_Type t = ''page'') found)\<rparr>)"
proof -
  have w: "filter (restorableURL \<circ> snd) (enumerate 0 (bs_Tabs s)) = enumerate 0 (bs_Tabs s)"
    using assms(3) by (auto simp: filter_id_conv enumerate_eq_zip dest: set_zip_rightD)
  have c: "create_targets (\<lambda>_ n. Some (t n)) 0 (enumerate 0 (bs_Tabs s)) = enumerate 0 (map page [0..<length (bs_Tabs s)])"
    unfolding create_targets_enumerate [OF assms(4)] page_def by simp
  have ne: "enumerate 0 (map page [0..<length (bs_Tabs s)]) \<noteq> []"
    using assms(2) by (simp add: enumerate_eq_zip)
  have a: "active_created (int k) (enumerate 0 (map page [0..<length (bs_Tabs s)])) = t k"
    using filter_enumerate_eq [of 0 k "map page [0..<length (bs_Tabs s)]"] assms(7)
    by (simp add: active_created_def) (simp add: page_def)
  have m: "map (CreateTarget \<circ> newTargetParams \<circ> snd) (enumerate 0 (bs_Tabs s)) = map CreateTarget (bs_Tabs s)"
    by (simp add: enumerate_eq_zip newTargetParams_def comp_def flip: map_map [of CreateTarget snd, unfolded comp_def])
  show ?thesis
    using assms(1,2,5) ne
    by (simp add: prepareStartupSession_def Let_def w c a m assms(6) fold_call_of fold_call_of_of call_def map_snd_enumerate)
qed


lemma decode_runes_ascii: "list_all (\<lambda>b. b < 0x80) bs \<Longrightarrow> decode_runes bs = bs"
proof (induction bs)
  case (Cons b bs)
  then have "decode_rune (b # bs) = (b, 1)" by (cases bs) simp_all
  then show ?case using Cons by (subst decode_runes.simps) simp
qed simp

lemma trim_space_plain:
  assumes "list_all (\<lambda>c. 0x20 < (of_char c :: nat) \<and> (of_char c :: nat) < 0x80) s"
  shows "trim_space s = s"
proof -
  have r: "runes s = map of_char s"
    unfolding runes_def by (rule decode_runes_ascii) (use assms in \<open>simp add: list_all_length\<close>)
  have p: "\<forall>x\<in>set (runes s). \<not> is_space x" using assms by (auto simp: r is_space_def list_all_iff)
  have dw: "dropWhile is_space xs = xs" if "\<forall>x\<in>set xs. \<not> is_space x" for xs using that by (cases xs) auto
  have "trim_runes (runes s) = runes s" using p by (simp add: trim_runes_def dw)
  moreover have e: "concat (map encode_rune xs) = xs" if "list_all (\<lambda>x. x < 0x80) xs" for xs
    using that by (induction xs) (simp_all add: encode_rune_def)
  moreover have "list_all (\<lambda>x. x < 0x80) (runes s)" using assms by (auto simp: r list_all_iff)
  ultimately have "trim_space s = map char_of (runes s)" by (simp add: trim_space_def string_of_runes_def)
  then show ?thesis by (simp add: r)
qed

definition a_tab :: "int \<Rightarrow> string \<Rightarrow> string \<Rightarrow> tab" where
  "a_tab i target url = \<lparr>ta_ID = i, ta_TargetID = target, ta_Session = target, ta_Title = [], ta_URL = url, ta_loading = False,
     ta_loadingGeneration = 0, ta_awaitingPageFrame = False, ta_mainFrameID = [], ta_IconKey = [], ta_Security = [], ta_Fullscreen = False\<rparr>"

definition two_tabs :: tab_ctl where
  "two_tabs = \<lparr>tc_heap = [a_tab 1 ''a'' ''https://a'', a_tab 2 ''b'' ''https://b''], tc_tabs = [1 \<mapsto> 0, 2 \<mapsto> 1],
     tc_byTarget = [''a'' \<mapsto> 0, ''b'' \<mapsto> 1], tc_bySession = [''a'' \<mapsto> 0, ''b'' \<mapsto> 1], tc_seq = 2, tc_activeID = 2, tc_activeGen = 2,
     tc_mobile = False, tc_dark = False, tc_startupSession = no_session, tc_exactSession = False, tc_restorePending = {},
     tc_restoreOrder = Map.empty, tc_restoreActiveTarget = [], tc_restoreActiveID = 0, tc_sessionTimer = None, tc_sessionTimerGen = 0,
     tc_sessionClosed = False, tc_store = NewStore (\<lambda>_. 100) \<lparr>pd_history = None, pd_bookmarks = None\<rparr>, tc_alive = True, tc_suspended = False,
     tc_startedAt = 0, tc_loadingTimers = [], tc_file = Missing, tc_calls = []\<rparr>"

lemma restorable_examples: "restorableURL ''https://a''" "restorableURL ''https://b''"
  by (simp_all add: restorableURL_def trim_space_plain)

lemma two_tabs_saved: "saved_ids two_tabs = [1, 2]"
proof -
  have "sorted_list_of_set {1, 2 :: int} = [1, 2]" by simp
  then have "tab_ids two_tabs = [1, 2]" by (simp add: tab_ids_def two_tabs_def insert_commute)
  then show ?thesis by (simp add: saved_ids_def) (simp add: two_tabs_def a_tab_def restorable_examples)
qed


section \<open>Pages Chromium restored itself\<close>

abbreviation unused :: "string set \<Rightarrow> target_info list \<Rightarrow> target_info list" where
  "unused used pages \<equiv> filter (\<lambda>t. tg_TargetID t \<notin> used) pages"

lemma take_match_Some:
  "take_match url used pages = Some t \<Longrightarrow> t \<in> set (unused used pages) \<and> tg_URL t = url"
  by (induction pages) (auto split: if_splits)

lemma take_match_None:
  "take_match url used pages = None \<longleftrightarrow> url \<notin> tg_URL ` set (unused used pages)"
  by (induction pages) auto

lemma unused_insert:
  assumes "distinct (map tg_TargetID pages)" "t \<in> set (unused used pages)"
  shows "mset (unused (insert (tg_TargetID t) used) pages) = mset (unused used pages) - {#t#}"
proof -
  have "unused (insert (tg_TargetID t) used) pages = removeAll t (unused used pages)"
    unfolding removeAll_filter_not_eq filter_filter using assms by (auto simp: distinct_map inj_on_def intro!: filter_cong)
  moreover have "distinct (unused used pages)" using assms(1) by (auto simp: distinct_map)
  ultimately show ?thesis
    by (simp flip: distinct_remove1_removeAll)
qed

lemma match_session_unused:
  assumes "distinct (map tg_TargetID pages)"
  shows "\<exists>ms. fst (match_session pages active i urls used ordered act) = used \<union> tg_TargetID ` set ms \<and>
     fst (snd (match_session pages active i urls used ordered act)) = ordered @ ms \<and>
     mset ms + mset (unused (used \<union> tg_TargetID ` set ms) pages) = mset (unused used pages)"
proof (induction urls arbitrary: i used ordered act)
  case Nil
  show ?case by (intro exI [of _ "[]"]) simp
next
  case (Cons url urls)
  show ?case
  proof (cases "take_match url used pages")
    case None
    then show ?thesis using Cons.IH [of "Suc i" used ordered act] by simp
  next
    case (Some t)
    note t = take_match_Some [OF Some, THEN conjunct1]
    obtain ms where ms: "fst (match_session pages active i (url # urls) used ordered act) = insert (tg_TargetID t) used \<union> tg_TargetID ` set ms"
      "fst (snd (match_session pages active i (url # urls) used ordered act)) = (ordered @ [t]) @ ms"
      "mset ms + mset (unused (insert (tg_TargetID t) used \<union> tg_TargetID ` set ms) pages) = mset (unused (insert (tg_TargetID t) used) pages)"
      using Cons.IH [of "Suc i" "insert (tg_TargetID t) used" "ordered @ [t]" "if int i = active then tg_TargetID t else act"] Some
      by fastforce
    have "mset (t # ms) + mset (unused (used \<union> tg_TargetID ` set (t # ms)) pages) = mset (unused used pages)"
      using ms(3) t unfolding unused_insert [OF assms t] by simp
    then show ?thesis using ms(1,2) by (intro exI [of _ "t # ms"]) simp
  qed
qed

lemma order_pages_perm:
  assumes "distinct (map tg_TargetID pages)"
  shows "mset (fst (order_pages s pages)) = mset pages"
proof -
  obtain used ordered act where m: "match_session pages (bs_Active s) 0 (bs_Tabs s) {} [] [] = (used, ordered, act)" by (cases "match_session pages (bs_Active s) 0 (bs_Tabs s) {} [] []")
  then show ?thesis
    using match_session_unused [OF assms, of "bs_Active s" 0 "bs_Tabs s" "{}" "[]" "[]"] by (auto simp: order_pages_def Let_def)
qed

lemma match_session_full:
  assumes "distinct (map tg_TargetID pages)" "mset urls \<subseteq># image_mset tg_URL (mset (unused used pages))"
  shows "\<exists>ms. match_session pages active i urls used ordered act = (used \<union> tg_TargetID ` set ms, ordered @ ms,
       if int i \<le> active \<and> active < int (i + length urls) then tg_TargetID (ms ! nat (active - int i)) else act) \<and>
     map tg_URL ms = urls \<and> set ms \<subseteq> set (unused used pages)"
  using assms(2)
proof (induction urls arbitrary: i used ordered act)
  case Nil
  show ?case by (intro exI [of _ "[]"]) auto
next
  case (Cons url urls)
  have "url \<in># image_mset tg_URL (mset (unused used pages))"
    by (rule mset_subset_eqD [OF Cons.prems]) simp
  then obtain t where Some: "take_match url used pages = Some t"
    by (cases "take_match url used pages") (auto simp: take_match_None)
  note t = take_match_Some [OF Some]
  let ?used = "insert (tg_TargetID t) used"
  have "mset urls \<subseteq># image_mset tg_URL (mset (unused ?used pages))"
    using Cons.prems t unfolding unused_insert [OF assms(1) t [THEN conjunct1]]
    by (simp add: image_mset_Diff insert_subset_eq_iff)
  from Cons.IH [OF this, of "Suc i" "ordered @ [t]" "if int i = active then tg_TargetID t else act"]
  obtain ms where ms: "match_session pages active (Suc i) urls ?used (ordered @ [t]) (if int i = active then tg_TargetID t else act) =
      (?used \<union> tg_TargetID ` set ms, (ordered @ [t]) @ ms,
       if int (Suc i) \<le> active \<and> active < int (Suc i + length urls) then tg_TargetID (ms ! nat (active - int (Suc i)))
       else (if int i = active then tg_TargetID t else act))"
     "map tg_URL ms = urls" "set ms \<subseteq> set (unused ?used pages)" by blast
  have "nat (active - int i) = Suc (nat (active - int (Suc i)))" if "int (Suc i) \<le> active" using that by simp
  then show ?case
    using ms t Some by (intro exI [of _ "t # ms"]) auto
qed


definition page_at :: "string \<Rightarrow> string \<Rightarrow> target_info" where
  "page_at t url = \<lparr>tg_TargetID = t, tg_Type = ''page'', tg_Title = [], tg_URL = url\<rparr>"


section \<open>The observer of the setup browser\<close>

lemma fold_add_setup:
  assumes "0 \<le> bs_Active s" "bs_Active s < int (length (bs_Tabs s)) \<or> bs_Active s = 0"
  shows "bs_Version (fold (add_setup_tab active) us s) = bs_Version s \<and> 0 \<le> bs_Active (fold (add_setup_tab active) us s) \<and>
     (bs_Active (fold (add_setup_tab active) us s) < int (length (bs_Tabs (fold (add_setup_tab active) us s))) \<or>
      bs_Active (fold (add_setup_tab active) us s) = 0)"
  using assms
proof (induction us arbitrary: s)
  case (Cons u us)
  obtain i url where u: "u = (i, url)" by force
  have "bs_Version (add_setup_tab active u s) = bs_Version s" "0 \<le> bs_Active (add_setup_tab active u s)"
    "bs_Active (add_setup_tab active u s) < int (length (bs_Tabs (add_setup_tab active u s))) \<or> bs_Active (add_setup_tab active u s) = 0"
    using Cons.prems by (auto simp: add_setup_tab_def u Let_def)
  then show ?case using Cons.IH [of "add_setup_tab active u s"] by simp
qed simp

lemma setup_session_loads: "loadBrowserSession (Decodes (filteredSetupSession urls active previous)) = filteredSetupSession urls active previous"
proof -
  let ?s0 = "no_session\<lparr>bs_Version := browserSessionVersion, bs_Mobile := bs_Mobile previous, bs_Dark := bs_Dark previous, bs_FromSetup := True\<rparr>"
  show ?thesis
    using fold_add_setup [of ?s0 active "enumerate 0 urls"]
    by (auto simp: loadBrowserSession_def filteredSetupSession_def Let_def no_session_def)
qed

text \<open>
  C30 (invariant). What the observer of the setup browser believes it has saved is on the disk: from its start (it loads the session), through any
  polls, failed writes included, the file loads to exactly its snapshot, so a failed write is found again by the next
  poll; and a poll of a ready observer that succeeds leaves the observed tabs in the file.
\<close>
theorem setup_snapshot_persisted:
  assumes "w = fold (\<lambda>(seen, d) w. fst (setup_poll seen d w)) polls
       \<lparr>sw_closed = False, sw_snapshot = loadBrowserSession f, sw_windows = 0, sw_ready = False, sw_file = f\<rparr>"
  shows "loadBrowserSession (sw_file w) = sw_snapshot w \<and>
     (snd (setup_poll (Observed urls active windows) d w) = None \<longrightarrow>
       sameSession (loadBrowserSession (sw_file (fst (setup_poll (Observed urls active windows) d w))))
         (filteredSetupSession urls active (sw_snapshot w)))"
proof -
  have step: "loadBrowserSession (sw_file (fst (setup_poll seen d v))) = sw_snapshot (fst (setup_poll seen d v)) \<and>
      sw_closed (fst (setup_poll seen d v)) = sw_closed v"
    if "loadBrowserSession (sw_file v) = sw_snapshot v" for seen d v
    using that by (cases d; cases seen) (simp_all add: setup_poll_def writeBrowserSession_def setup_session_loads Let_def)
  let ?I = "\<lambda>v. loadBrowserSession (sw_file v) = sw_snapshot v \<and> \<not> sw_closed v"
  have "?I w" unfolding assms
    by (rule fold_invariant [where Q = "\<lambda>_. True" and P = ?I]) (use step in auto)
  then have inv: "loadBrowserSession (sw_file w) = sw_snapshot w" "\<not> sw_closed w" by auto
  have refl: "sameSession s s" for s by (simp add: sameSession_def list_all_iff)
  show ?thesis using inv refl
    by (cases d) (auto simp: setup_poll_def writeBrowserSession_def setup_session_loads Let_def)
qed

theorem setup_snapshot_persisted_witness:
  "sw_snapshot (fst (setup_poll (Observed [''https://a''] 0 1) DiskWriteFails
     \<lparr>sw_closed = False, sw_snapshot = no_session, sw_windows = 0, sw_ready = False, sw_file = Missing\<rparr>)) = no_session"
  using setup_snapshot_persisted [of "fst (setup_poll (Observed [''https://a''] 0 1) DiskWriteFails
     \<lparr>sw_closed = False, sw_snapshot = no_session, sw_windows = 0, sw_ready = False, sw_file = Missing\<rparr>)"
     "[(Observed [''https://a''] 0 1, DiskWriteFails)]" Missing, THEN conjunct1]
  by (simp add: loadBrowserSession_def [of Missing]) (simp add: setup_poll_def writeBrowserSession_def Let_def loadBrowserSession_def)

end
