(* ===== verification/Tab_Registry.thy ===== *)
theory Tab_Registry
  imports Browser_Tabs Session_Facts
begin

text \<open>
  Facts about the tab registry under every interleaving of the goroutines that attach, drop and activate targets: the
  three maps of the controller describe one set of tabs, and a timer never ends another load than its own.
\<close>

named_theorems tab_frame "operations that leave the registry alone"

section \<open>The registry proper\<close>

type_synonym tab_core =
  "(int \<times> string \<times> bool) list \<times> (int \<rightharpoonup> nat) \<times> (string \<rightharpoonup> nat) \<times> (string \<rightharpoonup> nat) \<times> int \<times> (string \<rightharpoonup> int)"

definition tab_key :: "tab \<Rightarrow> int \<times> string \<times> bool" where
  "tab_key t = (ta_ID t, ta_TargetID t, ta_Session t \<noteq> [])"

definition tab_core :: "tab_ctl \<Rightarrow> tab_core" where
  \<comment> \<open>what the invariant is about\<close>
  "tab_core b = (map tab_key (tc_heap b), tc_tabs b, tc_byTarget b, tc_bySession b, tc_seq b, tc_restoreOrder b)"

definition tab_wf :: "tab_ctl \<Rightarrow> bool" where
  "tab_wf b \<longleftrightarrow> 0 \<le> tc_seq b \<and>
     distinct (map ta_ID (tc_heap b)) \<and> distinct (map ta_TargetID (tc_heap b)) \<and>
     (\<forall>t\<in>set (tc_heap b). 0 < ta_ID t \<and> ta_ID t \<le> tc_seq b) \<and>
     (\<forall>i r. tc_tabs b i = Some r \<longrightarrow> r < length (tc_heap b) \<and> ta_ID (tab_at b r) = i \<and> tc_byTarget b (ta_TargetID (tab_at b r)) = Some r) \<and>
     (\<forall>t r. tc_byTarget b t = Some r \<longrightarrow> r < length (tc_heap b) \<and> ta_TargetID (tab_at b r) = t \<and> tc_tabs b (ta_ID (tab_at b r)) = Some r) \<and>
     (\<forall>s r. tc_bySession b s = Some r \<longrightarrow> r < length (tc_heap b) \<and> tc_tabs b (ta_ID (tab_at b r)) = Some r \<and> ta_Session (tab_at b r) \<noteq> []) \<and>
     (\<forall>t i. tc_restoreOrder b t = Some i \<longrightarrow> 0 < i \<and> i \<le> tc_seq b \<and> (\<forall>x\<in>set (tc_heap b). ta_ID x = i \<longrightarrow> ta_TargetID x = t)) \<and>
     (\<forall>t t' i. tc_restoreOrder b t = Some i \<longrightarrow> tc_restoreOrder b t' = Some i \<longrightarrow> t = t')"

lemma tab_core_eqD:
  assumes "tab_core b = tab_core b'"
  shows "length (tc_heap b) = length (tc_heap b')" "tc_tabs b = tc_tabs b'" "tc_byTarget b = tc_byTarget b'" "tc_bySession b = tc_bySession b'"
    "tc_seq b = tc_seq b'" "tc_restoreOrder b = tc_restoreOrder b'" "map ta_ID (tc_heap b) = map ta_ID (tc_heap b')"
    "map ta_TargetID (tc_heap b) = map ta_TargetID (tc_heap b')"
    "r < length (tc_heap b) \<Longrightarrow> tab_key (tab_at b r) = tab_key (tab_at b' r)"
proof -
  have keys: "map tab_key (tc_heap b) = map tab_key (tc_heap b')" using assms by (simp add: tab_core_def)
  then show "length (tc_heap b) = length (tc_heap b')" by (rule map_eq_imp_length_eq)
  then show "r < length (tc_heap b) \<Longrightarrow> tab_key (tab_at b r) = tab_key (tab_at b' r)" using keys by (metis nth_map)
  show "map ta_ID (tc_heap b) = map ta_ID (tc_heap b')" "map ta_TargetID (tc_heap b) = map ta_TargetID (tc_heap b')"
    using arg_cong [OF keys, of "map fst"] arg_cong [OF keys, of "map (fst \<circ> snd)"] by (simp_all add: tab_key_def comp_def)
qed (use assms in \<open>simp_all add: tab_core_def\<close>)

lemma tab_wf_core:
  assumes "tab_core b = tab_core b'" "tab_wf b'"
  shows "tab_wf b"
proof -
  note c = tab_core_eqD [OF assms(1)]
  have k: "ta_ID (tab_at b r) = ta_ID (tab_at b' r)" "ta_TargetID (tab_at b r) = ta_TargetID (tab_at b' r)"
    "ta_Session (tab_at b r) = [] \<longleftrightarrow> ta_Session (tab_at b' r) = []" if "r < length (tc_heap b')" for r
    using c(9) [of r] c(1) that by (auto simp: tab_key_def)
  have s: "(\<forall>x\<in>set (tc_heap b). P (ta_ID x) (ta_TargetID x)) \<longleftrightarrow> (\<forall>x\<in>set (tc_heap b'). P (ta_ID x) (ta_TargetID x))" for P
    by (simp add: all_set_conv_all_nth c(1) k)
  show ?thesis
    using assms(2) s [of "\<lambda>i _. 0 < i \<and> i \<le> tc_seq b'"] s [of "\<lambda>i t. i = j \<longrightarrow> t = u" for j u] unfolding tab_wf_def c(1-8)
    by (auto simp: k)
qed

section \<open>Operations outside it\<close>

lemma tab_core_fields [tab_frame]:
  "tab_core (b\<lparr>tc_activeID := i\<rparr>) = tab_core b" "tab_core (b\<lparr>tc_activeGen := g\<rparr>) = tab_core b"
  "tab_core (b\<lparr>tc_mobile := m\<rparr>) = tab_core b" "tab_core (b\<lparr>tc_dark := m\<rparr>) = tab_core b"
  "tab_core (b\<lparr>tc_restorePending := p\<rparr>) = tab_core b" "tab_core (b\<lparr>tc_restoreActiveTarget := x\<rparr>) = tab_core b"
  "tab_core (b\<lparr>tc_restoreActiveID := i\<rparr>) = tab_core b" "tab_core (b\<lparr>tc_sessionTimer := st\<rparr>) = tab_core b"
  "tab_core (b\<lparr>tc_sessionTimerGen := g\<rparr>) = tab_core b" "tab_core (b\<lparr>tc_store := s\<rparr>) = tab_core b"
  "tab_core (b\<lparr>tc_loadingTimers := ts\<rparr>) = tab_core b" "tab_core (b\<lparr>tc_file := f\<rparr>) = tab_core b" "tab_core (b\<lparr>tc_calls := cs\<rparr>) = tab_core b"
  "tab_core (b\<lparr>tc_exactSession := m\<rparr>) = tab_core b"
  by (simp_all add: tab_core_def)

lemma tab_core_basic [tab_frame]:
  "tab_core (call c b) = tab_core b" "tab_core (broadcast ev b) = tab_core b" "tab_core (scheduleSessionSave b) = tab_core b"
  "tab_core (broadcastTabs env b) = tab_core b" "tab_core (onURLChanged env u b) = tab_core b" "tab_core (store_title u t b) = tab_core b"
  "tab_core (scheduleTabLoadingGeneration r g b) = tab_core b" "tab_core (fst (pushNavState b)) = tab_core b"
  "tab_core (nav_state env s b) = tab_core b" "tab_core (runScheduledSessionSave d g b) = tab_core b" "tab_core (drop_end env b) = tab_core b"
  by (simp_all add: call_def broadcast_def scheduleSessionSave_def broadcastTabs_def onURLChanged_def store_title_def drop_end_def
      scheduleTabLoadingGeneration_def pushNavState_def nav_state_def runScheduledSessionSave_def SaveSession_def Let_def tab_frame split: option.split prod.split)

lemma tab_core_set_tab [tab_frame]:
  assumes "\<And>t. tab_key (f t) = tab_key t"
  shows "tab_core (set_tab r f b) = tab_core b"
  by (cases "r < length (tc_heap b)") (simp_all add: tab_core_def set_tab_def map_update assms list_update_same_conv list_update_beyond)

lemma tab_key_updates [simp]:
  "tab_key (t\<lparr>ta_Title := x\<rparr>) = tab_key t" "tab_key (t\<lparr>ta_URL := x\<rparr>) = tab_key t" "tab_key (t\<lparr>ta_loading := c\<rparr>) = tab_key t"
  "tab_key (t\<lparr>ta_loadingGeneration := g\<rparr>) = tab_key t" "tab_key (t\<lparr>ta_awaitingPageFrame := c\<rparr>) = tab_key t"
  "tab_key (t\<lparr>ta_mainFrameID := x\<rparr>) = tab_key t" "tab_key (t\<lparr>ta_IconKey := x\<rparr>) = tab_key t" "tab_key (t\<lparr>ta_Security := x\<rparr>) = tab_key t"
  "tab_key (t\<lparr>ta_Fullscreen := c\<rparr>) = tab_key t"
  by (simp_all add: tab_key_def)

lemma tab_core_loading [tab_frame]:
  "tab_core (setTabLoading r on b) = tab_core b" "tab_core (scheduleTabLoadingCompletion r b) = tab_core b"
  "tab_core (snd (finishTabLoadingGeneration r g b)) = tab_core b" "tab_core (loading_timer r g b) = tab_core b"
  by (simp_all add: setTabLoading_def scheduleTabLoadingCompletion_def finishTabLoadingGeneration_def loading_timer_def Let_def tab_frame)

lemma tab_core_pages [tab_frame]:
  "tab_core (snd (rememberMainFrame s f b)) = tab_core b" "tab_core (captureMainFrame reply r b) = tab_core b"
  "tab_core (noteNavigationError r b) = tab_core b" "tab_core (title_reply env reply r s u b) = tab_core b"
  "tab_core (onSecurityStateChanged s u b) = tab_core b" "tab_core (onFullscreenBinding s on b) = tab_core b"
  by (simp_all add: rememberMainFrame_def captureMainFrame_def noteNavigationError_def title_reply_def onSecurityStateChanged_def
      onFullscreenBinding_def Let_def tab_frame split: option.split reply.split)

lemma tab_core_if [tab_frame]: "tab_core (if c then x else y) = (if c then tab_core x else tab_core y)"
  by simp

lemma tab_core_navigated [tab_frame]:
  "tab_core (fst (tabNavigated env s u b)) = tab_core b" "tab_core (fst (targetInfoChanged env info b)) = tab_core b"
  "tab_core (fst (stopped_loading found b)) = tab_core b"
  by (simp_all add: tabNavigated_def targetInfoChanged_def stopped_loading_def Let_def case_prod_unfold tab_frame if_distrib [of fst] split: option.split)

lemma tab_core_switch [tab_frame]:
  "tab_core (fst (switch_begin i b)) = tab_core b" "tab_core (fst (switch_reply reply i r g u b)) = tab_core b"
  "tab_core (fst (switch_show i r g u b)) = tab_core b" "tab_core (fst (show_flags env r b)) = tab_core b"
  "tab_core (fst (drop_rest wasActive n b)) = tab_core b" "tab_core (fst (attach_setup env r info s first b)) = tab_core b"
  "tab_core (fst (title_ask r b)) = tab_core b" "tab_core (fst (handleTab c b)) = tab_core b"
  by (simp_all add: switch_begin_def switch_reply_def switch_show_def show_flags_def drop_rest_def attach_setup_def title_ask_def handleTab_def
      Let_def case_prod_unfold tab_frame split: option.split tab_command.split)

lemma tab_core_fold_call [tab_frame]: "tab_core (fold (\<lambda>x. call (f x)) xs b) = tab_core b"
  by (induction xs arbitrary: b) (simp_all add: tab_frame)

lemma tab_core_layout [tab_frame]:
  "tab_core (handle_nav sent c b) = tab_core b" "tab_core (handleMobileLayout on b) = tab_core b" "tab_core (handleDarkMode on b) = tab_core b"
  by (simp_all add: handle_nav_def handleMobileLayout_def handleDarkMode_def Let_def tab_frame comp_def split: option.split nav_command.split)

section \<open>Operations on it\<close>

lemma tab_wfD:
  assumes "tab_wf b"
  shows "tc_tabs b i = Some r \<Longrightarrow> r < length (tc_heap b) \<and> ta_ID (tab_at b r) = i \<and> tc_byTarget b (ta_TargetID (tab_at b r)) = Some r"
    "tc_byTarget b t = Some r \<Longrightarrow> r < length (tc_heap b) \<and> ta_TargetID (tab_at b r) = t \<and> tc_tabs b (ta_ID (tab_at b r)) = Some r"
    "tc_bySession b s = Some r \<Longrightarrow> r < length (tc_heap b) \<and> tc_tabs b (ta_ID (tab_at b r)) = Some r \<and> ta_Session (tab_at b r) \<noteq> []"
    "r < length (tc_heap b) \<Longrightarrow> r' < length (tc_heap b) \<Longrightarrow> ta_ID (tab_at b r) = ta_ID (tab_at b r') \<Longrightarrow> r = r'"
    "r < length (tc_heap b) \<Longrightarrow> r' < length (tc_heap b) \<Longrightarrow> ta_TargetID (tab_at b r) = ta_TargetID (tab_at b r') \<Longrightarrow> r = r'"
    "x \<in> set (tc_heap b) \<Longrightarrow> 0 < ta_ID x \<and> ta_ID x \<le> tc_seq b"
    "tc_restoreOrder b t = Some j \<Longrightarrow> 0 < j \<and> j \<le> tc_seq b"
    "tc_restoreOrder b t = Some j \<Longrightarrow> x \<in> set (tc_heap b) \<Longrightarrow> ta_ID x = j \<Longrightarrow> ta_TargetID x = t"
    "tc_restoreOrder b t = Some j \<Longrightarrow> tc_restoreOrder b t' = Some j \<Longrightarrow> t = t'" "0 \<le> tc_seq b"
  using assms unfolding tab_wf_def by (blast | (simp add: distinct_conv_nth, metis))+

lemma tab_wf_remove:
  \<comment> \<open>a tab and all its sessions go together\<close>
  assumes "tab_wf b" "r < length (tc_heap b)" "tc_bySession b' = m" "\<And>s a. m s = Some a \<Longrightarrow> tc_bySession b s = Some a \<and> a \<noteq> r"
    "tc_heap b' = tc_heap b" "tc_seq b' = tc_seq b" "tc_restoreOrder b' = tc_restoreOrder b"
    "tc_tabs b' = (tc_tabs b)(ta_ID (tab_at b r) := None)" "tc_byTarget b' = (tc_byTarget b)(ta_TargetID (tab_at b r) := None)"
  shows "tab_wf b'"
proof -
  note d = tab_wfD [OF assms(1)]
  have base: "distinct (map ta_ID (tc_heap b))" "distinct (map ta_TargetID (tc_heap b))" using assms(1) by (simp_all add: tab_wf_def)
  have 1: "a < length (tc_heap b) \<and> ta_ID (tab_at b a) = i \<and> tc_byTarget b' (ta_TargetID (tab_at b a)) = Some a" if "tc_tabs b' i = Some a" for i a
    using that d(1) [of i a] d(5) [of a r] assms(2,8,9) by (auto split: if_splits)
  have 2: "a < length (tc_heap b) \<and> ta_TargetID (tab_at b a) = t \<and> tc_tabs b' (ta_ID (tab_at b a)) = Some a" if "tc_byTarget b' t = Some a" for t a
    using that d(2) [of t a] d(4) [of a r] assms(2,8,9) by (auto split: if_splits)
  have 3: "a < length (tc_heap b) \<and> tc_tabs b' (ta_ID (tab_at b a)) = Some a \<and> ta_Session (tab_at b a) \<noteq> []" if "tc_bySession b' s = Some a" for s a
    using that assms(3) assms(4) [of s a] d(3) [of s a] d(4) [of a r] assms(2,8) by auto
  show ?thesis unfolding tab_wf_def assms(5,6,7) using base 1 2 3 d(6-10) by blast
qed

lemma drop_begin_wf:
  assumes "tab_wf b"
  shows "tab_wf (fst (drop_begin t b)) \<and> tc_heap (fst (drop_begin t b)) = tc_heap b"
proof (cases "tc_byTarget b t")
  case None
  then show ?thesis using assms by (simp add: drop_begin_def)
next
  case (Some r)
  note r = tab_wfD(2) [OF assms Some]
  have none: "a \<noteq> r" if "ta_Session (tab_at b r) = []" "tc_bySession b s = Some a" for s a
    using that tab_wfD(3) [OF assms, of s a] by auto
  show ?thesis
    by (intro conjI tab_wf_remove [OF assms _ refl])
      (use r none in \<open>auto simp: drop_begin_def Some Let_def split: if_splits\<close>)
qed

lemma finishRestore_wf:
  assumes "tab_wf b"
  shows "tab_wf (fst (finish_restore t i otherwise b)) \<and> tc_heap (fst (finish_restore t i otherwise b)) = tc_heap b"
proof -
  let ?b = "fst (finish_restore t i otherwise b)"
  have f: "tc_heap ?b = tc_heap b" "tc_tabs ?b = tc_tabs b" "tc_byTarget ?b = tc_byTarget b" "tc_bySession ?b = tc_bySession b" "tc_seq ?b = tc_seq b"
    "tc_restoreOrder ?b = tc_restoreOrder b \<or> tc_restoreOrder ?b = Map.empty"
    by (simp_all add: finish_restore_def finishRestoreTarget_def Let_def)
  from f(6) show ?thesis
  proof
    assume "tc_restoreOrder ?b = tc_restoreOrder b"
    then have "tab_core ?b = tab_core b" by (simp only: tab_core_def f(1-5))
    then show ?thesis using tab_wf_core [OF _ assms] f(1) by blast
  next
    assume e: "tc_restoreOrder ?b = Map.empty"
    show ?thesis using assms unfolding tab_wf_def f(1-5) e by auto
  qed
qed

lemma attach_begin_wf:
  fixes env :: tab_env
  assumes "tab_wf b" "tg_TargetID info \<notin> ta_TargetID ` set (tc_heap b)"
  defines "b' \<equiv> fst (attach_begin env info b)"
  shows "tab_wf b' \<and>
    (tc_heap b' = tc_heap b \<and> snd (attach_begin env info b) = [] \<or>
     (\<exists>i. tc_heap b' = tc_heap b @ [new_tab i info] \<and> snd (attach_begin env info b) = [AttachReply (length (tc_heap b)) info (i = 1)]))"
proof -
  note d = tab_wfD [OF assms(1)]
  have fresh: "tc_byTarget b (tg_TargetID info) = None"
  proof (rule ccontr)
    assume "tc_byTarget b (tg_TargetID info) \<noteq> None"
    then obtain r where "r < length (tc_heap b)" "ta_TargetID (tab_at b r) = tg_TargetID info" using d(2) [of "tg_TargetID info"] by fast
    then show False using assms(2) by (metis image_eqI nth_mem)
  qed
  show ?thesis
  proof (cases "time_sub (te_now env) (tc_startedAt b) < 5 * second \<and> blank_url (tg_URL info) \<and> has_real_page b")
    case True
    then have e: "attach_begin env info b = (call (CloseTarget (tg_TargetID info)) b, [])" by (simp add: attach_begin_def fresh)
    have "tab_wf b'" by (rule tab_wf_core [OF _ assms(1)]) (simp add: b'_def e tab_frame)
    then show ?thesis by (simp add: b'_def e) (simp add: call_def)
  next
    case False
    define i where "i = (case tc_restoreOrder b (tg_TargetID info) of Some i \<Rightarrow> i | None \<Rightarrow> tc_seq b + 1)"
    define n where "n = (case tc_restoreOrder b (tg_TargetID info) of Some i \<Rightarrow> tc_seq b | None \<Rightarrow> tc_seq b + 1)"
    have "attach_begin env info b = (call (AttachToTarget (tg_TargetID info)) (b\<lparr>tc_seq := n, tc_heap := tc_heap b @ [new_tab i info],
        tc_tabs := (tc_tabs b)(i \<mapsto> length (tc_heap b)), tc_byTarget := (tc_byTarget b)(tg_TargetID info \<mapsto> length (tc_heap b))\<rparr>),
        [AttachReply (length (tc_heap b)) info (i = 1)])"
      unfolding attach_begin_def if_not_P [OF False] fresh i_def n_def
      by (cases "tc_restoreOrder b (tg_TargetID info)") (simp_all add: Let_def)
    then have e: "snd (attach_begin env info b) = [AttachReply (length (tc_heap b)) info (i = 1)]"
      "tc_heap b' = tc_heap b @ [new_tab i info]" "tc_tabs b' = (tc_tabs b)(i \<mapsto> length (tc_heap b))"
      "tc_byTarget b' = (tc_byTarget b)(tg_TargetID info \<mapsto> length (tc_heap b))" "tc_bySession b' = tc_bySession b" "tc_seq b' = n"
      "tc_restoreOrder b' = tc_restoreOrder b"
      by (simp_all add: b'_def call_def)
    have i: "0 < i" "i \<le> n" "tc_seq b \<le> n" using d(7) [of "tg_TargetID info"] d(10)
      unfolding i_def n_def by (auto split: option.splits)
    have new_target: "ta_TargetID x \<noteq> tg_TargetID info" if "x \<in> set (tc_heap b)" for x using assms(2) that by (metis image_eqI)
    have ids: "ta_ID x \<noteq> i" if "x \<in> set (tc_heap b)" for x
      using d(6) [OF that] d(8) [of "tg_TargetID info" "ta_ID x" x] that new_target [OF that] unfolding i_def by (auto split: option.splits)
    have same: "tab_at b' r = tab_at b r" if "r < length (tc_heap b)" for r using that by (simp add: e nth_append)
    have new: "tab_at b' (length (tc_heap b)) = new_tab i info" by (simp add: e nth_append)
    show ?thesis
    proof
      have "distinct (map ta_ID (tc_heap b'))" "distinct (map ta_TargetID (tc_heap b'))"
        using assms(1,2) ids by (auto simp: tab_wf_def e new_tab_def)
      moreover have "\<forall>t\<in>set (tc_heap b'). 0 < ta_ID t \<and> ta_ID t \<le> n" using i d(6) by (auto simp: e new_tab_def dest: order_trans)
      moreover have "r < length (tc_heap b') \<and> ta_ID (tab_at b' r) = j \<and> tc_byTarget b' (ta_TargetID (tab_at b' r)) = Some r" if "tc_tabs b' j = Some r" for j r
      proof (cases "j = i")
        case True
        then have "r = length (tc_heap b)" using that by (simp add: e)
        then show ?thesis using True new by (simp add: e(2,3,4)) (simp add: new_tab_def)
      next
        case False
        then have "tc_tabs b j = Some r" using that by (simp add: e)
        then show ?thesis using d(1) [of j r] same [of r] new_target [of "tab_at b r"] by (auto simp: e)
      qed
      moreover have "r < length (tc_heap b') \<and> ta_TargetID (tab_at b' r) = t \<and> tc_tabs b' (ta_ID (tab_at b' r)) = Some r" if "tc_byTarget b' t = Some r" for t r
      proof (cases "t = tg_TargetID info")
        case True
        then have "r = length (tc_heap b)" using that by (simp add: e)
        then show ?thesis using True new by (simp add: e(2,3,4)) (simp add: new_tab_def)
      next
        case False
        then have "tc_byTarget b t = Some r" using that by (simp add: e)
        then show ?thesis using d(2) [of t r] same [of r] ids [of "tab_at b r"] by (auto simp: e)
      qed
      moreover have "r < length (tc_heap b') \<and> tc_tabs b' (ta_ID (tab_at b' r)) = Some r \<and> ta_Session (tab_at b' r) \<noteq> []" if "tc_bySession b' s = Some r" for s r
      proof -
        have "tc_bySession b s = Some r" using that by (simp add: e)
        then show ?thesis using d(3) [of s r] same [of r] ids [of "tab_at b r"] by (auto simp: e)
      qed
      moreover have "0 < j \<and> j \<le> n \<and> (\<forall>x\<in>set (tc_heap b'). ta_ID x = j \<longrightarrow> ta_TargetID x = t)" if "tc_restoreOrder b t = Some j" for t j
        using that d(7) [OF that] d(8) [OF that] i(3) d(9) [of t j "tg_TargetID info"]
        unfolding e i_def by (auto simp: new_tab_def split: option.splits)
      ultimately show "tab_wf b'" unfolding tab_wf_def e(6,7) using d(9,10) i(3) by (blast intro: order_trans)
      show "tc_heap b' = tc_heap b \<and> snd (attach_begin env info b) = [] \<or>
        (\<exists>i. tc_heap b' = tc_heap b @ [new_tab i info] \<and> snd (attach_begin env info b) = [AttachReply (length (tc_heap b)) info (i = 1)])"
        using e(1,2) by blast
    qed
  qed
qed

lemma attach_reply_wf:
  assumes "tab_wf b" "r < length (tc_heap b)" "ta_TargetID (tab_at b r) = tg_TargetID info" "ta_Session (tab_at b r) = []"
  shows "tab_wf (fst (attach_reply reply r info first b)) \<and>
    (\<exists>s. tc_heap (fst (attach_reply reply r info first b)) = (tc_heap b)[r := (tab_at b r)\<lparr>ta_Session := s\<rparr>])"
proof -
  note d = tab_wfD [OF assms(1)]
  have none: "a \<noteq> r" if "tc_bySession b s = Some a" for s a using that d(3) [of s a] assms(4) by auto
  have same: "(tc_heap b)[r := (tab_at b r)\<lparr>ta_Session := []\<rparr>] = tc_heap b"
    using assms(4) by (metis list_update_id tab.surjective tab.update_convs(3))
  consider (failed) "reply = Failed" | (empty) "reply = Reply []"
    | (gone) s where "reply = Reply s" "s \<noteq> []" "tc_byTarget b (tg_TargetID info) \<noteq> Some r"
    | (commit) s where "reply = Reply s" "s \<noteq> []" "tc_byTarget b (tg_TargetID info) = Some r"
    by (cases reply) auto
  then show ?thesis
  proof cases
    case failed
    have "tab_wf (fst (attach_reply reply r info first b))"
      by (rule tab_wf_remove [OF assms(1,2) refl]) (use failed none assms(3) in \<open>auto simp: attach_reply_def\<close>)
    moreover have "tc_heap (fst (attach_reply reply r info first b)) = tc_heap b" by (simp add: attach_reply_def failed)
    ultimately show ?thesis using same by metis
  next
    case empty
    then have "fst (attach_reply reply r info first b) = b" by (simp add: attach_reply_def)
    then show ?thesis using assms(1) same by metis
  next
    case (gone s)
    then have e: "fst (attach_reply reply r info first b) = call (DetachFromTarget s) b" by (simp add: attach_reply_def)
    have "tab_wf (call (DetachFromTarget s) b)" by (rule tab_wf_core [OF _ assms(1)]) (simp add: tab_frame)
    moreover have "tc_heap (call (DetachFromTarget s) b) = tc_heap b" by (simp add: call_def)
    ultimately show ?thesis unfolding e using same by metis
  next
    case (commit s)
    let ?b = "fst (attach_reply reply r info first b)"
    have e: "tc_heap ?b = (tc_heap b)[r := (tab_at b r)\<lparr>ta_Session := s\<rparr>]" "tc_bySession ?b = (tc_bySession b)(s \<mapsto> r)"
      "tc_tabs ?b = tc_tabs b" "tc_byTarget ?b = tc_byTarget b" "tc_seq ?b = tc_seq b" "tc_restoreOrder ?b = tc_restoreOrder b"
      using commit by (simp_all add: attach_reply_def call_def set_tab_def)
    have at: "tab_at ?b a = (if a = r then (tab_at b r)\<lparr>ta_Session := s\<rparr> else tab_at b a)" for a using assms(2) by (simp add: e nth_list_update)
    have len: "length (tc_heap ?b) = length (tc_heap b)" by (simp add: e)
    have ids: "map ta_ID (tc_heap ?b) = map ta_ID (tc_heap b)" "map ta_TargetID (tc_heap ?b) = map ta_TargetID (tc_heap b)"
      by (rule nth_equalityI; simp add: len at)+
    have key: "ta_ID (tab_at ?b a) = ta_ID (tab_at b a)" "ta_TargetID (tab_at ?b a) = ta_TargetID (tab_at b a)"
      "ta_Session (tab_at b a) \<noteq> [] \<Longrightarrow> ta_Session (tab_at ?b a) \<noteq> []" for a
      using commit(2) by (simp_all add: at)
    have all: "(\<forall>x\<in>set (tc_heap ?b). P (ta_ID x) (ta_TargetID x)) \<longleftrightarrow> (\<forall>x\<in>set (tc_heap b). P (ta_ID x) (ta_TargetID x))" for P
      by (simp only: all_set_conv_all_nth len key(1,2))
    have sess: "a < length (tc_heap b) \<and> tc_tabs b (ta_ID (tab_at b a)) = Some a \<and> ta_Session (tab_at ?b a) \<noteq> []"
      if "((tc_bySession b)(s \<mapsto> r)) x = Some a" for x a
    proof (cases "x = s")
      case True
      then have "a = r" using that by simp
      then show ?thesis using commit(2,3) d(2) [OF commit(3)] by (simp add: at)
    next
      case False
      then have "tc_bySession b x = Some a" using that by simp
      then show ?thesis using d(3) [of x a] key(3) [of a] by simp
    qed
    have "tab_wf ?b"
      unfolding tab_wf_def ids len e(2-6) key(1,2)
      using assms(1) sess all [of "\<lambda>i _. 0 < i \<and> i \<le> tc_seq b"] all [of "\<lambda>i t. i = j \<longrightarrow> t = u" for j u]
      unfolding tab_wf_def by simp
    then show ?thesis using e(1) by blast
  qed
qed

lemma editable_wf:
  assumes "tab_wf b"
  shows "tab_wf (onEditableTargetAttached p c b)" "tab_wf (onEditableTargetDetached c b)"
proof -
  have sub: "tab_wf (b\<lparr>tc_bySession := m\<rparr>)" if "\<And>s r. m s = Some r \<Longrightarrow> \<exists>s'. tc_bySession b s' = Some r" for m
  proof -
    have "r < length (tc_heap b) \<and> tc_tabs b (ta_ID (tab_at b r)) = Some r \<and> ta_Session (tab_at b r) \<noteq> []" if "m s = Some r" for s r
      using \<open>\<And>s r. m s = Some r \<Longrightarrow> \<exists>s'. tc_bySession b s' = Some r\<close> [OF that] tab_wfD(3) [OF assms] by blast
    then show ?thesis using assms unfolding tab_wf_def by simp
  qed
  show "tab_wf (onEditableTargetAttached p c b)"
    unfolding onEditableTargetAttached_def using assms
    by (auto split: option.split if_splits intro!: sub)
  show "tab_wf (onEditableTargetDetached c b)"
    unfolding onEditableTargetDetached_def using assms
    by (auto split: option.split if_splits intro!: sub)
qed

section \<open>Worlds\<close>

definition token :: "tab_act \<Rightarrow> string list" where
  \<comment> \<open>the target an action is going to attach\<close>
  "token a = (case a of AttachBegin info \<Rightarrow> [tg_TargetID info] | AttachReply r info f \<Rightarrow> [tg_TargetID info] | _ \<Rightarrow> [])"

abbreviation tokens :: "tab_act list list \<Rightarrow> string list" where
  "tokens ts \<equiv> concat (map token (concat ts))"

definition act_ok :: "tab list \<Rightarrow> tab_act \<Rightarrow> bool" where
  "act_ok h a = (case a of
      AttachBegin info \<Rightarrow> tg_TargetID info \<notin> ta_TargetID ` set h
    | AttachReply r info f \<Rightarrow> r < length h \<and> ta_TargetID (h ! r) = tg_TargetID info \<and> ta_Session (h ! r) = []
    | _ \<Rightarrow> True)"

definition world_inv :: "tab_world \<Rightarrow> bool" where
  "world_inv w \<longleftrightarrow> tab_wf (tw_ctl w) \<and> ta_TargetID ` set (tc_heap (tw_ctl w)) \<subseteq> tw_announced w \<and>
     (\<forall>a\<in>set (concat (tw_threads w)). act_ok (tc_heap (tw_ctl w)) a) \<and>
     distinct (tokens (tw_threads w)) \<and> set (tokens (tw_threads w)) \<subseteq> tw_announced w"

lemma inert_ok: "token a = [] \<Longrightarrow> act_ok h a"
  by (auto simp: token_def act_ok_def split: tab_act.splits)

lemma act_ok_keys:
  assumes "map tab_key h = map tab_key h'"
  shows "act_ok h a = act_ok h' a"
proof -
  have len: "length h = length h'" by (rule map_eq_imp_length_eq [OF assms])
  have key: "tab_key (h ! r) = tab_key (h' ! r)" if "r < length h'" for r using assms that len by (metis nth_map)
  have "ta_TargetID ` set h = (fst \<circ> snd) ` set (map tab_key h)" for h by (auto simp: tab_key_def image_iff)
  then have "ta_TargetID ` set h = ta_TargetID ` set h'" using assms by metis
  then show ?thesis using key by (auto simp: act_ok_def len tab_key_def split: tab_act.split)
qed

lemma tokens_update:
  assumes "i < length ts" "ts ! i = a # rest"
  shows "mset (tokens (ts[i := acts @ rest])) = mset (concat (map token acts)) + mset (tokens (ts[i := rest]))"
    "mset (tokens ts) = mset (token a) + mset (tokens (ts[i := rest]))"
    "set (concat (ts[i := acts @ rest])) = set acts \<union> set (concat (ts[i := rest]))" "set (concat (ts[i := rest])) \<subseteq> set (concat ts)"
proof -
  have ts: "ts = take i ts @ (a # rest) # drop (Suc i) ts" using assms by (metis id_take_nth_drop)
  have up: "ts[i := x] = take i ts @ x # drop (Suc i) ts" for x using assms(1) by (rule upd_conv_take_nth_drop)
  show "mset (tokens (ts[i := acts @ rest])) = mset (concat (map token acts)) + mset (tokens (ts[i := rest]))"
    unfolding up by simp
  show "mset (tokens ts) = mset (token a) + mset (tokens (ts[i := rest]))" unfolding up by (subst ts) simp
  show "set (concat (ts[i := acts @ rest])) = set acts \<union> set (concat (ts[i := rest]))" unfolding up by auto
  show "set (concat (ts[i := rest])) \<subseteq> set (concat ts)" unfolding up by (subst (2) ts) auto
qed

lemma frame_wf: "tab_core b' = tab_core b \<Longrightarrow> tab_wf b \<Longrightarrow> tab_wf b' \<and> map tab_key (tc_heap b') = map tab_key (tc_heap b)"
  using tab_wf_core [of b' b] by (simp add: tab_core_def)

lemma token_simps [simp]:
  "token (CaptureFrame r) = []" "token (AttachSetup r info s first) = []" "token (FinishRestore t i x) = []" "token (DropBegin t) = []"
  "token (DropRest c i) = []" "token DropEnd = []" "token (SwitchBegin i) = []" "token (SwitchReply i r g u) = []"
  "token (SwitchShow i r g u) = []" "token (ShowURL u) = []" "token (ShowFlags r) = []" "token (TitleAsk r) = []" "token (TitleReply r s u) = []"
  "token (NavState s) = []" "token (AttachBegin info) = [tg_TargetID info]" "token (AttachReply r info f) = [tg_TargetID info]"
  by (simp_all add: token_def)

lemma tokens_nav [simp]: "tokens (snd (pushNavState b)) = []"
  by (simp add: pushNavState_def split: option.split)

lemma tokens_started [simp]:
  "tokens (snd (tabNavigated env s u b)) = []" "tokens (snd (targetInfoChanged env info b)) = []" "tokens (snd (stopped_loading found b)) = []"
  "tokens (snd (show_flags env r b)) = []"
  using tokens_nav
  by (simp_all add: tabNavigated_def targetInfoChanged_def stopped_loading_def show_flags_def Let_def case_prod_unfold if_distrib [of snd]
      split: option.split del: set_concat concat_eq_Nil_conv)

lemma tokens_next [simp]:
  "concat (map token (snd (attach_setup env r info s first b))) = []" "concat (map token (snd (finish_restore t i x b))) = []"
  "concat (map token (snd (drop_begin t b))) = []" "concat (map token (snd (drop_rest wasActive n b))) = []" "concat (map token (snd (switch_begin i b))) = []"
  "concat (map token (snd (switch_reply reply i r g u b))) = []" "concat (map token (snd (switch_show i r g u b))) = []"
  "concat (map token (snd (title_ask r b))) = []" "concat (map token (snd (handleTab c b))) = []" "concat (map token (snd (attach_reply reply r info first b))) = []"
  by (auto simp: attach_setup_def finish_restore_def drop_begin_def drop_rest_def switch_begin_def switch_reply_def switch_show_def title_ask_def
      handleTab_def attach_reply_def Let_def case_prod_unfold split: option.splits tab_command.split reply.split)

lemma exec_inert:
  fixes env :: tab_env and reply :: reply
  assumes "token a = []" "tab_wf b"
  defines "x \<equiv> tab_exec env reply a b"
  shows "tab_wf (fst x) \<and> map tab_key (tc_heap (fst x)) = map tab_key (tc_heap b) \<and> concat (map token (fst (snd x))) = [] \<and> tokens (snd (snd x)) = []"
proof -
  have other: ?thesis if "tab_core (fst x) = tab_core b \<and> concat (map token (fst (snd x))) = [] \<and> tokens (snd (snd x)) = []"
    using frame_wf [OF _ assms(2)] that by blast
  show ?thesis
  proof (cases a)
    case (FinishRestore t i y)
    then show ?thesis using finishRestore_wf [OF assms(2)] by (simp add: x_def tab_exec_def case_prod_unfold)
  next
    case (DropBegin t)
    then show ?thesis using drop_begin_wf [OF assms(2)] by (simp add: x_def tab_exec_def case_prod_unfold)
  qed (rule other, use assms(1) in \<open>simp add: x_def tab_exec_def case_prod_unfold tab_frame\<close>)+
qed

lemma exec_ok:
  fixes env :: tab_env and reply :: reply
  assumes "tab_wf b" "ta_TargetID ` set (tc_heap b) \<subseteq> A" "act_ok (tc_heap b) a" "set (token a) \<subseteq> A"
  defines "x \<equiv> tab_exec env reply a b"
  shows "tab_wf (fst x)" "ta_TargetID ` set (tc_heap (fst x)) \<subseteq> A"
    "act_ok (tc_heap b) a' \<Longrightarrow> set (token a') \<inter> set (token a) = {} \<Longrightarrow> act_ok (tc_heap (fst x)) a'"
    "\<forall>a'\<in>set (fst (snd x)). act_ok (tc_heap (fst x)) a'" "concat (map token (fst (snd x))) = [] \<or> concat (map token (fst (snd x))) = token a"
    "tokens (snd (snd x)) = []"
proof -
  have inert: "\<forall>a'\<in>set acts. act_ok h a'" if "concat (map token acts) = []" for acts h using that by (simp add: inert_ok)
  have "tab_wf (fst x) \<and> ta_TargetID ` set (tc_heap (fst x)) \<subseteq> A \<and>
    (act_ok (tc_heap b) a' \<longrightarrow> set (token a') \<inter> set (token a) = {} \<longrightarrow> act_ok (tc_heap (fst x)) a') \<and>
    (\<forall>a'\<in>set (fst (snd x)). act_ok (tc_heap (fst x)) a') \<and> (concat (map token (fst (snd x))) = [] \<or> concat (map token (fst (snd x))) = token a) \<and>
    tokens (snd (snd x)) = []" for a'
  proof (cases "token a = []")
    case True
    note e = exec_inert [OF True assms(1), of env reply, folded x_def]
    then have keys: "map tab_key (tc_heap (fst x)) = map tab_key (tc_heap b)" by simp
    have "ta_TargetID ` set h = (fst \<circ> snd) ` set (map tab_key h)" for h by (auto simp: tab_key_def image_iff)
    then have "ta_TargetID ` set (tc_heap (fst x)) = ta_TargetID ` set (tc_heap b)" using keys by metis
    then show ?thesis using e inert [of "fst (snd x)"] act_ok_keys [OF keys] assms(2) by simp
  next
    case False
    then consider info where "a = AttachBegin info" | r info f where "a = AttachReply r info f" by (cases a) simp_all
    then show ?thesis
    proof cases
      case 1
      then have info: "tg_TargetID info \<notin> ta_TargetID ` set (tc_heap b)" "tg_TargetID info \<in> A" using assms(3,4) by (simp_all add: act_ok_def)
      have x: "fst x = fst (attach_begin env info b)" "fst (snd x) = snd (attach_begin env info b)" "snd (snd x) = []"
        by (simp_all add: x_def 1 tab_exec_def case_prod_unfold)
      note wf = attach_begin_wf [OF assms(1) info(1), of env]
      from wf show ?thesis unfolding x using assms(2) info 1
        by (elim conjE disjE exE) (auto simp: act_ok_def new_tab_def nth_append split: tab_act.splits)
    next
      case 2
      then have r: "r < length (tc_heap b)" "ta_TargetID (tab_at b r) = tg_TargetID info" "ta_Session (tab_at b r) = []"
        using assms(3) by (simp_all add: act_ok_def)
      have x: "fst x = fst (attach_reply reply r info f b)" "fst (snd x) = snd (attach_reply reply r info f b)" "snd (snd x) = []"
        by (simp_all add: x_def 2 tab_exec_def case_prod_unfold)
      obtain s where wf: "tab_wf (fst x)" "tc_heap (fst x) = (tc_heap b)[r := (tab_at b r)\<lparr>ta_Session := s\<rparr>]"
        using attach_reply_wf [OF assms(1) r, of reply f] unfolding x by blast
      have "map ta_TargetID (tc_heap (fst x)) = map ta_TargetID (tc_heap b)"
        unfolding wf(2) using r(1) by (intro nth_equalityI) (auto simp: nth_list_update)
      then have t: "ta_TargetID ` set (tc_heap (fst x)) = ta_TargetID ` set (tc_heap b)" by (metis set_map)
      have "act_ok (tc_heap b) a' \<Longrightarrow> set (token a') \<inter> set (token a) = {} \<Longrightarrow> act_ok (tc_heap (fst x)) a'"
      proof (cases a')
        case (AttachReply r' info' f')
        then show "act_ok (tc_heap b) a' \<Longrightarrow> set (token a') \<inter> set (token a) = {} \<Longrightarrow> act_ok (tc_heap (fst x)) a'"
          using r 2 by (cases "r = r'") (auto simp: act_ok_def wf(2))
      qed (simp_all add: act_ok_def t)
      then show ?thesis using wf(1) t assms(2) inert [of "fst (snd x)"] by (simp add: x)
    qed
  qed
  then show "tab_wf (fst x)" "ta_TargetID ` set (tc_heap (fst x)) \<subseteq> A"
    "act_ok (tc_heap b) a' \<Longrightarrow> set (token a') \<inter> set (token a) = {} \<Longrightarrow> act_ok (tc_heap (fst x)) a'"
    "\<forall>a'\<in>set (fst (snd x)). act_ok (tc_heap (fst x)) a'" "concat (map token (fst (snd x))) = [] \<or> concat (map token (fst (snd x))) = token a"
    "tokens (snd (snd x)) = []" by blast+
qed

lemma run_inv:
  assumes "world_inv w" "i < length (tw_threads w)"
  shows "world_inv (run_thread env i reply w)"
proof (cases "tw_threads w ! i")
  case Nil
  then show ?thesis using assms by (simp add: run_thread_def)
next
  case (Cons a rest)
  let ?ts = "tw_threads w" and ?b = "tw_ctl w"
  obtain b acts started where x: "tab_exec env reply a ?b = (b, acts, started)" by (metis prod_cases3)
  note up = tokens_update [OF assms(2) Cons]
  have a: "a \<in> set (concat ?ts)" using Cons assms(2) by (metis list.set_intros(1) nth_mem set_concat UN_I)
  note inv = assms(1) [unfolded world_inv_def]
  have ta: "set (token a) \<subseteq> tw_announced w" using inv a by (auto simp del: set_concat simp: set_concat [of "map _ _"])
  have ok: "tab_wf b" "ta_TargetID ` set (tc_heap b) \<subseteq> tw_announced w" "\<forall>a'\<in>set acts. act_ok (tc_heap b) a'"
    "concat (map token acts) = [] \<or> concat (map token acts) = token a" "tokens started = []"
    "\<And>a'. act_ok (tc_heap ?b) a' \<Longrightarrow> set (token a') \<inter> set (token a) = {} \<Longrightarrow> act_ok (tc_heap b) a'"
    using exec_ok [where b = ?b and A = "tw_announced w" and a = a and env = env and reply = reply] inv a ta unfolding x fst_conv snd_conv by blast+
  have d: "distinct (token a @ tokens (?ts[i := rest]))"
    using inv up(2) by (metis mset_append mset_eq_imp_distinct_iff)
  have others: "act_ok (tc_heap b) a'" if "a' \<in> set (concat (?ts[i := rest]))" for a'
  proof (rule ok(6))
    show "act_ok (tc_heap ?b) a'" using inv that up(4) by blast
    have "set (token a') \<subseteq> set (tokens (?ts[i := rest]))" using that by auto
    then show "set (token a') \<inter> set (token a) = {}" using d by (auto simp del: set_concat)
  qed
  note acts = ok(3,4,5,1,2)
  have ms: "mset (tokens (?ts[i := acts @ rest] @ started)) = mset (concat (map token acts)) + mset (tokens (?ts[i := rest]))"
    using up(1) [of acts] acts(3) by simp
  have "distinct (tokens (?ts[i := acts @ rest] @ started))"
    using acts(2) d ms by (metis distinct_append mset_append mset_eq_imp_distinct_iff append_Nil)
  moreover have "set (tokens (?ts[i := acts @ rest] @ started)) \<subseteq> tw_announced w"
  proof -
    have "set (tokens (?ts[i := acts @ rest] @ started)) \<subseteq> set (token a) \<union> set (tokens (?ts[i := rest]))"
    proof -
      have "set (tokens (?ts[i := acts @ rest] @ started)) = set (concat (map token acts)) \<union> set (tokens (?ts[i := rest]))"
        using arg_cong [OF ms, of set_mset] by (simp only: set_mset_mset set_mset_union)
      then show ?thesis using acts(2) by (elim disjE) (simp_all only: set_append list.set(1), blast+)
    qed
    moreover have "set (tokens (?ts[i := rest])) \<subseteq> set (tokens ?ts)"
      using arg_cong [OF up(2), of set_mset] by (simp only: set_mset_mset set_mset_union Un_upper2)
    ultimately show ?thesis using ta inv by blast
  qed
  moreover have "act_ok (tc_heap b) a'" if "a' \<in> set (concat (?ts[i := acts @ rest] @ started))" for a'
  proof -
    from that consider "a' \<in> set acts" | "a' \<in> set (concat (?ts[i := rest]))" | "a' \<in> set (concat started)"
      unfolding concat_append set_append up(3) by blast
    then show ?thesis using acts(1,3) others by cases (auto intro!: inert_ok)
  qed
  ultimately show ?thesis
    using acts(4,5) unfolding world_inv_def by (simp add: run_thread_def Cons x del: set_concat map_append concat_append)
qed

lemma start_inv:
  assumes "world_inv w" "tab_wf b" "map tab_key (tc_heap b) = map tab_key (tc_heap (tw_ctl w))" "tokens started = []"
  shows "world_inv (start_threads (b, started) w)"
proof -
  have "ta_TargetID ` set h = (fst \<circ> snd) ` set (map tab_key h)" for h by (auto simp: tab_key_def image_iff)
  then have "ta_TargetID ` set (tc_heap b) = ta_TargetID ` set (tc_heap (tw_ctl w))" using assms(3) by metis
  moreover have "\<forall>a\<in>set (concat started). act_ok h a" for h using assms(4) by (auto intro!: inert_ok)
  moreover have "tokens (tw_threads w @ started) = tokens (tw_threads w)" by (simp only: concat_append map_append assms(4) append_Nil2)
  ultimately show ?thesis
    using assms(1,2) unfolding world_inv_def start_threads_def by (simp add: act_ok_keys [OF assms(3)] ball_Un del: map_append)
qed

lemma start_frame:
  assumes "world_inv w" "tab_core b = tab_core (tw_ctl w)" "tokens started = []"
  shows "world_inv (start_threads (b, started) w)"
proof -
  have "tab_wf (tw_ctl w)" using assms(1) by (simp add: world_inv_def)
  then show ?thesis using start_inv [OF assms(1) _ _ assms(3)] frame_wf [OF assms(2)] by blast
qed

lemma set_ctl: "w\<lparr>tw_ctl := b\<rparr> = start_threads (b, []) w"
  by (simp add: start_threads_def)

lemma event_inv:
  assumes "world_inv w" "\<forall>info. ev \<noteq> TargetCreated info"
  shows "world_inv (start_threads (onEvent env ev (tw_ctl w)) w)"
proof -
  let ?x = "onEvent env ev (tw_ctl w)"
  have wf: "tab_wf (tw_ctl w)" using assms(1) by (simp add: world_inv_def)
  have frame: "world_inv (start_threads ?x w)" if "tab_core (fst ?x) = tab_core (tw_ctl w) \<and> tokens (snd ?x) = []"
    using start_frame [OF assms(1), of "fst ?x" "snd ?x"] that by simp
  show ?thesis
  proof (cases ev)
    case (AttachedToTarget p c)
    have "tc_heap (onEditableTargetAttached p c (tw_ctl w)) = tc_heap (tw_ctl w)"
      by (simp add: onEditableTargetAttached_def split: option.split)
    then show ?thesis using start_inv [OF assms(1) editable_wf(1) [OF wf, of p c], of "[]"] by (simp add: AttachedToTarget)
  next
    case (DetachedFromTarget c)
    have "tc_heap (onEditableTargetDetached c (tw_ctl w)) = tc_heap (tw_ctl w)"
      by (simp add: onEditableTargetDetached_def split: option.split)
    then show ?thesis using start_inv [OF assms(1) editable_wf(2) [OF wf, of c], of "[]"] by (simp add: DetachedFromTarget)
  next
    case (FrameNavigated s f p u)
    show ?thesis
      by (rule frame) (simp add: FrameNavigated case_prod_unfold Let_def tab_frame del: concat_eq_Nil_conv)
  qed (rule frame, use assms(2) in \<open>simp add: tab_frame del: concat_eq_Nil_conv split: option.split\<close>)+
qed

lemma move_inv:
  assumes "world_inv w" "tab_move_ok w m"
  shows "world_inv (tab_move_step env m w)"
proof (cases m)
  case (Event ev)
  show ?thesis
  proof (cases "\<exists>info. ev = TargetCreated info")
    case True
    then obtain info where ev: "ev = TargetCreated info" by blast
    have "tg_TargetID info \<notin> tw_announced w" using assms(2) by (simp add: Event ev tab_move_ok_def)
    moreover have "tokens (tw_threads w @ [[AttachBegin info]]) = tokens (tw_threads w) @ [tg_TargetID info]" by simp
    moreover have "act_ok (tc_heap (tw_ctl w)) (AttachBegin info) \<longleftrightarrow> tg_TargetID info \<notin> ta_TargetID ` set (tc_heap (tw_ctl w))"
      by (simp add: act_ok_def)
    ultimately show ?thesis using assms(1)
      unfolding world_inv_def tab_move_step_def Event ev start_threads_def
      by (cases "tg_Type info = ''page''") (simp_all del: map_append, blast+)
  next
    case False
    then show ?thesis using event_inv [OF assms(1), of ev env] by (cases ev) (simp_all add: tab_move_step_def Event)
  qed
next
  case (Run i reply)
  then show ?thesis using run_inv [OF assms(1)] assms(2) by (simp add: tab_move_step_def tab_move_ok_def)
next
  case (TabCommand c)
  show ?thesis using start_frame [OF assms(1), of "fst (handleTab c (tw_ctl w))" "[snd (handleTab c (tw_ctl w))]"]
    by (simp add: tab_move_step_def TabCommand case_prod_unfold tab_frame del: concat_eq_Nil_conv)
qed (simp_all add: tab_move_step_def set_ctl Let_def case_prod_unfold, (rule start_frame [OF assms(1)], simp add: tab_frame, simp)+)

section \<open>Starting\<close>

lemma begin_wf:
  assumes "tc_heap b = []" "tc_tabs b = Map.empty" "tc_byTarget b = Map.empty" "tc_bySession b = Map.empty" "tc_seq b = 0" "tc_restoreOrder b = Map.empty"
  shows "tab_wf b" "tab_wf (beginRestore ts act b)" "tc_heap (beginRestore ts act b) = []"
proof -
  show "tab_wf b" by (simp add: tab_wf_def assms)
  let ?z = "zip (map tg_TargetID ts) (map int [1..<Suc (length ts)])"
  let ?m = "map_of (rev ?z)"
  have d: "distinct (map snd ?z)" by (simp add: distinct_map del: upt_Suc)
  have m: "(t, i) \<in> set ?z" if "?m t = Some i" for t i using map_of_SomeD [OF that] by simp
  have "0 < i \<and> i \<le> int (length ts)" if "?m t = Some i" for t i using set_zip_rightD [OF m [OF that]] by auto
  moreover have "t = t'" if "?m t = Some i" "?m t' = Some i" for t t' i
    using d m [OF that(1)] m [OF that(2)] by (metis distinct_map inj_onD fst_conv snd_conv)
  ultimately show "tab_wf (beginRestore ts act b)" by (auto simp: tab_wf_def beginRestore_def assms)
  show "tc_heap (beginRestore ts act b) = []" by (simp add: beginRestore_def assms)
qed

lemma NewTabs_fields:
  "tc_heap (NewTabs f st now) = []" "tc_tabs (NewTabs f st now) = Map.empty" "tc_byTarget (NewTabs f st now) = Map.empty"
  "tc_bySession (NewTabs f st now) = Map.empty" "tc_seq (NewTabs f st now) = 0" "tc_restoreOrder (NewTabs f st now) = Map.empty"
  by (simp_all add: NewTabs_def)

definition starts :: "tab_ctl \<Rightarrow> tab_ctl \<Rightarrow> bool" where
  "starts b b' \<longleftrightarrow> tab_core b' = tab_core b \<or> (\<exists>ts act b''. tab_core b'' = tab_core b \<and> b' = beginRestore ts act b'')"

lemma starts_intros:
  "tab_core b' = tab_core b \<Longrightarrow> starts b b'" "tab_core b'' = tab_core b \<Longrightarrow> starts b (beginRestore ts act b'')"
  by (auto simp: starts_def)

lemma starts_prepare: "starts b (prepareStartupSession found answer b)"
  unfolding prepareStartupSession_def Let_def case_prod_unfold comp_def
  by (simp add: starts_intros tab_frame split: option.split)

lemma starts_handoff: "starts b (fst (restoreHandoff found answer activated s [beginRestore] b))"
  unfolding restoreHandoff_def Let_def case_prod_unfold comp_def
  by (simp add: starts_intros tab_frame split: option.split)

lemma start_world:
  assumes "starts b b'" "tab_core b = tab_core (NewTabs f st now)"
  shows "world_inv \<lparr>tw_ctl = b', tw_threads = [], tw_announced = A\<rparr>"
proof -
  have empty: "tab_wf c \<and> tab_wf (beginRestore ts act c) \<and> tc_heap c = [] \<and> tc_heap (beginRestore ts act c) = []" if "tab_core c = tab_core b" for c ts act
  proof -
    have "tab_core c = ([], Map.empty, Map.empty, Map.empty, 0, Map.empty)" using that assms(2) by (simp add: tab_core_def NewTabs_fields)
    then show ?thesis using begin_wf [where b = c] by (simp add: tab_core_def)
  qed
  then have "tab_wf b' \<and> tc_heap b' = []" using assms(1) unfolding starts_def by blast
  then show ?thesis by (simp add: world_inv_def)
qed

lemma reach_inv_world: "tab_reach n w \<Longrightarrow> world_inv w"
proof (induction rule: tab_reach.induct)
  case (fresh f st now)
  show ?case by (rule start_world [OF starts_intros(1) refl]) simp
next
  case (native found answer f st now)
  show ?case by (rule start_world [OF starts_prepare refl])
next
  case (handoff b f st now found answer activated)
  show ?case by (rule start_world [OF starts_handoff]) (simp add: handoff tab_frame)
next
  case (move n w m env)
  then show ?case by (rule_tac move_inv)
qed

text \<open>
  C8 (invariant). The tab registry is consistent under every interleaving of the goroutines that attach, drop and activate targets and of the
  events and commands: the maps by number and by target describe the same tabs, each under its own number and target; numbers
  are positive and never given twice, also to restored tabs; and every session belongs to a tab that is
  open, so that no event of a closed tab is ever applied.
\<close>
theorem tab_registry_consistent:
  assumes "tab_reach n w"
  defines "b \<equiv> tw_ctl w"
  shows "(tc_tabs b i = Some r \<longleftrightarrow> r < length (tc_heap b) \<and> ta_ID (tab_at b r) = i \<and> tc_byTarget b (ta_TargetID (tab_at b r)) = Some r) \<and>
    (tc_byTarget b t = Some r \<longrightarrow> ta_TargetID (tab_at b r) = t \<and> tc_tabs b (ta_ID (tab_at b r)) = Some r) \<and>
    (tc_bySession b s = Some r \<longrightarrow> tc_tabs b (ta_ID (tab_at b r)) = Some r) \<and>
    (tc_tabs b i = Some r \<longrightarrow> 0 < i \<and> i \<le> tc_seq b) \<and> distinct (map ta_ID (tc_heap b))"
proof -
  have wf: "tab_wf b" using reach_inv_world [OF assms(1)] by (simp add: world_inv_def b_def)
  note d = tab_wfD [OF wf]
  have "0 < i \<and> i \<le> tc_seq b" if "tc_tabs b i = Some r" using d(1) [OF that] d(6) [of "tab_at b r"] by auto
  moreover have "distinct (map ta_ID (tc_heap b))" using wf by (simp add: tab_wf_def)
  ultimately show ?thesis using d(1) [of i r] d(2) [of _ r] d(3) [of s r] by blast
qed

fun tab_run :: "tab_env \<Rightarrow> tab_move list \<Rightarrow> tab_world \<Rightarrow> tab_world option" where
  "tab_run env [] w = Some w"
| "tab_run env (m # ms) w = (if tab_move_ok w m then tab_run env ms (tab_move_step env m w) else None)"

lemma tab_run_reach: "tab_run env ms w = Some w' \<Longrightarrow> tab_reach n w \<Longrightarrow> tab_reach (n + length ms) w'"
proof (induction ms arbitrary: w n)
  case (Cons m ms)
  then have "tab_reach (Suc n) (tab_move_step env m w)" "tab_run env ms (tab_move_step env m w) = Some w'"
    by (auto split: if_splits intro: tab_reach.move)
  then show ?case using Cons.IH by fastforce
qed simp

definition plain_env :: tab_env where
  "plain_env = \<lparr>te_parse = (\<lambda>_. None), te_icon = (\<lambda>_. []), te_history = (\<lambda>_. None), te_now = 10 * second, te_stamp = 0, te_writable = True,
     te_StartURL = ''https://start''\<rparr>"

definition empty_store :: store where
  "empty_store = NewStore (\<lambda>_. 100) \<lparr>pd_history = None, pd_bookmarks = None\<rparr>"

definition one_page :: tab_world where
  \<comment> \<open>a first page is being attached\<close>
  "one_page = tab_move_step plain_env (Run 0 Failed) (tab_move_step plain_env (Event (TargetCreated (page_at ''a'' ''https://a'')))
     \<lparr>tw_ctl = NewTabs Missing empty_store 0, tw_threads = [], tw_announced = {}\<rparr>)"

lemma one_page_reach: "tab_reach 2 one_page"
proof -
  have "tab_run plain_env [Event (TargetCreated (page_at ''a'' ''https://a'')), Run 0 Failed]
      \<lparr>tw_ctl = NewTabs Missing empty_store 0, tw_threads = [], tw_announced = {}\<rparr> = Some one_page"
    by (simp add: one_page_def tab_move_ok_def) (simp add: tab_move_step_def start_threads_def page_at_def)
  from tab_run_reach [OF this tab_reach.fresh] show ?thesis by (simp add: numeral_2_eq_2)
qed

lemma one_page_tabs: "tc_tabs (tw_ctl one_page) 1 = Some 0" "ta_TargetID (tab_at (tw_ctl one_page) 0) = ''a''"
  by (simp_all add: one_page_def tab_move_step_def start_threads_def page_at_def run_thread_def tab_exec_def attach_begin_def NewTabs_def
      Let_def new_tab_def call_def has_real_page_def plain_env_def time_sub_def)

theorem tab_registry_consistent_witness: "tc_byTarget (tw_ctl one_page) ''a'' = Some 0"
  using tab_registry_consistent [OF one_page_reach, of 1 0] one_page_tabs by auto

section \<open>When no tab is active\<close>

text \<open>Two tabs that close at once can leave the strip without an active tab: the successor of the active tab is chosen before
  the other one goes, and activating a tab that is gone does nothing.\<close>
lemma closing_two_tabs_loses_focus:
  assumes "tab_wf b" "tc_byTarget b t = Some r" "tc_activeID b = ta_ID (tab_at b r)"
  defines "b1 \<equiv> fst (drop_begin t b)" and "n \<equiv> newest_tab (fst (drop_begin t b))"
  assumes "tc_tabs b1 n = Some r'" "n \<noteq> 0"
  defines "b2 \<equiv> fst (drop_begin (ta_TargetID (tab_at b1 r')) b1)"
  shows "snd (drop_begin t b) = [FinishRestore t 0 None, DropRest True n]"
    and "\<exists>n'. snd (drop_begin (ta_TargetID (tab_at b1 r')) b1) = [FinishRestore (ta_TargetID (tab_at b1 r')) 0 None, DropRest False n']"
    and "snd (drop_rest True n b2) = [SwitchBegin n, DropEnd]"
    and "snd (switch_begin n b2) = [] \<and> tc_activeID (fst (switch_begin n b2)) = 0"
proof -
  show 1: "snd (drop_begin t b) = [FinishRestore t 0 None, DropRest True n]"
    using assms(2,3) by (simp add: n_def drop_begin_def Let_def)
  have a: "tc_activeID b1 = 0" using assms(2,3) by (simp add: b1_def drop_begin_def Let_def)
  have wf: "tab_wf b1" using drop_begin_wf [OF assms(1)] by (simp add: b1_def)
  note r' = tab_wfD(1) [OF wf assms(6)]
  have n: "ta_ID (tab_at b1 r') = n" "0 \<noteq> n" using r' assms(7) by simp_all
  show "\<exists>n'. snd (drop_begin (ta_TargetID (tab_at b1 r')) b1) = [FinishRestore (ta_TargetID (tab_at b1 r')) 0 None, DropRest False n']"
    using r' n a by (simp add: drop_begin_def Let_def)
  show "snd (drop_rest True n b2) = [SwitchBegin n, DropEnd]" using assms(7) by (simp add: drop_rest_def)
  have "tc_tabs b2 n = None \<and> tc_activeID b2 = 0" using r' n a by (simp add: b2_def drop_begin_def Let_def)
  then show "snd (switch_begin n b2) = [] \<and> tc_activeID (fst (switch_begin n b2)) = 0"
    by (simp add: switch_begin_def call_def Let_def)
qed

text \<open>A restored tab that closes before the rest of its batch is ready is still the one the batch activates, so that nothing is.\<close>
lemma restoration_activates_closed_tab:
  fixes j :: int and otherwise :: "int option"
  assumes "tc_restorePending b = {t}" "t \<noteq> tc_restoreActiveTarget b" "tc_restoreActiveID b = i" "i \<noteq> 0" "tc_tabs b i = None"
  defines "b' \<equiv> fst (finish_restore t j otherwise b)"
  shows "snd (finish_restore t j otherwise b) = [SwitchBegin i] \<and> snd (switch_begin i b') = [] \<and> tc_activeID (fst (switch_begin i b')) = tc_activeID b"
  using assms(1-5) by (simp add: b'_def finish_restore_def finishRestoreTarget_def Let_def switch_begin_def call_def)

lemma saving_frame [simp]:
  "tc_sessionTimer (call c b) = tc_sessionTimer b" "tc_file (call c b) = tc_file b" "tc_heap (call c b) = tc_heap b" "tc_byTarget (call c b) = tc_byTarget b"
  "tc_sessionTimer (broadcast e b) = tc_sessionTimer b" "tc_file (broadcast e b) = tc_file b" "tc_heap (broadcast e b) = tc_heap b"
  "tc_sessionTimer (broadcastTabs env b) = tc_sessionTimer b" "tc_file (broadcastTabs env b) = tc_file b" "tc_heap (broadcastTabs env b) = tc_heap b"
  "tc_sessionTimer (onURLChanged env u b) = tc_sessionTimer b" "tc_file (onURLChanged env u b) = tc_file b" "tc_heap (onURLChanged env u b) = tc_heap b"
  "tc_sessionTimer (store_title u x b) = tc_sessionTimer b"
  "tc_sessionTimer (fst (pushNavState b)) = tc_sessionTimer b" "tc_file (fst (pushNavState b)) = tc_file b" "tc_heap (fst (pushNavState b)) = tc_heap b"
  "tc_sessionTimer (set_tab r f b) = tc_sessionTimer b" "tc_file (set_tab r f b) = tc_file b" "length (tc_heap (set_tab r f b)) = length (tc_heap b)"
  by (simp_all add: call_def broadcast_def broadcastTabs_def onURLChanged_def store_title_def pushNavState_def set_tab_def split: option.split)

text \<open>A navigation seen first by \<^verbatim>\<open>Page.frameNavigated\<close> is not saved: the address of the tab changes and no save is scheduled, and the
  \<^verbatim>\<open>Target.targetInfoChanged\<close> that follows finds nothing changed.\<close>
lemma navigation_not_saved:
  fixes env :: tab_env
  assumes "tc_bySession b s = Some r" "r < length (tc_heap b)" "url \<noteq> []" "ta_URL (tab_at b r) \<noteq> url" "\<not> has_prefix url ''chrome-error://''"
  defines "b' \<equiv> fst (tabNavigated env s url b)"
  shows "ta_URL (tab_at b' r) = url \<and> tc_sessionTimer b' = tc_sessionTimer b \<and> tc_file b' = tc_file b \<and>
     (tc_byTarget b' (tg_TargetID info) = Some r \<longrightarrow> tg_URL info = url \<longrightarrow> tc_sessionTimer (fst (targetInfoChanged env info b')) = tc_sessionTimer b)"
proof -
  have u: "ta_URL (tab_at b' r) = url" using assms(1-5)
    by (simp add: b'_def tabNavigated_def Let_def case_prod_unfold) (simp add: set_tab_def)
  moreover have s: "tc_sessionTimer b' = tc_sessionTimer b" "tc_file b' = tc_file b" using assms(1,3-5)
    by (simp_all add: b'_def tabNavigated_def Let_def case_prod_unfold)
  moreover have "tc_sessionTimer (fst (targetInfoChanged env info b')) = tc_sessionTimer b" if "tc_byTarget b' (tg_TargetID info) = Some r" "tg_URL info = url"
    using that u s(1) by (simp add: targetInfoChanged_def Let_def)
  ultimately show ?thesis by blast
qed

end
