(* ===== verification/Tab_Loading.thy ===== *)
theory Tab_Loading
  imports Tab_Registry
begin

text \<open>
  The loading state of the tabs: every timer that was set for a load carries a generation the tab has left behind as soon as
  a newer load starts, so that it can only end its own.
\<close>

named_theorems load_frame "operations that leave generations and timers alone"

definition load_core :: "tab_ctl \<Rightarrow> uint64 list \<times> (nat \<times> uint64) list" where
  "load_core b = (map ta_loadingGeneration (tc_heap b), tc_loadingTimers b)"

definition load_inv :: "nat \<Rightarrow> tab_ctl \<Rightarrow> bool" where
  "load_inv k b \<longleftrightarrow> (\<forall>t\<in>set (tc_heap b). unat (ta_loadingGeneration t) \<le> k) \<and>
     (\<forall>(r, g)\<in>set (tc_loadingTimers b). r < length (tc_heap b) \<and> unat g \<le> unat (ta_loadingGeneration (tab_at b r)))"

lemma load_inv_core:
  assumes "load_core b' = load_core b" "load_inv k b"
  shows "load_inv k b'"
proof -
  have gens: "map ta_loadingGeneration (tc_heap b') = map ta_loadingGeneration (tc_heap b)" and timers: "tc_loadingTimers b' = tc_loadingTimers b"
    using assms(1) by (simp_all add: load_core_def)
  have len: "length (tc_heap b') = length (tc_heap b)" by (rule map_eq_imp_length_eq [OF gens])
  have "ta_loadingGeneration (tab_at b' r) = ta_loadingGeneration (tab_at b r)" if "r < length (tc_heap b)" for r
    using gens that len by (metis nth_map)
  then show ?thesis using assms(2) by (auto simp: load_inv_def all_set_conv_all_nth len timers split: prod.splits)
qed

lemma load_inv_mono: "load_inv k b \<Longrightarrow> k \<le> k' \<Longrightarrow> load_inv k' b"
  by (auto simp: load_inv_def)

section \<open>Operations outside it\<close>

lemma load_core_fields [load_frame]:
  "load_core (b\<lparr>tc_tabs := ts\<rparr>) = load_core b" "load_core (b\<lparr>tc_byTarget := bt\<rparr>) = load_core b" "load_core (b\<lparr>tc_bySession := bs\<rparr>) = load_core b"
  "load_core (b\<lparr>tc_activeID := i\<rparr>) = load_core b" "load_core (b\<lparr>tc_activeGen := g\<rparr>) = load_core b"
  "load_core (b\<lparr>tc_mobile := m\<rparr>) = load_core b" "load_core (b\<lparr>tc_dark := m\<rparr>) = load_core b" "load_core (b\<lparr>tc_restoreOrder := ro\<rparr>) = load_core b"
  "load_core (b\<lparr>tc_restorePending := p\<rparr>) = load_core b" "load_core (b\<lparr>tc_restoreActiveTarget := x\<rparr>) = load_core b"
  "load_core (b\<lparr>tc_restoreActiveID := i\<rparr>) = load_core b" "load_core (b\<lparr>tc_sessionTimer := st\<rparr>) = load_core b"
  "load_core (b\<lparr>tc_sessionTimerGen := g\<rparr>) = load_core b" "load_core (b\<lparr>tc_store := s\<rparr>) = load_core b"
  "load_core (b\<lparr>tc_file := f\<rparr>) = load_core b" "load_core (b\<lparr>tc_calls := cs\<rparr>) = load_core b"
  by (simp_all add: load_core_def)

lemma load_core_basic [load_frame]:
  "load_core (call c b) = load_core b" "load_core (broadcast ev b) = load_core b" "load_core (scheduleSessionSave b) = load_core b"
  "load_core (broadcastTabs env b) = load_core b" "load_core (onURLChanged env u b) = load_core b" "load_core (store_title u t b) = load_core b"
  "load_core (fst (pushNavState b)) = load_core b" "load_core (nav_state env s b) = load_core b" "load_core (runScheduledSessionSave d g b) = load_core b"
  "load_core (drop_end env b) = load_core b" "load_core (onEditableTargetAttached p ch b) = load_core b"
  "load_core (onEditableTargetDetached ch b) = load_core b"
  by (simp_all add: call_def broadcast_def scheduleSessionSave_def broadcastTabs_def onURLChanged_def store_title_def drop_end_def
      pushNavState_def nav_state_def runScheduledSessionSave_def SaveSession_def onEditableTargetAttached_def onEditableTargetDetached_def Let_def load_frame
      split: option.split prod.split)

lemma load_core_set_tab [load_frame]:
  assumes "\<And>t. ta_loadingGeneration (f t) = ta_loadingGeneration t"
  shows "load_core (set_tab r f b) = load_core b"
  by (cases "r < length (tc_heap b)") (simp_all add: load_core_def set_tab_def map_update assms list_update_same_conv list_update_beyond)

lemma load_core_pages [load_frame]:
  "load_core (snd (rememberMainFrame s f b)) = load_core b" "load_core (captureMainFrame reply r b) = load_core b"
  "load_core (title_reply env reply r s u b) = load_core b" "load_core (onSecurityStateChanged s u b) = load_core b"
  "load_core (onFullscreenBinding s on b) = load_core b" "load_core (fst (targetInfoChanged env info b)) = load_core b"
  by (simp_all add: rememberMainFrame_def captureMainFrame_def title_reply_def onSecurityStateChanged_def onFullscreenBinding_def targetInfoChanged_def
      Let_def case_prod_unfold load_frame if_distrib [of fst] if_distrib [of load_core] split: option.split reply.split)

lemma load_core_tabs [load_frame]:
  "load_core (fst (switch_begin i b)) = load_core b" "load_core (fst (switch_reply reply i r g u b)) = load_core b"
  "load_core (fst (switch_show i r g u b)) = load_core b" "load_core (fst (show_flags env r b)) = load_core b"
  "load_core (fst (drop_rest wasActive n b)) = load_core b" "load_core (fst (attach_setup env r info s first b)) = load_core b"
  "load_core (fst (title_ask r b)) = load_core b" "load_core (fst (handleTab c b)) = load_core b" "load_core (fst (drop_begin t b)) = load_core b"
  "load_core (fst (finish_restore t j x b)) = load_core b" "load_core (fst (attach_reply reply r info first b)) = load_core b"
  by (simp_all add: switch_begin_def switch_reply_def switch_show_def show_flags_def drop_rest_def attach_setup_def title_ask_def handleTab_def
      drop_begin_def finish_restore_def finishRestoreTarget_def attach_reply_def Let_def case_prod_unfold load_frame if_distrib [of load_core]
      split: option.split tab_command.split reply.split)

lemma load_core_fold_call [load_frame]: "load_core (fold (\<lambda>x. call (f x)) xs b) = load_core b"
  by (induction xs arbitrary: b) (simp_all add: load_frame)

lemma load_core_layout [load_frame]: "load_core (handleMobileLayout on b) = load_core b" "load_core (handleDarkMode on b) = load_core b"
  by (simp_all add: handleMobileLayout_def handleDarkMode_def Let_def load_frame comp_def if_distrib [of load_core] split: option.split)

section \<open>Operations on it\<close>

lemma bump_inv:
  assumes "load_inv k b" "Suc k < 2 ^ 64" "r < length (tc_heap b)"
  shows "load_inv (Suc k) (set_tab r (\<lambda>t. t\<lparr>ta_loading := on, ta_loadingGeneration := ta_loadingGeneration t + 1\<rparr>) b)"
    "unat (ta_loadingGeneration (tab_at b r) + 1) = Suc (unat (ta_loadingGeneration (tab_at b r)))"
proof -
  have "unat (ta_loadingGeneration (tab_at b r)) \<le> k" using assms(1,3) by (simp add: load_inv_def)
  then have "unat (ta_loadingGeneration (tab_at b r)) + 1 < 2 ^ LENGTH(64)" using assms(2) by simp
  then show u: "unat (ta_loadingGeneration (tab_at b r) + 1) = Suc (unat (ta_loadingGeneration (tab_at b r)))"
    by (simp add: unat_word_ariths(1))
  show "load_inv (Suc k) (set_tab r (\<lambda>t. t\<lparr>ta_loading := on, ta_loadingGeneration := ta_loadingGeneration t + 1\<rparr>) b)"
    using assms(1,3) u by (auto simp: load_inv_def set_tab_def all_set_conv_all_nth nth_list_update split: prod.splits)
qed

lemma setTabLoading_inv:
  assumes "load_inv k b" "Suc k < 2 ^ 64" "tab_wf b"
  shows "load_inv (Suc k) (setTabLoading r on b)"
proof (cases "tc_tabs b (ta_ID (tab_at b r)) = Some r")
  case False
  then show ?thesis using load_inv_mono [OF assms(1)] by (simp add: setTabLoading_def)
next
  case True
  then have r: "r < length (tc_heap b)" using tab_wfD(1) [OF assms(3)] by blast
  let ?b = "set_tab r (\<lambda>t. t\<lparr>ta_loading := on, ta_loadingGeneration := ta_loadingGeneration t + 1\<rparr>) b"
  let ?c = "if ta_ID (tab_at ?b r) = tc_activeID ?b then broadcast (LoadingEvent on) ?b else ?b"
  have "load_core ?c = load_core ?b" by (simp add: load_frame)
  then have c: "load_inv (Suc k) ?c" by (rule load_inv_core [OF _ bump_inv(1) [OF assms(1,2) r]])
  have "load_inv (Suc k) (scheduleTabLoadingGeneration r (ta_loadingGeneration (tab_at ?b r)) ?c)"
    using c r unfolding load_inv_def scheduleTabLoadingGeneration_def by (simp add: set_tab_def)
  moreover have "setTabLoading r on b = (if on then scheduleTabLoadingGeneration r (ta_loadingGeneration (tab_at ?b r)) ?c else ?c)"
    by (simp add: setTabLoading_def Let_def True split del: if_split)
  ultimately show ?thesis using c by (cases on) (simp_all split del: if_split)
qed

lemma completion_inv:
  assumes "load_inv k b" "tab_wf b"
  shows "load_inv k (scheduleTabLoadingCompletion r b)"
  using assms tab_wfD(1) [OF assms(2), of "ta_ID (tab_at b r)" r]
  by (auto simp: scheduleTabLoadingCompletion_def scheduleTabLoadingGeneration_def load_inv_def)

lemma loading_timer_inv:
  assumes "load_inv k b" "Suc k < 2 ^ 64" "tab_wf b"
  shows "load_inv (Suc k) (loading_timer r g b)"
proof (cases "tc_tabs b (ta_ID (tab_at b r)) \<noteq> Some r \<or> \<not> ta_loading (tab_at b r) \<or> ta_loadingGeneration (tab_at b r) \<noteq> g")
  case True
  then show ?thesis using load_inv_mono [OF assms(1)] by (simp add: loading_timer_def finishTabLoadingGeneration_def)
next
  case False
  then have r: "r < length (tc_heap b)" using tab_wfD(1) [OF assms(3)] by blast
  show ?thesis
    by (rule load_inv_core [OF _ bump_inv(1) [OF assms(1,2) r, of False]]) (use False in \<open>simp add: loading_timer_def finishTabLoadingGeneration_def load_frame\<close>)
qed

lemma page_inv:
  assumes "load_inv k b" "Suc k < 2 ^ 64" "tab_wf b"
  shows "load_inv (Suc k) (noteNavigationError r b)" "load_inv (Suc k) (fst (tabNavigated env s u b))" "load_inv (Suc k) (fst (stopped_loading found b))"
proof -
  show n: "load_inv (Suc k) (noteNavigationError r b)" for r
    by (rule load_inv_core [OF _ setTabLoading_inv [OF assms, of r False]]) (simp add: noteNavigationError_def Let_def load_frame)
  show "load_inv (Suc k) (fst (tabNavigated env s u b))"
  proof (cases "\<exists>r. tc_bySession b s = Some r \<and> \<not> (u = [] \<or> ta_URL (tab_at b r) = u) \<and> has_prefix u ''chrome-error://''")
    case True
    then obtain r where "fst (tabNavigated env s u b) = noteNavigationError r b" by (auto simp: tabNavigated_def)
    then show ?thesis using n by simp
  next
    case False
    then have "load_core (fst (tabNavigated env s u b)) = load_core b"
      by (cases "tc_bySession b s") (auto simp: tabNavigated_def Let_def case_prod_unfold load_frame if_distrib [of fst] if_distrib [of load_core])
    then show ?thesis using load_inv_mono [OF load_inv_core [OF _ assms(1)]] by simp
  qed
  show "load_inv (Suc k) (fst (stopped_loading found b))"
  proof (cases "fst found")
    case None
    then show ?thesis using load_inv_mono [OF assms(1)] by (simp add: stopped_loading_def case_prod_unfold)
  next
    case (Some r)
    show ?thesis
      by (rule load_inv_core [OF _ setTabLoading_inv [OF assms, of r False]])
        (simp add: stopped_loading_def Let_def case_prod_unfold Some load_frame if_distrib [of fst] if_distrib [of load_core])
  qed
qed

lemma nav_inv:
  assumes "load_inv k b" "Suc (Suc k) < 2 ^ 64" "tab_wf b"
  shows "load_inv (Suc (Suc k)) (handle_nav sent c b)"
proof (cases "active b")
  case None
  then show ?thesis using load_inv_mono [OF assms(1)] by (simp add: handle_nav_def)
next
  case (Some r)
  have k: "Suc k < 2 ^ 64" using assms(2) by simp
  have call: "load_inv j (call x d)" "tab_wf (call x d)" if "load_inv j d" "tab_wf d" for j x d
    using that load_inv_core [of "call x d" d j] tab_wf_core [of "call x d" d] by (simp_all add: load_frame tab_frame)
  have wf: "tab_wf (setTabLoading r on d)" if "tab_wf d" for on d by (rule tab_wf_core [OF _ that]) (simp add: tab_frame)
  have up: "load_inv (Suc (Suc k)) d" if "load_inv (Suc k) d \<or> load_inv k d" for d using that load_inv_mono by fastforce
  have on: "load_inv (Suc k) (call x (setTabLoading r True b))" "tab_wf (call x (setTabLoading r True b))" for x
    by (rule call setTabLoading_inv assms wf k)+
  then have off: "load_inv (Suc (Suc k)) (setTabLoading r False (call x (setTabLoading r True b)))" for x
    using setTabLoading_inv [OF _ assms(2)] by blast
  have stop: "load_inv (Suc k) (setTabLoading r False (call x b))" for x
    by (rule setTabLoading_inv [OF call(1) [OF assms(1,3)] k call(2) [OF assms(1,3)]])
  show ?thesis using on off stop assms(1) up by (cases c) (simp_all add: handle_nav_def Some Let_def)
qed

lemma exec_load:
  assumes "load_inv k b"
  shows "load_inv k (fst (tab_exec env reply a b))"
proof (cases "\<exists>info. a = AttachBegin info")
  case False
  then have "load_core (fst (tab_exec env reply a b)) = load_core b"
    by (cases a) (simp_all add: tab_exec_def case_prod_unfold load_frame)
  then show ?thesis by (rule load_inv_core [OF _ assms])
next
  case True
  then obtain info where a: "a = AttachBegin info" by blast
  have grow: "load_inv k (c\<lparr>tc_heap := tc_heap c @ [new_tab i info], tc_tabs := ts, tc_byTarget := bt\<rparr>)" if "load_inv k c" for c i ts bt
    using that unfolding load_inv_def by (auto simp: new_tab_def nth_append split: prod.splits)
  have call: "load_inv k (call x c) = load_inv k c" for x c
    using load_inv_core [of "call x c" c k] load_inv_core [of c "call x c" k] by (auto simp: load_frame)
  have seq: "load_inv k (b\<lparr>tc_seq := n\<rparr>)" for n using assms by (simp add: load_inv_def)
  show ?thesis
    using assms grow [OF assms] grow [OF seq]
    by (simp add: a tab_exec_def case_prod_unfold attach_begin_def Let_def call split: option.split)
qed

lemma event_load:
  assumes "load_inv k b" "Suc k < 2 ^ 64" "tab_wf b"
  shows "load_inv (Suc k) (fst (onEvent env ev b))"
proof -
  have frame: "load_inv (Suc k) c" if "load_core c = load_core b" for c using load_inv_mono [OF load_inv_core [OF that assms(1)]] by simp
  note page = page_inv [OF assms]
  show ?thesis
  proof (cases ev)
    case (FrameNavigated s f p u)
    let ?c = "snd (rememberMainFrame s f b)"
    have c: "load_core ?c = load_core b" "tab_core ?c = tab_core b" by (simp_all add: load_frame tab_frame)
    have "load_inv (Suc k) (fst (tabNavigated env s u ?c))"
      by (rule page_inv(2) [OF load_inv_core [OF c(1) assms(1)] assms(2) tab_wf_core [OF c(2) assms(3)]])
    then show ?thesis using frame [OF c(1)] frame [OF refl] by (simp add: FrameNavigated case_prod_unfold Let_def)
  next
    case (NavigatedWithinDocument s f u)
    then show ?thesis using page(2) frame [OF refl] by simp
  next
    case (FrameStartedLoading s f)
    then show ?thesis using setTabLoading_inv [OF assms] frame [OF refl] by (simp split: option.split)
  next
    case (DomContentEventFired s)
    then show ?thesis using completion_inv [OF assms(1,3)] load_inv_mono frame [OF refl] by (simp split: option.split) (meson le_SucI order_refl)
  qed (simp_all add: frame load_frame page(3))
qed

lemma move_load:
  assumes "load_inv k (tw_ctl w)" "Suc (Suc k) < 2 ^ 64" "tab_wf (tw_ctl w)"
  shows "load_inv (Suc (Suc k)) (tw_ctl (tab_move_step env m w))"
proof -
  have frame: "load_inv (Suc (Suc k)) c" if "load_core c = load_core (tw_ctl w)" for c
    using load_inv_mono [OF load_inv_core [OF that assms(1)]] by simp
  have k: "Suc k < 2 ^ 64" using assms(2) by simp
  show ?thesis
  proof (cases m)
    case (Event ev)
    have "tw_ctl (start_threads x v) = fst x" for x v by (simp add: start_threads_def case_prod_unfold)
    then show ?thesis using load_inv_mono [OF event_load [OF assms(1) k assms(3), of env ev]] by (simp add: tab_move_step_def Event)
  next
    case (Run i reply)
    then show ?thesis using exec_load [OF assms(1), of env reply] load_inv_mono frame [OF refl]
      by (auto simp: tab_move_step_def run_thread_def case_prod_unfold Let_def split: list.split) (meson le_SucI order_refl)
  next
    case (LoadTimer i)
    obtain r g where rg: "tc_loadingTimers (tw_ctl w) ! i = (r, g)" by force
    let ?b = "(tw_ctl w)\<lparr>tc_loadingTimers := take i (tc_loadingTimers (tw_ctl w)) @ drop (Suc i) (tc_loadingTimers (tw_ctl w))\<rparr>"
    have "load_inv k ?b" using assms(1) unfolding load_inv_def by (auto dest: in_set_takeD in_set_dropD split: prod.splits)
    moreover have "tab_wf ?b" by (rule tab_wf_core [OF _ assms(3)]) (simp add: tab_frame)
    ultimately show ?thesis using load_inv_mono [OF loading_timer_inv [OF _ k, of ?b r g]] by (simp add: tab_move_step_def LoadTimer rg Let_def)
  next
    case (NavCommand sent c)
    then show ?thesis using nav_inv [OF assms] by (simp add: tab_move_step_def)
  qed (simp_all add: tab_move_step_def start_threads_def case_prod_unfold frame load_frame)
qed

lemma load_core_start [load_frame]:
  "load_core (beginRestore ts act b) = load_core b" "load_core (prepareStartupSession found answer b) = load_core b"
  "load_core (fst (restoreHandoff found answer activated s [beginRestore] b)) = load_core b" "load_core (b\<lparr>tc_exactSession := x\<rparr>) = load_core b"
proof -
  show b: "load_core (beginRestore ts act b) = load_core b" for ts act b by (simp add: beginRestore_def load_core_def)
  show "load_core (prepareStartupSession found answer b) = load_core b"
    unfolding prepareStartupSession_def Let_def case_prod_unfold comp_def by (simp add: b load_frame split: option.split)
  show "load_core (fst (restoreHandoff found answer activated s [beginRestore] b)) = load_core b"
    unfolding restoreHandoff_def Let_def case_prod_unfold comp_def by (simp add: b load_frame split: option.split)
qed (simp add: load_core_def)

lemma reach_load: "tab_reach n w \<Longrightarrow> n < 2 ^ 62 \<Longrightarrow> load_inv (2 * n) (tw_ctl w)"
proof (induction rule: tab_reach.induct)
  case (fresh f st now)
  show ?case by (simp add: load_inv_def NewTabs_def)
next
  case (native found answer f st now)
  have "load_inv 0 (NewTabs f st now)" by (simp add: load_inv_def NewTabs_def)
  then show ?case using load_inv_core [of "prepareStartupSession found answer (NewTabs f st now)" "NewTabs f st now" 0] by (simp add: load_frame)
next
  case (handoff b f st now found answer activated)
  have "load_inv 0 b" by (simp add: load_inv_def NewTabs_def handoff)
  then show ?case using load_inv_core [of "fst (restoreHandoff found answer activated (tc_startupSession b) [beginRestore] b)" b 0] by (simp add: load_frame)
next
  case (move n w m env)
  then show ?case using move_load [of "2 * n" w env m] reach_inv_world [of n w] by (simp add: world_inv_def)
qed



end
