(* ===== verification/Log_Store.thy ===== *)
theory Log_Store
  imports Go_Text
begin

text \<open>
  The bounded logs of the host and the mirrored logs of the native devices, \<^verbatim>\<open>backend/internal/logstore/logstore.go\<close>. Bytes are
  characters. A log file and its predecessor are the contents at \<^verbatim>\<open>path\<close> and \<^verbatim>\<open>path.1\<close>; the files of the devices are a
  map from paths to contents. \<^verbatim>\<open>encoding/json\<close>, \<^verbatim>\<open>strings.ToLower\<close>, \<^verbatim>\<open>strconv.ParseFloat\<close> and the clock are the fields of
  \<open>log_env\<close>; what the file system grants is the record \<open>log_io\<close>, an argument of every operation.
\<close>

section \<open>Text\<close>

definition nl :: char where "nl = CHR 0x0A"

function trim_left :: "nat list \<Rightarrow> nat list" where
  "trim_left bs = (if bs \<noteq> [] \<and> is_space (fst (decode_rune bs)) then trim_left (drop (snd (decode_rune bs)) bs) else bs)"
  by pat_completeness auto
termination
  by (relation "measure length") (auto simp: decode_rune_width intro!: diff_less)

definition last_space :: "nat list \<Rightarrow> nat" where
  \<comment> \<open>the width of the white space that ends the bytes, \<open>0\<close> if there is none; \<^verbatim>\<open>utf8.DecodeLastRune\<close> finds the same\<close>
  "last_space bs = (case filter (\<lambda>k. k \<le> length bs \<and> snd (decode_rune (drop (length bs - k) bs)) = k
       \<and> is_space (fst (decode_rune (drop (length bs - k) bs)))) [1, 2, 3] of [] \<Rightarrow> 0 | k # _ \<Rightarrow> k)"

function trim_right :: "nat list \<Rightarrow> nat list" where
  "trim_right bs = (if 0 < last_space bs \<and> bs \<noteq> [] then trim_right (take (length bs - last_space bs) bs) else bs)"
  by pat_completeness auto
termination
  by (relation "measure length") (auto intro!: diff_less)

declare trim_left.simps [simp del] trim_right.simps [simp del]

definition trim_bytes :: "string \<Rightarrow> string" where
  \<comment> \<open>\<^verbatim>\<open>bytes.TrimSpace\<close> and \<^verbatim>\<open>strings.TrimSpace\<close> on any bytes\<close>
  "trim_bytes s = map char_of (trim_right (trim_left (map of_char s)))"

lemma decode_rune_pos: "(r, n) = decode_rune bs \<Longrightarrow> bs \<noteq> [] \<Longrightarrow> 0 < n"
  by (metis decode_rune_width snd_conv)

function fields_from :: "nat list \<Rightarrow> nat list \<Rightarrow> nat list list" where
  "fields_from word bs =
    (if bs = [] then (if word = [] then [] else [word])
     else let (r, n) = decode_rune bs
          in if is_space r then (if word = [] then [] else [word]) @ fields_from [] (drop n bs)
             else fields_from (word @ take n bs) (drop n bs))"
  by pat_completeness auto
termination
  by (relation "measure (length \<circ> snd)") (auto intro!: diff_less elim!: decode_rune_pos)

declare fields_from.simps [simp del]

definition Fields :: "string \<Rightarrow> string list" where
  \<comment> \<open>\<^verbatim>\<open>strings.Fields\<close>\<close>
  "Fields s = map (map char_of) (fields_from [] (map of_char s))"

definition Cut :: "char \<Rightarrow> string \<Rightarrow> string \<times> string \<times> bool" where
  \<comment> \<open>\<^verbatim>\<open>strings.Cut\<close> at a character\<close>
  "Cut c s = (case index_of c s of None \<Rightarrow> (s, [], False) | Some i \<Rightarrow> (take i s, drop (Suc i) s, True))"

definition drop_cr :: "string \<Rightarrow> string" where
  "drop_cr l = (if l \<noteq> [] \<and> last l = CHR 0x0D then butlast l else l)"

definition lines_of :: "string \<Rightarrow> string list" where
  \<comment> \<open>\<^verbatim>\<open>bufio.ScanLines\<close>: no line after a final newline\<close>
  "lines_of s = (let ps = split_on nl s in if last ps = [] then butlast ps else ps)"

definition scan :: "nat \<Rightarrow> string \<Rightarrow> string list \<times> bool" where
  \<comment> \<open>the lines a \<^verbatim>\<open>bufio.Scanner\<close> with a buffer of this size yields, and whether it stops at one that does not fit\<close>
  "scan n s = (map drop_cr (takeWhile (\<lambda>l. length l < n) (lines_of s)), list_ex (\<lambda>l. n \<le> length l) (lines_of s))"

section \<open>Records\<close>

definition ServerMaxBytes :: nat where "ServerMaxBytes = 4 * 1024 * 1024"
definition DesktopMaxBytes :: nat where "DesktopMaxBytes = 2 * 1024 * 1024"
definition DeviceMaxBytes :: nat where "DeviceMaxBytes = 2 * 1024 * 1024"
definition DeviceMaxLine :: nat where "DeviceMaxLine = 64 * 1024"
definition DefaultReadBytes :: nat where "DefaultReadBytes = 8 * 1024 * 1024"

datatype log_value = BoolValue bool | IntValue int | FloatValue nat | TextValue string | JSONValue string

record log_record =
  lr_Timestamp :: string
  lr_Level :: string
  lr_Component :: string
  lr_Message :: string
  lr_Fields :: "(string \<rightharpoonup> log_value) option"   \<comment> \<open>\<^const>\<open>None\<close>: a nil map\<close>

record log_env =
  lv_marshal :: "log_record \<Rightarrow> string"
  lv_unmarshal :: "string \<Rightarrow> log_record option"
  lv_lower :: "string \<Rightarrow> string"
  lv_float :: "string \<Rightarrow> nat option"                   \<comment> \<open>\<^verbatim>\<open>strconv.ParseFloat\<close>, the bits\<close>
  lv_now :: string                                    \<comment> \<open>the clock, formatted\<close>

datatype log_error =
    MissingFields | BadJSON | TooLong | TooBig | InvalidDeviceID | SizeTooSmall | ErrClosed | ErrShortWrite | IOError | InvalidNDJSON

definition validateRecord :: "log_record \<Rightarrow> log_error option" where
  "validateRecord r =
    (if trim_bytes (lr_Timestamp r) = [] \<or> trim_bytes (lr_Level r) = [] \<or> trim_bytes (lr_Component r) = []
        \<or> trim_bytes (lr_Message r) = [] \<or> lr_Fields r = None then Some MissingFields else None)"

definition decodeRecord :: "log_env \<Rightarrow> string \<Rightarrow> log_error + log_record" where
  "decodeRecord env line = (case lv_unmarshal env line of
      None \<Rightarrow> Inl BadJSON
    | Some r \<Rightarrow> (case validateRecord r of Some e \<Rightarrow> Inl e | None \<Rightarrow> Inr r))"

fun decode_lines :: "log_env \<Rightarrow> string list \<Rightarrow> log_error + log_record list" where
  "decode_lines env [] = Inr []"
| "decode_lines env (l # ls) =
    (let l = trim_bytes l
     in if l = [] then decode_lines env ls
        else case decodeRecord env l of
          Inl e \<Rightarrow> Inl e
        | Inr r \<Rightarrow> (case decode_lines env ls of Inl e \<Rightarrow> Inl e | Inr rs \<Rightarrow> Inr (r # rs)))"

definition DecodeRecords :: "log_env \<Rightarrow> string \<Rightarrow> log_error + log_record list" where
  "DecodeRecords env data =
    (let (ls, long) = scan DeviceMaxLine data
     in case decode_lines env ls of Inl e \<Rightarrow> Inl e | Inr rs \<Rightarrow> if long then Inl TooLong else Inr rs)"

definition recordLine :: "log_env \<Rightarrow> log_record \<Rightarrow> string" where
  "recordLine env r = lv_marshal env r @ [nl]"

definition component_char :: "rune \<Rightarrow> bool" where
  "component_char r \<longleftrightarrow> 97 \<le> r \<and> r \<le> 122 \<or> 65 \<le> r \<and> r \<le> 90 \<or> 48 \<le> r \<and> r \<le> 57 \<or> r = 45 \<or> r = 95"

definition validComponent :: "string \<Rightarrow> bool" where
  "validComponent value \<longleftrightarrow> \<not> (value = [] \<or> length value > 32) \<and> list_all component_char (runes value)"

definition trim_marks :: "string \<Rightarrow> string" where
  \<comment> \<open>\<^verbatim>\<open>strings.TrimRight(value, ",;)")\<close>\<close>
  "trim_marks s = rev (dropWhile (\<lambda>c. c \<in> {CHR '','', CHR '';'', CHR '')''}) (rev s))"

definition trim_ms :: "string \<Rightarrow> string" where
  \<comment> \<open>\<^verbatim>\<open>strings.TrimSuffix(value, "ms")\<close>\<close>
  "trim_ms s = (if has_prefix (rev s) (rev ''ms'') then take (length s - 2) s else s)"

definition typedValue :: "log_env \<Rightarrow> string \<Rightarrow> log_value" where
  "typedValue env value =
    (let value = trim_marks value
     in if value = ''true'' then BoolValue True
        else if value = ''false'' then BoolValue False
        else case parse_int64 value of
          Some n \<Rightarrow> IntValue n
        | None \<Rightarrow> (case lv_float env (trim_ms value) of Some f \<Rightarrow> FloatValue f | None \<Rightarrow> TextValue value))"

definition level_of :: "string \<Rightarrow> string" where
  "level_of low =
    (if contains low ''error'' \<or> contains low ''failed'' \<or> contains low ''rejected'' \<or> contains low ''fatal'' then ''error''
     else if contains low ''warning'' \<or> contains low ''timeout'' \<or> contains low ''stalled'' \<or> contains low ''drop'' \<or> contains low ''unavailable''
     then ''warn'' else ''info'')"

definition add_field :: "log_env \<Rightarrow> string \<Rightarrow> (string \<rightharpoonup> log_value) \<Rightarrow> (string \<rightharpoonup> log_value)" where
  "add_field env tok fs =
    (let (key, value, ok) = Cut CHR ''='' tok
     in if \<not> ok \<or> \<not> validComponent key \<or> value = [] then fs else fs(lv_lower env key \<mapsto> typedValue env value))"

definition recordFromText :: "log_env \<Rightarrow> string \<Rightarrow> log_record" where
  "recordFromText env txt0 =
    (let txt0 = trim_bytes txt0;
         (candidate, remainder, ok) = Cut CHR '':'' txt0;
         (component, message) =
           (if ok \<and> validComponent (trim_bytes candidate) then (lv_lower env (trim_bytes candidate), trim_bytes remainder)
            else (''runtime'', txt0));
         fs = fold (add_field env) (Fields message) Map.empty
     in \<lparr>lr_Timestamp = lv_now env, lr_Level = level_of (lv_lower env message), lr_Component = component,
         lr_Message = (if message = [] then ''Log event'' else message), lr_Fields = Some fs\<rparr>)"

definition normalizeLine :: "log_env \<Rightarrow> string \<Rightarrow> string" where
  "normalizeLine env line =
    (let line = trim_bytes line
     in case decodeRecord env line of Inr r \<Rightarrow> recordLine env r | Inl _ \<Rightarrow> recordLine env (recordFromText env line))"

section \<open>The writer\<close>

record log_io =
  io_mkdir :: bool
  io_read :: bool
  io_stat :: bool
  io_open :: bool
  io_close :: bool
  io_rename :: bool
  io_remove :: bool
  io_write :: bool
  io_written :: nat      \<comment> \<open>what a failing write leaves behind\<close>

record log_writer =
  lw_max :: nat
  lw_open :: bool                      \<comment> \<open>\<^verbatim>\<open>file != nil\<close>\<close>
  lw_size :: nat
  lw_pending :: string
  lw_current :: "string option"        \<comment> \<open>the file at \<^verbatim>\<open>path\<close>\<close>
  lw_older :: "string option"          \<comment> \<open>the file at \<^verbatim>\<open>path.1\<close>\<close>
  lw_mirror :: string                  \<comment> \<open>what the mirror was given\<close>

definition log_open :: "log_io \<Rightarrow> log_writer \<Rightarrow> log_writer \<times> log_error option" where
  "log_open io w =
    (if io_open io then (w\<lparr>lw_open := True, lw_current := Some (case lw_current w of None \<Rightarrow> [] | Some c \<Rightarrow> c)\<rparr>, None)
     else (w, Some IOError))"

definition rotate :: "log_io \<Rightarrow> log_writer \<Rightarrow> log_writer \<times> log_error option" where
  "rotate io w =
    (if lw_open w \<and> \<not> io_close io then (w, Some IOError)
     else
       let w = w\<lparr>lw_open := False, lw_older := (if io_remove io then None else lw_older w)\<rparr>
       in case lw_current w of
            None \<Rightarrow> (w\<lparr>lw_size := 0\<rparr>, None)
          | Some c \<Rightarrow>
              if io_rename io then (w\<lparr>lw_older := Some c, lw_current := None, lw_size := 0\<rparr>, None) else (w, Some IOError))"

definition oversized :: "log_env \<Rightarrow> nat \<Rightarrow> log_record" where
  "oversized env n = \<lparr>lr_Timestamp = lv_now env, lr_Level = ''warn'', lr_Component = ''logging'',
     lr_Message = ''Oversized log record discarded'', lr_Fields = Some [''bytes'' \<mapsto> IntValue (int n)]\<rparr>"

definition append_data :: "log_io \<Rightarrow> string \<Rightarrow> log_writer \<Rightarrow> log_writer \<times> log_error option" where
  \<comment> \<open>\<^verbatim>\<open>w.file.Write(data)\<close> and the size kept beside it\<close>
  "append_data io data w =
    (let n = (if io_write io then length data else min (io_written io) (length data));
         w = w\<lparr>lw_current := Some ((case lw_current w of None \<Rightarrow> [] | Some c \<Rightarrow> c) @ take n data), lw_size := lw_size w + n\<rparr>
     in (w, if io_write io then None else Some IOError))"

definition writeLine :: "log_env \<Rightarrow> log_io \<Rightarrow> string \<Rightarrow> log_writer \<Rightarrow> log_writer \<times> log_error option" where
  "writeLine env io data w =
    (let w = (if io_stat io then w\<lparr>lw_size := (case lw_current w of None \<Rightarrow> 0 | Some c \<Rightarrow> length c)\<rparr> else w);
         data = (if length data > lw_max w then recordLine env (oversized env (length data)) else data)
     in if lw_size w > 0 \<and> lw_size w + length data > lw_max w then
          (case rotate io w of
             (w, Some e) \<Rightarrow> (w, Some e)
           | (w, None) \<Rightarrow> (case log_open io w of
               (w, Some e) \<Rightarrow> (w, Some e)
             | (w, None) \<Rightarrow> append_data io data w))
        else append_data io data w)"

partial_function (option) write_lines :: "log_env \<Rightarrow> log_io \<Rightarrow> log_writer \<Rightarrow> (log_writer \<times> log_error option) option" where
  \<comment> \<open>the loop of \<^verbatim>\<open>Write\<close>\<close>
  "write_lines env io w = (case index_of nl (lw_pending w) of
      None \<Rightarrow> Some (w, None)
    | Some n \<Rightarrow>
        let line = normalizeLine env (take n (lw_pending w));
            w = w\<lparr>lw_pending := drop (Suc n) (lw_pending w)\<rparr>
        in case writeLine env io line w of
             (w, Some e) \<Rightarrow> Some (w, Some e)
           | (w, None) \<Rightarrow> write_lines env io w)"

definition log_Write :: "log_env \<Rightarrow> log_io \<Rightarrow> string \<Rightarrow> log_writer \<Rightarrow> (log_writer \<times> (log_error + nat)) option" where
  "log_Write env io data w =
    (if \<not> lw_open w then Some (w, Inl ErrClosed)
     else case write_lines env io (w\<lparr>lw_mirror := lw_mirror w @ data, lw_pending := lw_pending w @ data\<rparr>) of
       None \<Rightarrow> None
     | Some (w, Some e) \<Rightarrow> Some (w, Inl e)
     | Some (w, None) \<Rightarrow> Some (w, Inr (length data)))"

definition log_Event :: "log_env \<Rightarrow> log_io \<Rightarrow> string \<Rightarrow> string \<Rightarrow> string \<Rightarrow> (string \<rightharpoonup> log_value) option \<Rightarrow> log_writer \<Rightarrow> log_writer \<times> log_error option" where
  "log_Event env io level component message fs w =
    (if \<not> lw_open w then (w, Some ErrClosed)
     else
       let r = \<lparr>lr_Timestamp = lv_now env, lr_Level = level, lr_Component = component, lr_Message = message,
                lr_Fields = Some (case fs of None \<Rightarrow> Map.empty | Some m \<Rightarrow> m)\<rparr>
       in case validateRecord r of Some e \<Rightarrow> (w, Some e) | None \<Rightarrow> writeLine env io (recordLine env r) w)"

definition log_Close :: "log_env \<Rightarrow> log_io \<Rightarrow> log_writer \<Rightarrow> log_writer \<times> log_error option" where
  "log_Close env io w =
    (if \<not> lw_open w then (w, None)
     else
       case (if trim_bytes (lw_pending w) \<noteq> [] then writeLine env io (normalizeLine env (lw_pending w)) w else (w, None)) of
         (w, Some e) \<Rightarrow> (w, Some e)
       | (w, None) \<Rightarrow> (w\<lparr>lw_pending := [], lw_open := False\<rparr>, if io_close io then None else Some IOError))"

definition log_Clear :: "log_io \<Rightarrow> log_writer \<Rightarrow> log_writer \<times> log_error option" where
  "log_Clear io w =
    (if \<not> lw_open w then (w, Some ErrClosed)
     else if \<not> io_close io then (w, Some IOError)
     else
       let w = w\<lparr>lw_open := False, lw_pending := []\<rparr>
       in if \<not> io_remove io \<and> (lw_older w \<noteq> None \<or> lw_current w \<noteq> None) then (w, Some IOError)
          else log_open io (w\<lparr>lw_older := None, lw_current := None, lw_size := 0\<rparr>))"

definition ClearPath :: "log_io \<Rightarrow> log_writer \<Rightarrow> log_writer \<times> log_error option" where
  \<comment> \<open>by another process, while the writer keeps its file open\<close>
  "ClearPath io w =
    (if \<not> io_mkdir io then (w, Some IOError)
     else if lw_older w \<noteq> None \<and> \<not> io_remove io then (w, Some IOError)
     else if io_write io then (w\<lparr>lw_older := None, lw_current := Some []\<rparr>, None) else (w\<lparr>lw_older := None\<rparr>, Some IOError))"

definition keep_structured :: "log_env \<Rightarrow> log_io \<Rightarrow> string option \<Rightarrow> string option" where
  \<comment> \<open>what \<^verbatim>\<open>Open\<close> leaves of a file: a log that is not NDJSON is discarded\<close>
  "keep_structured env io f = (case f of
      None \<Rightarrow> None
    | Some c \<Rightarrow> if trim_bytes c \<noteq> [] \<and> isl (DecodeRecords env c) \<and> io_remove io then None else Some c)"

definition log_Open :: "log_env \<Rightarrow> log_io \<Rightarrow> nat \<Rightarrow> string option \<Rightarrow> string option \<Rightarrow> log_error + log_writer" where
  "log_Open env io limit current older =
    (if limit < 256 then Inl SizeTooSmall
     else if \<not> io_mkdir io then Inl IOError
     else if \<not> io_read io \<and> (older \<noteq> None \<or> current \<noteq> None) then Inl IOError
     else
       let older = keep_structured env io older;
           current = keep_structured env io current;
           w = \<lparr>lw_max = limit, lw_open = False, lw_size = (case current of None \<Rightarrow> 0 | Some c \<Rightarrow> length c), lw_pending = [],
                lw_current = current, lw_older = older, lw_mirror = []\<rparr>
       in if current \<noteq> None \<and> \<not> io_stat io then Inl IOError
          else case (if current \<noteq> None \<and> lw_size w \<ge> limit then rotate io w else (w, None)) of
            (w, Some e) \<Rightarrow> Inl e
          | (w, None) \<Rightarrow> (case log_open io w of (w, Some e) \<Rightarrow> Inl e | (w, None) \<Rightarrow> Inr w))"

section \<open>Logs of devices\<close>

type_synonym log_files = "string \<rightharpoonup> string"

definition Root :: "string \<Rightarrow> string" where "Root home = home @ ''/logs''"

definition is_hex :: "char \<Rightarrow> bool" where
  "is_hex c \<longleftrightarrow> (let n = of_char c :: nat in 48 \<le> n \<and> n \<le> 57 \<or> 97 \<le> n \<and> n \<le> 102 \<or> 65 \<le> n \<and> n \<le> 70)"

definition DevicePath :: "string \<Rightarrow> string \<Rightarrow> log_error + string" where
  \<comment> \<open>\<^verbatim>\<open>hex.DecodeString\<close> to 32 bytes; \<open>home\<close> is a clean path\<close>
  "DevicePath home deviceID =
    (if \<not> list_all is_hex deviceID \<or> length deviceID \<noteq> 64 then Inl InvalidDeviceID
     else Inr (Root home @ ''/devices/'' @ deviceID @ ''.ndjson''))"

definition remove_file :: "log_io \<Rightarrow> string \<Rightarrow> log_files \<Rightarrow> log_files \<times> log_error option" where
  "remove_file io p fs = (if fs p = None then (fs, None) else if io_remove io then (fs(p := None), None) else (fs, Some IOError))"

definition remove_both :: "log_io \<Rightarrow> string \<Rightarrow> log_files \<Rightarrow> log_files \<times> log_error option" where
  \<comment> \<open>\<^verbatim>\<open>for _, candidate := range []string{path, path + ".clear"}\<close>\<close>
  "remove_both io p fs = (case remove_file io p fs of (fs, Some e) \<Rightarrow> (fs, Some e) | (fs, None) \<Rightarrow> remove_file io (p @ ''.clear'') fs)"

definition BeginDeviceClear :: "log_io \<Rightarrow> string \<Rightarrow> string \<Rightarrow> log_files \<Rightarrow> log_files \<times> log_error option" where
  "BeginDeviceClear io home deviceID fs = (case DevicePath home deviceID of
      Inl e \<Rightarrow> (fs, Some e)
    | Inr p \<Rightarrow>
        if \<not> io_mkdir io then (fs, Some IOError)
        else if \<not> io_write io then (fs, Some IOError)
        else remove_file io p (fs(p @ ''.clear'' \<mapsto> ''pending'' @ [nl])))"

definition DeviceClearPending :: "string \<Rightarrow> string \<Rightarrow> log_files \<Rightarrow> bool" where
  "DeviceClearPending home deviceID fs = (case DevicePath home deviceID of Inl _ \<Rightarrow> False | Inr p \<Rightarrow> fs (p @ ''.clear'') \<noteq> None)"

definition CompleteDeviceClear :: "log_io \<Rightarrow> string \<Rightarrow> string \<Rightarrow> log_files \<Rightarrow> log_files \<times> log_error option" where
  "CompleteDeviceClear io home deviceID fs = (case DevicePath home deviceID of Inl e \<Rightarrow> (fs, Some e) | Inr p \<Rightarrow> remove_both io p fs)"

definition RemoveDevice :: "log_io \<Rightarrow> string \<Rightarrow> string \<Rightarrow> log_files \<Rightarrow> log_files \<times> log_error option" where
  "RemoveDevice io home deviceID fs = (case DevicePath home deviceID of Inl e \<Rightarrow> (fs, Some e) | Inr p \<Rightarrow> remove_both io p fs)"

definition validateDeviceRecord :: "log_env \<Rightarrow> string \<Rightarrow> log_error option" where
  "validateDeviceRecord env line =
    (if length line > DeviceMaxLine then Some InvalidNDJSON
     else case decodeRecord env line of Inl _ \<Rightarrow> Some InvalidNDJSON | Inr _ \<Rightarrow> None)"

fun validate_lines :: "log_env \<Rightarrow> string list \<Rightarrow> log_error option" where
  "validate_lines env [] = None"
| "validate_lines env (l # ls) =
    (if trim_bytes l = [] then validate_lines env ls
     else case validateDeviceRecord env l of Some e \<Rightarrow> Some e | None \<Rightarrow> validate_lines env ls)"

definition ValidateDeviceSnapshot :: "log_env \<Rightarrow> string \<Rightarrow> log_error option" where
  "ValidateDeviceSnapshot env data =
    (if length data > DeviceMaxBytes then Some TooBig
     else let (ls, long) = scan DeviceMaxLine data
          in case validate_lines env ls of Some e \<Rightarrow> Some e | None \<Rightarrow> if long then Some TooLong else None)"

definition readTailBytes :: "string \<Rightarrow> nat \<Rightarrow> string" where
  "readTailBytes data limit =
    (if length data \<le> limit then data
     else let data = drop (length data - limit) data
          in case index_of nl data of Some n \<Rightarrow> drop (Suc n) data | None \<Rightarrow> data)"

definition fields_nl :: "string \<Rightarrow> string list" where
  \<comment> \<open>\<^verbatim>\<open>bytes.FieldsFunc\<close> at newlines\<close>
  "fields_nl s = filter (\<lambda>l. l \<noteq> []) (split_on nl s)"

fun last_common :: "string set \<Rightarrow> nat \<Rightarrow> string list \<Rightarrow> int \<Rightarrow> int" where
  "last_common common i [] found = found"
| "last_common common i (l # ls) found = last_common common (Suc i) ls (if l \<in> common then int i else found)"

definition mergeDeviceSnapshot :: "string \<Rightarrow> string \<Rightarrow> string" where
  "mergeDeviceSnapshot snapshot existing =
    (if snapshot = [] \<or> existing = [] then snapshot
     else
       let snapshotLines = fields_nl snapshot;
           existingLines = fields_nl existing;
           lastCommon = last_common (set snapshotLines) 0 existingLines (- 1)
       in if lastCommon < 0 \<or> lastCommon + 1 = int (length existingLines) then snapshot
          else
            let merged = (if last snapshot \<noteq> nl then snapshot @ [nl] else snapshot);
                merged = merged @ concat (map (\<lambda>l. l @ [nl]) (drop (nat (lastCommon + 1)) existingLines))
            in if length merged \<le> DeviceMaxBytes then merged else readTailBytes merged DeviceMaxBytes)"

definition ReadTail :: "log_io \<Rightarrow> string option \<Rightarrow> int \<Rightarrow> log_error + string" where
  "ReadTail io f limit =
    (let limit = (if limit \<le> 0 then DefaultReadBytes else nat limit)
     in case f of
          None \<Rightarrow> Inr []
        | Some c \<Rightarrow>
            if \<not> io_read io then Inl IOError
            else let start = length c - limit;
                     data = take limit (drop start c)
                 in Inr (if 0 < start then (case index_of nl data of Some n \<Rightarrow> drop (Suc n) data | None \<Rightarrow> data) else data))"

definition ReadDeviceSnapshot :: "log_io \<Rightarrow> string \<Rightarrow> string \<Rightarrow> int \<Rightarrow> log_files \<Rightarrow> log_error + string" where
  "ReadDeviceSnapshot io home deviceID limit fs = (case DevicePath home deviceID of Inl e \<Rightarrow> Inl e | Inr p \<Rightarrow> ReadTail io (fs p) limit)"

definition ReadRotated :: "log_io \<Rightarrow> string option \<Rightarrow> string option \<Rightarrow> int \<Rightarrow> log_error + string" where
  "ReadRotated io older current limit = (case ReadTail io older limit of
      Inl e \<Rightarrow> Inl e
    | Inr old \<Rightarrow>
        let remaining = limit - int (length old)
        in if remaining \<le> 0 then Inr old
           else case ReadTail io current remaining of Inl e \<Rightarrow> Inl e | Inr cur \<Rightarrow> Inr (old @ cur))"

definition replace_file :: "log_io \<Rightarrow> string \<Rightarrow> string \<Rightarrow> log_files \<Rightarrow> log_files \<times> log_error option" where
  \<comment> \<open>a temporary file that takes the place of the old one, or is removed\<close>
  "replace_file io p data fs = (if io_write io \<and> io_rename io then (fs(p \<mapsto> data), None) else (fs, Some IOError))"

definition WriteDeviceSnapshot :: "log_env \<Rightarrow> log_io \<Rightarrow> string \<Rightarrow> string \<Rightarrow> string \<Rightarrow> log_files \<Rightarrow> log_files \<times> log_error option" where
  "WriteDeviceSnapshot env io home deviceID data fs = (case ValidateDeviceSnapshot env data of
      Some e \<Rightarrow> (fs, Some e)
    | None \<Rightarrow> (case DevicePath home deviceID of
        Inl e \<Rightarrow> (fs, Some e)
      | Inr p \<Rightarrow>
          if \<not> io_mkdir io then (fs, Some IOError)
          else if data = [] then remove_file io p fs
          else case fs p of
            None \<Rightarrow> replace_file io p data fs
          | Some existing \<Rightarrow>
              if io_read io then replace_file io p (mergeDeviceSnapshot data existing) fs else (fs, Some IOError)))"

definition AppendDeviceRecord :: "log_env \<Rightarrow> log_io \<Rightarrow> string \<Rightarrow> string \<Rightarrow> string \<Rightarrow> log_files \<Rightarrow> log_files \<times> log_error option" where
  "AppendDeviceRecord env io home deviceID record fs = (case validateDeviceRecord env record of
      Some e \<Rightarrow> (fs, Some e)
    | None \<Rightarrow> (case DevicePath home deviceID of
        Inl e \<Rightarrow> (fs, Some e)
      | Inr p \<Rightarrow>
          let line = record @ [nl];
              existing = (case fs p of None \<Rightarrow> [] | Some c \<Rightarrow> c)
          in if \<not> io_mkdir io then (fs, Some IOError)
             else if fs p = None \<or> io_stat io \<and> length existing + length line \<le> DeviceMaxBytes then
               (if \<not> io_open io then (fs, Some IOError)
                else (fs(p \<mapsto> existing @ (if io_write io then line else take (io_written io) line)),
                      if io_write io \<and> io_close io then None else Some IOError))
             else if \<not> io_stat io then (fs, Some IOError)
             else (case ReadTail io (fs p) (int DeviceMaxBytes - int (length line)) of
                     Inl e \<Rightarrow> (fs, Some e)
                   | Inr tail \<Rightarrow> replace_file io p (tail @ line) fs)))"

end
