(* ===== verification/Api_Server.thy ===== *)
theory Api_Server
  imports Auth Transport_Hub Log_Store Clipboard Browser_Mode
begin

text \<open>
  The HTTP interface, \<^verbatim>\<open>backend/internal/web\<close> (\<^verbatim>\<open>server.go\<close>, \<^verbatim>\<open>browser.go\<close>, \<^verbatim>\<open>client.go\<close>, \<^verbatim>\<open>tunnel.go\<close>) with
  the compatibility rules of \<^verbatim>\<open>config.go\<close> and \<^verbatim>\<open>updater.go\<close>. A handler is a function of the request and of the server's
  state (device registry, hub, logs, browser manager, open clipboard requests, tunnels) to the new state, the response
  and the calls it makes on what lives outside that state. JSON, URL and IP parsing, the clock, random values and the outcome
  of system calls are arguments; a request reads the clock once. Response headers are left out, except the session cookie.
\<close>

section \<open>Compatibility of clients\<close>

definition APIRoot :: string where "APIRoot = ''/api/v1''"

definition legacyCompatibilityOne :: string where "legacyCompatibilityOne = ''20260831-1''"

definition CompatibilityGeneration :: "string \<Rightarrow> int" where
  \<comment> \<open>of the linked \<^verbatim>\<open>CompatibilityVersion\<close>\<close>
  "CompatibilityGeneration version = (case parse_int64 version of None \<Rightarrow> 0 | Some value \<Rightarrow> if value < 1 then 0 else value)"

definition WireCompatibilityVersion :: "string \<Rightarrow> string" where
  "WireCompatibilityVersion version = (if CompatibilityGeneration version = 1 then legacyCompatibilityOne else version)"

definition parse_generation :: "string \<Rightarrow> int \<times> bool" where
  \<comment> \<open>\<^verbatim>\<open>strconv.Atoi\<close> and the test behind it; the number beside \<^const>\<open>False\<close> is only logged\<close>
  "parse_generation value = (case parse_int64 value of None \<Rightarrow> (0, False) | Some generation \<Rightarrow> (generation, generation > 0))"

definition ParseClientCompatibility :: "string \<Rightarrow> string \<Rightarrow> int \<times> bool" where
  "ParseClientCompatibility value legacy =
    (if value \<noteq> [] then parse_generation value
     else if legacy = legacyCompatibilityOne then (1, True)
     else if legacy \<noteq> [] then parse_generation legacy
     else (0, False))"

definition trim_prefix :: "string \<Rightarrow> string \<Rightarrow> string" where
  \<comment> \<open>\<^verbatim>\<open>strings.TrimPrefix\<close>\<close>
  "trim_prefix s p = (if has_prefix s p then drop (length p) s else s)"

definition parseVersion :: "string \<Rightarrow> int list option" where
  "parseVersion value =
    (let parts = map parse_int64 (split_on CHR ''.'' (trim_prefix value ''v''))
     in if length parts \<noteq> 3 \<or> list_ex (\<lambda>n. case n of None \<Rightarrow> True | Some n \<Rightarrow> n < 0) parts then None
        else Some (map the parts))"

fun compare_parts :: "'a::linorder list \<Rightarrow> 'a list \<Rightarrow> int" where
  \<comment> \<open>the loop of \<^verbatim>\<open>CompareVersions\<close>, and \<^verbatim>\<open>strings.Compare\<close>\<close>
  "compare_parts [] [] = 0"
| "compare_parts [] (b # bs) = - 1"
| "compare_parts (a # as) [] = 1"
| "compare_parts (a # as) (b # bs) = (if a < b then - 1 else if a > b then 1 else compare_parts as bs)"

definition byte_values :: "string \<Rightarrow> nat list" where
  "byte_values s = map of_char s"

definition CompareVersions :: "string \<Rightarrow> string \<Rightarrow> int" where
  "CompareVersions left right = (case (parseVersion left, parseVersion right) of
      (Some a, Some b) \<Rightarrow> compare_parts a b
    | _ \<Rightarrow> compare_parts (byte_values left) (byte_values right))"

section \<open>The embedded client\<close>

record client_package =
  cp_Version :: string
  cp_PackageVersion :: string
  cp_Compatibility :: int
  cp_SHA256 :: string
  cp_Data :: bytes

record client_metadata =
  cm_Version :: string
  cm_PackageVersion :: string
  cm_Compatibility :: int
  cm_SHA256 :: string
  cm_Size :: int

datatype package_error = InvalidPackage | InvalidMetadata | OtherGeneration | OtherSize | OtherChecksum

definition arch_magic :: bytes where
  "arch_magic = bytes_of (''!<arch>'' @ [CHR 0x0A])"

definition clientPackageFromData ::
  "stdlib \<Rightarrow> (bytes \<Rightarrow> client_metadata option) \<Rightarrow> string \<Rightarrow> string \<Rightarrow> bytes \<Rightarrow> bytes \<Rightarrow> package_error + client_package option" where
  \<comment> \<open>\<open>parse\<close> decodes the metadata; then \<^verbatim>\<open>AppVersion\<close> and \<^verbatim>\<open>CompatibilityVersion\<close>\<close>
  "clientPackageFromData std parse app version packageData metadataData =
    (if packageData = [] \<and> metadataData = [] then Inr None
     else if length packageData < 8 \<or> take 8 packageData \<noteq> arch_magic then Inl InvalidPackage
     else case parse metadataData of
       None \<Rightarrow> Inl InvalidMetadata
     | Some m \<Rightarrow>
         if cm_Version m \<noteq> app \<or> cm_Compatibility m \<noteq> CompatibilityGeneration version then Inl OtherGeneration
         else if cm_PackageVersion m = [] \<or> cm_Size m \<noteq> int (length packageData) then Inl OtherSize
         else
           let actualSHA256 = hex_encode (sha256 std packageData)
           in if cm_SHA256 m \<noteq> actualSHA256 then Inl OtherChecksum
              else Inr (Some \<lparr>cp_Version = cm_Version m, cp_PackageVersion = cm_PackageVersion m,
                     cp_Compatibility = cm_Compatibility m, cp_SHA256 = actualSHA256, cp_Data = packageData\<rparr>))"

section \<open>Requests and responses\<close>

record http_request =
  rq_Method :: string
  rq_Path :: string
  rq_RemoteAddr :: string
  rq_Host :: string
  rq_query :: "string \<Rightarrow> string"       \<comment> \<open>\<^verbatim>\<open>r.URL.Query().Get\<close>\<close>
  rq_header :: "string \<Rightarrow> string"      \<comment> \<open>\<^verbatim>\<open>r.Header.Get\<close>\<close>
  rq_cookie :: "string option"        \<comment> \<open>the value of the session cookie\<close>
  rq_Body :: string

datatype json =
    JText string | JNumber int | JFlag bool | JTexts "string list" | JObject "(string \<times> json) list"
  | JStatus pairing_status | JChallenge challenge | JCandidates "pairing_status list" | JDevices "device list"
  | JMode mode_state | JStats

datatype stream_out = Records "log_record list" bool | KeepAlive

datatype http_body =
    NoBody | Plain string | JSON json | Content bytes | Lines string | EventStream "stream_out list"
  | AuthError auth_error | LogError log_error | ModeError mode_error | ClipError clip_error

datatype cookie_change = SessionCookie string | ClearedCookie

record http_response =
  rs_status :: nat
  rs_body :: http_body
  rs_cookie :: "cookie_change option"

datatype api_call =
    ServeSocket string                   \<comment> \<open>\<^verbatim>\<open>hub.ServeHTTPForDevice\<close>\<close>
  | ServeTunnel                          \<comment> \<open>a connection to this process's own listener\<close>
  | RunExtra string                      \<comment> \<open>the handler registered for a pattern\<close>
  | ShutdownServer
  | ClipRead | ClipSetHost string | ClipSetRemote string | ClipSetEnabled bool

datatype api_event = ClipboardSync clip_state | ClipboardSet string string bool | EmptyEvent string

section \<open>State\<close>

record clipboard_request =
  cq_expected :: "string set"
  cq_acked :: "string \<rightharpoonup> bool"
  cq_notify :: bool                      \<comment> \<open>the channel of capacity 1 is full\<close>

record api_config =
  ac_ServerName :: string
  ac_Fingerprint :: string
  ac_TunnelHost :: string
  ac_PublicAddress :: string
  ac_SurfHome :: string
  ac_ViewW :: int
  ac_ViewH :: int
  ac_CompatibilityVersion :: string
  ac_AppVersion :: string
  ac_Caps :: "string list"
  ac_adminToken :: string
  ac_client :: "client_package option"
  ac_stats :: bool                       \<comment> \<open>\<^verbatim>\<open>s.stats != nil\<close>\<close>
  ac_shutdown :: bool                    \<comment> \<open>\<^verbatim>\<open>s.shutdown != nil\<close>\<close>
  ac_serverLog :: bool                   \<comment> \<open>\<^verbatim>\<open>s.serverLog != nil\<close>\<close>

record api_server =
  sv_auth :: manager
  sv_hub :: hub
  sv_logs :: log_files                   \<comment> \<open>the mirrors of device logs\<close>
  sv_serverLog :: log_writer
  sv_desktopLog :: log_writer
  sv_browser :: "manager_mode option"
  sv_clipboard :: "string \<rightharpoonup> clipboard_request"
  sv_tunnels :: nat                      \<comment> \<open>the slots taken\<close>

datatype clip_wait = ResultFrom string string bool | Notified
  \<comment> \<open>what happens while a clipboard request waits: a device reports on a request, or the channel is read\<close>

record api_env =
  ev_std :: stdlib
  ev_now :: gotime
  ev_id :: string                        \<comment> \<open>the random values a request draws\<close>
  ev_code :: string
  ev_secret :: string
  ev_save :: bool                        \<comment> \<open>the registry can be saved\<close>
  ev_others :: "auth_call list"          \<comment> \<open>calls of other goroutines while a signature is checked\<close>
  ev_health :: "string option"           \<comment> \<open>the error of the health check, if there is one\<close>
  ev_io :: log_io
  ev_log :: log_env
  ev_lower :: "string \<Rightarrow> string"         \<comment> \<open>\<^verbatim>\<open>strings.ToLower\<close>\<close>
  ev_url_host :: "string \<Rightarrow> string option" \<comment> \<open>\<^verbatim>\<open>url.Parse\<close>, then \<^verbatim>\<open>Host\<close>\<close>
  ev_escape :: "string \<Rightarrow> string"        \<comment> \<open>\<^verbatim>\<open>url.QueryEscape\<close>\<close>
  ev_qr :: "string \<Rightarrow> string option"     \<comment> \<open>a QR code of the text, in base64\<close>
  ev_keys :: "string list"               \<comment> \<open>the order in which \<^verbatim>\<open>range\<close> visits devices and candidates\<close>
  ev_clients :: "nat list"               \<comment> \<open>the order in which \<^verbatim>\<open>range\<close> visits the hub's clients\<close>
  ev_extra :: "(string \<times> http_response) list"  \<comment> \<open>the registered routes in the order \<^verbatim>\<open>range\<close> visits them, and their answers\<close>
  ev_upgrade :: "nat option"             \<comment> \<open>the connection if the WebSocket is accepted\<close>
  ev_dial :: bool                        \<comment> \<open>the own listener accepts\<close>
  ev_body_ok :: bool                     \<comment> \<open>the whole body can be read\<close>
  ev_random_ok :: bool
  ev_clip :: "clip_state \<times> bool \<times> clip_error option"  \<comment> \<open>what the clipboard controller returns\<close>
  ev_clip_state :: clip_state            \<comment> \<open>\<^verbatim>\<open>hostClipboard.State()\<close>\<close>
  ev_wait :: "clip_wait list"            \<comment> \<open>until the deadline\<close>
  ev_ticks :: "(gotime \<times> (log_error + string)) list"  \<comment> \<open>what a log stream reads while its connection lasts\<close>
  ev_marshal :: "api_event \<Rightarrow> bytes option"
  ev_json_text :: "string \<Rightarrow> string \<Rightarrow> string option"  \<comment> \<open>an object with one text of that name\<close>
  ev_json_pair :: "string \<Rightarrow> (string \<times> string \<times> string \<times> string) option"
  ev_json_complete :: "string \<Rightarrow> (string \<times> string) option"
  ev_json_mode :: "string \<Rightarrow> (string \<times> uint64 \<times> bool) option"
  ev_json_clip :: "string \<Rightarrow> (string \<times> string) option"
  ev_json_flag :: "string \<Rightarrow> bool option"

type_synonym outcome = "api_server \<times> http_response \<times> api_call list"

definition answer :: "nat \<Rightarrow> http_body \<Rightarrow> api_server \<Rightarrow> outcome" where
  \<comment> \<open>\<^verbatim>\<open>http.Error\<close>, \<^verbatim>\<open>writeJSON\<close> and \<^verbatim>\<open>WriteHeader\<close>\<close>
  "answer status body s = (s, \<lparr>rs_status = status, rs_body = body, rs_cookie = None\<rparr>, [])"

definition NotFound :: "api_server \<Rightarrow> outcome" where
  "NotFound s = answer 404 (Plain ''404 page not found'') s"

definition MethodNotAllowed :: "api_server \<Rightarrow> outcome" where
  "MethodNotAllowed s = answer 405 (Plain ''method not allowed'') s"

definition with_call :: "api_call \<Rightarrow> outcome \<Rightarrow> outcome" where
  "with_call c x = (case x of (s, rs, calls) \<Rightarrow> (s, rs, c # calls))"

definition decodeJSON :: "(string \<Rightarrow> 'a option) \<Rightarrow> http_request \<Rightarrow> 'a option" where
  \<comment> \<open>the decoder sees the first 64 KiB of the body\<close>
  "decodeJSON dec r = dec (take (64 * 1024) (rq_Body r))"

definition BadJSONBody :: "api_server \<Rightarrow> outcome" where
  "BadJSONBody s = answer 400 (Plain ''invalid JSON'') s"

definition isLoopback :: "stdlib \<Rightarrow> string \<Rightarrow> bool" where
  \<comment> \<open>\<^verbatim>\<open>IsLoopback\<close> on the canonical text of the address\<close>
  "isLoopback std remote = (case split_host_port std remote of
      None \<Rightarrow> False
    | Some host \<Rightarrow> (case parse_ip std host of None \<Rightarrow> False | Some ip \<Rightarrow> has_prefix ip ''127.'' \<or> ip = ''::1''))"

definition AdminHeader :: string where "AdminHeader = ''X-Surf-Admin''"

definition adminAuthorized :: "api_config \<Rightarrow> http_request \<Rightarrow> bool" where
  "adminAuthorized cfg r \<longleftrightarrow> ac_adminToken cfg \<noteq> [] \<and> rq_header r AdminHeader = ac_adminToken cfg"

section \<open>Public handlers\<close>

definition check_session :: "api_env \<Rightarrow> http_request \<Rightarrow> api_server \<Rightarrow> api_server \<times> string \<times> bool" where
  \<comment> \<open>\<^verbatim>\<open>s.auth.Valid(r)\<close>\<close>
  "check_session env r s =
    (let (a, d, ok) = Valid (ev_std env) (ev_save env) (ev_now env) (rq_cookie r) (sv_auth s) in (s\<lparr>sv_auth := a\<rparr>, d, ok))"

definition handleHealth :: "api_config \<Rightarrow> api_env \<Rightarrow> http_request \<Rightarrow> api_server \<Rightarrow> outcome" where
  "handleHealth cfg env r s =
    (let wantStats = (rq_query r ''stats'' = ''1'' \<and> ac_stats cfg);
         (s, _, ok) = (if wantStats then check_session env r s else (s, [], True))
     in if \<not> ok \<and> (\<not> isLoopback (ev_std env) (rq_RemoteAddr r) \<or> \<not> adminAuthorized cfg r)
        then answer 401 (Plain ''unauthorized'') s
        else case ev_health env of
          Some e \<Rightarrow> answer 503 (Plain e) s
        | None \<Rightarrow> if wantStats then answer 200 (JSON JStats) s else answer 200 (Plain ''ok'') s)"

definition handleServerInfo :: "api_config \<Rightarrow> api_env \<Rightarrow> http_request \<Rightarrow> api_server \<Rightarrow> outcome" where
  "handleServerInfo cfg env r s =
    (let info = [(''api'', JText ''v1''), (''name'', JText (ac_ServerName cfg)), (''serverID'', JText (ac_Fingerprint cfg)),
           (''fingerprint'', JText (ac_Fingerprint cfg)),
           (''protocol'', JText (WireCompatibilityVersion (ac_CompatibilityVersion cfg))),
           (''compatibilityVersion'', JNumber (CompatibilityGeneration (ac_CompatibilityVersion cfg))),
           (''version'', JText (ac_AppVersion cfg)), (''pairing'', JFlag (PairingAvailable (sv_auth s)))];
         host = ev_lower env (rq_Host r);
         host = (case split_host_port (ev_std env) host of Some parsed \<Rightarrow> parsed | None \<Rightarrow> host)
     in answer 200 (JSON (JObject (if ac_TunnelHost cfg \<noteq> [] \<and> host = ac_TunnelHost cfg
          then info @ [(''transport'', JText ''tunnel'')] else info))) s)"

definition pair_status_code :: "auth_error \<Rightarrow> nat" where
  "pair_status_code e =
    (if e = ErrPairingLocked then 429
     else if e \<in> {ErrPairingClosed, ErrPairingCode, ErrPairingUsed} then 403
     else if e = ErrAlreadyPaired then 409 else 400)"

definition handlePairRequest :: "api_env \<Rightarrow> http_request \<Rightarrow> api_server \<Rightarrow> outcome" where
  "handlePairRequest env r s =
    (if rq_Method r \<noteq> ''POST'' then MethodNotAllowed s
     else
       let (a, allowed) = AllowPair (ev_std env) (ev_now env) (rq_RemoteAddr r) (sv_auth s); s = s\<lparr>sv_auth := a\<rparr>
       in if \<not> allowed then answer 429 (Plain ''too many attempts'') s
          else case decodeJSON (ev_json_pair env) r of
            None \<Rightarrow> BadJSONBody s
          | Some (name, key, code, qr) \<Rightarrow>
              (case RequestPair (ev_std env) (ev_now env) (ev_id env) name key (rq_RemoteAddr r) code qr (sv_auth s) of
                 (a, Inl e) \<Rightarrow> answer (pair_status_code e) (AuthError e) (s\<lparr>sv_auth := a\<rparr>)
               | (a, Inr status) \<Rightarrow> answer 201 (JSON (JStatus status)) (s\<lparr>sv_auth := a\<rparr>)))"

definition handlePairCancel :: "http_request \<Rightarrow> string \<Rightarrow> api_server \<Rightarrow> outcome" where
  "handlePairCancel r i s =
    (if rq_Method r \<noteq> ''POST'' then MethodNotAllowed s
     else let (a, ok) = RejectPair i (sv_auth s); s = s\<lparr>sv_auth := a\<rparr> in if ok then answer 204 NoBody s else NotFound s)"

definition handlePairAck :: "http_request \<Rightarrow> string \<Rightarrow> api_server \<Rightarrow> outcome" where
  "handlePairAck r i s =
    (if rq_Method r \<noteq> ''POST'' then MethodNotAllowed s
     else let (a, ok) = AckPair i (sv_auth s); s = s\<lparr>sv_auth := a\<rparr> in if ok then answer 204 NoBody s else NotFound s)"

definition handlePairStatus :: "api_env \<Rightarrow> http_request \<Rightarrow> string \<Rightarrow> api_server \<Rightarrow> outcome" where
  "handlePairStatus env r i s =
    (if rq_Method r \<noteq> ''GET'' then MethodNotAllowed s
     else case PairStatus (ev_now env) i (sv_auth s) of
       (a, None) \<Rightarrow> NotFound (s\<lparr>sv_auth := a\<rparr>)
     | (a, Some status) \<Rightarrow> answer 200 (JSON (JStatus status)) (s\<lparr>sv_auth := a\<rparr>))"

definition handlePairConfirm :: "api_env \<Rightarrow> http_request \<Rightarrow> string \<Rightarrow> api_server \<Rightarrow> outcome" where
  "handlePairConfirm env r i s =
    (if rq_Method r \<noteq> ''POST'' then MethodNotAllowed s
     else case ConfirmPair (ev_save env) (ev_now env) i (sv_auth s) of
       (a, Inl e) \<Rightarrow> answer 410 (AuthError e) (s\<lparr>sv_auth := a\<rparr>)
     | (a, Inr status) \<Rightarrow> answer 200 (JSON (JStatus status)) (s\<lparr>sv_auth := a\<rparr>))"

definition allow_auth :: "api_env \<Rightarrow> http_request \<Rightarrow> api_server \<Rightarrow> api_server \<times> bool" where
  \<comment> \<open>\<^verbatim>\<open>r.Method != http.MethodPost || !s.auth.AllowAuth(r.RemoteAddr)\<close>, negated\<close>
  "allow_auth env r s =
    (if rq_Method r \<noteq> ''POST'' then (s, False)
     else let (a, ok) = AllowAuth (ev_std env) (ev_now env) (rq_RemoteAddr r) (sv_auth s) in (s\<lparr>sv_auth := a\<rparr>, ok))"

definition handleAuthChallenge :: "api_env \<Rightarrow> http_request \<Rightarrow> api_server \<Rightarrow> outcome" where
  "handleAuthChallenge env r s =
    (case allow_auth env r s of
       (s, False) \<Rightarrow> answer 403 (Plain ''forbidden'') s
     | (s, True) \<Rightarrow> (case decodeJSON (ev_json_text env ''deviceID'') r of
           None \<Rightarrow> BadJSONBody s
         | Some deviceID \<Rightarrow> (case NewChallenge (ev_now env) (ev_id env) (ev_secret env) deviceID (sv_auth s) of
               (a, Inl _) \<Rightarrow> answer 401 (Plain ''unknown device'') (s\<lparr>sv_auth := a\<rparr>)
             | (a, Inr ch) \<Rightarrow> answer 200 (JSON (JChallenge ch)) (s\<lparr>sv_auth := a\<rparr>))))"

definition handleAuthComplete :: "api_env \<Rightarrow> http_request \<Rightarrow> api_server \<Rightarrow> outcome" where
  "handleAuthComplete env r s =
    (case allow_auth env r s of
       (s, False) \<Rightarrow> answer 403 (Plain ''forbidden'') s
     | (s, True) \<Rightarrow> (case decodeJSON (ev_json_complete env) r of
           None \<Rightarrow> BadJSONBody s
         | Some (challengeID, signature) \<Rightarrow>
             (case CompleteChallenge (ev_std env) (ev_now env) challengeID signature (\<lambda>m. auth_run (ev_std env) m (ev_others env)) (sv_auth s) of
                (a, Inl _) \<Rightarrow> answer 401 (Plain ''authentication failed'') (s\<lparr>sv_auth := a\<rparr>)
              | (a, Inr deviceID) \<Rightarrow>
                  (s\<lparr>sv_auth := a\<rparr>,
                   \<lparr>rs_status = 204, rs_body = NoBody,
                    rs_cookie = Some (SessionCookie (SetCookie (ev_std env) (ev_now env) deviceID a))\<rparr>, []))))"

definition send_json :: "api_env \<Rightarrow> nat \<Rightarrow> api_event \<Rightarrow> api_server \<Rightarrow> api_server" where
  \<comment> \<open>\<^verbatim>\<open>client.SendJSON\<close>\<close>
  "send_json env i e s = (case ev_marshal env e of None \<Rightarrow> s | Some data \<Rightarrow> s\<lparr>sv_hub := write_client i data (sv_hub s)\<rparr>)"

definition handleClientConnected :: "api_config \<Rightarrow> api_env \<Rightarrow> nat \<Rightarrow> string \<Rightarrow> api_server \<Rightarrow> api_server" where
  "handleClientConnected cfg env i deviceID s =
    (let s = send_json env i (ClipboardSync (ev_clip_state env)) s
     in if DeviceClearPending (ac_SurfHome cfg) deviceID (sv_logs s) then send_json env i (EmptyEvent ''log-clear'') s else s)"

definition ws_open :: "api_config \<Rightarrow> api_env \<Rightarrow> string \<Rightarrow> api_server \<Rightarrow> outcome" where
  \<comment> \<open>\<^verbatim>\<open>hub.ServeHTTPForDevice\<close>: the registration in the hub and its connect handler; the browser's own
     \<^verbatim>\<open>ClientConnected\<close> does not concern the server's state\<close>
  "ws_open cfg env deviceID s = with_call (ServeSocket deviceID) (case ev_upgrade env of
      None \<Rightarrow> answer 400 NoBody s
    | Some i \<Rightarrow> answer 101 NoBody (handleClientConnected cfg env i deviceID (s\<lparr>sv_hub := connect_client i deviceID (sv_hub s)\<rparr>)))"

definition ws_verify :: "api_config \<Rightarrow> api_env \<Rightarrow> http_request \<Rightarrow> api_server \<Rightarrow> api_server \<times> string option" where
  \<comment> \<open>the guards of \<^verbatim>\<open>handleWS\<close>: the device that may connect\<close>
  "ws_verify cfg env r s =
    (let (a, deviceID, ok) = VerifyWSTicket (ev_now env) (rq_query r ''ticket'') (sv_auth s);
         (clientCompatibility, versionOK) = ParseClientCompatibility (rq_query r ''cv'') (rq_query r ''nv'')
     in (s\<lparr>sv_auth := a\<rparr>,
         if \<not> ok \<or> \<not> versionOK \<or> clientCompatibility \<noteq> CompatibilityGeneration (ac_CompatibilityVersion cfg)
         then None else Some deviceID))"

definition handleWS :: "api_config \<Rightarrow> api_env \<Rightarrow> http_request \<Rightarrow> api_server \<Rightarrow> outcome" where
  "handleWS cfg env r s = (case ws_verify cfg env r s of
      (s, None) \<Rightarrow> answer 403 (Plain ''forbidden'') s
    | (s, Some deviceID) \<Rightarrow> ws_open cfg env deviceID s)"

definition tunnel_slots :: nat where "tunnel_slots = 8"

definition handleTunnel :: "api_env \<Rightarrow> http_request \<Rightarrow> api_server \<Rightarrow> outcome" where
  \<comment> \<open>up to the copying of bytes; the slot is given back by \<open>tunnel_closed\<close>\<close>
  "handleTunnel env r s =
    (if rq_Method r \<noteq> ''GET'' then MethodNotAllowed s
     else if sv_tunnels s \<ge> tunnel_slots then answer 503 (Plain ''tunnel capacity reached'') s
     else if \<not> ev_dial env then answer 503 (Plain ''Surf listener unavailable'') s
     else with_call ServeTunnel (case ev_upgrade env of
         None \<Rightarrow> answer 400 NoBody s
       | Some _ \<Rightarrow> answer 101 NoBody (s\<lparr>sv_tunnels := Suc (sv_tunnels s)\<rparr>)))"

definition tunnel_closed :: "api_server \<Rightarrow> api_server" where
  \<comment> \<open>\<^verbatim>\<open>defer func() { <-s.tunnelSlots }()\<close>\<close>
  "tunnel_closed s = s\<lparr>sv_tunnels := sv_tunnels s - 1\<rparr>"

section \<open>Handlers of a session\<close>

definition updatePayload :: "bool \<Rightarrow> client_package \<Rightarrow> json" where
  "updatePayload required b = JObject [(''version'', JText (cp_Version b)), (''packageVersion'', JText (cp_PackageVersion b)),
     (''compatibilityVersion'', JNumber (cp_Compatibility b)), (''required'', JFlag required),
     (''size'', JNumber (int (length (cp_Data b)))), (''sha256'', JText (cp_SHA256 b)),
     (''url'', JText (APIRoot @ ''/updates/client''))]"

definition current_package :: "api_config \<Rightarrow> client_package option" where
  \<comment> \<open>\<^verbatim>\<open>s.client != nil && s.client.Compatibility == serverCompatibility\<close>\<close>
  "current_package cfg = (case ac_client cfg of
      None \<Rightarrow> None
    | Some b \<Rightarrow> if cp_Compatibility b = CompatibilityGeneration (ac_CompatibilityVersion cfg) then Some b else None)"

definition compatibility_of :: "api_config \<Rightarrow> http_request \<Rightarrow> string \<times> json option" where
  "compatibility_of cfg r =
    (let (client, supplied) = ParseClientCompatibility (rq_query r ''cv'') (rq_query r ''nv'');
         server = CompatibilityGeneration (ac_CompatibilityVersion cfg)
     in if \<not> supplied \<or> client < server then
          (case current_package cfg of
             Some b \<Rightarrow> (''client-update-required'', Some (updatePayload True b))
           | None \<Rightarrow> (''server-update-required'', None))
        else if supplied \<and> client > server then (''server-update-required'', None)
        else (''compatible'',
          (case current_package cfg of
             Some b \<Rightarrow> if rq_query r ''av'' \<noteq> [] \<and> CompareVersions (cp_Version b) (rq_query r ''av'') > 0
                         then Some (updatePayload False b) else None
           | None \<Rightarrow> None)))"

definition handleConfig :: "api_config \<Rightarrow> api_env \<Rightarrow> http_request \<Rightarrow> string \<Rightarrow> api_server \<Rightarrow> outcome" where
  "handleConfig cfg env r deviceID s =
    (let (compatibility, update) = compatibility_of cfg r;
         (a, ticket) = WSTicket (ev_now env) (ev_secret env) deviceID (sv_auth s);
         response = [(''ticket'', JText ticket), (''vw'', JNumber (ac_ViewW cfg)), (''vh'', JNumber (ac_ViewH cfg)),
           (''nv'', JText (WireCompatibilityVersion (ac_CompatibilityVersion cfg))),
           (''compatibilityVersion'', JNumber (CompatibilityGeneration (ac_CompatibilityVersion cfg))),
           (''version'', JText (ac_AppVersion cfg)), (''host'', JText (rq_Host r)), (''caps'', JTexts (ac_Caps cfg)),
           (''compatibility'', JText compatibility)]
     in answer 200 (JSON (JObject (case update of None \<Rightarrow> response | Some u \<Rightarrow> response @ [(''clientUpdate'', u)])))
          (s\<lparr>sv_auth := a\<rparr>))"

definition handleBrowserMode :: "api_env \<Rightarrow> http_request \<Rightarrow> bool \<Rightarrow> api_server \<Rightarrow> outcome" where
  "handleBrowserMode env r admin s = (case sv_browser s of
      None \<Rightarrow> answer 503 (Plain ''browser setup is unavailable'') s
    | Some b \<Rightarrow>
        if rq_Method r = ''GET'' then answer 200 (JSON (JMode (mm_state b))) s
        else if rq_Method r \<noteq> ''POST'' then MethodNotAllowed s
        else case decodeJSON (ev_json_mode env) r of
          None \<Rightarrow> BadJSONBody s
        | Some (action, revision, force) \<Rightarrow>
            if \<not> admin \<and> action \<noteq> ''resume'' then answer 403 (Plain ''only the computer can start browser setup'') s
            else (case Request action revision force b of
                (Some e, b) \<Rightarrow> answer 409 (ModeError e) (s\<lparr>sv_browser := Some b\<rparr>)
              | (None, b) \<Rightarrow> answer 202 (JSON (JMode (mm_state b))) (s\<lparr>sv_browser := Some b\<rparr>)))"

definition handleClientLogs :: "api_config \<Rightarrow> api_env \<Rightarrow> http_request \<Rightarrow> string \<Rightarrow> api_server \<Rightarrow> outcome" where
  "handleClientLogs cfg env r deviceID s =
    (if rq_Method r \<noteq> ''PUT'' then MethodNotAllowed s
     else if DeviceClearPending (ac_SurfHome cfg) deviceID (sv_logs s) then answer 204 NoBody s
     else if \<not> ev_body_ok env then answer 400 (Plain ''read native log'') s
     else if length (rq_Body r) > DeviceMaxBytes then answer 413 (Plain ''native log is too large'') s
     else case WriteDeviceSnapshot (ev_log env) (ev_io env) (ac_SurfHome cfg) deviceID (rq_Body r) (sv_logs s) of
       (fs, Some e) \<Rightarrow> answer 400 (LogError e) (s\<lparr>sv_logs := fs\<rparr>)
     | (fs, None) \<Rightarrow> answer 204 NoBody (s\<lparr>sv_logs := fs\<rparr>))"

definition revoked :: "api_config \<Rightarrow> api_env \<Rightarrow> string \<Rightarrow> api_server \<Rightarrow> api_server" where
  \<comment> \<open>the revoke handler that \<^verbatim>\<open>app/serve.go\<close> installs\<close>
  "revoked cfg env deviceID s =
     s\<lparr>sv_hub := CloseDevice deviceID (sv_hub s), sv_logs := fst (RemoveDevice (ev_io env) (ac_SurfHome cfg) deviceID (sv_logs s))\<rparr>"

definition revoke_device :: "api_config \<Rightarrow> api_env \<Rightarrow> string \<Rightarrow> api_server \<Rightarrow> api_server \<times> bool" where
  \<comment> \<open>\<^verbatim>\<open>s.auth.Revoke(deviceID)\<close> and the handler it runs\<close>
  "revoke_device cfg env deviceID s =
    (let (a, ds, ok) = Revoke (ev_save env) deviceID (sv_auth s) in (fold (revoked cfg env) ds (s\<lparr>sv_auth := a\<rparr>), ok))"

definition serve_package :: "client_package option \<Rightarrow> http_request \<Rightarrow> api_server \<Rightarrow> outcome" where
  \<comment> \<open>\<^verbatim>\<open>clientPackage.ServeHTTP\<close>, a whole package\<close>
  "serve_package b r s = (case b of
      None \<Rightarrow> NotFound s
    | Some b \<Rightarrow> if rq_Method r \<noteq> ''GET'' then NotFound s else answer 200 (Content (cp_Data b)) s)"

definition Gated :: "string \<Rightarrow> string set \<Rightarrow> string set option" where
  \<comment> \<open>\<^const>\<open>None\<close>: it panics\<close>
  "Gated pattern routes = (if has_prefix pattern (APIRoot @ ''/'') then Some (insert pattern routes) else None)"

definition matches_route :: "string \<Rightarrow> string \<Rightarrow> bool" where
  "matches_route p pattern \<longleftrightarrow> p = pattern \<or> (pattern \<noteq> [] \<and> last pattern = CHR ''/'') \<and> has_prefix p pattern"

fun serve_extra :: "api_config \<Rightarrow> http_request \<Rightarrow> (string \<times> http_response) list \<Rightarrow> api_server \<Rightarrow> outcome" where
  "serve_extra cfg r [] s = NotFound s"
| "serve_extra cfg r ((pattern, response) # rest) s =
    (if matches_route (rq_Path r) pattern then
       (if pattern = APIRoot @ ''/updates/client'' \<and> ac_client cfg \<noteq> None then serve_package (ac_client cfg) r s
        else (s, response, [RunExtra pattern]))
     else serve_extra cfg r rest s)"

definition serve_revoke :: "api_config \<Rightarrow> api_env \<Rightarrow> http_request \<Rightarrow> string \<Rightarrow> api_server \<Rightarrow> outcome" where
  \<comment> \<open>\<^verbatim>\<open>APIRoot+"/auth/revoke"\<close>\<close>
  "serve_revoke cfg env r deviceID s =
    (if rq_Method r \<noteq> ''POST'' then MethodNotAllowed s
     else case revoke_device cfg env deviceID s of
       (s, False) \<Rightarrow> answer 401 (Plain ''device is no longer paired'') s
     | (s, True) \<Rightarrow> (s, \<lparr>rs_status = 204, rs_body = NoBody, rs_cookie = Some ClearedCookie\<rparr>, []))"

section \<open>Clipboard requests\<close>

definition clip_ack :: "string \<Rightarrow> bool \<Rightarrow> clipboard_request \<Rightarrow> clipboard_request" where
  "clip_ack d ok q =
    (if d \<in> cq_expected q \<and> cq_acked q d \<noteq> Some True then q\<lparr>cq_acked := (cq_acked q)(d \<mapsto> ok), cq_notify := True\<rparr> else q)"

definition clipboard_result :: "string \<Rightarrow> string \<Rightarrow> bool \<Rightarrow> api_server \<Rightarrow> api_server" where
  \<comment> \<open>a device's \<^verbatim>\<open>ClipboardResultCommand\<close>\<close>
  "clipboard_result d requestID ok s = (case sv_clipboard s requestID of
      None \<Rightarrow> s
    | Some q \<Rightarrow> s\<lparr>sv_clipboard := (sv_clipboard s)(requestID \<mapsto> clip_ack d ok q)\<rparr>)"

definition clip_complete :: "clipboard_request \<Rightarrow> bool" where
  "clip_complete q \<longleftrightarrow> card (dom (cq_acked q)) = card (cq_expected q)"

fun clip_wait_loop :: "string \<Rightarrow> clip_wait list \<Rightarrow> api_server \<Rightarrow> api_server" where
  \<comment> \<open>the loop of \<^verbatim>\<open>handleAdminClipboard\<close> in its \<^verbatim>\<open>select\<close>; the list ends at the deadline\<close>
  "clip_wait_loop i [] s = s"
| "clip_wait_loop i (ResultFrom d j ok # es) s = clip_wait_loop i es (clipboard_result d j ok s)"
| "clip_wait_loop i (Notified # es) s = (case sv_clipboard s i of
      None \<Rightarrow> s
    | Some q \<Rightarrow>
        if \<not> cq_notify q then clip_wait_loop i es s
        else
          let s = s\<lparr>sv_clipboard := (sv_clipboard s)(i \<mapsto> q\<lparr>cq_notify := False\<rparr>)\<rparr>
          in if clip_complete q then s else clip_wait_loop i es s)"

definition clip_open :: "string \<Rightarrow> string list \<Rightarrow> api_server \<Rightarrow> api_server" where
  "clip_open i targets s = s\<lparr>sv_clipboard := (sv_clipboard s)(i \<mapsto> \<lparr>cq_expected = set targets, cq_acked = Map.empty, cq_notify = False\<rparr>)\<rparr>"

definition clip_await :: "string \<Rightarrow> clip_wait list \<Rightarrow> api_server \<Rightarrow> api_server" where
  \<comment> \<open>the loop from its head\<close>
  "clip_await i es s = (case sv_clipboard s i of None \<Rightarrow> s | Some q \<Rightarrow> if clip_complete q then s else clip_wait_loop i es s)"

definition clip_delivered :: "string \<Rightarrow> api_server \<Rightarrow> string \<Rightarrow> bool" where
  "clip_delivered i s d \<longleftrightarrow> (case sv_clipboard s i of None \<Rightarrow> False | Some q \<Rightarrow> cq_acked q d = Some True)"

definition clip_request :: "api_env \<Rightarrow> string \<Rightarrow> string \<Rightarrow> string list \<Rightarrow> clip_state \<Rightarrow> bool \<Rightarrow> api_server \<Rightarrow> outcome" where
  \<comment> \<open>\<^verbatim>\<open>handleAdminClipboard\<close> from the request on; the text of the host's error is left out\<close>
  "clip_request env deviceID txt0 targets state hostOK s =
    (let i = ev_id env;
         s = clip_open i targets s;
         e = ClipboardSet i txt0 (deviceID = [] \<and> cs_Enabled state);
         s = s\<lparr>sv_hub := fst (SendDeviceJSON deviceID (ev_marshal env e) (ev_clients env) (sv_hub s))\<rparr>;
         s = clip_await i (ev_wait env) s;
         delivered = filter (clip_delivered i s) targets;
         failed = filter (\<lambda>d. \<not> clip_delivered i s d) targets
     in answer 200 (JSON (JObject [(''ok'', JFlag (failed = [])), (''delivered'', JTexts delivered), (''failed'', JTexts failed),
          (''enabled'', JFlag (cs_Enabled state)), (''available'', JFlag (cs_Available state)), (''system'', JText (cs_System state)),
          (''hostOK'', JFlag hostOK)])) (s\<lparr>sv_clipboard := (sv_clipboard s)(i := None)\<rparr>))"

definition handleAdminClipboard :: "api_env \<Rightarrow> http_request \<Rightarrow> api_server \<Rightarrow> outcome" where
  "handleAdminClipboard env r s = (case decodeJSON (ev_json_clip env) r of
      None \<Rightarrow> BadJSONBody s
    | Some (deviceID, txt0) \<Rightarrow> (case Validate txt0 of
        Some e \<Rightarrow> answer 400 (ClipError e) s
      | None \<Rightarrow>
          let (state, _, hostErr) = (if deviceID = [] then ev_clip env else (ev_clip_state env, False, None));
              host = (if deviceID = [] then with_call (ClipSetHost txt0) else (\<lambda>x. x));
              targets = ConnectedDevices (ev_clients env) (sv_hub s);
              targets = (if deviceID \<noteq> [] then filter (\<lambda>d. d = deviceID) targets else targets)
          in host (if deviceID \<noteq> [] \<and> targets = [] then answer 409 (Plain ''no matching paired device is connected'') s
                   else if \<not> ev_random_ok env then answer 500 (Plain ''could not create clipboard request'') s
                   else clip_request env deviceID txt0 targets state (hostErr = None) s)))"

definition clipboardStatePayload :: "clip_state \<Rightarrow> clip_error option \<Rightarrow> json" where
  \<comment> \<open>the error's text is left out\<close>
  "clipboardStatePayload state err = JObject [(''enabled'', JFlag (cs_Enabled state)), (''available'', JFlag (cs_Available state)),
     (''system'', JText (cs_System state)), (''known'', JFlag (cs_Known state)), (''text'', JText (cs_Text state)),
     (''revision'', JNumber (uint (cs_Revision state))), (''error'', JFlag (err \<noteq> None))]"

definition handleAdminClipboardState :: "api_env \<Rightarrow> api_server \<Rightarrow> outcome" where
  "handleAdminClipboardState env s =
    (let (state, _, err) = ev_clip env in with_call ClipRead (answer 200 (JSON (clipboardStatePayload state err)) s))"

definition broadcast_json :: "api_env \<Rightarrow> api_event \<Rightarrow> api_server \<Rightarrow> api_server" where
  \<comment> \<open>\<^verbatim>\<open>hub.BroadcastJSON\<close>\<close>
  "broadcast_json env e s = s\<lparr>sv_hub := BroadcastJSON (ev_marshal env e) (ev_clients env) (sv_hub s)\<rparr>"

definition handleAdminClipboardSync :: "api_env \<Rightarrow> http_request \<Rightarrow> api_server \<Rightarrow> outcome" where
  "handleAdminClipboardSync env r s = (case decodeJSON (ev_json_flag env) r of
      None \<Rightarrow> BadJSONBody s
    | Some enabled \<Rightarrow>
        let (state, _, err) = ev_clip env
        in with_call (ClipSetEnabled enabled)
             (if cs_Enabled state \<noteq> enabled then
                answer 500 (case err of None \<Rightarrow> Plain ''could not update clipboard sync preference'' | Some e \<Rightarrow> ClipError e) s
              else answer 200 (JSON (clipboardStatePayload state err)) (broadcast_json env (ClipboardSync state) s)))"

section \<open>Commands of connected devices\<close>

datatype aux_command =
    ClipboardResultCommand string bool | ClipboardChangeCommand string | LogRecordCommand string | LogClearedCommand | OtherCommand

definition handleAuxCommand :: "api_config \<Rightarrow> api_env \<Rightarrow> string \<Rightarrow> aux_command \<Rightarrow> api_server \<Rightarrow> api_server \<times> api_call list \<times> bool" where
  "handleAuxCommand cfg env d cmd s = (case cmd of
      ClipboardResultCommand i ok \<Rightarrow> (clipboard_result d i ok s, [], True)
    | ClipboardChangeCommand t \<Rightarrow>
        (let (state, changed, err) = ev_clip env
         in (if changed then broadcast_json env (ClipboardSet [] (cs_Text state) True) s else s, [ClipSetRemote t], True))
    | LogRecordCommand line \<Rightarrow>
        (if DeviceClearPending (ac_SurfHome cfg) d (sv_logs s) then s
         else s\<lparr>sv_logs := fst (AppendDeviceRecord (ev_log env) (ev_io env) (ac_SurfHome cfg) d line (sv_logs s))\<rparr>, [], True)
    | LogClearedCommand \<Rightarrow>
        (if \<not> DeviceClearPending (ac_SurfHome cfg) d (sv_logs s) then s
         else s\<lparr>sv_logs := fst (CompleteDeviceClear (ev_io env) (ac_SurfHome cfg) d (sv_logs s))\<rparr>, [], True)
    | OtherCommand \<Rightarrow> (s, [], False))"

definition clipboard_changed :: "api_env \<Rightarrow> clip_state \<Rightarrow> api_server \<Rightarrow> api_server" where
  \<comment> \<open>the callback of \<^verbatim>\<open>StartClipboardSync\<close>\<close>
  "clipboard_changed env state s = broadcast_json env (ClipboardSet [] (cs_Text state) True) s"

section \<open>Logs\<close>

definition log_source :: "http_request \<Rightarrow> string" where
  "log_source r = (let source = rq_query r ''source'' in if source = [] then ''server'' else source)"

definition readAdminLogs :: "api_config \<Rightarrow> api_env \<Rightarrow> http_request \<Rightarrow> api_server \<Rightarrow> string + string" where
  \<comment> \<open>an error is its kind\<close>
  "readAdminLogs cfg env r s =
    (let rotated = (\<lambda>w. map_sum (\<lambda>_. ''read'') id (ReadRotated (ev_io env) (lw_older w) (lw_current w) (int DefaultReadBytes)))
     in if log_source r = ''server'' then rotated (sv_serverLog s)
        else if log_source r = ''desktop'' then rotated (sv_desktopLog s)
        else if log_source r = ''device'' then
          map_sum (\<lambda>_. ''read'') id (ReadDeviceSnapshot (ev_io env) (ac_SurfHome cfg) (rq_query r ''deviceID'') (int DefaultReadBytes) (sv_logs s))
        else Inl ''unknown log source'')"

definition handleAdminLogs :: "api_config \<Rightarrow> api_env \<Rightarrow> http_request \<Rightarrow> api_server \<Rightarrow> outcome" where
  "handleAdminLogs cfg env r s = (case readAdminLogs cfg env r s of
      Inl e \<Rightarrow> answer 400 (Plain e) s
    | Inr data \<Rightarrow> answer 200 (Lines data) s)"

definition clear_answer :: "log_error option \<Rightarrow> bool \<Rightarrow> api_server \<Rightarrow> outcome" where
  "clear_answer err pending s = (case err of
      Some e \<Rightarrow> answer 400 (LogError e) s
    | None \<Rightarrow> answer 200 (JSON (JObject [(''cleared'', JFlag True), (''pending'', JFlag pending)])) s)"

definition handleAdminLogClear :: "api_config \<Rightarrow> api_env \<Rightarrow> http_request \<Rightarrow> api_server \<Rightarrow> outcome" where
  "handleAdminLogClear cfg env r s =
    (if log_source r = ''server'' then
       (let (w, err) = (if ac_serverLog cfg then log_Clear else ClearPath) (ev_io env) (sv_serverLog s)
        in clear_answer err False (s\<lparr>sv_serverLog := w\<rparr>))
     else if log_source r = ''desktop'' then
       (let (w, err) = ClearPath (ev_io env) (sv_desktopLog s) in clear_answer err False (s\<lparr>sv_desktopLog := w\<rparr>))
     else if log_source r = ''device'' then
       (let deviceID = rq_query r ''deviceID''
        in case DevicePath (ac_SurfHome cfg) deviceID of
             Inl e \<Rightarrow> clear_answer (Some e) False s
           | Inr _ \<Rightarrow> (case BeginDeviceClear (ev_io env) (ac_SurfHome cfg) deviceID (sv_logs s) of
                 (fs, Some e) \<Rightarrow> clear_answer (Some e) False (s\<lparr>sv_logs := fs\<rparr>)
               | (fs, None) \<Rightarrow>
                   let (h, targets) = SendDeviceJSON deviceID (ev_marshal env (EmptyEvent ''log-clear'')) (ev_clients env) (sv_hub s)
                   in clear_answer None (targets = []) (s\<lparr>sv_logs := fs, sv_hub := h\<rparr>)))
     else answer 400 (Plain ''unknown log source'') s)"

fun stream_ticks :: "log_env \<Rightarrow> (gotime \<times> (log_error + string)) list \<Rightarrow> string \<Rightarrow> gotime \<Rightarrow> stream_out list" where
  \<comment> \<open>the loop of \<^verbatim>\<open>handleAdminLogStream\<close>; the ticks end when the request is cancelled or a write fails\<close>
  "stream_ticks env [] previous lastWrite = []"
| "stream_ticks env ((now, Inl _) # ts) previous lastWrite = []"
| "stream_ticks env ((now, Inr next) # ts) previous lastWrite =
    (if next = previous then
       (if time_sub now lastWrite \<ge> 15 * second then KeepAlive # stream_ticks env ts previous now else stream_ticks env ts previous lastWrite)
     else
       let reset = \<not> has_prefix next previous;
           chunk = (if reset then next else drop (length previous) next)
       in case DecodeRecords env chunk of
            Inl _ \<Rightarrow> []
          | Inr records \<Rightarrow> Records records reset # stream_ticks env ts next now)"

definition log_stream :: "log_env \<Rightarrow> gotime \<Rightarrow> (gotime \<times> (log_error + string)) list \<Rightarrow> string \<Rightarrow> stream_out list" where
  \<comment> \<open>from the first \<^verbatim>\<open>send\<close> on\<close>
  "log_stream env now ticks current = (case DecodeRecords env current of
      Inl _ \<Rightarrow> []
    | Inr records \<Rightarrow> Records records True # stream_ticks env ticks current now)"

definition handleAdminLogStream :: "api_config \<Rightarrow> api_env \<Rightarrow> http_request \<Rightarrow> api_server \<Rightarrow> outcome" where
  "handleAdminLogStream cfg env r s = (case readAdminLogs cfg env r s of
      Inl e \<Rightarrow> answer 400 (Plain e) s
    | Inr current \<Rightarrow> answer 200 (EventStream (log_stream (ev_log env) (ev_now env) (ev_ticks env) current)) s)"

section \<open>Administration\<close>

definition pairingLink :: "api_env \<Rightarrow> string \<Rightarrow> string \<Rightarrow> string \<Rightarrow> string" where
  "pairingLink env address serverID token0 =
    (let address = trim_bytes address
     in if address = [] then []
        else
          let address = (case ev_url_host env address of
                Some host \<Rightarrow> if host \<noteq> [] then host else trim_prefix (trim_prefix address ''https://'') ''http://''
              | None \<Rightarrow> trim_prefix (trim_prefix address ''https://'') ''http://'');
              serverID = (if length serverID > 32 then take 32 serverID else serverID)
          in ''surf://pair?'' @ ''h='' @ ev_escape env address @ ''&i='' @ ev_escape env serverID @ ''&t='' @ ev_escape env token0)"

definition pairingSessionResponse :: "api_config \<Rightarrow> api_env \<Rightarrow> pairing_session \<Rightarrow> string \<Rightarrow> json" where
  \<comment> \<open>the time of creation is left out\<close>
  "pairingSessionResponse cfg env session address =
    (let response = [(''active'', JFlag True), (''id'', JText (se_ID session)), (''code'', JText (se_Code session)),
           (''attempts'', JNumber (int (se_Attempts session))), (''candidateID'', JText (se_CandidateID session)),
           (''serverID'', JText (ac_Fingerprint cfg)), (''name'', JText (ac_ServerName cfg)),
           (''publicAddress'', JText (trim_bytes address))];
         link = pairingLink env address (ac_Fingerprint cfg) (se_QRToken session)
     in JObject (if link = [] then response
          else response @ [(''pairingURL'', JText link)] @ (case ev_qr env link of None \<Rightarrow> [] | Some png \<Rightarrow> [(''qrPNG'', JText png)])))"

definition admin_open_pairing :: "api_config \<Rightarrow> api_env \<Rightarrow> http_request \<Rightarrow> api_server \<Rightarrow> outcome" where
  \<comment> \<open>\<^verbatim>\<open>POST /admin/pairing/session\<close>\<close>
  "admin_open_pairing cfg env r s =
    (if (case sv_browser s of None \<Rightarrow> False | Some b \<Rightarrow> ms_Standalone (mm_state b)) then
       answer 409 (Plain ''Close standalone browser setup and start Surf before pairing a device'') s
     else case decodeJSON (ev_json_text env ''publicAddress'') r of
       None \<Rightarrow> BadJSONBody s
     | Some address \<Rightarrow>
         let address = trim_bytes address;
             address = (if address = [] then ac_PublicAddress cfg else address);
             (a, session) = OpenPairing (ev_now env) (ev_id env) (ev_code env) (ev_secret env) (sv_auth s)
         in answer 201 (JSON (pairingSessionResponse cfg env session address)) (s\<lparr>sv_auth := a\<rparr>))"

definition admin_pairing_session :: "api_config \<Rightarrow> api_env \<Rightarrow> api_server \<Rightarrow> outcome" where
  \<comment> \<open>\<^verbatim>\<open>GET /admin/pairing/session\<close>\<close>
  "admin_pairing_session cfg env s = answer 200 (JSON (case PairingSession (sv_auth s) of
      None \<Rightarrow> JObject [(''active'', JFlag False), (''serverID'', JText (ac_Fingerprint cfg)), (''name'', JText (ac_ServerName cfg)),
        (''publicAddress'', JText (ac_PublicAddress cfg))]
    | Some session \<Rightarrow> pairingSessionResponse cfg env session (ac_PublicAddress cfg))) s"

definition parse_uint64 :: "string \<Rightarrow> uint64 option" where
  \<comment> \<open>\<^verbatim>\<open>strconv.ParseUint(value, 10, 64)\<close>\<close>
  "parse_uint64 s = (if s = [] \<or> \<not> list_all is_digit s \<or> digits_value s \<ge> 2 ^ 64 then None else Some (word_of_nat (digits_value s)))"

definition admin_shutdown :: "api_config \<Rightarrow> http_request \<Rightarrow> api_server \<Rightarrow> outcome" where
  \<comment> \<open>\<^verbatim>\<open>POST /admin/shutdown\<close>\<close>
  "admin_shutdown cfg r s =
    (let value = rq_header r ''X-Surf-Browser-Revision''
     in if \<not> ac_shutdown cfg then answer 503 (Plain ''shutdown unavailable'') s
        else if value = [] then with_call ShutdownServer (answer 202 NoBody s)
        else case (parse_uint64 value, sv_browser s) of
          (Some revision, Some b) \<Rightarrow> (case PrepareShutdown revision b of
              (Some e, b) \<Rightarrow> answer 409 (ModeError e) (s\<lparr>sv_browser := Some b\<rparr>)
            | (None, b) \<Rightarrow> with_call ShutdownServer (answer 202 NoBody (s\<lparr>sv_browser := Some b\<rparr>)))
        | _ \<Rightarrow> answer 409 (Plain ''invalid browser revision'') s)"

definition admin_found :: "api_server \<times> bool \<Rightarrow> outcome" where
  "admin_found x = (case x of (s, ok) \<Rightarrow> if ok then answer 204 NoBody s else NotFound s)"

definition admin_route :: "api_config \<Rightarrow> api_env \<Rightarrow> http_request \<Rightarrow> api_server \<Rightarrow> outcome" where
  \<comment> \<open>the \<^verbatim>\<open>switch\<close> of \<^verbatim>\<open>handleAdmin\<close>\<close>
  "admin_route cfg env r s =
    (let p = rq_Path r; m = rq_Method r; is_path = (\<lambda>q. p = APIRoot @ ''/admin/'' @ q); under = (\<lambda>q. has_prefix p (APIRoot @ ''/admin/'' @ q));
         rest = (\<lambda>q. trim_prefix p (APIRoot @ ''/admin/'' @ q))
     in if is_path ''pairing/session'' \<and> m = ''POST'' then admin_open_pairing cfg env r s
        else if is_path ''pairing/session'' \<and> m = ''GET'' then admin_pairing_session cfg env s
        else if is_path ''pairing/session'' \<and> m = ''DELETE'' then answer 204 NoBody (s\<lparr>sv_auth := fst (ClosePairing (sv_auth s))\<rparr>)
        else if is_path ''pairing/candidates'' \<and> m = ''GET'' then
          (let (a, cs) = ListCandidates (ev_now env) (ev_keys env) (sv_auth s)
           in answer 200 (JSON (JObject [(''candidates'', JCandidates cs)])) (s\<lparr>sv_auth := a\<rparr>))
        else if under ''pairing/reject/'' \<and> m = ''POST'' then
          (let (a, ok) = RejectPair (rest ''pairing/reject/'') (sv_auth s) in admin_found (s\<lparr>sv_auth := a\<rparr>, ok))
        else if is_path ''devices'' \<and> m = ''GET'' then
          answer 200 (JSON (JObject [(''devices'', JDevices (ListDevices (ev_keys env) (sv_auth s)))])) s
        else if under ''devices/revoke/'' \<and> m = ''POST'' then admin_found (revoke_device cfg env (rest ''devices/revoke/'') s)
        else if is_path ''logs/sources'' \<and> m = ''GET'' then
          answer 200 (JSON (JObject [(''devices'', JDevices (ListDevices (ev_keys env) (sv_auth s))),
            (''online'', JTexts (ConnectedDevices (ev_clients env) (sv_hub s)))])) s
        else if is_path ''logs'' \<and> m = ''GET'' then handleAdminLogs cfg env r s
        else if is_path ''logs/stream'' \<and> m = ''GET'' then handleAdminLogStream cfg env r s
        else if is_path ''logs/refresh'' \<and> m = ''POST'' then
          (case decodeJSON (ev_json_text env ''deviceID'') r of
             None \<Rightarrow> BadJSONBody s
           | Some deviceID \<Rightarrow>
               let (h, targets) = SendDeviceJSON deviceID (ev_marshal env (EmptyEvent ''log-request'')) (ev_clients env) (sv_hub s)
               in answer 200 (JSON (JObject [(''devices'', JTexts targets)])) (s\<lparr>sv_hub := h\<rparr>))
        else if is_path ''logs'' \<and> m = ''DELETE'' then handleAdminLogClear cfg env r s
        else if is_path ''clipboard'' \<and> m = ''GET'' then handleAdminClipboardState env s
        else if is_path ''clipboard'' \<and> m = ''POST'' then handleAdminClipboard env r s
        else if is_path ''clipboard/sync'' \<and> m = ''PUT'' then handleAdminClipboardSync env r s
        else if is_path ''shutdown'' \<and> m = ''POST'' then admin_shutdown cfg r s
        else if is_path ''browser'' then handleBrowserMode env r True s
        else NotFound s)"

definition handleAdmin :: "api_config \<Rightarrow> api_env \<Rightarrow> http_request \<Rightarrow> api_server \<Rightarrow> outcome" where
  "handleAdmin cfg env r s =
    (if \<not> isLoopback (ev_std env) (rq_RemoteAddr r) then answer 403 (Plain ''local access only'') s
     else if \<not> adminAuthorized cfg r then answer 403 (Plain ''admin authorization required'') s
     else admin_route cfg env r s)"

section \<open>Routing\<close>

definition serve_session :: "api_config \<Rightarrow> api_env \<Rightarrow> http_request \<Rightarrow> api_server \<Rightarrow> outcome" where
  \<comment> \<open>\<^verbatim>\<open>route\<close> below the \<^verbatim>\<open>switch\<close>\<close>
  "serve_session cfg env r s =
    (let p = rq_Path r; (s, deviceID, ok) = check_session env r s
     in if \<not> ok then answer 401 (Plain ''unauthorized'') s
        else if p = APIRoot @ ''/auth/revoke'' then serve_revoke cfg env r deviceID s
        else if p = APIRoot @ ''/config'' then handleConfig cfg env r deviceID s
        else if p = APIRoot @ ''/browser-mode'' then handleBrowserMode env r False s
        else if p = APIRoot @ ''/client/logs'' then handleClientLogs cfg env r deviceID s
        else serve_extra cfg r (ev_extra env) s)"

definition route :: "api_config \<Rightarrow> api_env \<Rightarrow> http_request \<Rightarrow> api_server \<Rightarrow> outcome" where
  "route cfg env r s =
    (let p = rq_Path r; under = (\<lambda>q. has_prefix p (APIRoot @ q)); rest = (\<lambda>q. trim_prefix p (APIRoot @ q))
     in if \<not> under ''/'' \<and> p \<noteq> APIRoot then NotFound s
        else if p = APIRoot @ ''/health'' then handleHealth cfg env r s
        else if p = APIRoot @ ''/server'' then handleServerInfo cfg env r s
        else if p = APIRoot @ ''/tunnel'' then handleTunnel env r s
        else if p = APIRoot @ ''/pairing/request'' then handlePairRequest env r s
        else if under ''/pairing/status/'' then handlePairStatus env r (rest ''/pairing/status/'') s
        else if under ''/pairing/confirm/'' then handlePairConfirm env r (rest ''/pairing/confirm/'') s
        else if under ''/pairing/cancel/'' then handlePairCancel r (rest ''/pairing/cancel/'') s
        else if under ''/pairing/ack/'' then handlePairAck r (rest ''/pairing/ack/'') s
        else if p = APIRoot @ ''/auth/challenge'' then handleAuthChallenge env r s
        else if p = APIRoot @ ''/auth/complete'' then handleAuthComplete env r s
        else if p = APIRoot @ ''/ws'' then handleWS cfg env r s
        else if under ''/admin/'' then handleAdmin cfg env r s
        else serve_session cfg env r s)"

end
