(* ===== verification/Log_Facts.thy ===== *)
theory Log_Facts
  imports Log_Store
begin

text \<open>
  Facts about the logs: the files stay within their limits whatever the file system does, the writer's loop ends and does not
  depend on how its input is cut, and merging the snapshot of a device keeps what arrived after it.
\<close>

section \<open>The writer\<close>

abbreviation content :: "string option \<Rightarrow> string" where
  "content f \<equiv> (case f of None \<Rightarrow> [] | Some c \<Rightarrow> c)"

definition log_inv :: "log_writer \<Rightarrow> bool" where
  "log_inv w \<longleftrightarrow> 256 \<le> lw_max w \<and> length (content (lw_current w)) \<le> lw_size w \<and> length (content (lw_current w)) \<le> lw_max w \<and>
     length (content (lw_older w)) \<le> lw_max w"

definition small_notice :: "log_env \<Rightarrow> bool" where
  \<comment> \<open>the record that replaces an oversized one is small\<close>
  "small_notice env \<longleftrightarrow> (\<forall>n. length (recordLine env (oversized env n)) \<le> 256)"

lemma rotate_inv:
  assumes "log_inv w"
  shows "log_inv (fst (rotate io w))" "lw_max (fst (rotate io w)) = lw_max w" "lw_pending (fst (rotate io w)) = lw_pending w"
    "snd (rotate io w) = None \<Longrightarrow> lw_size (fst (rotate io w)) = 0 \<and> content (lw_current (fst (rotate io w))) = []"
  using assms by (auto simp: rotate_def log_inv_def Let_def split: option.splits)

lemma log_open_inv:
  shows "log_inv w \<Longrightarrow> log_inv (fst (log_open io w))" "lw_max (fst (log_open io w)) = lw_max w" "lw_size (fst (log_open io w)) = lw_size w"
    "content (lw_current (fst (log_open io w))) = content (lw_current w)" "lw_pending (fst (log_open io w)) = lw_pending w"
  by (auto simp: log_open_def log_inv_def split: option.splits)

lemma append_inv:
  assumes "log_inv w" "length data \<le> lw_max w" "lw_size w + length data \<le> lw_max w \<or> lw_size w = 0"
  shows "log_inv (fst (append_data io data w))" "lw_max (fst (append_data io data w)) = lw_max w"
  using assms by (auto simp: append_data_def log_inv_def Let_def min_def split: option.splits)

lemma writeLine_inv:
  assumes "log_inv w" "small_notice env"
  shows "log_inv (fst (writeLine env io data w)) \<and> lw_max (fst (writeLine env io data w)) = lw_max w"
proof -
  define v where "v = (if io_stat io then w\<lparr>lw_size := (case lw_current w of None \<Rightarrow> 0 | Some c \<Rightarrow> length c)\<rparr> else w)"
  define d where "d = (if length data > lw_max v then recordLine env (oversized env (length data)) else data)"
  have v: "log_inv v" "lw_max v = lw_max w" using assms(1) by (auto simp: v_def log_inv_def split: option.splits)
  have "256 \<le> lw_max v" using v(1) by (simp add: log_inv_def)
  then have d: "length d \<le> lw_max v" using assms(2) by (auto simp: d_def small_notice_def intro: order_trans)
  have step: "writeLine env io data w =
      (if lw_size v > 0 \<and> lw_size v + length d > lw_max v then
         (case rotate io v of (w, Some e) \<Rightarrow> (w, Some e)
          | (w, None) \<Rightarrow> (case log_open io w of (w, Some e) \<Rightarrow> (w, Some e) | (w, None) \<Rightarrow> append_data io d w))
       else append_data io d v)"
    unfolding writeLine_def Let_def v_def [symmetric] d_def [symmetric] by (rule refl)
  show ?thesis
  proof (cases "lw_size v > 0 \<and> lw_size v + length d > lw_max v")
    case False
    then show ?thesis using append_inv [OF v(1) d] v(2) by (auto simp: step)
  next
    case True
    obtain w1 r1 where r: "rotate io v = (w1, r1)" by force
    obtain w2 r2 where o: "log_open io w1 = (w2, r2)" by force
    have 1: "log_inv w1" "lw_max w1 = lw_max v" "r1 = None \<Longrightarrow> lw_size w1 = 0" using rotate_inv [OF v(1), of io] r by simp_all
    have 2: "log_inv w2" "lw_max w2 = lw_max v" "r1 = None \<Longrightarrow> lw_size w2 = 0" using log_open_inv [where w = w1 and io = io] o 1 by simp_all
    have 3: "log_inv (fst (append_data io d w2))" "lw_max (fst (append_data io d w2)) = lw_max v" if "r1 = None"
      using append_inv [OF 2(1)] 2 d that by auto
    show ?thesis using True 1 2 3 v(2) by (simp add: step r o split: option.split)
  qed
qed

section \<open>The loop of Write\<close>

lemma index_of_Some: "index_of c xs = Some n \<Longrightarrow> n < length xs \<and> xs ! n = c \<and> c \<notin> set (take n xs)"
  by (induction xs arbitrary: n) (auto split: if_splits simp: nth_Cons')

lemma index_of_None: "index_of c xs = None \<longleftrightarrow> c \<notin> set xs"
  by (induction xs) auto

lemma index_of_append: "index_of c xs = Some n \<Longrightarrow> index_of c (xs @ ys) = Some n"
  by (induction xs arbitrary: n) (auto split: if_splits)

lemma log_inv_pending [simp]: "log_inv (w\<lparr>lw_pending := p\<rparr>) = log_inv w" "log_inv (w\<lparr>lw_mirror := p\<rparr>) = log_inv w"
  by (simp_all add: log_inv_def)

lemma writeLine_pending:
  "writeLine env io d (w\<lparr>lw_pending := p\<rparr>) = (let (w, r) = writeLine env io d w in (w\<lparr>lw_pending := p\<rparr>, r))"
  "lw_pending (fst (writeLine env io d w)) = lw_pending w" "lw_mirror (fst (writeLine env io d w)) = lw_mirror w"
  by (simp_all add: writeLine_def rotate_def log_open_def append_data_def Let_def split: option.split)

lemma writeLine_mirror:
  "writeLine env io d (w\<lparr>lw_mirror := p\<rparr>) = (let (w, r) = writeLine env io d w in (w\<lparr>lw_mirror := p\<rparr>, r))"
  by (simp add: writeLine_def rotate_def log_open_def append_data_def Let_def split: option.split)

lemma write_lines_returns:
  "\<exists>w' r. write_lines env io w = Some (w', r) \<and> (r = None \<longrightarrow> nl \<notin> set (lw_pending w')) \<and> lw_mirror w' = lw_mirror w \<and>
     (log_inv w \<and> small_notice env \<longrightarrow> log_inv w' \<and> lw_max w' = lw_max w)"
proof (induction "length (lw_pending w)" arbitrary: w rule: less_induct)
  case less
  show ?case
  proof (cases "index_of nl (lw_pending w)")
    case None
    have "nl \<notin> set (lw_pending w)" using None index_of_None by metis
    then show ?thesis by (subst write_lines.simps) (simp add: None)
  next
    case (Some n)
    let ?w = "w\<lparr>lw_pending := drop (Suc n) (lw_pending w)\<rparr>"
    obtain v e where v: "writeLine env io (normalizeLine env (take n (lw_pending w))) ?w = (v, e)" by force
    have "lw_pending v = drop (Suc n) (lw_pending w)" using writeLine_pending(2) [of env io _ ?w] v by (metis fst_conv log_writer.select_convs(4) log_writer.update_convs(4) log_writer.surjective)
    then have "length (lw_pending v) < length (lw_pending w)" using index_of_Some [OF Some] by (simp, linarith)
    note IH = less [OF this]
    have inv: "log_inv w \<and> small_notice env \<longrightarrow> log_inv v \<and> lw_max v = lw_max w"
      using writeLine_inv [of ?w env io "normalizeLine env (take n (lw_pending w))"] v by simp
    have mirror: "lw_mirror v = lw_mirror w" using writeLine_pending(3) [of env io "normalizeLine env (take n (lw_pending w))" ?w] v by simp
    show ?thesis using IH inv mirror by (subst write_lines.simps) (auto simp: Some v split: option.split)
  qed
qed

text \<open>
  C33 (termination). Writing to a log returns, for every input and whatever the file system does: the loop over the complete lines ends. When it
  succeeds it reports all bytes as written and only the beginning of a line is left for the next call.
\<close>
theorem log_write_returns:
  "\<exists>w' r. log_Write env io data w = Some (w', r) \<and> (\<forall>n. r = Inr n \<longrightarrow> n = length data \<and> nl \<notin> set (lw_pending w'))"
proof -
  let ?w = "w\<lparr>lw_mirror := lw_mirror w @ data, lw_pending := lw_pending w @ data\<rparr>"
  obtain w' r where "write_lines env io ?w = Some (w', r)" "r = None \<longrightarrow> nl \<notin> set (lw_pending w')"
    using write_lines_returns [of env io ?w] by blast
  then show ?thesis by (cases r) (auto simp: log_Write_def)
qed

theorem log_write_returns_witness:
  "\<exists>w' r. log_Write \<lparr>lv_marshal = (\<lambda>_. ''{}''), lv_unmarshal = (\<lambda>_. None), lv_lower = (\<lambda>s. s), lv_float = (\<lambda>_. None), lv_now = ''now''\<rparr>
     \<lparr>io_mkdir = True, io_read = True, io_stat = True, io_open = True, io_close = True, io_rename = True, io_remove = True, io_write = True, io_written = 0\<rparr>
     (''a'' @ [nl] @ ''b'')
     \<lparr>lw_max = 256, lw_open = True, lw_size = 0, lw_pending = [], lw_current = Some [], lw_older = None, lw_mirror = []\<rparr> = Some (w', r)"
  using log_write_returns by blast

lemma write_lines_append:
  assumes "write_lines env io w = Some (w', None)"
  shows "write_lines env io (w\<lparr>lw_mirror := m, lw_pending := lw_pending w @ q\<rparr>) = write_lines env io (w'\<lparr>lw_mirror := m, lw_pending := lw_pending w' @ q\<rparr>)"
  using assms
proof (induction "length (lw_pending w)" arbitrary: w rule: less_induct)
  case less
  show ?case
  proof (cases "index_of nl (lw_pending w)")
    case None
    then have "w' = w" using less.prems by (subst (asm) write_lines.simps) simp
    then show ?thesis by simp
  next
    case (Some n)
    have ix: "index_of nl (lw_pending w @ q) = Some n" by (rule index_of_append [OF Some])
    have n: "n < length (lw_pending w)" using index_of_Some [OF Some] by simp
    let ?l = "normalizeLine env (take n (lw_pending w))" and ?p = "drop (Suc n) (lw_pending w)"
    obtain v e where v: "writeLine env io ?l (w\<lparr>lw_pending := ?p\<rparr>) = (v, e)" by force
    have e: "e = None" "write_lines env io v = Some (w', None)"
      using less.prems by (subst (asm) write_lines.simps, auto simp: Some v split: option.splits)+
    have p: "lw_pending v = ?p" using writeLine_pending(2) [of env io ?l "w\<lparr>lw_pending := ?p\<rparr>"] v by simp
    then have "length (lw_pending v) < length (lw_pending w)" using n by simp
    from less.hyps [OF this e(2)]
    have IH: "write_lines env io (v\<lparr>lw_mirror := m, lw_pending := lw_pending v @ q\<rparr>) = write_lines env io (w'\<lparr>lw_mirror := m, lw_pending := lw_pending w' @ q\<rparr>)" .
    have "w\<lparr>lw_mirror := m, lw_pending := ?p @ q\<rparr> = w\<lparr>lw_pending := ?p, lw_mirror := m, lw_pending := ?p @ q\<rparr>" by simp
    then have "writeLine env io ?l (w\<lparr>lw_mirror := m, lw_pending := ?p @ q\<rparr>) = (v\<lparr>lw_mirror := m, lw_pending := ?p @ q\<rparr>, None)"
      using v e(1) by (simp only: writeLine_pending(1) [where w = "w\<lparr>lw_pending := ?p, lw_mirror := m\<rparr>"] writeLine_mirror [where w = "w\<lparr>lw_pending := ?p\<rparr>"])
        (simp add: Let_def)
    then have "write_lines env io (w\<lparr>lw_mirror := m, lw_pending := lw_pending w @ q\<rparr>) = write_lines env io (v\<lparr>lw_mirror := m, lw_pending := ?p @ q\<rparr>)"
      using n ix by (subst write_lines.simps) simp
    then show ?thesis using IH p by simp
  qed
qed

text \<open>
  The log does not depend on how the output of a process is cut into writes: two writes that succeed leave the writer, its
  files, the mirror and the rest of a line exactly as one write of the whole would.
\<close>
theorem log_write_chunks:
  assumes "log_Write env io a w = Some (w1, Inr n)" "log_Write env io b w1 = Some (w2, Inr m)"
  shows "log_Write env io (a @ b) w = Some (w2, Inr (n + m))"
proof -
  let ?wa = "w\<lparr>lw_mirror := lw_mirror w @ a, lw_pending := lw_pending w @ a\<rparr>"
  have "lw_open w" using assms(1) by (simp add: log_Write_def split: if_splits)
  moreover have o1: "lw_open w1" using assms(2) by (simp add: log_Write_def split: if_splits)
  moreover have 1: "write_lines env io ?wa = Some (w1, None)" "n = length a"
    using assms(1) calculation by (auto simp: log_Write_def split: option.splits)
  moreover have 2: "write_lines env io (w1\<lparr>lw_mirror := lw_mirror w1 @ b, lw_pending := lw_pending w1 @ b\<rparr>) = Some (w2, None)" "m = length b"
    using assms(2) o1 by (auto simp: log_Write_def split: option.splits)
  moreover have "lw_mirror w1 = lw_mirror w @ a"
    using write_lines_returns [of env io ?wa] 1(1) by auto
  moreover have "?wa\<lparr>lw_mirror := (lw_mirror w @ a) @ b, lw_pending := lw_pending ?wa @ b\<rparr> = w\<lparr>lw_mirror := lw_mirror w @ a @ b, lw_pending := lw_pending w @ a @ b\<rparr>"
    by simp
  ultimately show ?thesis using write_lines_append [OF 1(1), where m = "(lw_mirror w @ a) @ b" and q = b] by (simp add: log_Write_def)
qed

definition plain_log :: log_env where
  "plain_log = \<lparr>lv_marshal = (\<lambda>_. ''{}''), lv_unmarshal = (\<lambda>_. None), lv_lower = (\<lambda>s. s), lv_float = (\<lambda>_. None), lv_now = ''now''\<rparr>"

definition good_io :: log_io where
  "good_io = \<lparr>io_mkdir = True, io_read = True, io_stat = True, io_open = True, io_close = True, io_rename = True, io_remove = True,
     io_write = True, io_written = 0\<rparr>"

definition new_log :: log_writer where
  "new_log = \<lparr>lw_max = 256, lw_open = True, lw_size = 0, lw_pending = [], lw_current = Some [], lw_older = None, lw_mirror = []\<rparr>"

lemma plain_lines: "normalizeLine plain_log l = ''{}'' @ [nl]"
  by (simp add: normalizeLine_def decodeRecord_def plain_log_def recordLine_def Let_def)

lemma plain_write:
  "log_Write plain_log good_io ''a'' new_log = Some (new_log\<lparr>lw_mirror := ''a'', lw_pending := ''a''\<rparr>, Inr 1)"
  "log_Write plain_log good_io [nl] (new_log\<lparr>lw_mirror := ''a'', lw_pending := ''a''\<rparr>) =
     Some (new_log\<lparr>lw_mirror := ''a'' @ [nl], lw_pending := [], lw_size := 3, lw_current := Some (''{}'' @ [nl])\<rparr>, Inr 1)"
  and plain_write_line: "log_Write plain_log good_io (''a'' @ [nl]) new_log =
     Some (new_log\<lparr>lw_mirror := ''a'' @ [nl], lw_pending := [], lw_size := 3, lw_current := Some (''{}'' @ [nl])\<rparr>, Inr 2)"
proof -
  have n: "CHR ''a'' \<noteq> nl" by (simp add: nl_def)
  show "log_Write plain_log good_io ''a'' new_log = Some (new_log\<lparr>lw_mirror := ''a'', lw_pending := ''a''\<rparr>, Inr 1)"
    by (simp add: log_Write_def new_log_def) (subst write_lines.simps, simp add: n)
  have l: "writeLine plain_log good_io (''{}'' @ [nl]) (new_log\<lparr>lw_mirror := ''a'' @ [nl], lw_pending := []\<rparr>) =
      (new_log\<lparr>lw_mirror := ''a'' @ [nl], lw_pending := [], lw_size := 3, lw_current := Some (''{}'' @ [nl])\<rparr>, None)"
    by (simp add: writeLine_def good_io_def new_log_def append_data_def)
  have e: "write_lines plain_log good_io w = Some (w, None)" if "lw_pending w = []" for w
    by (subst write_lines.simps) (simp add: that)
  have "write_lines plain_log good_io (new_log\<lparr>lw_mirror := ''a'' @ [nl], lw_pending := ''a'' @ [nl]\<rparr>) =
      Some (new_log\<lparr>lw_mirror := ''a'' @ [nl], lw_pending := [], lw_size := 3, lw_current := Some (''{}'' @ [nl])\<rparr>, None)"
    using l by (subst write_lines.simps) (simp add: n plain_lines e)
  then show "log_Write plain_log good_io [nl] (new_log\<lparr>lw_mirror := ''a'', lw_pending := ''a''\<rparr>) =
     Some (new_log\<lparr>lw_mirror := ''a'' @ [nl], lw_pending := [], lw_size := 3, lw_current := Some (''{}'' @ [nl])\<rparr>, Inr 1)"
    "log_Write plain_log good_io (''a'' @ [nl]) new_log =
     Some (new_log\<lparr>lw_mirror := ''a'' @ [nl], lw_pending := [], lw_size := 3, lw_current := Some (''{}'' @ [nl])\<rparr>, Inr 2)"
    by (simp_all add: log_Write_def new_log_def)
qed

theorem log_write_chunks_witness:
  "log_Write plain_log good_io (''a'' @ [nl]) new_log =
     Some (new_log\<lparr>lw_mirror := ''a'' @ [nl], lw_pending := [], lw_size := 3, lw_current := Some (''{}'' @ [nl])\<rparr>, Inr 2)"
  using log_write_chunks [OF plain_write] by (simp add: numeral_2_eq_2)

section \<open>Limits\<close>

datatype log_op =
    LogWrite string
  | LogEvent string string string "(string \<rightharpoonup> log_value) option"
  | LogClose
  | LogClear
  | LogClearPath

definition log_step :: "log_env \<Rightarrow> log_io \<Rightarrow> log_op \<Rightarrow> log_writer \<Rightarrow> log_writer" where
  "log_step env io op w = (case op of
      LogWrite d \<Rightarrow> (case log_Write env io d w of None \<Rightarrow> w | Some (w, _) \<Rightarrow> w)
    | LogEvent level component message fs \<Rightarrow> fst (log_Event env io level component message fs w)
    | LogClose \<Rightarrow> fst (log_Close env io w)
    | LogClear \<Rightarrow> fst (log_Clear io w)
    | LogClearPath \<Rightarrow> fst (ClearPath io w))"

lemma log_inv_open [simp]: "log_inv (w\<lparr>lw_open := x\<rparr>) = log_inv w"
  by (simp add: log_inv_def)

lemma log_step_inv:
  assumes "log_inv w" "small_notice env"
  shows "log_inv (log_step env io op w) \<and> lw_max (log_step env io op w) = lw_max w"
proof (cases op)
  case (LogWrite d)
  let ?w = "w\<lparr>lw_mirror := lw_mirror w @ d, lw_pending := lw_pending w @ d\<rparr>"
  obtain w' r where "write_lines env io ?w = Some (w', r)" "log_inv w' \<and> lw_max w' = lw_max w"
    using write_lines_returns [of env io ?w] assms by auto
  then show ?thesis using assms(1) by (simp add: LogWrite log_step_def log_Write_def split: option.split)
next
  case (LogEvent l c m f)
  then show ?thesis using assms(1) writeLine_inv [OF assms] by (simp add: log_step_def log_Event_def Let_def split: option.split)
next
  case LogClose
  obtain v e where v: "(if trim_bytes (lw_pending w) \<noteq> [] then writeLine env io (normalizeLine env (lw_pending w)) w else (w, None)) = (v, e)" by force
  have "log_inv v \<and> lw_max v = lw_max w"
    using writeLine_inv [OF assms, of io "normalizeLine env (lw_pending w)"] v assms(1) by (auto split: if_splits)
  then show ?thesis using assms(1) unfolding LogClose log_step_def log_Close_def v by (simp split: option.split)
next
  case LogClear
  then show ?thesis using assms(1) log_open_inv(1,2)
    by (auto simp: log_step_def log_Clear_def Let_def log_inv_def log_open_def split: option.splits)
next
  case LogClearPath
  then show ?thesis using assms(1) by (auto simp: log_step_def ClearPath_def log_inv_def)
qed

lemma ReadTail_whole:
  "io_read io \<Longrightarrow> 0 < limit \<Longrightarrow> int (length (content f)) \<le> limit \<Longrightarrow> ReadTail io f limit = Inr (content f)"
  by (cases f) (auto simp: ReadTail_def Let_def nat_le_iff)

text \<open>
  C31 (bounds). The logs of the host stay bounded: after any operations of the writer, clears by other processes and failures of the file
  system in between, neither the current file nor its predecessor exceeds the limit given to \<^verbatim>\<open>Open\<close>; and with a limit of at
  most 4 MiB, as both logs have, the reader's 8 MiB return the two files whole, oldest first.
\<close>
theorem log_files_bounded:
  assumes "log_Open env io limit cur old = Inr w0" "length (content cur) \<le> limit" "length (content old) \<le> limit"
    "\<forall>(env, io, op)\<in>set ops. small_notice env" "limit \<le> ServerMaxBytes"
  defines "w \<equiv> fold (\<lambda>(env, io, op). log_step env io op) ops w0"
  shows "length (content (lw_current w)) \<le> limit \<and> length (content (lw_older w)) \<le> limit \<and>
    ReadRotated good_io (lw_older w) (lw_current w) (int DefaultReadBytes) = Inr (content (lw_older w) @ content (lw_current w))"
proof -
  have keep: "length (content (keep_structured env io f)) \<le> length (content f)" for f
    by (simp add: keep_structured_def split: option.split)
  have start: "log_inv w0 \<and> lw_max w0 = limit"
  proof -
    define v where "v = \<lparr>lw_max = limit, lw_open = False, lw_size = length (content (keep_structured env io cur)), lw_pending = [],
                lw_current = keep_structured env io cur, lw_older = keep_structured env io old, lw_mirror = []\<rparr>"
    have "256 \<le> limit" using assms(1) by (simp add: log_Open_def split: if_splits)
    then have v: "log_inv v" "lw_max v = limit"
      using keep [of cur] keep [of old] assms(2,3) by (auto simp: v_def log_inv_def split: option.splits)
    have "w0 = fst (log_open io v) \<or> w0 = fst (log_open io (fst (rotate io v)))"
      using assms(1) unfolding v_def log_Open_def
      by (auto simp: Let_def split: if_splits option.splits prod.splits)
    then show ?thesis using log_open_inv rotate_inv [OF v(1)] v by auto
  qed
  have "log_inv w \<and> lw_max w = limit" unfolding w_def
  proof (rule fold_invariant [where Q = "\<lambda>(env, io, op). small_notice env" and P = "\<lambda>w. log_inv w \<and> lw_max w = limit"])
    show "case x of (env, io, op) \<Rightarrow> small_notice env" if "x \<in> set ops" for x using assms(4) that by blast
    show "log_inv w0 \<and> lw_max w0 = limit" by (rule start)
    show "log_inv ((\<lambda>(env, io, op). log_step env io op) x v) \<and> lw_max ((\<lambda>(env, io, op). log_step env io op) x v) = limit"
      if "case x of (env, io, op) \<Rightarrow> small_notice env" "log_inv v \<and> lw_max v = limit" for x v
      using that log_step_inv [of v "fst x" "fst (snd x)" "snd (snd x)"] by (simp add: case_prod_unfold)
  qed
  then have b: "length (content (lw_current w)) \<le> limit" "length (content (lw_older w)) \<le> limit" by (simp_all add: log_inv_def)
  have io: "io_read good_io" by (simp add: good_io_def)
  have "ReadTail good_io (lw_older w) (int DefaultReadBytes) = Inr (content (lw_older w))"
    by (rule ReadTail_whole [OF io]) (use b assms(5) in \<open>simp_all add: DefaultReadBytes_def ServerMaxBytes_def\<close>)
  moreover have "ReadTail good_io (lw_current w) (int DefaultReadBytes - int (length (content (lw_older w)))) = Inr (content (lw_current w))"
    by (rule ReadTail_whole [OF io]) (use b assms(5) in \<open>simp_all add: DefaultReadBytes_def ServerMaxBytes_def\<close>)
  ultimately show ?thesis
    using b assms(5) by (simp add: ReadRotated_def Let_def) (simp add: DefaultReadBytes_def ServerMaxBytes_def)
qed

lemma open_new_log: "log_Open plain_log good_io 256 None None = Inr new_log"
  by (simp add: log_Open_def good_io_def keep_structured_def log_open_def new_log_def)

theorem log_files_bounded_witness:
  "ReadRotated good_io (lw_older (log_step plain_log good_io (LogWrite (''a'' @ [nl])) new_log))
     (lw_current (log_step plain_log good_io (LogWrite (''a'' @ [nl])) new_log)) (int DefaultReadBytes) = Inr (''{}'' @ [nl])"
proof -
  have w: "lw_current (log_step plain_log good_io (LogWrite (''a'' @ [nl])) new_log) = Some (''{}'' @ [nl])"
    "lw_older (log_step plain_log good_io (LogWrite (''a'' @ [nl])) new_log) = None"
    unfolding log_step_def log_op.case plain_write_line by (simp_all add: new_log_def)
  have "small_notice plain_log" by (simp add: small_notice_def recordLine_def plain_log_def)
  then show ?thesis
    using log_files_bounded [OF open_new_log, of "[(plain_log, good_io, LogWrite (''a'' @ [nl]))]"] w by (simp add: ServerMaxBytes_def)
qed

section \<open>The mirrors of the devices\<close>

datatype device_op =
    BeginClear string string
  | CompleteClear string string
  | Remove string string
  | Snapshot string string string
  | AppendRecord string string string

definition device_step :: "log_env \<Rightarrow> log_io \<Rightarrow> device_op \<Rightarrow> log_files \<Rightarrow> log_files" where
  "device_step env io op fs = fst (case op of
      BeginClear home dev \<Rightarrow> BeginDeviceClear io home dev fs
    | CompleteClear home dev \<Rightarrow> CompleteDeviceClear io home dev fs
    | Remove home dev \<Rightarrow> RemoveDevice io home dev fs
    | Snapshot home dev data \<Rightarrow> WriteDeviceSnapshot env io home dev data fs
    | AppendRecord home dev r \<Rightarrow> AppendDeviceRecord env io home dev r fs)"

definition files_inv :: "log_files \<Rightarrow> bool" where
  "files_inv fs \<longleftrightarrow> (\<forall>p c. fs p = Some c \<longrightarrow> length c \<le> DeviceMaxBytes)"

lemma files_inv_upd: "files_inv fs \<Longrightarrow> length c \<le> DeviceMaxBytes \<Longrightarrow> files_inv (fs(p \<mapsto> c))" "files_inv fs \<Longrightarrow> files_inv (fs(p := None))"
  by (auto simp: files_inv_def)

lemma length_readTailBytes: "length (readTailBytes data limit) \<le> limit"
  by (auto simp: readTailBytes_def Let_def split: option.split)

lemma length_merge: "length snapshot \<le> DeviceMaxBytes \<Longrightarrow> length (mergeDeviceSnapshot snapshot existing) \<le> DeviceMaxBytes"
  using length_readTailBytes by (simp add: mergeDeviceSnapshot_def Let_def)

lemma ReadTail_length: "ReadTail io f limit = Inr d \<Longrightarrow> 0 < limit \<Longrightarrow> int (length d) \<le> limit"
  by (auto simp: ReadTail_def Let_def split: option.splits if_splits)

lemma remove_inv: "files_inv fs \<Longrightarrow> files_inv (fst (remove_file io p fs))" "files_inv fs \<Longrightarrow> files_inv (fst (remove_both io p fs))"
proof -
  show r: "files_inv fs \<Longrightarrow> files_inv (fst (remove_file io p fs))" for p fs by (simp add: remove_file_def files_inv_upd)
  show "files_inv (fst (remove_both io p fs))" if "files_inv fs"
  proof (cases "remove_file io p fs")
    case (Pair fs' e)
    then have "files_inv fs'" using r [OF that, of p] by simp
    then show ?thesis using r by (cases e) (simp_all add: remove_both_def Pair)
  qed
qed

lemma replace_inv: "files_inv fs \<Longrightarrow> length c \<le> DeviceMaxBytes \<Longrightarrow> files_inv (fst (replace_file io p c fs))"
  by (simp add: replace_file_def files_inv_upd)

lemma snapshot_inv:
  assumes "files_inv fs"
  shows "files_inv (fst (WriteDeviceSnapshot env io home dev data fs))"
proof (cases "length data \<le> DeviceMaxBytes")
  case True
  then show ?thesis using assms length_merge [OF True]
    by (auto simp: WriteDeviceSnapshot_def remove_inv replace_inv split: option.split sum.split)
next
  case False
  then show ?thesis using assms by (simp add: WriteDeviceSnapshot_def ValidateDeviceSnapshot_def)
qed

lemma append_record_inv:
  assumes "files_inv fs"
  shows "files_inv (fst (AppendDeviceRecord env io home dev r fs))"
proof (cases "validateDeviceRecord env r")
  case (Some e)
  then show ?thesis using assms by (simp add: AppendDeviceRecord_def)
next
  case None
  then have r: "length r \<le> DeviceMaxLine" by (simp add: validateDeviceRecord_def split: if_splits)
  show ?thesis
  proof (cases "DevicePath home dev")
    case (Inl e)
    then show ?thesis using assms None by (simp add: AppendDeviceRecord_def)
  next
    case (Inr p)
    let ?line = "r @ [nl]" and ?e = "content (fs p)"
    have line: "length ?line \<le> DeviceMaxLine + 1" "DeviceMaxLine + 1 < DeviceMaxBytes" using r by (simp_all add: DeviceMaxLine_def DeviceMaxBytes_def)
    have add: "files_inv (fs(p \<mapsto> ?e @ (if io_write io then ?line else take (io_written io) ?line)))"
      if "fs p = None \<or> length ?e + length ?line \<le> DeviceMaxBytes"
      using that assms line by (intro files_inv_upd) auto
    have tail: "files_inv (fst (replace_file io p (d @ ?line) fs))" if "ReadTail io (fs p) (int DeviceMaxBytes - int (length ?line)) = Inr d" for d
      using ReadTail_length [OF that] line assms by (intro replace_inv) auto
    show ?thesis using assms add tail
      by (auto simp: AppendDeviceRecord_def None Inr Let_def split: sum.split)
  qed
qed

text \<open>
  C32 (bounds). The mirrors of the devices' logs stay within 2 MiB each, whatever devices send (snapshots, live records, clears) and whichever
  operations of the file system fail.
\<close>
theorem device_logs_bounded:
  assumes "fs p = Some c" "fs = fold (\<lambda>(env, io, op). device_step env io op) ops Map.empty"
  shows "length c \<le> DeviceMaxBytes"
proof -
  have marker: "length (''pending'' @ [nl]) \<le> DeviceMaxBytes" by (simp add: DeviceMaxBytes_def)
  have step: "files_inv (device_step env io op g)" if "files_inv g" for env io op g
  proof (cases op)
    case (BeginClear home dev)
    then show ?thesis using that marker by (auto simp: device_step_def BeginDeviceClear_def remove_inv files_inv_upd split: sum.split)
  qed (use that in \<open>simp_all add: device_step_def CompleteDeviceClear_def RemoveDevice_def remove_inv snapshot_inv append_record_inv split: sum.split\<close>)
  have "files_inv fs" unfolding assms(2)
    by (rule fold_invariant [where Q = "\<lambda>_. True" and P = files_inv]) (use step in \<open>auto simp: files_inv_def [of Map.empty]\<close>)
  then show ?thesis using assms(1) by (simp add: files_inv_def)
qed

definition a_device :: string where "a_device = replicate 64 CHR ''a''"

lemma a_device_path: "DevicePath ''h'' a_device = Inr (''h/logs/devices/'' @ a_device @ ''.ndjson'')"
  by (simp add: DevicePath_def a_device_def is_hex_def Root_def list_all_iff)

theorem device_logs_bounded_witness:
  "device_step plain_log good_io (BeginClear ''h'' a_device) Map.empty (''h/logs/devices/'' @ a_device @ ''.ndjson.clear'') = Some (''pending'' @ [nl]) \<and>
   length (''pending'' @ [nl]) \<le> DeviceMaxBytes"
proof -
  have fs: "device_step plain_log good_io (BeginClear ''h'' a_device) Map.empty (''h/logs/devices/'' @ a_device @ ''.ndjson.clear'') = Some (''pending'' @ [nl])"
    by (simp add: device_step_def BeginDeviceClear_def a_device_path good_io_def remove_file_def)
  then have "length (''pending'' @ [nl]) \<le> DeviceMaxBytes"
    by (rule device_logs_bounded [where ops = "[(plain_log, good_io, BeginClear ''h'' a_device)]"]) simp
  then show ?thesis using fs by blast
qed

section \<open>Merging snapshots\<close>

lemma fields_nl_append: "fields_nl (a @ nl # b) = fields_nl a @ fields_nl b"
proof -
  have "split_on nl (a @ nl # b) = split_on nl a @ split_on nl b"
    by (induction a) (auto split: list.split)
  then show ?thesis by (simp add: fields_nl_def)
qed

lemma fields_nl_line: "l \<noteq> [] \<Longrightarrow> nl \<notin> set l \<Longrightarrow> fields_nl l = [l]"
  by (simp add: fields_nl_def split_on_no_sep)

lemma fields_nl_Nil [simp]: "fields_nl [] = []"
  by (simp add: fields_nl_def)

lemma fields_nl_parts: "l \<in> set (fields_nl s) \<Longrightarrow> l \<noteq> [] \<and> nl \<notin> set l"
  using split_on_parts [of l nl s] by (auto simp: fields_nl_def)

lemma fields_nl_lines:
  "\<forall>l\<in>set ls. l \<noteq> [] \<and> nl \<notin> set l \<Longrightarrow> fields_nl (concat (map (\<lambda>l. l @ [nl]) ls)) = ls"
proof (induction ls)
  case (Cons l ls)
  have "fields_nl (concat (map (\<lambda>l. l @ [nl]) (l # ls))) = fields_nl l @ fields_nl (concat (map (\<lambda>l. l @ [nl]) ls))"
    using fields_nl_append [of l "concat (map (\<lambda>l. l @ [nl]) ls)"] by simp
  then show ?case using Cons fields_nl_line [of l] by simp
qed simp

lemma last_common_append: "last_common X i (xs @ ys) f = last_common X (i + length xs) ys (last_common X i xs f)"
  by (induction xs arbitrary: i f) simp_all

lemma last_common_none: "set xs \<inter> X = {} \<Longrightarrow> last_common X i xs f = f"
  by (induction xs arbitrary: i) auto

text \<open>
  A snapshot of a device's log does not overwrite what arrived over the live socket after it was taken: with the newest record the
  two have in common as the boundary, the merged file has the records of the snapshot followed by the later ones of
  the mirror, in order, nothing lost or repeated (as long as they fit in the 2 MiB of a mirror).
\<close>
theorem merge_keeps_live_records:
  assumes "fields_nl existing = before @ c # after" "c \<in> set (fields_nl snapshot)" "set after \<inter> set (fields_nl snapshot) = {}"
    "length snapshot + 1 + sum_list (map (\<lambda>l. length l + 1) after) \<le> DeviceMaxBytes"
  shows "fields_nl (mergeDeviceSnapshot snapshot existing) = fields_nl snapshot @ after"
proof -
  have ne: "snapshot \<noteq> []" "existing \<noteq> []" using assms(1,2) by auto
  let ?X = "set (fields_nl snapshot)"
  have lc: "last_common ?X 0 (before @ c # after) (- 1) = int (length before)"
    using assms(2) by (simp add: last_common_append last_common_none [OF assms(3)])
  show ?thesis
  proof (cases "after = []")
    case True
    then show ?thesis using ne lc by (simp add: mergeDeviceSnapshot_def assms(1) Let_def)
  next
    case False
    let ?rest = "concat (map (\<lambda>l. l @ [nl]) after)"
    have len: "length ?rest = sum_list (map (\<lambda>l. length l + 1) after)" by (simp add: length_concat comp_def)
    have drop: "drop (nat (int (length before) + 1)) (before @ c # after) = after" by (simp add: nat_add_distrib)
    have parts: "\<forall>l\<in>set after. l \<noteq> [] \<and> nl \<notin> set l" using fields_nl_parts [of _ existing] assms(1) by simp
    let ?s = "if last snapshot \<noteq> nl then snapshot @ [nl] else snapshot"
    have m: "mergeDeviceSnapshot snapshot existing = ?s @ ?rest"
      using ne lc False drop assms(4) len by (simp add: mergeDeviceSnapshot_def assms(1) Let_def)
    obtain s where s: "?s = s @ [nl]" "fields_nl s = fields_nl snapshot"
    proof (cases "last snapshot = nl")
      case True
      then have "snapshot = butlast snapshot @ [nl]" using ne(1) by (metis append_butlast_last_id)
      then have "fields_nl snapshot = fields_nl (butlast snapshot)" using fields_nl_append [of "butlast snapshot" "[]"] by simp
      then show ?thesis using that [of "butlast snapshot"] True \<open>snapshot = butlast snapshot @ [nl]\<close> by simp
    qed (use that [of snapshot] in simp)
    show ?thesis unfolding m s(1) using fields_nl_append [of s ?rest] fields_nl_lines [OF parts] s(2) by simp
  qed
qed

theorem merge_keeps_live_records_witness:
  "fields_nl (mergeDeviceSnapshot (''a'' @ [nl] @ ''b'') (''b'' @ [nl] @ ''c'')) = [''a'', ''b'', ''c'']"
proof -
  have n: "nl \<noteq> CHR ''a''" "nl \<noteq> CHR ''b''" "nl \<noteq> CHR ''c''" by (simp_all add: nl_def)
  then have f: "fields_nl (''a'' @ [nl] @ ''b'') = [''a'', ''b'']" "fields_nl (''b'' @ [nl] @ ''c'') = [] @ ''b'' # [''c'']"
    by (auto simp: fields_nl_def)
  show ?thesis using merge_keeps_live_records [OF f(2), of "''a'' @ [nl] @ ''b''"] f(1) by (simp add: DeviceMaxBytes_def)
qed

end
