(* ===== verification/Api_Facts.thy ===== *)
theory Api_Facts
  imports Api_Server Auth_Security Log_Facts
begin

text \<open>
  What the HTTP interface guarantees. Every request is a sequence of operations of theory \<open>Auth\<close> on the device registry, so
  that the theorems of \<open>Auth_Security\<close> and \<open>Auth_Limits\<close> hold of the running server (\<open>via\<close>); what a request may do without the
  administrator's token (\<open>unprivileged\<close>); where the tickets of WebSockets come from; the agreement of the two
  compatibility checks; that a log stream mirrors the log and that clipboard requests lose no wake-up. The race between
  a connection and a revocation is \<open>socket_outlives_revocation\<close>.
\<close>

section \<open>Requests as calls on the registry\<close>

definition admin_request :: "api_config \<Rightarrow> api_env \<Rightarrow> http_request \<Rightarrow> bool" where
  "admin_request cfg env r \<longleftrightarrow> isLoopback (ev_std env) (rq_RemoteAddr r) \<and> ac_adminToken cfg \<noteq> [] \<and> rq_header r AdminHeader = ac_adminToken cfg"

definition device_session :: "api_env \<Rightarrow> http_request \<Rightarrow> api_server \<Rightarrow> string \<Rightarrow> bool" where
  "device_session env r s d \<longleftrightarrow> snd (Valid (ev_std env) (ev_save env) (ev_now env) (rq_cookie r) (sv_auth s)) = (d, True)"

fun permitted :: "api_config \<Rightarrow> api_env \<Rightarrow> http_request \<Rightarrow> api_server \<Rightarrow> auth_call \<Rightarrow> bool" where
  "permitted cfg env r s (COpen _ _ code qr) = (admin_request cfg env r \<and> code = ev_code env \<and> qr = ev_secret env)"
| "permitted cfg env r s CClose = admin_request cfg env r"
| "permitted cfg env r s (CRevoke _ d) = (admin_request cfg env r \<or> device_session env r s d)"
| "permitted cfg env r s (CTicket t tk d) =
     (device_session env r s d \<and> t = ev_now env \<and> tk = ev_secret env \<and> rq_Path r = APIRoot @ ''/config'')"
| "permitted cfg env r s (CRequest _ _ name key addr code qr) =
     (addr = rq_RemoteAddr r \<and> snd (AllowPair (ev_std env) (ev_now env) addr (sv_auth s)) \<and> rq_Method r = ''POST'' \<and>
      decodeJSON (ev_json_pair env) r = Some (name, key, code, qr))"
| "permitted cfg env r s (CTake _ _) = snd (AllowAuth (ev_std env) (ev_now env) (rq_RemoteAddr r) (sv_auth s))"
| "permitted cfg env r s (CChallenge _ _ _ _) = snd (AllowAuth (ev_std env) (ev_now env) (rq_RemoteAddr r) (sv_auth s))"
| "permitted cfg env r s _ = True"

definition via :: "stdlib \<Rightarrow> (auth_call \<Rightarrow> bool) \<Rightarrow> api_server \<Rightarrow> api_server \<Rightarrow> bool" where
  "via std P s s' \<longleftrightarrow> (\<exists>cs. sv_auth s' = auth_run std (sv_auth s) cs \<and> list_all P cs)"

lemma via_none: "sv_auth s' = sv_auth s \<Longrightarrow> via std P s s'"
  unfolding via_def by (rule exI [of _ "[]"]) simp

lemma via_one: "sv_auth s' = auth_step std (sv_auth s) c \<Longrightarrow> P c \<Longrightarrow> via std P s s'"
  unfolding via_def by (rule exI [of _ "[c]"]) simp

lemma via_trans: "via std P s s1 \<Longrightarrow> via std P s1 s2 \<Longrightarrow> via std P s s2"
  unfolding via_def by (metis auth_run_append list_all_append)

lemma via_then: "sv_auth s1 = auth_step std (sv_auth s) c \<Longrightarrow> P c \<Longrightarrow> via std P s1 s2 \<Longrightarrow> via std P s s2"
  by (rule via_trans [OF via_one])

lemmas answers = answer_def NotFound_def MethodNotAllowed_def BadJSONBody_def with_call_def

lemma answers_keep [simp]:
  "fst (answer n b s) = s" "fst (NotFound s) = s" "fst (MethodNotAllowed s) = s" "fst (BadJSONBody s) = s" "fst (with_call c x) = fst x"
  "snd (snd (answer n b s)) = []" "snd (snd (NotFound s)) = []" "snd (snd (MethodNotAllowed s)) = []" "snd (snd (BadJSONBody s)) = []"
  "snd (snd (with_call c x)) = c # snd (snd x)"
  by (simp_all add: answers split: prod.split)

lemma check_session_eq: "check_session env r s =
    (s\<lparr>sv_auth := auth_step (ev_std env) (sv_auth s) (CValid (ev_save env) (ev_now env) (rq_cookie r))\<rparr>,
     snd (Valid (ev_std env) (ev_save env) (ev_now env) (rq_cookie r) (sv_auth s)))"
  by (simp add: check_session_def Let_def case_prod_unfold)

section \<open>Handlers\<close>

lemma public_via:
  "(\<And>c. permitted cfg env r s c \<Longrightarrow> P c) \<Longrightarrow> via (ev_std env) P s (fst (handleHealth cfg env r s))"
  "via std P s (fst (handleServerInfo cfg env r s))"
  "via std P s (fst (handleTunnel env r s))"
  "(\<And>c. permitted cfg env r s c \<Longrightarrow> P c) \<Longrightarrow> via std P s (fst (handlePairCancel r i s))"
  "(\<And>c. permitted cfg env r s c \<Longrightarrow> P c) \<Longrightarrow> via std P s (fst (handlePairAck r i s))"
  "(\<And>c. permitted cfg env r s c \<Longrightarrow> P c) \<Longrightarrow> via std P s (fst (handlePairStatus env r i s))"
  "(\<And>c. permitted cfg env r s c \<Longrightarrow> P c) \<Longrightarrow> via std P s (fst (handlePairConfirm env r i s))"
proof -
  assume P: "\<And>c. permitted cfg env r s c \<Longrightarrow> P c"
  show "via (ev_std env) P s (fst (handleHealth cfg env r s))"
    by (cases "rq_query r ''stats'' = ''1'' \<and> ac_stats cfg")
      (auto simp: handleHealth_def Let_def check_session_eq case_prod_unfold intro!: P
        intro: via_none via_one [where c = "CValid (ev_save env) (ev_now env) (rq_cookie r)"] split: option.split)
  show "via std P s (fst (handlePairCancel r i s))"
    by (auto simp: handlePairCancel_def case_prod_unfold Let_def intro!: P intro: via_none via_one [where c = "CReject i"])
  show "via std P s (fst (handlePairAck r i s))"
    by (auto simp: handlePairAck_def case_prod_unfold Let_def intro!: P intro: via_none via_one [where c = "CAck i"])
  show "via std P s (fst (handlePairStatus env r i s))"
    by (auto simp: handlePairStatus_def case_prod_unfold Let_def intro!: P
        intro: via_none via_one [where c = "CStatus (ev_now env) i"] split: prod.split option.split)
  show "via std P s (fst (handlePairConfirm env r i s))"
    by (auto simp: handlePairConfirm_def case_prod_unfold Let_def intro!: P
        intro: via_none via_one [where c = "CConfirm (ev_save env) (ev_now env) i"] split: prod.split sum.split)
next
  show "via std P s (fst (handleServerInfo cfg env r s))"
    by (rule via_none) (simp add: handleServerInfo_def Let_def)
  show "via std P s (fst (handleTunnel env r s))"
    by (rule via_none) (simp add: handleTunnel_def split: option.split)
qed


lemma pair_request_via:
  assumes P: "\<And>c. permitted cfg env r s c \<Longrightarrow> P c"
  shows "via (ev_std env) P s (fst (handlePairRequest env r s))"
proof -
  define s1 where "s1 = s\<lparr>sv_auth := auth_step (ev_std env) (sv_auth s) (CAllowPair (ev_now env) (rq_RemoteAddr r))\<rparr>"
  have s1: "via (ev_std env) P s s1"
    by (rule via_one [where c = "CAllowPair (ev_now env) (rq_RemoteAddr r)"]) (simp_all add: s1_def P)
  have call: "via (ev_std env) P s1 (s1\<lparr>sv_auth := fst (RequestPair (ev_std env) (ev_now env) (ev_id env) name key (rq_RemoteAddr r) code qr (sv_auth s1))\<rparr>)"
    if "snd (AllowPair (ev_std env) (ev_now env) (rq_RemoteAddr r) (sv_auth s))" "rq_Method r = ''POST''"
      "decodeJSON (ev_json_pair env) r = Some (name, key, code, qr)" for name key code qr
    by (rule via_one [where c = "CRequest (ev_now env) (ev_id env) name key (rq_RemoteAddr r) code qr"]) (simp_all add: P that)
  consider "fst (handlePairRequest env r s) = s" | "fst (handlePairRequest env r s) = s1"
    | name key code qr where "snd (AllowPair (ev_std env) (ev_now env) (rq_RemoteAddr r) (sv_auth s))" "rq_Method r = ''POST''"
        "decodeJSON (ev_json_pair env) r = Some (name, key, code, qr)" "fst (handlePairRequest env r s) =
        s1\<lparr>sv_auth := fst (RequestPair (ev_std env) (ev_now env) (ev_id env) name key (rq_RemoteAddr r) code qr (sv_auth s1))\<rparr>"
    by (cases "decodeJSON (ev_json_pair env) r")
      (fastforce simp: handlePairRequest_def Let_def case_prod_unfold s1_def split: if_splits sum.splits)+
  then show ?thesis
    by cases (metis s1 call via_none via_trans)+
qed

lemma allow_auth_eq: "allow_auth env r s =
   (if rq_Method r \<noteq> ''POST'' then (s, False)
    else (s\<lparr>sv_auth := auth_step (ev_std env) (sv_auth s) (CAllowAuth (ev_now env) (rq_RemoteAddr r))\<rparr>,
          snd (AllowAuth (ev_std env) (ev_now env) (rq_RemoteAddr r) (sv_auth s))))"
  by (simp add: allow_auth_def Let_def case_prod_unfold)

lemma challenge_via:
  assumes P: "\<And>c. permitted cfg env r s c \<Longrightarrow> P c"
  shows "via (ev_std env) P s (fst (handleAuthChallenge env r s))"
proof (cases "allow_auth env r s")
  case (Pair s1 ok)
  have s1: "via (ev_std env) P s s1"
    using Pair by (auto simp: allow_auth_eq intro!: P intro: via_none via_one [where c = "CAllowAuth (ev_now env) (rq_RemoteAddr r)"] split: if_splits)
  have call: "via (ev_std env) P s1 (s1\<lparr>sv_auth := fst (NewChallenge (ev_now env) (ev_id env) (ev_secret env) d (sv_auth s1))\<rparr>)" if "ok" for d
    using Pair that by (intro via_one [where c = "CChallenge (ev_now env) (ev_id env) (ev_secret env) d"])
      (auto simp: allow_auth_eq intro!: P split: if_splits)
  show ?thesis
    using Pair s1 call
    by (cases ok) (auto simp: handleAuthChallenge_def case_prod_unfold intro: via_trans [OF s1] split: option.split sum.split prod.split)
qed

lemma complete_run:
  "\<exists>cs. fst (CompleteChallenge std now i sig (\<lambda>m. auth_run std m others) m) = auth_run std m (CTake now i # cs) \<and>
     list_all (\<lambda>c. c \<in> set others \<or> (\<exists>x y. c = CFinish x y)) cs"
proof (cases "snd (challenge_take now i m)")
  case (Inl e)
  then show ?thesis
    by (intro exI [of _ "[]"]) (simp add: CompleteChallenge_def case_prod_unfold)
next
  case (Inr ck)
  obtain c k where ck: "ck = (c, k)"
    by (cases ck)
  show ?thesis
  proof (cases "signature_valid std (mg_serverID (fst (challenge_take now i m))) c k sig")
    case None
    then show ?thesis
      using Inr ck by (intro exI [of _ "others @ [CFinish c k]"])
        (simp add: CompleteChallenge_def case_prod_unfold auth_run_append list_all_iff)
  next
    case (Some e)
    then show ?thesis
      using Inr ck by (intro exI [of _ others]) (simp add: CompleteChallenge_def case_prod_unfold list_all_iff)
  qed
qed

lemma complete_via:
  assumes P: "\<And>c. permitted cfg env r s c \<Longrightarrow> P c" and others: "list_all P (ev_others env)"
  shows "via (ev_std env) P s (fst (handleAuthComplete env r s))"
proof (cases "allow_auth env r s")
  case (Pair s1 ok)
  have s1: "via (ev_std env) P s s1"
    using Pair by (auto simp: allow_auth_eq intro!: P intro: via_none via_one [where c = "CAllowAuth (ev_now env) (rq_RemoteAddr r)"] split: if_splits)
  have call: "via (ev_std env) P s1 (s1\<lparr>sv_auth := fst (CompleteChallenge (ev_std env) (ev_now env) i sig (\<lambda>m. auth_run (ev_std env) m (ev_others env)) (sv_auth s1))\<rparr>)"
    if "ok" for i sig
  proof -
    obtain cs where cs: "fst (CompleteChallenge (ev_std env) (ev_now env) i sig (\<lambda>m. auth_run (ev_std env) m (ev_others env)) (sv_auth s1)) =
        auth_run (ev_std env) (sv_auth s1) (CTake (ev_now env) i # cs)"
      "list_all (\<lambda>c. c \<in> set (ev_others env) \<or> (\<exists>x y. c = CFinish x y)) cs"
      using complete_run by blast
    have "P (CTake (ev_now env) i)"
      using Pair that by (auto simp: allow_auth_eq intro!: P split: if_splits)
    moreover have "list_all P cs"
      using cs(2) others P [of "CFinish _ _"] by (auto simp: list_all_iff)
    ultimately show ?thesis
      unfolding via_def using cs(1) by (intro exI [of _ "CTake (ev_now env) i # cs"]) simp
  qed
  show ?thesis
    using Pair s1 call
    by (cases ok) (auto simp: handleAuthComplete_def case_prod_unfold intro: via_trans [OF s1] split: option.split sum.split prod.split)
qed

lemma connected_auth [simp]: "sv_auth (handleClientConnected cfg env i d s) = sv_auth s"
  by (simp add: handleClientConnected_def send_json_def Let_def split: option.split)

lemma ws_open_auth [simp]: "sv_auth (fst (ws_open cfg env d s)) = sv_auth s"
  by (simp add: ws_open_def split: option.split)

lemma ws_via:
  assumes P: "\<And>c. permitted cfg env r s c \<Longrightarrow> P c"
  shows "via std P s (fst (handleWS cfg env r s))"
  by (rule via_one [where c = "CVerifyTicket (ev_now env) (rq_query r ''ticket'')"])
    (simp_all add: handleWS_def ws_verify_def Let_def case_prod_unfold P split: option.split)

lemma revoked_auth [simp]: "sv_auth (revoked cfg env d s) = sv_auth s" "sv_auth (fold (revoked cfg env) ds s) = sv_auth s"
proof -
  show one: "sv_auth (revoked cfg env d s) = sv_auth s" for d s
    by (simp add: revoked_def)
  show "sv_auth (fold (revoked cfg env) ds s) = sv_auth s"
    by (induction ds arbitrary: s) (simp_all add: one)
qed

lemma revoke_via:
  assumes "P (CRevoke (ev_save env) d)"
  shows "via std P s (fst (revoke_device cfg env d s))"
  by (rule via_one [where c = "CRevoke (ev_save env) d"]) (simp_all add: revoke_device_def Let_def case_prod_unfold assms)

lemma mode_auth [simp]: "sv_auth (fst (handleBrowserMode env r admin s)) = sv_auth s"
  by (simp add: handleBrowserMode_def split: option.split prod.split)

lemma client_logs_auth [simp]: "sv_auth (fst (handleClientLogs cfg env r d s)) = sv_auth s"
  by (simp add: handleClientLogs_def split: option.split prod.split)

lemma extra_auth [simp]: "fst (serve_extra cfg r rs s) = s"
  by (induction rs) (auto simp: serve_package_def split: option.split)

lemma session_via:
  assumes P: "\<And>c. permitted cfg env r s c \<Longrightarrow> P c"
  shows "via (ev_std env) P s (fst (serve_session cfg env r s))"
proof -
  define s1 where "s1 = s\<lparr>sv_auth := auth_step (ev_std env) (sv_auth s) (CValid (ev_save env) (ev_now env) (rq_cookie r))\<rparr>"
  obtain d ok where valid: "snd (Valid (ev_std env) (ev_save env) (ev_now env) (rq_cookie r) (sv_auth s)) = (d, ok)"
    by (cases "snd (Valid (ev_std env) (ev_save env) (ev_now env) (rq_cookie r) (sv_auth s))")
  have check: "check_session env r s = (s1, d, ok)"
    unfolding check_session_eq valid s1_def by (rule refl)
  have s1: "via (ev_std env) P s s1"
    by (rule via_one [where c = "CValid (ev_save env) (ev_now env) (rq_cookie r)"]) (simp_all add: s1_def P)
  have revoke: "via (ev_std env) P s1 (fst (serve_revoke cfg env r d s1))" if ok
  proof -
    have "via (ev_std env) P s1 (fst (revoke_device cfg env d s1))"
      by (rule revoke_via) (rule P, simp add: device_session_def valid that)
    then show ?thesis
      by (cases "revoke_device cfg env d s1") (auto simp: serve_revoke_def via_none split: bool.split)
  qed
  have config: "via (ev_std env) P s1 (fst (handleConfig cfg env r d s1))" if ok "rq_Path r = APIRoot @ ''/config''"
    by (rule via_one [where c = "CTicket (ev_now env) (ev_secret env) d"])
      (simp add: handleConfig_def Let_def case_prod_unfold, rule P, simp add: device_session_def valid that)
  show ?thesis
    by (rule via_trans [OF s1])
      (use revoke config in \<open>auto simp: serve_session_def Let_def check intro: via_none simp del: append.simps\<close>)
qed

lemma clip_result_rest [simp]:
  "sv_auth (clipboard_result d i ok s) = sv_auth s" "sv_logs (clipboard_result d i ok s) = sv_logs s"
  "sv_browser (clipboard_result d i ok s) = sv_browser s" "sv_serverLog (clipboard_result d i ok s) = sv_serverLog s"
  "sv_desktopLog (clipboard_result d i ok s) = sv_desktopLog s"
  by (simp_all add: clipboard_result_def split: option.split)

lemma clip_loop_rest:
  "sv_auth (clip_wait_loop i es s) = sv_auth s \<and> sv_logs (clip_wait_loop i es s) = sv_logs s \<and>
   sv_browser (clip_wait_loop i es s) = sv_browser s \<and> sv_serverLog (clip_wait_loop i es s) = sv_serverLog s \<and>
   sv_desktopLog (clip_wait_loop i es s) = sv_desktopLog s"
  by (induction i es s rule: clip_wait_loop.induct) (auto simp: Let_def split: option.split)

lemma clip_await_auth [simp]: "sv_auth (clip_await i es s) = sv_auth s"
  using clip_loop_rest [of i es s] by (simp add: clip_await_def split: option.split)

lemma clip_request_auth [simp]: "sv_auth (fst (clip_request env d t targets st h s)) = sv_auth s"
  by (simp add: clip_request_def Let_def clip_open_def)

lemma admin_clip_auth [simp]:
  "sv_auth (fst (handleAdminClipboard env r s)) = sv_auth s"
  "sv_auth (fst (handleAdminClipboardState env s)) = sv_auth s"
  "sv_auth (fst (handleAdminClipboardSync env r s)) = sv_auth s"
  by (simp_all add: handleAdminClipboard_def handleAdminClipboardState_def handleAdminClipboardSync_def broadcast_json_def
      Let_def case_prod_unfold split: option.split)

lemma clear_answer_keep [simp]: "fst (clear_answer e p s) = s" "snd (snd (clear_answer e p s)) = []"
  by (simp_all add: clear_answer_def split: option.split)

lemma admin_logs_auth [simp]:
  "sv_auth (fst (handleAdminLogs cfg env r s)) = sv_auth s"
  "sv_auth (fst (handleAdminLogStream cfg env r s)) = sv_auth s"
  "sv_auth (fst (handleAdminLogClear cfg env r s)) = sv_auth s"
  by (simp_all add: handleAdminLogs_def handleAdminLogStream_def handleAdminLogClear_def Let_def case_prod_unfold split: sum.split option.split prod.split)

lemma shutdown_auth [simp]: "sv_auth (fst (admin_shutdown cfg r s)) = sv_auth s"
  by (simp add: admin_shutdown_def Let_def split: option.split prod.split)

lemma admin_found_fst [simp]: "fst (admin_found x) = fst x" "snd (snd (admin_found x)) = []"
  by (simp_all add: admin_found_def split: prod.split)

lemma open_pairing_via:
  assumes "P (COpen (ev_now env) (ev_id env) (ev_code env) (ev_secret env))"
  shows "via std P s (fst (admin_open_pairing cfg env r s))"
  using via_one [where s = s and std = std and P = P and c = "COpen (ev_now env) (ev_id env) (ev_code env) (ev_secret env)"] assms
  by (auto simp: admin_open_pairing_def Let_def case_prod_unfold intro: via_none split: option.split)

lemma if_branches: "Q a \<Longrightarrow> Q b \<Longrightarrow> Q (if c then a else b)"
  by simp

lemma admin_via:
  assumes P: "\<And>c. permitted cfg env r s c \<Longrightarrow> P c"
  shows "via (ev_std env) P s (fst (handleAdmin cfg env r s))"
proof (cases "admin_request cfg env r")
  case admin: True
  have pairing: "via (ev_std env) P s (fst (admin_open_pairing cfg env r s))" for r
    by (rule open_pairing_via) (simp add: P admin)
  have session: "via (ev_std env) P s (fst (admin_pairing_session cfg env s))"
    by (rule via_none) (simp add: admin_pairing_session_def)
  have close: "via (ev_std env) P s (s\<lparr>sv_auth := fst (ClosePairing (sv_auth s))\<rparr>)"
    by (rule via_one [where c = CClose]) (simp_all add: P admin)
  have listing: "via (ev_std env) P s (s\<lparr>sv_auth := fst (ListCandidates (ev_now env) (ev_keys env) (sv_auth s))\<rparr>)"
    by (rule via_one [where c = "CStatus (ev_now env) []"]) (simp_all add: P ListCandidates_def PairStatus_def Let_def)
  have reject: "via (ev_std env) P s (s\<lparr>sv_auth := fst (RejectPair i (sv_auth s))\<rparr>)" for i
    by (rule via_one [where c = "CReject i"]) (simp_all add: P)
  have revoke: "via (ev_std env) P s (fst (revoke_device cfg env d s))" for d
    by (rule revoke_via) (simp add: P admin)
  have refresh: "via (ev_std env) P s (s\<lparr>sv_hub := h\<rparr>)" for h
    by (rule via_none) simp
  have "via (ev_std env) P s (fst (admin_route cfg env r s))"
    unfolding admin_route_def Let_def case_prod_unfold
    by (intro if_branches [where Q = "\<lambda>x. via (ev_std env) P s (fst x)"])
      (simp_all add: pairing session close listing reject revoke refresh via_none split: option.split)
  then show ?thesis
    using admin by (auto simp: handleAdmin_def adminAuthorized_def admin_request_def)
next
  case False
  then have "fst (handleAdmin cfg env r s) = s"
    by (auto simp: handleAdmin_def adminAuthorized_def admin_request_def)
  then show ?thesis
    by (simp add: via_none)
qed

lemma route_via:
  assumes P: "\<And>c. permitted cfg env r s c \<Longrightarrow> P c" and others: "list_all P (ev_others env)"
  shows "via (ev_std env) P s (fst (route cfg env r s))"
  unfolding route_def Let_def
  by (intro if_branches [where Q = "\<lambda>x. via (ev_std env) P s (fst x)"];
      ((rule public_via pair_request_via challenge_via complete_via ws_via admin_via session_via; (erule P | rule others)?)
       | (rule via_none, simp)))

section \<open>Effects of requests\<close>

definition device_files :: "api_config \<Rightarrow> string \<Rightarrow> string set" where
  "device_files cfg d = {p. \<exists>q. DevicePath (ac_SurfHome cfg) d = Inr q \<and> (p = q \<or> p = q @ ''.clear'')}"

lemma device_files_disjoint: "d \<noteq> d' \<Longrightarrow> device_files cfg d \<inter> device_files cfg d' = {}"
  by (auto simp: device_files_def DevicePath_def split: if_splits)

definition only_files :: "string set \<Rightarrow> log_files \<Rightarrow> log_files \<Rightarrow> bool" where
  "only_files ps fs fs' \<longleftrightarrow> (\<forall>p. p \<notin> ps \<longrightarrow> fs' p = fs p)"

lemma remove_only:
  "only_files {p} fs (fst (remove_file io p fs))" "only_files {p, p @ ''.clear''} fs (fst (remove_both io p fs))"
proof -
  show one: "only_files {p} fs (fst (remove_file io p fs))" for p fs
    by (simp add: only_files_def remove_file_def)
  then show "only_files {p, p @ ''.clear''} fs (fst (remove_both io p fs))"
    using one [of "p @ ''.clear''" "fst (remove_file io p fs)"] one [of p fs]
    by (cases "remove_file io p fs") (auto simp: only_files_def remove_both_def split: option.split)
qed

lemma device_ops_only:
  "only_files (device_files cfg d) fs (fst (RemoveDevice io (ac_SurfHome cfg) d fs))"
  "only_files (device_files cfg d) fs (fst (WriteDeviceSnapshot lenv io (ac_SurfHome cfg) d data fs))"
proof -
  show "only_files (device_files cfg d) fs (fst (RemoveDevice io (ac_SurfHome cfg) d fs))"
    using remove_only(2) by (auto simp: RemoveDevice_def device_files_def only_files_def split: sum.split)
  show "only_files (device_files cfg d) fs (fst (WriteDeviceSnapshot lenv io (ac_SurfHome cfg) d data fs))"
    using remove_only(1) [of _ fs io]
    by (auto simp: WriteDeviceSnapshot_def device_files_def only_files_def replace_file_def split: sum.split option.split)
qed

definition unprivileged :: "api_config \<Rightarrow> api_env \<Rightarrow> http_request \<Rightarrow> api_server \<Rightarrow> outcome \<Rightarrow> bool" where
  \<comment> \<open>what a request may do without the administrator's token\<close>
  "unprivileged cfg env r s x \<longleftrightarrow> (case x of (s', _, calls) \<Rightarrow>
     sv_serverLog s' = sv_serverLog s \<and> sv_desktopLog s' = sv_desktopLog s \<and>
     (sv_logs s' = sv_logs s \<or> (\<exists>d. device_session env r s d \<and> only_files (device_files cfg d) (sv_logs s) (sv_logs s'))) \<and>
     (sv_browser s' = sv_browser s \<or> (\<exists>d rev force b. device_session env r s d \<and> sv_browser s = Some b \<and>
        sv_browser s' = Some (snd (Request ''resume'' rev force b)))) \<and>
     (\<forall>c\<in>set calls. c = ServeTunnel \<or>
        (\<exists>d. c = ServeSocket d \<and> snd (VerifyWSTicket (ev_now env) (rq_query r ''ticket'') (sv_auth s)) = (d, True) \<and>
           ParseClientCompatibility (rq_query r ''cv'') (rq_query r ''nv'') = (CompatibilityGeneration (ac_CompatibilityVersion cfg), True)) \<or>
        (\<exists>d p. c = RunExtra p \<and> device_session env r s d \<and> matches_route (rq_Path r) p)))"

definition harmless :: "api_server \<Rightarrow> outcome \<Rightarrow> bool" where
  "harmless s x \<longleftrightarrow> (case x of (s', _, calls) \<Rightarrow> (\<exists>a. s' = s\<lparr>sv_auth := a\<rparr>) \<and> calls = [])"

lemma harmless_unprivileged: "harmless s x \<Longrightarrow> unprivileged cfg env r s x"
  by (auto simp: harmless_def unprivileged_def)

lemma auth_self: "\<exists>a. s = s\<lparr>sv_auth := a\<rparr>"
  by (rule exI [of _ "sv_auth s"]) simp

lemma harmless_answer:
  "harmless s (answer n b s)" "harmless s (NotFound s)" "harmless s (MethodNotAllowed s)" "harmless s (BadJSONBody s)"
  "harmless s (answer n b (s\<lparr>sv_auth := a\<rparr>))" "harmless s (NotFound (s\<lparr>sv_auth := a\<rparr>))" "harmless s (BadJSONBody (s\<lparr>sv_auth := a\<rparr>))"
  using auth_self [of s] by (auto simp: harmless_def answers)

lemma public_harmless:
  "harmless s (handleHealth cfg env r s)" "harmless s (handleServerInfo cfg env r s)" "harmless s (handlePairRequest env r s)"
  "harmless s (handlePairCancel r i s)" "harmless s (handlePairAck r i s)" "harmless s (handlePairStatus env r i s)"
  "harmless s (handlePairConfirm env r i s)"
  by (auto simp: handleHealth_def handleServerInfo_def handlePairRequest_def handlePairCancel_def handlePairAck_def handlePairStatus_def
      handlePairConfirm_def Let_def case_prod_unfold check_session_eq intro: harmless_answer split: option.split sum.split)

lemma allow_auth_cases:
  obtains a ok where "allow_auth env r s = (s\<lparr>sv_auth := a\<rparr>, ok)"
  using auth_self [of s] by (cases "rq_Method r = ''POST''") (simp_all add: allow_auth_eq, blast+)

lemma auth_harmless: "harmless s (handleAuthChallenge env r s)" "harmless s (handleAuthComplete env r s)"
proof -
  obtain a ok where a: "allow_auth env r s = (s\<lparr>sv_auth := a\<rparr>, ok)"
    by (rule allow_auth_cases)
  then show "harmless s (handleAuthChallenge env r s)"
    by (cases ok) (auto simp: handleAuthChallenge_def harmless_def answers split: option.splits sum.splits prod.splits)
  show "harmless s (handleAuthComplete env r s)"
    using a by (cases ok) (auto simp: handleAuthComplete_def harmless_def answers split: option.splits sum.splits prod.splits)
qed

lemma connected_rest [simp]:
  "sv_logs (handleClientConnected cfg env i d s) = sv_logs s" "sv_browser (handleClientConnected cfg env i d s) = sv_browser s"
  "sv_serverLog (handleClientConnected cfg env i d s) = sv_serverLog s" "sv_desktopLog (handleClientConnected cfg env i d s) = sv_desktopLog s"
  by (simp_all add: handleClientConnected_def send_json_def Let_def split: option.split)

lemma ws_unprivileged: "unprivileged cfg env r s (handleWS cfg env r s)"
  by (cases "VerifyWSTicket (ev_now env) (rq_query r ''ticket'') (sv_auth s)"; cases "ParseClientCompatibility (rq_query r ''cv'') (rq_query r ''nv'')")
    (auto simp: unprivileged_def handleWS_def ws_verify_def ws_open_def answers split: option.split)

lemma tunnel_unprivileged: "unprivileged cfg env r s (handleTunnel env r s)"
  by (auto simp: unprivileged_def handleTunnel_def answers split: option.split)

lemma extra_calls: "c \<in> set (snd (snd (serve_extra cfg r rs s))) \<Longrightarrow> \<exists>p. c = RunExtra p \<and> matches_route (rq_Path r) p"
  by (induction rs) (auto simp: serve_package_def split: option.splits if_splits)

lemma revoke_rest:
  assumes "revoke_device cfg env d s = (s', ok)"
  shows "sv_serverLog s' = sv_serverLog s \<and> sv_desktopLog s' = sv_desktopLog s \<and> sv_browser s' = sv_browser s \<and>
    only_files (device_files cfg d) (sv_logs s) (sv_logs s')"
  using assms device_ops_only(1) [of cfg d "sv_logs s" "ev_io env"]
  by (auto simp: revoke_device_def Revoke_def revoked_def saveDevicesLocked_def only_files_def Let_def split: option.splits if_splits prod.splits)

lemma mode_rest [simp]:
  "sv_serverLog (fst (handleBrowserMode env r b s)) = sv_serverLog s" "sv_desktopLog (fst (handleBrowserMode env r b s)) = sv_desktopLog s"
  "sv_logs (fst (handleBrowserMode env r b s)) = sv_logs s" "snd (snd (handleBrowserMode env r b s)) = []"
  by (simp_all add: handleBrowserMode_def split: option.split prod.split)

lemma mode_resume_only:
  "sv_browser (fst (handleBrowserMode env r False s)) = sv_browser s \<or>
   (\<exists>rev force b. sv_browser s = Some b \<and> sv_browser (fst (handleBrowserMode env r False s)) = Some (snd (Request ''resume'' rev force b)))"
proof (cases "sv_browser s")
  case None
  then show ?thesis by (simp add: handleBrowserMode_def)
next
  case (Some b)
  then show ?thesis
    by (cases "decodeJSON (ev_json_mode env) r")
      (auto simp: handleBrowserMode_def split: prod.split option.split, (metis snd_conv)+)
qed

lemma client_logs_rest:
  "sv_serverLog (fst (handleClientLogs cfg env r d s)) = sv_serverLog s" "sv_desktopLog (fst (handleClientLogs cfg env r d s)) = sv_desktopLog s"
  "sv_browser (fst (handleClientLogs cfg env r d s)) = sv_browser s" "snd (snd (handleClientLogs cfg env r d s)) = []"
  "only_files (device_files cfg d) (sv_logs s) (sv_logs (fst (handleClientLogs cfg env r d s)))"
proof -
  show "only_files (device_files cfg d) (sv_logs s) (sv_logs (fst (handleClientLogs cfg env r d s)))"
    using device_ops_only(2) [of cfg d "sv_logs s" "ev_log env" "ev_io env" "rq_Body r"]
    by (auto simp: handleClientLogs_def only_files_def split: prod.split option.split)
qed (simp_all add: handleClientLogs_def split: option.split prod.split)

lemma unprivileged_sessionI:
  assumes "device_session env r s d" "sv_serverLog (fst x) = sv_serverLog s" "sv_desktopLog (fst x) = sv_desktopLog s"
    and "only_files (device_files cfg d) (sv_logs s) (sv_logs (fst x))"
    and "sv_browser (fst x) = sv_browser s \<or> (\<exists>rev force b. sv_browser s = Some b \<and> sv_browser (fst x) = Some (snd (Request ''resume'' rev force b)))"
    and "\<And>c. c \<in> set (snd (snd x)) \<Longrightarrow> \<exists>p. c = RunExtra p \<and> matches_route (rq_Path r) p"
  shows "unprivileged cfg env r s x"
  using assms unfolding unprivileged_def by (cases x) (simp, blast)

lemma revoke_calls [simp]: "snd (snd (serve_revoke cfg env r d s)) = []"
  by (simp add: serve_revoke_def split: prod.split bool.split)

lemma session_unprivileged: "unprivileged cfg env r s (serve_session cfg env r s)"
proof -
  define s1 where "s1 = s\<lparr>sv_auth := auth_step (ev_std env) (sv_auth s) (CValid (ev_save env) (ev_now env) (rq_cookie r))\<rparr>"
  obtain d ok where valid: "snd (Valid (ev_std env) (ev_save env) (ev_now env) (rq_cookie r) (sv_auth s)) = (d, ok)"
    by (cases "snd (Valid (ev_std env) (ev_save env) (ev_now env) (rq_cookie r) (sv_auth s))")
  have check: "check_session env r s = (s1, d, ok)"
    unfolding check_session_eq valid s1_def by (rule refl)
  have same [simp]: "sv_logs s1 = sv_logs s" "sv_browser s1 = sv_browser s" "sv_serverLog s1 = sv_serverLog s" "sv_desktopLog s1 = sv_desktopLog s"
    by (simp_all add: s1_def)
  have files: "only_files ps fs fs" for ps fs
    by (simp add: only_files_def)
  show ?thesis
  proof (cases ok)
    case False
    then show ?thesis
      by (simp add: serve_session_def Let_def check unprivileged_def answers)
  next
    case True
    then have session: "device_session env r s d"
      by (simp add: device_session_def valid)
    have revoke: "unprivileged cfg env r s (serve_revoke cfg env r d s1)"
    proof (rule unprivileged_sessionI [OF session])
      show "\<exists>p. c = RunExtra p \<and> matches_route (rq_Path r) p" if "c \<in> set (snd (snd (serve_revoke cfg env r d s1)))" for c
        using that by simp
    qed (cases "revoke_device cfg env d s1"; auto simp: serve_revoke_def files dest: revoke_rest split: bool.split)+
    have config: "unprivileged cfg env r s (handleConfig cfg env r d s1)"
      by (rule unprivileged_sessionI [OF session]) (simp_all add: handleConfig_def Let_def case_prod_unfold files)
    have mode: "unprivileged cfg env r s (handleBrowserMode env r False s1)"
      by (rule unprivileged_sessionI [OF session]) (use mode_resume_only [of env r s1] in \<open>simp_all add: files\<close>)
    have logs: "unprivileged cfg env r s (handleClientLogs cfg env r d s1)"
      by (rule unprivileged_sessionI [OF session]) (use client_logs_rest [where cfg = cfg and env = env and r = r and d = d and s = s1] in simp_all)
    have extra: "unprivileged cfg env r s (serve_extra cfg r (ev_extra env) s1)"
      by (rule unprivileged_sessionI [OF session]) (simp_all add: files extra_calls)
    show ?thesis
      using True revoke config mode logs extra by (simp add: serve_session_def Let_def check del: append.simps)
  qed
qed

lemma handleAdmin_refused: "\<not> admin_request cfg env r \<Longrightarrow> harmless s (handleAdmin cfg env r s)"
  by (auto simp: handleAdmin_def adminAuthorized_def admin_request_def intro: harmless_answer)

lemma route_unprivileged:
  assumes "\<not> admin_request cfg env r"
  shows "unprivileged cfg env r s (route cfg env r s)"
  unfolding route_def Let_def
  by (intro if_branches [where Q = "unprivileged cfg env r s"];
      (rule ws_unprivileged tunnel_unprivileged session_unprivileged
       | rule harmless_unprivileged, (rule public_harmless auth_harmless harmless_answer handleAdmin_refused [OF assms])))

section \<open>Sockets\<close>

definition opens_socket :: "string \<Rightarrow> outcome \<Rightarrow> bool" where
  "opens_socket d x \<longleftrightarrow> ServeSocket d \<in> set (snd (snd x))"

lemma opens_simps [simp]:
  "\<not> opens_socket d (answer n b s)" "\<not> opens_socket d (NotFound s)" "\<not> opens_socket d (MethodNotAllowed s)" "\<not> opens_socket d (BadJSONBody s)"
  "\<not> opens_socket d (admin_found y)" "\<not> opens_socket d (clear_answer e q s)" "opens_socket d (with_call c x) \<longleftrightarrow> c = ServeSocket d \<or> opens_socket d x"
  by (auto simp: opens_socket_def)

lemma harmless_opens: "harmless s x \<Longrightarrow> \<not> opens_socket d x"
  by (auto simp: harmless_def opens_socket_def)

lemma mode_opens [simp]: "\<not> opens_socket d (handleBrowserMode env r b s)"
  by (simp add: opens_socket_def)

lemma admin_opens: "\<not> opens_socket d (handleAdmin cfg env r s)"
proof -
  have clip: "\<not> opens_socket d (handleAdminClipboard env r s)"
    by (auto simp: handleAdminClipboard_def clip_request_def Let_def split: option.split prod.split)
  have rest: "\<not> opens_socket d (handleAdminClipboardState env s)" "\<not> opens_socket d (handleAdminClipboardSync env r s)" "\<not> opens_socket d (admin_shutdown cfg r s)"
    "\<not> opens_socket d (handleAdminLogs cfg env r s)" "\<not> opens_socket d (handleAdminLogStream cfg env r s)" "\<not> opens_socket d (handleAdminLogClear cfg env r s)"
    "\<not> opens_socket d (admin_open_pairing cfg env r s)" "\<not> opens_socket d (admin_pairing_session cfg env s)"
    by (auto simp: handleAdminClipboardState_def handleAdminClipboardSync_def admin_shutdown_def handleAdminLogs_def handleAdminLogStream_def
      handleAdminLogClear_def admin_open_pairing_def admin_pairing_session_def Let_def split: option.split prod.split sum.split)
  have "\<not> opens_socket d (admin_route cfg env r s)"
    unfolding admin_route_def Let_def case_prod_unfold
    by (intro if_branches [where Q = "\<lambda>x. \<not> opens_socket d x"]) (simp_all add: clip rest split: option.split)
  then show ?thesis
    by (simp add: handleAdmin_def)
qed

lemma session_opens: "\<not> opens_socket d (serve_session cfg env r s)"
  by (auto simp: serve_session_def Let_def check_session_eq case_prod_unfold opens_socket_def handleConfig_def client_logs_rest(4) dest: extra_calls)

lemma if_cases: "(c \<Longrightarrow> Q a) \<Longrightarrow> (\<not> c \<Longrightarrow> Q b) \<Longrightarrow> Q (if c then a else b)"
  by simp

lemma tunnel_opens [simp]: "\<not> opens_socket d (handleTunnel env r s)"
  by (auto simp: handleTunnel_def split: option.split)

lemma route_opens: "opens_socket d (route cfg env r s) \<longrightarrow> rq_Path r = APIRoot @ ''/ws'' \<and> opens_socket d (handleWS cfg env r s)"
  unfolding route_def Let_def
  by (intro if_cases [where Q = "\<lambda>x. opens_socket d x \<longrightarrow> rq_Path r = APIRoot @ ''/ws'' \<and> opens_socket d (handleWS cfg env r s)"])
    (simp_all only: opens_simps public_harmless [THEN harmless_opens] auth_harmless [THEN harmless_opens] admin_opens session_opens tunnel_opens
      simp_thms)

lemma ws_opens:
  assumes "opens_socket d (handleWS cfg env r s)"
  shows "snd (VerifyWSTicket (ev_now env) (rq_query r ''ticket'') (sv_auth s)) = (d, True)"
    and "ParseClientCompatibility (rq_query r ''cv'') (rq_query r ''nv'') = (CompatibilityGeneration (ac_CompatibilityVersion cfg), True)"
  using assms
  by (auto simp: handleWS_def ws_verify_def ws_open_def case_prod_unfold Let_def prod_eq_iff split: option.splits if_splits)

definition presents :: "http_request \<Rightarrow> string \<Rightarrow> bool" where
  "presents r tk \<longleftrightarrow> rq_Path r = APIRoot @ ''/ws'' \<and> rq_query r ''ticket'' = tk"

lemma route_ws: "rq_Path r = APIRoot @ ''/ws'' \<Longrightarrow> route cfg env r s = handleWS cfg env r s"
  by (simp add: route_def APIRoot_def)

lemma presented_is_gone: "presents r tk \<Longrightarrow> mg_tickets (sv_auth (fst (route cfg env r s))) tk = None"
  by (auto simp: presents_def route_ws handleWS_def ws_verify_def VerifyWSTicket_def Let_def case_prod_unfold split: option.split)

definition grants :: "api_env \<Rightarrow> http_request \<Rightarrow> api_server \<Rightarrow> string \<Rightarrow> ws_ticket \<Rightarrow> bool" where
  "grants env r s tk w \<longleftrightarrow> rq_Path r = APIRoot @ ''/config'' \<and> device_session env r s (wt_deviceID w) \<and> ev_secret env = tk \<and>
     wt_expires w = ev_now env + WSTicketTTL"

lemma run_tickets:
  "mg_tickets (auth_run std m cs) tk = Some w \<Longrightarrow>
   mg_tickets m tk = Some w \<or> (\<exists>now. CTicket now tk (wt_deviceID w) \<in> set cs \<and> wt_expires w = now + WSTicketTTL)"
proof (induction cs rule: rev_induct)
  case (snoc c cs)
  then show ?case
    using step_tickets [of std "auth_run std m cs" c tk w] by (auto simp: auth_run_append)
qed simp

lemma route_tickets:
  assumes "mg_tickets (sv_auth (fst (route cfg env r s))) tk = Some w" and "\<And>t d. CTicket t tk d \<notin> set (ev_others env)"
  shows "mg_tickets (sv_auth s) tk = Some w \<and> \<not> presents r tk \<or> grants env r s tk w"
proof -
  have "via (ev_std env) (\<lambda>c. c \<in> set (ev_others env) \<or> permitted cfg env r s c) s (fst (route cfg env r s))"
    by (rule route_via) (auto simp: list_all_iff)
  then obtain cs where cs: "sv_auth (fst (route cfg env r s)) = auth_run (ev_std env) (sv_auth s) cs"
    "\<forall>c\<in>set cs. c \<in> set (ev_others env) \<or> permitted cfg env r s c"
    by (auto simp: via_def list_all_iff)
  have "\<not> presents r tk"
    using presented_is_gone [of r tk cfg env s] assms(1) by auto
  then show ?thesis
    using run_tickets [of "ev_std env" "sv_auth s" cs tk w] assms cs by (fastforce simp: grants_def)
qed

fun api_run :: "api_config \<Rightarrow> api_server \<Rightarrow> (api_env \<times> http_request) list \<Rightarrow> api_server" where
  "api_run cfg s [] = s"
| "api_run cfg s ((env, r) # steps) = api_run cfg (fst (route cfg env r s)) steps"

lemma api_run_snoc: "api_run cfg s (steps @ [(env, r)]) = fst (route cfg env r (api_run cfg s steps))"
  by (induction cfg s steps rule: api_run.induct) auto

definition grants_only :: "(api_env \<times> http_request) list \<Rightarrow> bool" where
  \<comment> \<open>no other request hands out a ticket while a signature is checked\<close>
  "grants_only steps \<longleftrightarrow> (\<forall>(env, r)\<in>set steps. \<forall>t tk d. CTicket t tk d \<notin> set (ev_others env))"

lemma ticket_origin:
  assumes "mg_tickets (sv_auth s0) = Map.empty" and "grants_only steps" and "mg_tickets (sv_auth (api_run cfg s0 steps)) tk = Some w"
  shows "\<exists>xs env r ys. steps = xs @ (env, r) # ys \<and> grants env r (api_run cfg s0 xs) tk w \<and> (\<forall>(e, q)\<in>set ys. \<not> presents q tk)"
  using assms(2,3)
proof (induction steps rule: rev_induct)
  case Nil
  then show ?case using assms(1) by simp
next
  case (snoc x steps)
  obtain env r where x: "x = (env, r)" by (cases x)
  have "CTicket t tk d \<notin> set (ev_others env)" for t d
    using snoc.prems(1) x by (auto simp: grants_only_def)
  then consider "mg_tickets (sv_auth (api_run cfg s0 steps)) tk = Some w" "\<not> presents r tk" | "grants env r (api_run cfg s0 steps) tk w"
    using route_tickets [of cfg env r "api_run cfg s0 steps" tk w] snoc.prems(2) by (auto simp: x api_run_snoc)
  then show ?case
  proof cases
    case 1
    moreover have "grants_only steps"
      using snoc.prems(1) by (auto simp: grants_only_def)
    ultimately obtain xs e q ys where "steps = xs @ (e, q) # ys" "grants e q (api_run cfg s0 xs) tk w" "\<forall>(e, q)\<in>set ys. \<not> presents q tk"
      using snoc.IH by blast
    then show ?thesis
      using 1(2) x by (intro exI [of _ xs] exI [of _ e] exI [of _ q] exI [of _ "ys @ [x]"]) auto
  next
    case 2
    then show ?thesis
      using x by (intro exI [of _ steps] exI [of _ env] exI [of _ r] exI [of _ "[]"]) simp
  qed
qed

section \<open>Revocation\<close>

lemma written_client:
  assumes "hb_clients h i = Some c" "length (cl_control c) < controlQueueCap" "\<not> cl_closed c"
  shows "\<exists>c'. hb_clients (write_client i data h) i = Some c' \<and> cl_deviceID c' = cl_deviceID c \<and> \<not> cl_closed c' \<and>
    length (cl_control c') \<le> Suc (length (cl_control c))"
  using assms by (simp add: write_client_def client_write_def send_control_def message_types)

lemma sent_client:
  assumes "hb_clients (sv_hub s) i = Some c" "length (cl_control c) < controlQueueCap" "\<not> cl_closed c"
  shows "\<exists>c'. hb_clients (sv_hub (send_json env i e s)) i = Some c' \<and> cl_deviceID c' = cl_deviceID c \<and> \<not> cl_closed c' \<and>
    length (cl_control c') \<le> Suc (length (cl_control c))"
  using assms written_client [OF assms] by (simp add: send_json_def split: option.split)

lemma connected_client:
  assumes "hb_clients (sv_hub s) i = Some (new_client d)"
  shows "\<exists>c. hb_clients (sv_hub (handleClientConnected cfg env i d s)) i = Some c \<and> cl_deviceID c = d \<and> \<not> cl_closed c"
proof -
  obtain c where c: "hb_clients (sv_hub (send_json env i (ClipboardSync (ev_clip_state env)) s)) i = Some c" "cl_deviceID c = d"
    "\<not> cl_closed c" "length (cl_control c) \<le> 1"
    using sent_client [OF assms] by (auto simp: new_client_def controlQueueCap_def)
  then show ?thesis
    using sent_client [OF c(1), of env "EmptyEvent ''log-clear''"] by (auto simp: handleClientConnected_def Let_def controlQueueCap_def)
qed

text \<open>
  The ticket is checked before the connection is registered: a device revoked in between, which closes its connections and
  removes it from the registry, still gets an open connection.
\<close>
lemma socket_outlives_revocation:
  assumes "ws_verify cfg env r s = (s1, Some d)" "revoke_device cfg env' d s1 = (s2, True)" "ev_upgrade env = Some i"
  shows "mg_devices (sv_auth (fst (ws_open cfg env d s2))) d = None \<and>
    (\<exists>c. hb_clients (sv_hub (fst (ws_open cfg env d s2))) i = Some c \<and> cl_deviceID c = d \<and> \<not> cl_closed c)"
proof
  show "mg_devices (sv_auth (fst (ws_open cfg env d s2))) d = None"
    using assms(2) by (auto simp: revoke_device_def Revoke_def saveDevicesLocked_def Let_def split: option.splits if_splits prod.splits)
  show "\<exists>c. hb_clients (sv_hub (fst (ws_open cfg env d s2))) i = Some c \<and> cl_deviceID c = d \<and> \<not> cl_closed c"
    unfolding ws_open_def using assms(3) by (simp add: connect_client_def connected_client)
qed

section \<open>Log streams\<close>

lemma split_on_append_nl: "split_on c (xs @ c # ys) = split_on c xs @ split_on c ys"
  by (induction xs) (auto split: list.split)

lemma split_on_not_Nil [simp]: "split_on c xs \<noteq> []"
  by (induction xs) (auto split: list.split)

definition whole_lines :: "string \<Rightarrow> bool" where
  "whole_lines s \<longleftrightarrow> s = [] \<or> last s = nl"

lemma lines_of_append: "whole_lines a \<Longrightarrow> lines_of (a @ b) = lines_of a @ lines_of b"
proof (cases a rule: rev_cases)
  case (snoc a' c)
  assume "whole_lines a"
  with snoc have "a @ b = a' @ nl # b" "a = a' @ nl # []"
    by (simp_all add: whole_lines_def)
  then show ?thesis
    by (simp add: lines_of_def Let_def split_on_append_nl butlast_append)
qed (simp add: lines_of_def Let_def)

lemma decode_lines_append: "decode_lines env (xs @ ys) = (case decode_lines env xs of Inl e \<Rightarrow> Inl e
    | Inr rs \<Rightarrow> (case decode_lines env ys of Inl e \<Rightarrow> Inl e | Inr rs' \<Rightarrow> Inr (rs @ rs')))"
  by (induction xs) (auto simp: Let_def split: sum.split option.split)

lemma DecodeRecords_append:
  assumes "whole_lines a" "DecodeRecords env a = Inr rs" "DecodeRecords env b = Inr rs'"
  shows "DecodeRecords env (a @ b) = Inr (rs @ rs')"
proof -
  have fits: "list_all (\<lambda>l. length l < DeviceMaxLine) (lines_of a)"
    using assms(2) by (auto simp: DecodeRecords_def scan_def list_all_iff list_ex_iff not_le split: sum.splits if_splits)
  then have "takeWhile (\<lambda>l. length l < DeviceMaxLine) (lines_of a @ lines_of b) = lines_of a @ takeWhile (\<lambda>l. length l < DeviceMaxLine) (lines_of b)"
    by (simp add: takeWhile_append2 list_all_iff)
  moreover have a: "takeWhile (\<lambda>l. length l < DeviceMaxLine) (lines_of a) = lines_of a"
    using fits by (simp add: list_all_iff takeWhile_eq_all_conv)
  moreover have "decode_lines env (map drop_cr (lines_of a)) = Inr rs" "\<not> list_ex (\<lambda>l. DeviceMaxLine \<le> length l) (lines_of a)"
    using assms(2) unfolding DecodeRecords_def scan_def a by (auto split: sum.splits if_splits)
  ultimately show ?thesis
    using assms(3) unfolding DecodeRecords_def scan_def lines_of_append [OF assms(1)]
    by (auto simp: decode_lines_append split: sum.splits if_splits)
qed

fun seen :: "log_record list \<Rightarrow> stream_out list \<Rightarrow> log_record list" where
  \<comment> \<open>what a reader of the stream has\<close>
  "seen v [] = v"
| "seen v (Records rs reset # out) = seen (if reset then rs else v @ rs) out"
| "seen v (KeepAlive # out) = seen v out"

fun last_read :: "string \<Rightarrow> (gotime \<times> (log_error + string)) list \<Rightarrow> string" where
  "last_read c [] = c"
| "last_read c ((_, Inr t) # ticks) = last_read t ticks"
| "last_read c ((_, Inl _) # ticks) = c"

definition readable :: "log_env \<Rightarrow> string \<Rightarrow> bool" where
  "readable env t \<longleftrightarrow> whole_lines t \<and> \<not> isl (DecodeRecords env t)"

lemma has_prefix_append: "has_prefix s p \<longleftrightarrow> (\<exists>t. s = p @ t)"
  by (induction s p rule: has_prefix.induct) auto

lemma decode_suffix:
  assumes "whole_lines a" "DecodeRecords env a = Inr rs" "DecodeRecords env (a @ b) = Inr all"
  shows "\<exists>rs'. DecodeRecords env b = Inr rs'"
proof -
  have fits: "list_all (\<lambda>l. length l < DeviceMaxLine) (lines_of a @ lines_of b)"
    using assms(3) by (auto simp: DecodeRecords_def scan_def lines_of_append [OF assms(1)] list_all_iff list_ex_iff not_le split: sum.splits if_splits)
  then have "takeWhile (\<lambda>l. length l < DeviceMaxLine) (lines_of a @ lines_of b) = lines_of a @ lines_of b"
    "takeWhile (\<lambda>l. length l < DeviceMaxLine) (lines_of b) = lines_of b" "\<not> list_ex (\<lambda>l. DeviceMaxLine \<le> length l) (lines_of b)"
    by (auto simp: list_all_iff list_ex_iff takeWhile_eq_all_conv ball_Un not_le)
  then show ?thesis
    using assms(3) unfolding DecodeRecords_def scan_def lines_of_append [OF assms(1)]
    by (auto simp: decode_lines_append split: sum.splits if_splits)
qed

lemma stream_ticks_mirror:
  assumes "readable env previous" "DecodeRecords env previous = Inr v"
    and "list_all (\<lambda>(now, x). case x of Inl _ \<Rightarrow> False | Inr t \<Rightarrow> readable env t) ticks"
  shows "DecodeRecords env (last_read previous ticks) = Inr (seen v (stream_ticks env ticks previous lastWrite))"
  using assms
proof (induction env ticks previous lastWrite arbitrary: v rule: stream_ticks.induct)
  case (3 env now nxt ts previous lastWrite)
  then have nxt: "readable env nxt" and ts: "list_all (\<lambda>(now, x). case x of Inl _ \<Rightarrow> False | Inr t \<Rightarrow> readable env t) ts"
    by simp_all
  obtain all where all: "DecodeRecords env nxt = Inr all"
    using nxt by (cases "DecodeRecords env nxt") (auto simp: readable_def)
  show ?case
  proof (cases "nxt = previous")
    case True
    then show ?thesis
      using 3 by (auto simp: Let_def)
  next
    case differs: False
    show ?thesis
    proof (cases "has_prefix nxt previous")
      case True
      then obtain t where t: "nxt = previous @ t"
        by (auto simp: has_prefix_append)
      have whole: "whole_lines previous"
        using "3.prems"(1) by (simp add: readable_def)
      obtain rs' where rs': "DecodeRecords env t = Inr rs'"
        using decode_suffix [OF whole "3.prems"(2)] all t by auto
      have "all = v @ rs'"
        using DecodeRecords_append [OF whole "3.prems"(2) rs'] all t by simp
      then show ?thesis
        using "3.IH"(3) [OF differs refl refl _ nxt all ts] differs True t rs' by (simp add: Let_def)
    next
      case False
      then show ?thesis
        using "3.IH"(3) [OF differs refl refl _ nxt all ts] differs all by (simp add: Let_def)
    qed
  qed
qed simp_all

section \<open>Clipboard requests\<close>

lemma clip_ack_facts:
  "cq_expected (clip_ack d ok q) = cq_expected q"
  "dom (cq_acked q) \<subseteq> cq_expected q \<Longrightarrow> dom (cq_acked (clip_ack d ok q)) \<subseteq> cq_expected q"
  "dom (cq_acked q) \<subseteq> dom (cq_acked (clip_ack d ok q))"
  "d \<in> cq_expected q \<Longrightarrow> d \<in> dom (cq_acked (clip_ack d ok q))"
  "cq_acked (clip_ack d ok q) e = Some True \<Longrightarrow> cq_acked q e = Some True \<or> e = d \<and> ok"
  "(clip_complete q \<Longrightarrow> cq_notify q) \<Longrightarrow> clip_complete (clip_ack d ok q) \<Longrightarrow> cq_notify (clip_ack d ok q)"
  by (auto simp: clip_ack_def clip_complete_def split: if_splits)

lemma loop_delivered:
  assumes "sv_clipboard s i = Some q" "dom (cq_acked q) \<subseteq> cq_expected q" "clip_delivered i (clip_wait_loop i es s) d"
  shows "d \<in> cq_expected q \<and> (cq_acked q d = Some True \<or> ResultFrom d i True \<in> set es)"
  using assms
proof (induction i es s arbitrary: q rule: clip_wait_loop.induct)
  case (1 i s)
  then show ?case by (auto simp: clip_delivered_def)
next
  case (2 i d' j ok es s)
  show ?case
  proof (cases "j = i")
    case True
    then have "sv_clipboard (clipboard_result d' j ok s) i = Some (clip_ack d' ok q)"
      using 2(2) by (simp add: clipboard_result_def)
    from 2(1) [OF this] 2(3,4) show ?thesis
      using clip_ack_facts [where q = q] True by (auto simp: clip_ack_facts(1) dest: clip_ack_facts(5))
  next
    case False
    then have "sv_clipboard (clipboard_result d' j ok s) i = Some q"
      using 2(2) by (simp add: clipboard_result_def split: option.split)
    from 2(1) [OF this 2(3)] 2(4) show ?thesis by auto
  qed
next
  case (3 i es s)
  let ?s = "s\<lparr>sv_clipboard := (sv_clipboard s)(i \<mapsto> q\<lparr>cq_notify := False\<rparr>)\<rparr>"
  have IH: "d \<in> cq_expected q \<and> (cq_acked q d = Some True \<or> ResultFrom d i True \<in> set es)"
    if "cq_notify q" "\<not> clip_complete q" "clip_delivered i (clip_wait_loop i es ?s) d"
    using "3.IH"(2) [of q _ "q\<lparr>cq_notify := False\<rparr>"] "3.prems" that by simp
  show ?case
    using "3.prems" IH "3.IH"(1) [OF "3.prems"(1) _ "3.prems"(1,2)]
    by (cases "cq_notify q"; cases "clip_complete q") (auto simp: Let_def clip_delivered_def)
qed

lemma loop_answers:
  assumes "sv_clipboard s i = Some q" "finite (cq_expected q)" "dom (cq_acked q) \<subseteq> cq_expected q" "clip_complete q \<Longrightarrow> cq_notify q"
    and "\<And>d. d \<in> cq_expected q \<Longrightarrow> d \<in> dom (cq_acked q) \<or> (\<exists>ok. ResultFrom d i ok \<in> set es)"
  shows "clip_wait_loop i (es @ Notified # rest) s = clip_wait_loop i (es @ [Notified]) s"
  using assms
proof (induction i es s arbitrary: q rule: clip_wait_loop.induct)
  case (1 i s)
  then have "dom (cq_acked q) = cq_expected q" by auto
  then have "cq_notify q" "clip_complete q"
    using 1 by (auto simp: clip_complete_def)
  then show ?case using 1 by (simp add: Let_def)
next
  case (2 i d' j ok es s)
  define q' where "q' = (if j = i then clip_ack d' ok q else q)"
  have q': "sv_clipboard (clipboard_result d' j ok s) i = Some q'" "cq_expected q' = cq_expected q"
    "dom (cq_acked q') \<subseteq> cq_expected q'" "clip_complete q' \<Longrightarrow> cq_notify q'" "dom (cq_acked q) \<subseteq> dom (cq_acked q')"
    "j = i \<Longrightarrow> d' \<in> cq_expected q \<Longrightarrow> d' \<in> dom (cq_acked q')"
    using "2.prems"(1,3,4) clip_ack_facts [where q = q] unfolding q'_def
    by (auto simp: clipboard_result_def clip_ack_facts(1) split: option.split if_splits)
  have "clip_wait_loop i (es @ Notified # rest) (clipboard_result d' j ok s) = clip_wait_loop i (es @ [Notified]) (clipboard_result d' j ok s)"
  proof (rule "2.IH" [OF q'(1)])
    show "finite (cq_expected q')"
      using "2.prems"(2) by (simp add: q'(2))
    show "d \<in> dom (cq_acked q') \<or> (\<exists>ok. ResultFrom d i ok \<in> set es)" if "d \<in> cq_expected q'" for d
      using "2.prems"(5) [of d] that q'(2,5,6) by auto
  qed (fact q'(3) q'(4))+
  then show ?case by simp
next
  case (3 i es s)
  show ?case
  proof (cases "cq_notify q")
    case False
    have "clip_wait_loop i (es @ Notified # rest) s = clip_wait_loop i (es @ [Notified]) s"
      by (rule "3.IH"(1) [OF "3.prems"(1) False "3.prems"(1,2,3)]) (use "3.prems"(4,5) in auto)
    then show ?thesis
      using "3.prems"(1) False by simp
  next
    case True
    show ?thesis
    proof (cases "clip_complete q")
      case True
      then show ?thesis using 3 by (simp add: Let_def)
    next
      case incomplete: False
      have "clip_wait_loop i (es @ Notified # rest) (s\<lparr>sv_clipboard := (sv_clipboard s)(i \<mapsto> q\<lparr>cq_notify := False\<rparr>)\<rparr>) =
          clip_wait_loop i (es @ [Notified]) (s\<lparr>sv_clipboard := (sv_clipboard s)(i \<mapsto> q\<lparr>cq_notify := False\<rparr>)\<rparr>)"
        using "3.prems" True incomplete
        by (intro "3.IH"(2) [where q = "q\<lparr>cq_notify := False\<rparr>"]) (auto simp: clip_complete_def)
      then show ?thesis using "3.prems" True incomplete by (simp add: Let_def)
    qed
  qed
qed

section \<open>Runs of requests\<close>

definition calls_permitted :: "api_config \<Rightarrow> api_server \<Rightarrow> (api_env \<times> http_request) list \<Rightarrow> auth_call list list \<Rightarrow> bool" where
  "calls_permitted cfg s0 steps css \<longleftrightarrow> length css = length steps \<and>
    (\<forall>k<length steps. case steps ! k of (env, r) \<Rightarrow>
       list_all (\<lambda>c. c \<in> set (ev_others env) \<or> permitted cfg env r (api_run cfg s0 (take k steps)) c) (css ! k))"

lemma run_calls:
  assumes "\<forall>(env, r)\<in>set steps. ev_std env = std"
  shows "\<exists>css. calls_permitted cfg s0 steps css \<and> sv_auth (api_run cfg s0 steps) = auth_run std (sv_auth s0) (concat css)"
  using assms
proof (induction steps rule: rev_induct)
  case Nil
  then show ?case by (simp add: calls_permitted_def)
next
  case (snoc x steps)
  obtain env r where x: "x = (env, r)" by (cases x)
  let ?s = "api_run cfg s0 steps"
  obtain css where css: "calls_permitted cfg s0 steps css" "sv_auth ?s = auth_run std (sv_auth s0) (concat css)"
    using snoc by auto
  have "via (ev_std env) (\<lambda>c. c \<in> set (ev_others env) \<or> permitted cfg env r ?s c) ?s (fst (route cfg env r ?s))"
    by (rule route_via) (auto simp: list_all_iff)
  then obtain cs where cs: "sv_auth (fst (route cfg env r ?s)) = auth_run std (sv_auth ?s) cs"
    "list_all (\<lambda>c. c \<in> set (ev_others env) \<or> permitted cfg env r ?s c) cs"
    using snoc.prems x unfolding via_def by auto
  show ?case
    using css cs x unfolding calls_permitted_def
    by (intro exI [of _ "css @ [cs]"]) (auto simp: api_run_snoc auth_run_append nth_append less_Suc_eq)
qed

section \<open>A concrete server\<close>

definition sample_request :: "string \<Rightarrow> string \<Rightarrow> http_request" where
  "sample_request m p = \<lparr>rq_Method = m, rq_Path = APIRoot @ p, rq_RemoteAddr = ''10.0.0.9'', rq_Host = ''h'',
     rq_query = (\<lambda>k. if k = ''ticket'' then ''tk'' else if k = ''cv'' then ''1'' else []), rq_header = (\<lambda>_. []),
     rq_cookie = Some ''v1.4b.0.c9'', rq_Body = []\<rparr>"

definition sample_clip :: clip_state where
  "sample_clip = \<lparr>cs_Enabled = False, cs_Available = True, cs_System = ''x'', cs_Known = False, cs_Text = [], cs_Revision = 0\<rparr>"

definition sample_env :: api_env where
  "sample_env = \<lparr>ev_std = sample_std, ev_now = 10, ev_id = ''i'', ev_code = ''c'', ev_secret = ''tk'', ev_save = True, ev_others = [],
     ev_health = None, ev_io = good_io, ev_log = plain_log, ev_lower = id, ev_url_host = (\<lambda>_. None), ev_escape = id, ev_qr = (\<lambda>_. None),
     ev_keys = [], ev_clients = [], ev_extra = [], ev_upgrade = Some 0, ev_dial = True, ev_body_ok = True, ev_random_ok = True,
     ev_clip = (sample_clip, False, None), ev_clip_state = sample_clip, ev_wait = [], ev_ticks = [], ev_marshal = (\<lambda>_. None),
     ev_json_text = (\<lambda>_ _. None), ev_json_pair = (\<lambda>_. None), ev_json_complete = (\<lambda>_. None), ev_json_mode = (\<lambda>_. None),
     ev_json_clip = (\<lambda>_. None), ev_json_flag = (\<lambda>_. None)\<rparr>"

definition sample_api :: api_config where
  "sample_api = \<lparr>ac_ServerName = ''s'', ac_Fingerprint = ''f'', ac_TunnelHost = [], ac_PublicAddress = [], ac_SurfHome = ''/h'', ac_ViewW = 1,
     ac_ViewH = 1, ac_CompatibilityVersion = ''1'', ac_AppVersion = ''dev'', ac_Caps = [], ac_adminToken = ''secret'', ac_client = None,
     ac_stats = False, ac_shutdown = True, ac_serverLog = True\<rparr>"

definition sample_server :: api_server where
  "sample_server = \<lparr>sv_auth = (New ''srv'' [1] [])\<lparr>mg_devices := [''4b'' \<mapsto>
       \<lparr>dev_ID = ''4b'', dev_Name = ''Phone'', dev_PublicKey = ''K'', dev_PairedAt = 7, dev_LastSeen = 7\<rparr>]\<rparr>, sv_hub = new_hub,
     sv_logs = Map.empty, sv_serverLog = new_log, sv_desktopLog = new_log, sv_browser = None, sv_clipboard = Map.empty, sv_tunnels = 0\<rparr>"

lemmas samples = sample_request_def sample_env_def sample_api_def sample_server_def

lemma sample_sign: "sign sample_std m ''v1.4b.0'' = ''c9''"
  by (simp add: sign_def sample_std_def bytes_of_def hex_encode_def hex_digit_def) code_simp

lemma sample_valid: "Valid sample_std True 10 (Some ''v1.4b.0.c9'') (sv_auth sample_server) = (sv_auth sample_server, ''4b'', True)"
  by (simp add: Valid_def sample_server_def sample_sign parse_int64_def is_digit_def digits_value_def unix_seconds_def time_sub_def New_def)

lemma sample_session: "device_session sample_env (sample_request m p) sample_server ''4b''"
  by (simp add: device_session_def sample_valid sample_env_def sample_request_def)

lemma sample_not_admin: "\<not> admin_request sample_api sample_env (sample_request m p)"
  by (simp add: admin_request_def sample_api_def sample_request_def)

lemma sample_after_config:
  "fst (route sample_api sample_env (sample_request ''GET'' ''/config'') sample_server) =
   sample_server\<lparr>sv_auth := (sv_auth sample_server)\<lparr>mg_tickets := [''tk'' \<mapsto> \<lparr>wt_deviceID = ''4b'', wt_expires = 10 + WSTicketTTL\<rparr>]\<rparr>\<rparr>"
  (is "fst (route ?c ?e ?r ?s) = _")
proof -
  have "check_session ?e ?r ?s = (?s, ''4b'', True)"
    by (simp add: check_session_def sample_env_def sample_request_def sample_valid)
  then have "route ?c ?e ?r ?s = handleConfig ?c ?e ?r ''4b'' ?s"
    by (simp add: route_def serve_session_def Let_def sample_request_def APIRoot_def)
  then show ?thesis
    by (simp add: handleConfig_def Let_def case_prod_unfold WSTicket_def sample_env_def) (simp add: sample_server_def New_def)
qed

lemma sample_socket:
  "ServeSocket ''4b'' \<in> set (snd (snd (route sample_api sample_env (sample_request ''GET'' ''/ws'')
     (api_run sample_api sample_server [(sample_env, sample_request ''GET'' ''/config'')]))))"
  by (simp add: sample_after_config route_ws sample_request_def [of _ "''/ws''"])
    (simp add: handleWS_def ws_verify_def ws_open_def VerifyWSTicket_def pruneLocked_def Let_def sample_server_def sample_env_def sample_api_def
      sample_request_def New_def WSTicketTTL_def ParseClientCompatibility_def parse_generation_def CompatibilityGeneration_def parse_int64_def
      is_digit_def digits_value_def answers)

section \<open>Properties\<close>

text \<open>
  C5 (refinement). Whatever requests arrive, the device registry goes through a run of the operations of \<^verbatim>\<open>auth.go\<close>, so that
  every property of those runs holds of the server. The operations of a request are those it may use: a pairing window is opened
  or closed only for the administrator (a request from the loopback interface with the token), a device is revoked only for the
  administrator or for itself, a WebSocket ticket is issued only to the device of the session, and pairing requests,
  challenges and their responses pass the rate limit of the sender first. The calls of other
  goroutines while a signature is checked are the only others.
\<close>
theorem registry_reached_as_permitted:
  assumes "\<forall>(env, r)\<in>set steps. ev_std env = std"
  shows "\<exists>css. length css = length steps \<and> sv_auth (api_run cfg s0 steps) = auth_run std (sv_auth s0) (concat css) \<and>
    (\<forall>k<length steps. case steps ! k of (env, r) \<Rightarrow>
       list_all (\<lambda>c. c \<in> set (ev_others env) \<or> permitted cfg env r (api_run cfg s0 (take k steps)) c) (css ! k))"
  using run_calls [OF assms, of cfg s0] unfolding calls_permitted_def by blast

theorem registry_reached_as_permitted_witness:
  "\<exists>css. length css = 1 \<and>
    sv_auth (api_run sample_api sample_server [(sample_env, sample_request ''GET'' ''/config'')]) =
    auth_run sample_std (sv_auth sample_server) (concat css)"
  using registry_reached_as_permitted [of "[(sample_env, sample_request ''GET'' ''/config'')]" sample_std sample_api sample_server]
  by (auto simp: sample_env_def)



text \<open>
  C7 (safety). A WebSocket is opened for a device only if an earlier request for the configuration, at most 30 seconds before and
  with a valid session of that device, was answered with this very ticket, no request in between presented it, and the device is
  still registered.
\<close>
theorem socket_follows_session:
  assumes "mg_tickets (sv_auth s0) = Map.empty" "grants_only steps"
    and "ServeSocket d \<in> set (snd (snd (route cfg env r (api_run cfg s0 steps))))"
  shows "\<exists>xs env' r' ys. steps = xs @ (env', r') # ys \<and> rq_Path r' = APIRoot @ ''/config'' \<and>
    device_session env' r' (api_run cfg s0 xs) d \<and> ev_secret env' = rq_query r ''ticket'' \<and> ev_now env \<le> ev_now env' + 30 * second \<and>
    (\<forall>(e, q)\<in>set ys. \<not> presents q (rq_query r ''ticket'')) \<and> mg_devices (sv_auth (api_run cfg s0 steps)) d \<noteq> None"
proof -
  have "opens_socket d (handleWS cfg env r (api_run cfg s0 steps))"
    using route_opens [of d cfg env r "api_run cfg s0 steps"] assms(3) unfolding opens_socket_def by blast
  then obtain w where w: "mg_tickets (sv_auth (api_run cfg s0 steps)) (rq_query r ''ticket'') = Some w" "wt_deviceID w = d"
    "ev_now env \<le> wt_expires w" "mg_devices (sv_auth (api_run cfg s0 steps)) d \<noteq> None"
    using ticket_accepted [OF ws_opens(1)] by blast
  obtain xs env' r' ys where split: "steps = xs @ (env', r') # ys" "grants env' r' (api_run cfg s0 xs) (rq_query r ''ticket'') w"
    "\<forall>(e, q)\<in>set ys. \<not> presents q (rq_query r ''ticket'')"
    using ticket_origin [OF assms(1,2) w(1)] by blast
  show ?thesis
    by (rule exI [of _ xs], rule exI [of _ env'], rule exI [of _ r'], rule exI [of _ ys])
      (use split(2) w in \<open>simp add: grants_def WSTicketTTL_def split(1,3)\<close>)
qed

theorem socket_follows_session_witness:
  "\<exists>xs env' r' ys. [(sample_env, sample_request ''GET'' ''/config'')] = xs @ (env', r') # ys \<and>
    device_session env' r' (api_run sample_api sample_server xs) ''4b''"
proof -
  have "mg_tickets (sv_auth sample_server) = Map.empty" "grants_only [(sample_env, sample_request ''GET'' ''/config'')]"
    by (simp_all add: sample_server_def New_def grants_only_def sample_env_def)
  from socket_follows_session [OF this sample_socket] show ?thesis by blast
qed

text \<open>
  C23 (functional). The verdict of the configuration request and the guard of the WebSocket agree: a client is told that it is compatible
  exactly when a WebSocket request with the same generation and a valid ticket is accepted, a client package is
  only ever offered if it is of the server's generation, it is offered whenever the client must update, and it is then marked required.
\<close>
theorem verdict_agrees_with_socket:
  assumes "rq_Path q = APIRoot @ ''/ws''" "rq_query q ''cv'' = rq_query r ''cv''" "rq_query q ''nv'' = rq_query r ''nv''"
    and "compatibility_of cfg r = (verdict, update)"
  shows "(ServeSocket d \<in> set (snd (snd (route cfg env q s))) \<longleftrightarrow>
      verdict = ''compatible'' \<and> snd (VerifyWSTicket (ev_now env) (rq_query q ''ticket'') (sv_auth s)) = (d, True)) \<and>
    (\<forall>u. update = Some u \<longrightarrow> (\<exists>b. ac_client cfg = Some b \<and> cp_Compatibility b = CompatibilityGeneration (ac_CompatibilityVersion cfg) \<and>
       u = updatePayload (verdict = ''client-update-required'') b)) \<and>
    (verdict = ''client-update-required'' \<longrightarrow> update \<noteq> None)"
proof -
  obtain g ok where g: "ParseClientCompatibility (rq_query r ''cv'') (rq_query r ''nv'') = (g, ok)"
    by (cases "ParseClientCompatibility (rq_query r ''cv'') (rq_query r ''nv'')")
  have "verdict = ''compatible'' \<longleftrightarrow> ok \<and> g = CompatibilityGeneration (ac_CompatibilityVersion cfg)"
    using assms(4) by (auto simp: compatibility_of_def g Let_def split: if_splits option.splits)
  moreover have "ServeSocket d \<in> set (snd (snd (route cfg env q s))) \<longleftrightarrow> ok \<and> g = CompatibilityGeneration (ac_CompatibilityVersion cfg) \<and>
      snd (VerifyWSTicket (ev_now env) (rq_query q ''ticket'') (sv_auth s)) = (d, True)"
    by (auto simp: route_ws [OF assms(1)] handleWS_def ws_verify_def ws_open_def assms(2,3) g Let_def case_prod_unfold prod_eq_iff split: option.splits)
  moreover have "(\<forall>u. update = Some u \<longrightarrow> (\<exists>b. ac_client cfg = Some b \<and> cp_Compatibility b = CompatibilityGeneration (ac_CompatibilityVersion cfg) \<and>
      u = updatePayload (verdict = ''client-update-required'') b)) \<and> (verdict = ''client-update-required'' \<longrightarrow> update \<noteq> None)"
    using assms(4) by (auto simp: compatibility_of_def g Let_def current_package_def split: if_splits option.splits)
  ultimately show ?thesis by blast
qed

theorem verdict_agrees_with_socket_witness:
  "ServeSocket ''4b'' \<notin> set (snd (snd (route sample_api sample_env (sample_request ''GET'' ''/ws'') sample_server)))"
proof -
  have "compatibility_of sample_api (sample_request ''GET'' ''/config'') = (''compatible'', None)"
    by (simp add: compatibility_of_def sample_api_def sample_request_def ParseClientCompatibility_def parse_generation_def
        CompatibilityGeneration_def parse_int64_def is_digit_def digits_value_def current_package_def)
  from verdict_agrees_with_socket [OF _ _ _ this, of "sample_request ''GET'' ''/ws''" "''4b''" sample_env sample_server]
  show ?thesis
    by (simp add: sample_request_def sample_env_def VerifyWSTicket_def pruneLocked_def Let_def sample_server_def New_def)
qed

text \<open>
  C24 (equivalence). Following a log live is the same as reading it: as long as the log is read as whole, well-formed lines, the records a
  reader of the stream has after any number of ticks (what it was sent since the last reset) are exactly those of the log as it
  was last read, through appended lines, rotation, clearing and replacement by a shorter or unrelated text.
\<close>
theorem log_stream_mirrors_log:
  assumes "readable lenv current" "list_all (\<lambda>(t, x). case x of Inl _ \<Rightarrow> False | Inr c \<Rightarrow> readable lenv c) ticks"
  shows "DecodeRecords lenv (last_read current ticks) = Inr (seen [] (log_stream lenv now ticks current))"
proof -
  obtain v where v: "DecodeRecords lenv current = Inr v"
    using assms(1) by (cases "DecodeRecords lenv current") (auto simp: readable_def)
  then show ?thesis
    using stream_ticks_mirror [OF assms(1) v assms(2), of now] by (simp add: log_stream_def)
qed

definition tagged_log :: log_env where
  "tagged_log = plain_log\<lparr>lv_unmarshal := \<lambda>l. Some \<lparr>lr_Timestamp = ''t'', lr_Level = ''t'', lr_Component = ''t'', lr_Message = l, lr_Fields = Some Map.empty\<rparr>\<rparr>"

lemma trim_letter: "n < 128 \<Longrightarrow> \<not> is_space n \<Longrightarrow> trim_right (trim_left [n]) = [n]"
  by (subst trim_left.simps, simp, subst trim_right.simps, simp add: last_space_def)

lemma letters: "char_of (97 :: nat) = CHR ''a''" "char_of (98 :: nat) = CHR ''b''" "char_of (116 :: nat) = CHR ''t''"
  by code_simp+

lemma trim_abt: "trim_bytes ''a'' = ''a''" "trim_bytes ''b'' = ''b''" "trim_bytes ''t'' = ''t''"
  using trim_letter [of 97] trim_letter [of 98] trim_letter [of 116] by (simp_all add: trim_bytes_def is_space_def letters)

lemma tagged_readable: "readable tagged_log (''a'' @ [nl])" "readable tagged_log (''a'' @ [nl] @ ''b'' @ [nl])"
  by (simp_all add: readable_def whole_lines_def DecodeRecords_def scan_def lines_of_def nl_def Let_def DeviceMaxLine_def drop_cr_def
      trim_abt decodeRecord_def tagged_log_def validateRecord_def)

theorem log_stream_mirrors_log_witness:
  "DecodeRecords tagged_log (''a'' @ [nl] @ ''b'' @ [nl]) =
   Inr (seen [] (log_stream tagged_log 0 [(1, Inr (''a'' @ [nl] @ ''b'' @ [nl]))] (''a'' @ [nl])))"
  using log_stream_mirrors_log [OF tagged_readable(1), of "[(1, Inr (''a'' @ [nl] @ ''b'' @ [nl]))]" 0] by (simp add: tagged_readable del: append.simps)

text \<open>
  C25 (liveness). Copying to devices accounts for each of them: a device is reported as delivered only if it was asked and itself reported
  success on this very request, and no wake-up is lost: once every device asked has reported, the next time the channel is read
  the handler answers, whatever happens afterwards.
\<close>
theorem clipboard_request_accounts:
  shows "(clip_delivered i (clip_await i es (clip_open i targets s)) d \<longrightarrow> d \<in> set targets \<and> ResultFrom d i True \<in> set es) \<and>
    ((\<forall>t\<in>set targets. \<exists>ok. ResultFrom t i ok \<in> set es) \<longrightarrow>
       clip_await i (es @ Notified # rest) (clip_open i targets s) = clip_await i (es @ [Notified]) (clip_open i targets s))"
proof
  let ?q = "\<lparr>cq_expected = set targets, cq_acked = Map.empty, cq_notify = False\<rparr>"
  have q: "sv_clipboard (clip_open i targets s) i = Some ?q"
    by (simp add: clip_open_def)
  have none: "clip_complete ?q \<longleftrightarrow> targets = []"
    by (simp add: clip_complete_def)
  show "clip_delivered i (clip_await i es (clip_open i targets s)) d \<longrightarrow> d \<in> set targets \<and> ResultFrom d i True \<in> set es"
    using loop_delivered [OF q, of es d] by (auto simp: clip_await_def q clip_delivered_def)
  show "(\<forall>t\<in>set targets. \<exists>ok. ResultFrom t i ok \<in> set es) \<longrightarrow>
     clip_await i (es @ Notified # rest) (clip_open i targets s) = clip_await i (es @ [Notified]) (clip_open i targets s)"
    using loop_answers [OF q, of es rest] by (auto simp: clip_await_def q none)
qed

theorem clipboard_request_accounts_witness:
  "clip_await ''i'' ([ResultFrom ''4b'' ''i'' True] @ Notified # [ResultFrom ''4b'' ''i'' False]) (clip_open ''i'' [''4b''] sample_server) =
   clip_await ''i'' ([ResultFrom ''4b'' ''i'' True] @ [Notified]) (clip_open ''i'' [''4b''] sample_server)"
  using clipboard_request_accounts [of "''i''" "[ResultFrom ''4b'' ''i'' True]" "[''4b'']" sample_server "''4b''" "[ResultFrom ''4b'' ''i'' False]"]
  by auto

end
