(* ===== verification/Cdp_Client.thy ===== *)
theory Cdp_Client
  imports Log_Store
begin

text \<open>
  The DevTools client, \<^verbatim>\<open>backend/internal/cdp\<close>. The first part is the connection (\<^verbatim>\<open>Client\<close> of \<^verbatim>\<open>cdp.go\<close>) as a machine of
  goroutines: callers, the read loop and the dispatch loop, interleaving at their critical sections, socket operations and
  channel operations. A channel of a call is known by the call. The second part is the launch of a browser (\<^verbatim>\<open>Launch\<close>,
  \<^verbatim>\<open>waitForURLWithin\<close>, \<^verbatim>\<open>ensureUnpackedExtensions\<close>) and \<^verbatim>\<open>CloseBrowser\<close> of \<^verbatim>\<open>lifetime.go\<close>. What Chromium, the
  operating system and the JSON library answer is arbitrary.
\<close>

section \<open>Messages\<close>

datatype cdp_error =
    RemoteError string int | ReadFailed | TimedOut string | ErrClosedPipe | WriteFailed | MarshalFailed | DecodeFailed

record envelope =
  en_ID :: uint64                          \<comment> \<open>an \<^verbatim>\<open>int64\<close>\<close>
  en_Method :: string
  en_Params :: string
  en_SessionID :: string
  en_Result :: string
  en_Error :: "(string \<times> int) option"

record dev_event =
  ce_Method :: string
  ce_SessionID :: string
  ce_Params :: string

type_synonym response = "cdp_error + string"

definition response_of :: "envelope \<Rightarrow> response" where
  "response_of e = (case en_Error e of None \<Rightarrow> Inr (en_Result e) | Some (message, code) \<Rightarrow> Inl (RemoteError message code))"

definition event_of :: "envelope \<Rightarrow> dev_event" where
  "event_of e = \<lparr>ce_Method = en_Method e, ce_SessionID = en_SessionID e, ce_Params = en_Params e\<rparr>"

definition request :: "uint64 \<Rightarrow> string \<Rightarrow> string \<Rightarrow> string \<Rightarrow> envelope" where
  "request i session method params =
     \<lparr>en_ID = i, en_Method = method, en_Params = params, en_SessionID = session, en_Result = [], en_Error = None\<rparr>"

section \<open>State\<close>

datatype call_pc =
    NotStarted
  | Registered uint64 envelope       \<comment> \<open>the channel is in \<^verbatim>\<open>pending\<close>, the message not yet written\<close>
  | Waiting uint64 string            \<comment> \<open>in the \<^verbatim>\<open>select\<close>\<close>
  | Returned response
  | Dispatching envelope             \<comment> \<open>a \<^verbatim>\<open>Dispatch\<close> that has drawn its number\<close>
  | Dispatched "cdp_error option"

datatype reader_pc =
    Reading
  | Sending nat response             \<comment> \<open>at \<^verbatim>\<open>ch <- r\<close>\<close>
  | Signalling                       \<comment> \<open>\<^verbatim>\<open>enqueueEvent\<close> between its lock and its signal\<close>
  | Failed                           \<comment> \<open>behind \<^verbatim>\<open>failAll\<close>\<close>
  | ReaderDone

datatype dispatch_pc =
    DWait                            \<comment> \<open>in the outer \<^verbatim>\<open>select\<close>\<close>
  | DTake                            \<comment> \<open>at the head of the inner loop\<close>
  | DBatch bool "dev_event list"     \<comment> \<open>whether a handler was installed; the events left\<close>
  | DDone

record cdp =
  cd_nextID :: uint64
  cd_pending :: "uint64 \<rightharpoonup> nat"
  cd_chan :: "nat \<Rightarrow> response option"
  cd_pc :: "nat \<Rightarrow> call_pc"
  cd_handler :: bool
  cd_queue :: "dev_event list"
  cd_signal :: bool
  cd_closed :: bool
  cd_reader :: reader_pc
  cd_dispatch :: dispatch_pc
  cd_number :: "nat \<rightharpoonup> uint64"       \<comment> \<open>the number each call drew\<close>
  cd_sent :: "envelope list"
  cd_read :: "envelope list"
  cd_handled :: "(dev_event \<times> bool) list"  \<comment> \<open>events in the order they left the queue, and whether the handler ran\<close>

definition Dial :: cdp where
  "Dial = \<lparr>cd_nextID = 0, cd_pending = Map.empty, cd_chan = (\<lambda>_. None), cd_pc = (\<lambda>_. NotStarted), cd_handler = False, cd_queue = [],
     cd_signal = False, cd_closed = False, cd_reader = Reading, cd_dispatch = DWait, cd_number = Map.empty, cd_sent = [], cd_read = [],
     cd_handled = []\<rparr>"

section \<open>Calls\<close>

definition set_pc :: "nat \<Rightarrow> call_pc \<Rightarrow> cdp \<Rightarrow> cdp" where
  "set_pc t pc c = c\<lparr>cd_pc := (cd_pc c)(t := pc)\<rparr>"

definition draw_number :: "nat \<Rightarrow> cdp \<Rightarrow> uint64 \<times> cdp" where
  "draw_number t c = (let i = cd_nextID c + 1 in (i, c\<lparr>cd_nextID := i, cd_number := (cd_number c)(t \<mapsto> i)\<rparr>))"

definition call_begin :: "nat \<Rightarrow> string \<Rightarrow> string \<Rightarrow> string option \<Rightarrow> cdp \<Rightarrow> cdp" where
  \<comment> \<open>\<^verbatim>\<open>CallTimeout\<close> up to the unlock; \<open>None\<close>: the parameters cannot be marshalled\<close>
  "call_begin t session method params c = (case params of
      None \<Rightarrow> set_pc t (Returned (Inl MarshalFailed)) c
    | Some raw \<Rightarrow>
        let (i, c) = draw_number t c
        in set_pc t (Registered i (request i session method raw)) (c\<lparr>cd_pending := (cd_pending c)(i \<mapsto> t), cd_chan := (cd_chan c)(t := None)\<rparr>))"

definition call_write :: "bool \<Rightarrow> nat \<Rightarrow> uint64 \<Rightarrow> envelope \<Rightarrow> cdp \<Rightarrow> cdp" where
  \<comment> \<open>an envelope around marshalled parameters can always be marshalled\<close>
  "call_write ok t i e c =
    (if ok then set_pc t (Waiting i (en_Method e)) (c\<lparr>cd_sent := cd_sent c @ [e]\<rparr>)
     else set_pc t (Returned (Inl WriteFailed)) (c\<lparr>cd_pending := (cd_pending c)(i := None)\<rparr>))"

definition call_timeout :: "nat \<Rightarrow> uint64 \<Rightarrow> string \<Rightarrow> cdp \<Rightarrow> cdp" where
  "call_timeout t i method c = set_pc t (Returned (Inl (TimedOut method))) (c\<lparr>cd_pending := (cd_pending c)(i := None)\<rparr>)"

definition dispatch_begin :: "nat \<Rightarrow> string \<Rightarrow> string \<Rightarrow> string option \<Rightarrow> cdp \<Rightarrow> cdp" where
  "dispatch_begin t session method params c = (case params of
      None \<Rightarrow> set_pc t (Dispatched (Some MarshalFailed)) c
    | Some raw \<Rightarrow> let (i, c) = draw_number t c in set_pc t (Dispatching (request i session method raw)) c)"

definition dispatch_write :: "bool \<Rightarrow> nat \<Rightarrow> envelope \<Rightarrow> cdp \<Rightarrow> cdp" where
  "dispatch_write ok t e c =
    (if ok then set_pc t (Dispatched None) (c\<lparr>cd_sent := cd_sent c @ [e]\<rparr>) else set_pc t (Dispatched (Some WriteFailed)) c)"

section \<open>The read loop and the dispatch loop\<close>

definition read_message :: "envelope option \<Rightarrow> cdp \<Rightarrow> cdp" where
  \<comment> \<open>one message up to its channel operation; \<open>None\<close> is not JSON\<close>
  "read_message msg c = (case msg of
      None \<Rightarrow> c
    | Some e \<Rightarrow>
        let c = c\<lparr>cd_read := cd_read c @ [e]\<rparr>
        in if en_ID e \<noteq> 0 then
             (case cd_pending c (en_ID e) of
                None \<Rightarrow> c
              | Some t \<Rightarrow> c\<lparr>cd_pending := (cd_pending c)(en_ID e := None), cd_reader := Sending t (response_of e)\<rparr>)
           else if en_Method e \<noteq> [] then c\<lparr>cd_queue := cd_queue c @ [event_of e], cd_reader := Signalling\<rparr>
           else c)"

definition failAll :: "cdp \<Rightarrow> cdp" where
  \<comment> \<open>one critical section; each send needs an empty channel\<close>
  "failAll c = c\<lparr>cd_chan := (\<lambda>t. if t \<in> ran (cd_pending c) then Some (Inl ReadFailed) else cd_chan c t), cd_pending := Map.empty,
     cd_reader := Failed\<rparr>"

definition take_batch :: "cdp \<Rightarrow> cdp" where
  "take_batch c = (if cd_queue c = [] then c\<lparr>cd_dispatch := DWait\<rparr> else c\<lparr>cd_queue := [], cd_dispatch := DBatch (cd_handler c) (cd_queue c)\<rparr>)"

inductive cdp_step :: "cdp \<Rightarrow> cdp \<Rightarrow> bool" where
  call: "cd_pc c t = NotStarted \<Longrightarrow> cdp_step c (call_begin t session method params c)"
| sent: "cd_pc c t = Registered i e \<Longrightarrow> cdp_step c (call_write ok t i e c)"
| reply: "cd_pc c t = Waiting i m \<Longrightarrow> cd_chan c t = Some r \<Longrightarrow> cdp_step c (set_pc t (Returned r) (c\<lparr>cd_chan := (cd_chan c)(t := None)\<rparr>))"
| expire: "cd_pc c t = Waiting i m \<Longrightarrow> cdp_step c (call_timeout t i m c)"
| gone: "cd_pc c t = Waiting i m \<Longrightarrow> cd_closed c \<Longrightarrow> cdp_step c (set_pc t (Returned (Inl ErrClosedPipe)) c)"
| dispatch: "cd_pc c t = NotStarted \<Longrightarrow> cdp_step c (dispatch_begin t session method params c)"
| dispatched: "cd_pc c t = Dispatching e \<Longrightarrow> cdp_step c (dispatch_write ok t e c)"
| read: "cd_reader c = Reading \<Longrightarrow> cdp_step c (read_message msg c)"
| deliver: "cd_reader c = Sending t r \<Longrightarrow> cd_chan c t = None \<Longrightarrow> cdp_step c (c\<lparr>cd_chan := (cd_chan c)(t \<mapsto> r), cd_reader := Reading\<rparr>)"
| signal: "cd_reader c = Signalling \<Longrightarrow> cdp_step c (c\<lparr>cd_signal := True, cd_reader := Reading\<rparr>)"
| fail: "cd_reader c = Reading \<Longrightarrow> \<forall>t\<in>ran (cd_pending c). cd_chan c t = None \<Longrightarrow> cdp_step c (failAll c)"
| close: "cd_reader c = Failed \<Longrightarrow> cdp_step c (c\<lparr>cd_closed := True, cd_reader := ReaderDone\<rparr>)"
| handler: "cdp_step c (c\<lparr>cd_handler := h\<rparr>)"
| wake: "cd_dispatch c = DWait \<Longrightarrow> cd_signal c \<Longrightarrow> cdp_step c (c\<lparr>cd_signal := False, cd_dispatch := DTake\<rparr>)"
| stop: "cd_dispatch c = DWait \<Longrightarrow> cd_closed c \<Longrightarrow> cdp_step c (c\<lparr>cd_dispatch := DDone\<rparr>)"
| batch: "cd_dispatch c = DTake \<Longrightarrow> cdp_step c (take_batch c)"
| handle: "cd_dispatch c = DBatch h (ev # evs) \<Longrightarrow> cdp_step c (c\<lparr>cd_handled := cd_handled c @ [(ev, h)], cd_dispatch := DBatch h evs\<rparr>)"
| again: "cd_dispatch c = DBatch h [] \<Longrightarrow> cdp_step c (c\<lparr>cd_dispatch := DTake\<rparr>)"

inductive_cases cdp_stepE: "cdp_step c c'"

inductive cdp_run :: "nat \<Rightarrow> cdp \<Rightarrow> bool" where
  start: "cdp_run 0 Dial"
| step: "cdp_run n c \<Longrightarrow> cdp_step c c' \<Longrightarrow> cdp_run (Suc n) c'"

section \<open>Results of calls\<close>

definition CallInto :: "(string \<Rightarrow> 'a option) \<Rightarrow> 'a \<Rightarrow> response \<Rightarrow> cdp_error option \<times> 'a" where
  \<comment> \<open>of what \<^verbatim>\<open>Call\<close> returned; \<open>initial\<close> is the zero value of \<^verbatim>\<open>out\<close>, which a failing decoder is taken to leave\<close>
  "CallInto decode initial r = (case r of
      Inl e \<Rightarrow> (Some e, initial)
    | Inr raw \<Rightarrow> (case decode raw of None \<Rightarrow> (Some DecodeFailed, initial) | Some x \<Rightarrow> (None, x)))"

record navigation_history =
  nh_CurrentIndex :: int
  nh_Entries :: "int list"

definition CanGoBack :: "navigation_history \<Rightarrow> bool" where
  "CanGoBack h \<longleftrightarrow> nh_CurrentIndex h > 0"

definition CanGoForward :: "navigation_history \<Rightarrow> bool" where
  "CanGoForward h \<longleftrightarrow> nh_CurrentIndex h < int (length (nh_Entries h)) - 1"

section \<open>Starting a browser\<close>

definition stderrTailLines :: nat where "stderrTailLines = 12"
definition stderrTailLineBytes :: nat where "stderrTailLineBytes = 1024"

definition tail_add :: "string \<Rightarrow> string list \<Rightarrow> string list" where
  \<comment> \<open>\<^verbatim>\<open>boundedLineTail.add\<close>\<close>
  "tail_add line lines =
    (let line = trim_bytes line
     in if line = [] then lines
        else
          let line = (if length line > stderrTailLineBytes then drop (length line - stderrTailLineBytes) line else line);
              lines = lines @ [line]
          in if length lines > stderrTailLines then drop (length lines - stderrTailLines) lines else lines)"

definition tail_string :: "string list \<Rightarrow> string" where
  "tail_string lines = join_with '' | '' lines"

record active_port =
  ap_data :: string
  ap_modTime :: gotime
  ap_exists :: bool

definition changedFrom :: "active_port \<Rightarrow> active_port \<Rightarrow> bool" where
  "changedFrom s previous =
    (if \<not> ap_exists previous then ap_exists s
     else ap_exists s \<and> (ap_data s \<noteq> ap_data previous \<or> ap_modTime s > ap_modTime previous))"

datatype start_event =
    Banner string                          \<comment> \<open>an address found on the standard error\<close>
  | LauncherDone "string option"           \<comment> \<open>the process started has exited, with this error\<close>
  | PortTick active_port "string option"   \<comment> \<open>the file as it is now, and the address its port answers with\<close>

datatype launch_error =
    StartFailed | NoEndpoint "string option option" string  \<comment> \<open>how the launcher exited, if it did; what it wrote\<close>
  | DialFailed | OwnerUnknown | ExtensionFailed

fun waitForURLWithin :: "active_port \<Rightarrow> string option option \<Rightarrow> start_event list \<Rightarrow> (string option option) + string" where
  \<comment> \<open>the events until the deadline\<close>
  "waitForURLWithin previous exited [] = Inl exited"
| "waitForURLWithin previous exited (Banner u # es) = (if u \<noteq> [] then Inr u else waitForURLWithin previous exited es)"
| "waitForURLWithin previous exited (LauncherDone e # es) = waitForURLWithin previous (case exited of None \<Rightarrow> Some e | Some _ \<Rightarrow> exited) es"
| "waitForURLWithin previous exited (PortTick st answer # es) =
    (if \<not> changedFrom st previous then waitForURLWithin previous exited es
     else if length (split_on nl (trim_bytes (ap_data st))) < 2 then waitForURLWithin previous exited es
     else case answer of Some u \<Rightarrow> Inr u | None \<Rightarrow> waitForURLWithin previous exited es)"

fun load_missing :: "(string \<Rightarrow> bool) \<Rightarrow> (string \<Rightarrow> string) \<Rightarrow> string list \<Rightarrow> string set \<Rightarrow> string list \<times> bool" where
  \<comment> \<open>the paths \<^verbatim>\<open>Extensions.loadUnpacked\<close> is called with, and whether all succeed; \<open>clean\<close> is \<^verbatim>\<open>filepath.Clean\<close>\<close>
  "load_missing loads clean [] loaded = ([], True)"
| "load_missing loads clean (path # paths) loaded =
    (if clean path \<in> loaded then load_missing loads clean paths loaded
     else if \<not> loads (clean path) then ([clean path], False)
     else let (calls, ok) = load_missing loads clean paths (insert (clean path) loaded) in (clean path # calls, ok))"

definition ensureUnpackedExtensions :: "string list option \<Rightarrow> (string \<Rightarrow> bool) \<Rightarrow> (string \<Rightarrow> string) \<Rightarrow> string list \<Rightarrow> string list \<times> bool" where
  \<comment> \<open>the paths Chromium reports, if it answers\<close>
  "ensureUnpackedExtensions reported loads clean paths =
    (if paths = [] then ([], True)
     else case reported of
       None \<Rightarrow> ([], False)
     | Some ps \<Rightarrow> load_missing loads clean paths (clean ` set (filter (\<lambda>p. p \<noteq> []) ps)))"

datatype process_call = StartProcess | KillProcess | ReleaseOwned | TrackBrowser int | CloseClient | LoadExtension string

record launch_env =
  le_start :: bool                         \<comment> \<open>the process can be started\<close>
  le_previous :: active_port
  le_events :: "start_event list"
  le_stderr :: "string list"
  le_dial :: bool
  le_processes :: "(string \<times> int) list option"  \<comment> \<open>\<^verbatim>\<open>SystemInfo.getProcessInfo\<close>\<close>
  le_track :: "int \<Rightarrow> bool"
  le_extensions :: "string list option"
  le_loads :: "string \<Rightarrow> bool"
  le_clean :: "string \<Rightarrow> string"

definition trackBrowserOwner :: "launch_env \<Rightarrow> process_call list \<times> bool" where
  "trackBrowserOwner env = (case le_processes env of
      None \<Rightarrow> ([], False)
    | Some ps \<Rightarrow> (case filter (\<lambda>(ty, i). ty = ''browser'') ps of
          [] \<Rightarrow> ([], False)
        | (_, i) # _ \<Rightarrow> ([TrackBrowser i], le_track env i)))"

definition Launch :: "launch_env \<Rightarrow> string list \<Rightarrow> process_call list \<times> (launch_error + string)" where
  \<comment> \<open>the calls on the process and the client; a client is known by its address\<close>
  "Launch env paths =
    (if \<not> le_start env then ([], Inl StartFailed)
     else case waitForURLWithin (le_previous env) None (le_events env) of
       Inl exited \<Rightarrow> ([StartProcess, KillProcess, ReleaseOwned], Inl (NoEndpoint exited (tail_string (fold tail_add (le_stderr env) []))))
     | Inr url \<Rightarrow>
         if \<not> le_dial env then ([StartProcess, KillProcess, ReleaseOwned], Inl DialFailed)
         else
           let (track, owned) = trackBrowserOwner env
           in if \<not> owned then (StartProcess # track @ [CloseClient, KillProcess, ReleaseOwned], Inl OwnerUnknown)
              else
                let (exts, ok) = ensureUnpackedExtensions (le_extensions env) (le_loads env) (le_clean env) paths;
                    calls = StartProcess # track @ map LoadExtension exts
                in if ok then (calls, Inr url) else (calls @ [CloseClient, KillProcess, ReleaseOwned], Inl ExtensionFailed))"

section \<open>Closing a browser\<close>

record close_env =
  xe_kill :: bool          \<comment> \<open>the process can be killed\<close>
  xe_closed :: bool        \<comment> \<open>the connection ends in time\<close>
  xe_done :: bool          \<comment> \<open>the process ends in time\<close>
  xe_owned :: bool         \<comment> \<open>what it owns ends in time\<close>

datatype close_call = KillChild | BrowserClose | ReleaseChild

datatype close_error = KillFailed | StillOpen | StillRunning | StillOwned

definition CloseBrowser :: "bool \<Rightarrow> bool \<Rightarrow> close_env \<Rightarrow> close_call list \<times> close_error option" where
  \<comment> \<open>\<open>present\<close>: there are a client and a process\<close>
  "CloseBrowser present force env =
    (if \<not> present then ([], None)
     else if force \<and> \<not> xe_kill env then ([KillChild], Some KillFailed)
     else
       let calls = (if force then [KillChild] else [BrowserClose])
       in if \<not> xe_closed env then (calls, Some StillOpen)
          else if \<not> xe_done env then (calls, Some StillRunning)
          else if \<not> xe_owned env then (calls, Some StillOwned)
          else (calls @ [ReleaseChild], None))"

end
