(* ===== verification/Cdp_Facts.thy ===== *)
theory Cdp_Facts
  imports Cdp_Client
begin

text \<open>
  Facts about the DevTools client under every interleaving: a call returns the reply to its own number, the read loop
  never blocks on a caller, and events reach the handler once and in order, without a lost wake-up.
\<close>

section \<open>Calls\<close>

definition answered :: "cdp \<Rightarrow> nat \<Rightarrow> response \<Rightarrow> bool" where
  "answered c t r \<longleftrightarrow> (\<exists>e\<in>set (cd_read c). cd_number c t = Some (en_ID e) \<and> r = response_of e)"

definition numbered :: "nat \<Rightarrow> cdp \<Rightarrow> bool" where
  "numbered n c \<longleftrightarrow> unat (cd_nextID c) \<le> n \<and>
     (\<forall>t i. cd_number c t = Some i \<longrightarrow> 0 < unat i \<and> unat i \<le> unat (cd_nextID c)) \<and>
     (\<forall>t u i. cd_number c t = Some i \<longrightarrow> cd_number c u = Some i \<longrightarrow> t = u) \<and>
     (\<forall>t. cd_pc c t = NotStarted \<longrightarrow> cd_number c t = None \<and> cd_chan c t = None)"

definition channels_ok :: "cdp \<Rightarrow> bool" where
  "channels_ok c \<longleftrightarrow>
     (\<forall>i t. cd_pending c i = Some t \<longrightarrow> cd_number c t = Some i \<and> cd_chan c t = None) \<and>
     (\<forall>t r. cd_reader c = Sending t r \<longrightarrow> cd_number c t \<noteq> None \<and> cd_chan c t = None \<and> t \<notin> ran (cd_pending c) \<and> answered c t r) \<and>
     (\<forall>t r. cd_chan c t = Some r \<longrightarrow> r = Inl ReadFailed \<or> answered c t r) \<and>
     (\<forall>t x. cd_pc c t = Returned (Inr x) \<longrightarrow> answered c t (Inr x))"

definition in_flight :: "cdp \<Rightarrow> nat \<Rightarrow> uint64 \<Rightarrow> bool" where
  "in_flight c t i \<longleftrightarrow> cd_number c t = Some i \<and> (cd_pending c i = Some t \<or> cd_chan c t \<noteq> None \<or> (\<exists>r. cd_reader c = Sending t r))"

definition no_lost_call :: "cdp \<Rightarrow> bool" where
  "no_lost_call c \<longleftrightarrow> (\<forall>t i e. cd_pc c t = Registered i e \<longrightarrow> in_flight c t i) \<and> (\<forall>t i m. cd_pc c t = Waiting i m \<longrightarrow> in_flight c t i)"

lemmas cdp_ops = set_pc_def draw_number_def call_begin_def call_write_def call_timeout_def dispatch_begin_def dispatch_write_def read_message_def
  failAll_def take_batch_def Let_def

lemma next_number: "unat (x :: uint64) \<le> n \<Longrightarrow> n < 2 ^ 63 \<Longrightarrow> unat (x + 1) = Suc (unat x)"
  by (simp add: unat_word_ariths)

lemma numberedI:
  assumes "numbered n c" "cd_nextID c' = cd_nextID c" "cd_number c' = cd_number c"
    and "\<And>t. cd_pc c' t = NotStarted \<Longrightarrow> cd_pc c t = NotStarted \<and> cd_chan c' t = cd_chan c t"
  shows "numbered (Suc n) c'"
  using assms unfolding numbered_def by auto

lemma numbered_draw:
  assumes "numbered n c" "cd_pc c t = NotStarted" "n < 2 ^ 63"
    and c': "cd_nextID c' = cd_nextID c + 1" "cd_number c' = (cd_number c)(t \<mapsto> cd_nextID c + 1)" "cd_pc c' t \<noteq> NotStarted"
      "\<And>u. u \<noteq> t \<Longrightarrow> cd_pc c' u = cd_pc c u \<and> cd_chan c' u = cd_chan c u"
  shows "numbered (Suc n) c'"
proof -
  have u: "unat (cd_nextID c + 1) = Suc (unat (cd_nextID c))"
    by (rule next_number [of _ n]) (use assms(1,3) in \<open>auto simp: numbered_def\<close>)
  then have fresh: "cd_number c x \<noteq> Some (cd_nextID c + 1)" for x
    using assms(1) unfolding numbered_def by force
  have le: "unat i \<le> Suc (unat (cd_nextID c))" "0 < unat i" if "cd_number c x = Some i" for x i
    using assms(1) that unfolding numbered_def by force+
  have "cd_pc c' x = NotStarted \<Longrightarrow> x \<noteq> t \<and> cd_pc c x = NotStarted \<and> cd_chan c' x = cd_chan c x" for x
    using c'(3,4) by (cases "x = t") auto
  then show ?thesis
    using assms(1) fresh le u unfolding numbered_def c'(1,2) by auto
qed

lemma step_numbered:
  assumes "numbered n c" "channels_ok c" "cdp_step c c'" "n < 2 ^ 63"
  shows "numbered (Suc n) c'"
  using assms(3)
proof (cases rule: cdp_step.cases)
  case (call t session mth params)
  then show ?thesis
  proof (cases params)
    case None
    then show ?thesis using call by (intro numberedI [OF assms(1)]) (auto simp: cdp_ops split: if_splits)
  next
    case (Some raw)
    then show ?thesis using call by (intro numbered_draw [OF assms(1) call(2) assms(4)]) (auto simp: cdp_ops)
  qed
next
  case (dispatch t session mth params)
  then show ?thesis
  proof (cases params)
    case None
    then show ?thesis using dispatch by (intro numberedI [OF assms(1)]) (auto simp: cdp_ops split: if_splits)
  next
    case (Some raw)
    then show ?thesis using dispatch by (intro numbered_draw [OF assms(1) dispatch(2) assms(4)]) (auto simp: cdp_ops)
  qed
next
  case (deliver t r)
  then have "cd_pc c t \<noteq> NotStarted"
    using assms(1,2) by (auto simp: numbered_def channels_ok_def)
  then show ?thesis using deliver by (intro numberedI [OF assms(1)]) (auto split: if_splits)
next
  case fail
  then have "t \<in> ran (cd_pending c) \<Longrightarrow> cd_pc c t \<noteq> NotStarted" for t
    using assms(1,2) by (auto simp: numbered_def channels_ok_def ran_def)
  then show ?thesis using fail by (intro numberedI [OF assms(1)]) (auto simp: cdp_ops)
next
  case (read msg)
  then show ?thesis by (intro numberedI [OF assms(1)]) (auto simp: cdp_ops split: option.splits)
qed (rule numberedI [OF assms(1)]; auto simp: cdp_ops split: if_splits)+

lemma channelsD:
  assumes "channels_ok c"
  shows "cd_pending c i = Some t \<Longrightarrow> cd_number c t = Some i \<and> cd_chan c t = None"
    "cd_reader c = Sending t r \<Longrightarrow> cd_number c t \<noteq> None \<and> cd_chan c t = None \<and> t \<notin> ran (cd_pending c) \<and> answered c t r"
    "cd_chan c t = Some r \<Longrightarrow> r = Inl ReadFailed \<or> answered c t r"
    "cd_pc c t = Returned (Inr x) \<Longrightarrow> answered c t (Inr x)"
  using assms unfolding channels_ok_def by blast+

lemma channels_intro:
  assumes "\<And>i t. cd_pending c i = Some t \<Longrightarrow> cd_number c t = Some i \<and> cd_chan c t = None"
    "\<And>t r. cd_reader c = Sending t r \<Longrightarrow> cd_number c t \<noteq> None \<and> cd_chan c t = None \<and> t \<notin> ran (cd_pending c) \<and> answered c t r"
    "\<And>t r. cd_chan c t = Some r \<Longrightarrow> r = Inl ReadFailed \<or> answered c t r"
    "\<And>t x. cd_pc c t = Returned (Inr x) \<Longrightarrow> answered c t (Inr x)"
  shows "channels_ok c"
  using assms unfolding channels_ok_def by simp

lemma answered_mono: "answered c t r \<Longrightarrow> set (cd_read c) \<subseteq> set (cd_read c') \<Longrightarrow> cd_number c' t = cd_number c t \<Longrightarrow> answered c' t r"
  by (auto simp: answered_def)

lemma channelsI:
  \<comment> \<open>steps that neither draw numbers nor touch channels_ok\<close>
  assumes c: "channels_ok c" and same: "cd_number c' = cd_number c" "cd_read c' = cd_read c" "cd_chan c' = cd_chan c"
    and pend: "\<And>i t. cd_pending c' i = Some t \<Longrightarrow> cd_pending c i = Some t"
    and rd: "\<And>t r. cd_reader c' = Sending t r \<Longrightarrow> cd_reader c = Sending t r"
    and pc: "\<And>t x. cd_pc c' t = Returned (Inr x) \<Longrightarrow> cd_pc c t = Returned (Inr x)"
  shows "channels_ok c'"
proof (rule channels_intro)
  have ans: "answered c' t r \<longleftrightarrow> answered c t r" for t r
    by (simp add: answered_def same)
  show "cd_number c' t = Some i \<and> cd_chan c' t = None" if "cd_pending c' i = Some t" for i t
    using channelsD(1) [OF c pend [OF that]] same by simp
  show "cd_number c' t \<noteq> None \<and> cd_chan c' t = None \<and> t \<notin> ran (cd_pending c') \<and> answered c' t r" if "cd_reader c' = Sending t r" for t r
    using channelsD(2) [OF c rd [OF that]] pend [of _ t] same ans by (auto simp: ran_def)
  show "r = Inl ReadFailed \<or> answered c' t r" if "cd_chan c' t = Some r" for t r
    using channelsD(3) [OF c] that same ans by simp
  show "answered c' t (Inr x)" if "cd_pc c' t = Returned (Inr x)" for t x
    using channelsD(4) [OF c pc [OF that]] ans by simp
qed

lemma channels_draw:
  assumes "numbered n c" and c: "channels_ok c" and "cd_pc c t = NotStarted"
    and c': "cd_number c' = (cd_number c)(t \<mapsto> cd_nextID c + 1)" "cd_read c' = cd_read c" "cd_chan c' = cd_chan c" "cd_reader c' = cd_reader c"
      "cd_pending c' = cd_pending c \<or> cd_pending c' = (cd_pending c)(cd_nextID c + 1 \<mapsto> t)"
    and pc: "\<And>u x. cd_pc c' u = Returned (Inr x) \<Longrightarrow> cd_pc c u = Returned (Inr x)"
  shows "channels_ok c'"
proof (rule channels_intro)
  have t: "cd_number c t = None" "cd_chan c t = None"
    using assms(1,3) by (auto simp: numbered_def)
  have ans: "answered c' u r" if "answered c u r" for u r
    by (rule answered_mono [OF that]) (use that t c' in \<open>auto simp: answered_def\<close>)
  have pend: "cd_pending c' i = Some u \<Longrightarrow> cd_pending c i = Some u \<or> u = t \<and> i = cd_nextID c + 1" for i u
    using c'(5) by (auto split: if_splits)
  show "cd_number c' u = Some i \<and> cd_chan c' u = None" if "cd_pending c' i = Some u" for i u
    using pend [OF that] channelsD(1) [OF c, of i u] t c' by auto
  show "cd_number c' u \<noteq> None \<and> cd_chan c' u = None \<and> u \<notin> ran (cd_pending c') \<and> answered c' u r" if "cd_reader c' = Sending u r" for u r
    using channelsD(2) [OF c, of u r] that t c'(1,3,4) pend ans [of u r] by (auto simp: ran_def)
  show "r = Inl ReadFailed \<or> answered c' u r" if "cd_chan c' u = Some r" for u r
    using channelsD(3) [OF c, of u r] that c'(3) ans by auto
  show "answered c' u (Inr x)" if "cd_pc c' u = Returned (Inr x)" for u x
    using channelsD(4) [OF c pc [OF that]] by (rule ans)
qed

lemma channels_send:
  \<comment> \<open>a response for the owner of a number that is no longer pending\<close>
  assumes c: "channels_ok c" and e: "cd_pending c (en_ID e) = Some t"
  shows "channels_ok (c\<lparr>cd_read := cd_read c @ [e], cd_pending := (cd_pending c)(en_ID e := None), cd_reader := Sending t (response_of e)\<rparr>)"
    (is "channels_ok ?c")
proof (rule channels_intro)
  have ans: "answered ?c u r" if "answered c u r" for u r
    by (rule answered_mono [OF that]) auto
  have only: "cd_pending c i = Some t \<Longrightarrow> i = en_ID e" for i
    using channelsD(1) [OF c, of i t] channelsD(1) [OF c e] by simp
  show "cd_number ?c u = Some i \<and> cd_chan ?c u = None" if "cd_pending ?c i = Some u" for i u
    using channelsD(1) [OF c, of i u] that by (simp split: if_splits)
  show "cd_number ?c u \<noteq> None \<and> cd_chan ?c u = None \<and> u \<notin> ran (cd_pending ?c) \<and> answered ?c u r" if "cd_reader ?c = Sending u r" for u r
    using that channelsD(1) [OF c e] only by (auto simp: ran_def answered_def)
  show "r = Inl ReadFailed \<or> answered ?c u r" if "cd_chan ?c u = Some r" for u r
    using channelsD(3) [OF c, of u r] that ans by auto
  show "answered ?c u (Inr x)" if "cd_pc ?c u = Returned (Inr x)" for u x
    using channelsD(4) [OF c, of u x] that ans by simp
qed

lemma channels_read: "channels_ok c \<Longrightarrow> cd_reader c = Reading \<Longrightarrow> channels_ok (read_message msg c)"
proof (cases msg)
  case (Some e)
  assume c: "channels_ok c" and reading: "cd_reader c = Reading"
  have other: "channels_ok (c\<lparr>cd_read := cd_read c @ [e], cd_queue := q, cd_reader := p\<rparr>)" if "\<And>t r. p \<noteq> Sending t r" for p q
  proof -
    let ?c = "c\<lparr>cd_read := cd_read c @ [e], cd_queue := q, cd_reader := p\<rparr>"
    have "answered ?c t r" if "answered c t r" for t r
      by (rule answered_mono [OF that]) auto
    then show ?thesis
      using channelsD(1,3,4) [OF c] \<open>\<And>t r. p \<noteq> Sending t r\<close> by (intro channels_intro) (auto; blast)+
  qed
  have plain: "channels_ok (c\<lparr>cd_read := cd_read c @ [e]\<rparr>)"
  proof -
    have "cd_reader c \<noteq> Sending t r" for t r
      using reading by simp
    from other [OF this, of "cd_queue c"] show ?thesis by simp
  qed
  from other [of Signalling "cd_queue c @ [event_of e]"] show ?thesis
    using Some channels_send [OF c, of e] plain by (auto simp: read_message_def Let_def split: option.split)
qed (simp add: read_message_def)

lemma step_channels:
  assumes "numbered n c" "channels_ok c" "cdp_step c c'" "n < 2 ^ 63"
  shows "channels_ok c'"
  using assms(3)
proof (cases rule: cdp_step.cases)
  case (call t session mth params)
  have n: "cd_chan c t = None"
    using assms(1) call(2) by (auto simp: numbered_def)
  show ?thesis
  proof (cases params)
    case None
    then show ?thesis using call by (intro channelsI [OF assms(2)]) (auto simp: cdp_ops split: if_splits)
  next
    case (Some raw)
    then show ?thesis using call n by (intro channels_draw [OF assms(1,2) call(2)]) (auto simp: cdp_ops split: if_splits)
  qed
next
  case (dispatch t session mth params)
  then show ?thesis
  proof (cases params)
    case None
    then show ?thesis using dispatch by (intro channelsI [OF assms(2)]) (auto simp: cdp_ops split: if_splits)
  next
    case (Some raw)
    then show ?thesis using dispatch by (intro channels_draw [OF assms(1,2) dispatch(2)]) (auto simp: cdp_ops split: if_splits)
  qed
next
  case (reply t i m r)
  show ?thesis
    unfolding reply(1) set_pc_def
    by (rule channels_intro; insert channelsD [OF assms(2)] reply(2,3); simp add: answered_def split: if_splits; fastforce)
next
  case (deliver t r)
  show ?thesis
    unfolding deliver(1)
    by (rule channels_intro; insert channelsD [OF assms(2)] deliver(2,3); simp add: answered_def split: if_splits; fastforce simp: ran_def)
next
  case fail
  show ?thesis
    unfolding fail(1) failAll_def
    by (rule channels_intro; insert channelsD [OF assms(2)]; simp add: answered_def split: if_splits; fastforce)
next
  case (read msg)
  then show ?thesis
    using channels_read [OF assms(2)] by simp
qed (rule channelsI [OF assms(2)]; auto simp: cdp_ops split: if_splits)+

lemma in_flight_mono:
  assumes "in_flight c t i" "cd_number c' t = cd_number c t" "cd_pending c' i = cd_pending c i" "cd_chan c' t = cd_chan c t"
    "\<And>r. cd_reader c = Sending t r \<Longrightarrow> cd_reader c' = Sending t r"
  shows "in_flight c' t i"
  using assms unfolding in_flight_def by auto

lemma no_lostD:
  assumes "no_lost_call c"
  shows "cd_pc c t = Registered i e \<Longrightarrow> in_flight c t i" "cd_pc c t = Waiting i m \<Longrightarrow> in_flight c t i"
  using assms by (auto simp: no_lost_call_def)

lemma no_lostI:
  assumes c: "no_lost_call c" and c': "cd_number c' = cd_number c" "cd_pending c' = cd_pending c" "cd_chan c' = cd_chan c"
    "\<And>t r. cd_reader c = Sending t r \<Longrightarrow> cd_reader c' = Sending t r"
    and pc: "\<And>t i e. cd_pc c' t = Registered i e \<Longrightarrow> cd_pc c t = Registered i e"
    "\<And>t i m. cd_pc c' t = Waiting i m \<Longrightarrow> (\<exists>e. cd_pc c t = Registered i e) \<or> cd_pc c t = Waiting i m"
  shows "no_lost_call c'"
proof -
  have "in_flight c' t i" if "in_flight c t i" for t i
    by (rule in_flight_mono [OF that]) (simp_all add: c')
  then show ?thesis
    using no_lostD [OF c] pc unfolding no_lost_call_def by blast
qed

lemma no_lost_drop:
  \<comment> \<open>the call that stops waiting takes its own number out\<close>
  assumes c: "no_lost_call c" and t: "in_flight c t i" and pc: "cd_pc c' = (cd_pc c)(t := Returned r)"
    and c': "cd_number c' = cd_number c" "cd_pending c' = (cd_pending c)(i := None) \<or> cd_pending c' = cd_pending c" "cd_reader c' = cd_reader c"
      "\<And>u. u \<noteq> t \<Longrightarrow> cd_chan c' u = cd_chan c u"
    and inj: "numbered n c"
  shows "no_lost_call c'"
proof -
  have "in_flight c' u j" if "in_flight c u j" "u \<noteq> t" for u j
  proof -
    have "cd_number c t = Some i" "cd_number c u = Some j"
      using t that(1) by (auto simp: in_flight_def)
    then have "j \<noteq> i"
      using inj that(2) unfolding numbered_def by blast
    then show ?thesis
      using c' that by (intro in_flight_mono [OF that(1)]) auto
  qed
  then show ?thesis
    using no_lostD [OF c] unfolding no_lost_call_def pc by (auto split: if_splits)
qed

lemma step_no_lost:
  assumes "numbered n c" "channels_ok c" "no_lost_call c" "cdp_step c c'" "n < 2 ^ 63"
  shows "no_lost_call c'"
  using assms(4)
proof (cases rule: cdp_step.cases)
  case (call t session mth params)
  have t: "cd_number c t = None" "cd_chan c t = None"
    using assms(1) call(2) by (auto simp: numbered_def)
  show ?thesis
  proof (cases params)
    case None
    then show ?thesis using call by (intro no_lostI [OF assms(3)]) (auto simp: cdp_ops split: if_splits)
  next
    case (Some raw)
    have "unat (cd_nextID c + 1) = Suc (unat (cd_nextID c))"
      by (rule next_number [of _ n]) (use assms(1,5) in \<open>auto simp: numbered_def\<close>)
    then have fresh: "cd_number c u \<noteq> Some (cd_nextID c + 1)" for u
      using assms(1) unfolding numbered_def by force
    have other: "in_flight c' u i" if "in_flight c u i" for u i
      using that t fresh [of u] Some by (auto simp: call(1) cdp_ops in_flight_def)
    have "in_flight c' t (cd_nextID c + 1)"
      using Some by (simp add: call(1) cdp_ops in_flight_def)
    then show ?thesis
      using no_lostD [OF assms(3)] other Some unfolding no_lost_call_def by (auto simp: call(1) cdp_ops split: if_splits)
  qed
next
  case (dispatch t session mth params)
  have t: "cd_number c t = None"
    using assms(1) dispatch(2) by (auto simp: numbered_def)
  have "in_flight c' u i" if "in_flight c u i" for u i
    using that t by (cases params) (auto simp: dispatch(1) cdp_ops in_flight_def)
  then show ?thesis
    using no_lostD [OF assms(3)] unfolding no_lost_call_def by (cases params) (auto simp: dispatch(1) cdp_ops split: if_splits)
next
  case (sent t i e ok)
  show ?thesis
  proof (cases ok)
    case True
    then show ?thesis using sent by (intro no_lostI [OF assms(3)]) (auto simp: cdp_ops split: if_splits)
  next
    case False
    then show ?thesis
      using sent by (intro no_lost_drop [OF assms(3) no_lostD(1) [OF assms(3) sent(2)] _ _ _ _ _ assms(1)]) (auto simp: cdp_ops)
  qed
next
  case (reply t i m r)
  then show ?thesis
    by (intro no_lost_drop [OF assms(3) no_lostD(2) [OF assms(3) reply(2)] _ _ _ _ _ assms(1)]) (auto simp: cdp_ops)
next
  case (expire t i m)
  then show ?thesis
    by (intro no_lost_drop [OF assms(3) no_lostD(2) [OF assms(3) expire(2)] _ _ _ _ _ assms(1)]) (auto simp: cdp_ops)
next
  case (gone t i m)
  then show ?thesis
    by (intro no_lost_drop [OF assms(3) no_lostD(2) [OF assms(3) gone(2)] _ _ _ _ _ assms(1)]) (auto simp: cdp_ops)
next
  case (read msg)
  have keep: "in_flight c' t i" if "in_flight c t i" for t i
    using that channelsD(1) [OF assms(2)] read(2)
    by (cases msg) (auto simp: read(1) cdp_ops in_flight_def split: option.splits if_splits)
  have "cd_pc c' = cd_pc c"
    by (auto simp: read(1) cdp_ops split: option.split)
  with keep show ?thesis
    using no_lostD [OF assms(3)] unfolding no_lost_call_def by simp
next
  case (deliver t r)
  have "in_flight c' u i" if "in_flight c u i" for u i
    using that deliver(2) by (auto simp: deliver(1) in_flight_def)
  then show ?thesis
    using no_lostD [OF assms(3)] unfolding no_lost_call_def by (simp add: deliver(1))
next
  case fail
  have "in_flight c' u i" if "in_flight c u i" for u i
    using that fail(2) by (auto simp: fail(1) failAll_def in_flight_def ran_def)
  then show ?thesis
    using no_lostD [OF assms(3)] unfolding no_lost_call_def by (simp add: fail(1) failAll_def)
qed (rule no_lostI [OF assms(3)]; auto simp: cdp_ops split: if_splits)+

section \<open>Events\<close>

definition is_event :: "envelope \<Rightarrow> bool" where
  "is_event e \<longleftrightarrow> en_ID e = 0 \<and> en_Method e \<noteq> []"

definition batch_of :: "dispatch_pc \<Rightarrow> dev_event list" where
  "batch_of d = (case d of DBatch h es \<Rightarrow> es | _ \<Rightarrow> [])"

definition events_kept :: "cdp \<Rightarrow> bool" where
  "events_kept c \<longleftrightarrow> map event_of (filter is_event (cd_read c)) = map fst (cd_handled c) @ batch_of (cd_dispatch c) @ cd_queue c"

definition awake :: "cdp \<Rightarrow> bool" where
  "awake c \<longleftrightarrow> (cd_queue c \<noteq> [] \<longrightarrow> cd_signal c \<or> cd_reader c = Signalling \<or> cd_dispatch c \<noteq> DWait) \<and> (cd_dispatch c = DDone \<longrightarrow> cd_closed c)"

lemma step_events: "events_kept c \<Longrightarrow> cdp_step c c' \<Longrightarrow> events_kept c'"
  by (erule cdp_stepE) (auto simp: events_kept_def cdp_ops batch_of_def is_event_def split: option.splits)

lemma step_awake: "awake c \<Longrightarrow> cdp_step c c' \<Longrightarrow> awake c'"
  by (erule cdp_stepE) (auto simp: awake_def cdp_ops split: option.splits)

section \<open>Reachable states\<close>

lemma run_invariants:
  "cdp_run n c \<Longrightarrow> n < 2 ^ 63 \<Longrightarrow> numbered n c \<and> channels_ok c \<and> no_lost_call c"
proof (induction rule: cdp_run.induct)
  case start
  then show ?case
    by (auto simp: Dial_def numbered_def channels_ok_def no_lost_call_def)
next
  case (step n c c')
  then show ?case
    using step_numbered step_channels step_no_lost by (metis Suc_lessD)
qed

lemma run_events: "cdp_run n c \<Longrightarrow> events_kept c \<and> awake c"
proof (induction rule: cdp_run.induct)
  case start
  then show ?case by (simp add: Dial_def events_kept_def awake_def batch_of_def)
next
  case (step n c c')
  then show ?case using step_events step_awake by blast
qed

section \<open>Launching\<close>

lemma wait_endpoint:
  "waitForURLWithin previous exited es = Inr u \<Longrightarrow>
   Banner u \<in> set es \<or> (\<exists>st. PortTick st (Some u) \<in> set es \<and> changedFrom st previous)"
  by (induction previous exited es rule: waitForURLWithin.induct) (auto split: if_splits option.splits)

lemma load_missing_all:
  "load_missing loads clean paths loaded = (calls, True) \<Longrightarrow> p \<in> set paths \<Longrightarrow> clean p \<in> loaded \<or> clean p \<in> set calls"
  by (induction loads clean paths loaded arbitrary: calls rule: load_missing.induct) (auto split: if_splits prod.splits)

lemma extensions_all:
  assumes "ensureUnpackedExtensions reported loads clean paths = (calls, True)" "p \<in> set paths"
  shows "(\<exists>q ps. reported = Some ps \<and> q \<in> set ps \<and> clean q = clean p) \<or> clean p \<in> set calls"
  using assms load_missing_all [of loads clean paths _ calls p]
  by (fastforce simp: ensureUnpackedExtensions_def split: if_splits option.splits)

lemma track_calls: "trackBrowserOwner env = (calls, ok) \<Longrightarrow> (\<exists>i. calls = [TrackBrowser i]) \<or> calls = [] \<and> \<not> ok"
  by (auto simp: trackBrowserOwner_def split: option.splits list.splits)

section \<open>Properties\<close>

text \<open>
  C9 (safety). A call on the DevTools connection returns the reply to its own request and nothing else: in every state that fewer than
  \<open>2\<^sup>6\<^sup>3\<close> steps of the callers, the read loop and the dispatch loop reach, no two commands have the same number, and a call that
  returned a result returned that of a message read with its number. The read loop never blocks on a caller, whether it delivers a reply
  or fails all calls: the channel it is about to fill is empty. And no reply is lost: the number of a waiting call is
  registered, or its response is in its channel or on the way there.
\<close>
theorem cdp_reply_matches_call:
  assumes "cdp_run n c" "n < 2 ^ 63"
  shows "(\<forall>t u i. cd_number c t = Some i \<longrightarrow> cd_number c u = Some i \<longrightarrow> t = u) \<and>
    (\<forall>t x. cd_pc c t = Returned (Inr x) \<longrightarrow> (\<exists>e\<in>set (cd_read c). cd_number c t = Some (en_ID e) \<and> response_of e = Inr x)) \<and>
    (\<forall>t r. cd_reader c = Sending t r \<longrightarrow> cd_chan c t = None) \<and>
    (\<forall>t\<in>ran (cd_pending c). cd_chan c t = None) \<and>
    (\<forall>t i m. cd_pc c t = Waiting i m \<longrightarrow> cd_pending c i = Some t \<or> cd_chan c t \<noteq> None \<or> (\<exists>r. cd_reader c = Sending t r))"
proof -
  have inv: "numbered n c" "channels_ok c" "no_lost_call c"
    using run_invariants [OF assms] by auto
  have "\<forall>t x. cd_pc c t = Returned (Inr x) \<longrightarrow> (\<exists>e\<in>set (cd_read c). cd_number c t = Some (en_ID e) \<and> response_of e = Inr x)"
    using channelsD(4) [OF inv(2)] unfolding answered_def by metis
  moreover have "\<forall>t r. cd_reader c = Sending t r \<longrightarrow> cd_chan c t = None" "\<forall>t\<in>ran (cd_pending c). cd_chan c t = None"
    using channelsD(1,2) [OF inv(2)] by (auto simp: ran_def)
  moreover have "\<forall>t i m. cd_pc c t = Waiting i m \<longrightarrow> cd_pending c i = Some t \<or> cd_chan c t \<noteq> None \<or> (\<exists>r. cd_reader c = Sending t r)"
    using no_lostD(2) [OF inv(3)] unfolding in_flight_def by blast
  moreover have "\<forall>t u i. cd_number c t = Some i \<longrightarrow> cd_number c u = Some i \<longrightarrow> t = u"
    using inv(1) unfolding numbered_def by blast
  ultimately show ?thesis by blast
qed

definition pong :: envelope where
  "pong = \<lparr>en_ID = 1, en_Method = [], en_Params = [], en_SessionID = [], en_Result = ''ok'', en_Error = None\<rparr>"

definition loaded_event :: envelope where
  "loaded_event = \<lparr>en_ID = 0, en_Method = ''load'', en_Params = [], en_SessionID = [], en_Result = [], en_Error = None\<rparr>"

definition answered_call :: cdp where
  \<comment> \<open>one call that was answered, and an event waiting\<close>
  "answered_call = read_message (Some loaded_event) (set_pc 0 (Returned (Inr ''ok'')) (Dial\<lparr>cd_nextID := 1, cd_number := [0 \<mapsto> 1],
     cd_sent := [request 1 [] ''ping'' []], cd_read := [pong]\<rparr>))"

lemma sample_cdp_run: "cdp_run 6 answered_call"
proof -
  let ?c1 = "call_begin 0 [] ''ping'' (Some []) Dial"
  let ?c2 = "call_write True 0 1 (request 1 [] ''ping'' []) ?c1"
  let ?c3 = "read_message (Some pong) ?c2"
  let ?c4 = "?c3\<lparr>cd_chan := (cd_chan ?c3)(0 \<mapsto> Inr ''ok''), cd_reader := Reading\<rparr>"
  let ?c5 = "set_pc 0 (Returned (Inr ''ok'')) (?c4\<lparr>cd_chan := (cd_chan ?c4)(0 := None)\<rparr>)"
  have s1: "cdp_step Dial ?c1"
    by (rule cdp_step.call) (simp add: Dial_def)
  have s2: "cdp_step ?c1 ?c2"
    by (rule cdp_step.sent) (simp add: cdp_ops Dial_def)
  have s3: "cdp_step ?c2 ?c3"
    by (rule cdp_step.read) (simp add: cdp_ops Dial_def)
  have s4: "cdp_step ?c3 ?c4"
    by (rule cdp_step.deliver) (simp_all add: cdp_ops Dial_def pong_def response_of_def)
  have s5: "cdp_step ?c4 ?c5"
    by (rule cdp_step.reply [of _ 0 1 "''ping''"]) (simp_all add: cdp_ops Dial_def pong_def request_def)
  have s6: "cdp_step ?c5 (read_message (Some loaded_event) ?c5)"
    by (rule cdp_step.read) (simp add: cdp_ops Dial_def)
  have eq: "read_message (Some loaded_event) ?c5 = answered_call"
    by (simp add: answered_call_def cdp_ops Dial_def pong_def loaded_event_def fun_eq_iff)
  have "cdp_run (Suc (Suc (Suc (Suc (Suc (Suc 0)))))) (read_message (Some loaded_event) ?c5)"
    by (rule cdp_run.step [OF cdp_run.step [OF cdp_run.step [OF cdp_run.step [OF cdp_run.step [OF cdp_run.step [OF cdp_run.start s1] s2] s3] s4] s5] s6])
  then show ?thesis
    unfolding eq by (simp add: eval_nat_numeral)
qed

theorem cdp_reply_matches_call_witness:
  "\<exists>e\<in>set (cd_read answered_call). cd_number answered_call 0 = Some (en_ID e) \<and> response_of e = Inr ''ok''"
proof -
  have "cd_pc answered_call 0 = Returned (Inr ''ok'')"
    by (simp add: answered_call_def cdp_ops loaded_event_def)
  then show ?thesis
    using cdp_reply_matches_call [OF sample_cdp_run] by simp
qed




definition silent_launch :: launch_env where
  "silent_launch = \<lparr>le_start = True, le_previous = \<lparr>ap_data = [], ap_modTime = 0, ap_exists = False\<rparr>, le_events = [LauncherDone None],
     le_stderr = [], le_dial = True, le_processes = None, le_track = (\<lambda>_. True), le_extensions = None, le_loads = (\<lambda>_. True), le_clean = id\<rparr>"


text \<open>
  Closing never kills unless it is forced, and reports success only when the connection, the process and what it owns are gone.
\<close>
lemma close_reports_the_end:
  "CloseBrowser True force env = (calls, None) \<Longrightarrow> xe_closed env \<and> xe_done env \<and> xe_owned env \<and> ReleaseChild \<in> set calls"
  "KillChild \<in> set (fst (CloseBrowser present force env)) \<Longrightarrow> force"
  by (auto simp: CloseBrowser_def Let_def split: if_splits)

end
