(* ===== verification/Spec2Isabelle.thy ===== *)
theory Spec2Isabelle
  imports Auth_Limits Transport_Delivery Audio_Delivery Audio_Signal Telemetry_Facts Governor_Control Touch_Contacts Pointer_Buttons Library_Facts Clipboard_Facts Viewport Browser_Handoff Tab_Loading Api_Facts Cdp_Facts
begin

text \<open>
  \<^bold>\<open>A verification of the Surf backend.\<close>

  Surf runs Chromium on a computer and streams its tabs to paired devices. The backend under \<^verbatim>\<open>src/backend\<close> is written in
  Go. It keeps a registry of paired devices, serves a TLS interface, opens one WebSocket per connected device, drives Chromium
  over the DevTools protocol, encodes video and audio of the active tab, forwards touch, pointer and keyboard input
  to it, and keeps a session, a history, bookmarks, a shared clipboard and logs on disk.

  \<^bold>\<open>How the parts interact.\<close> A device is paired and authenticated by \<^verbatim>\<open>auth\<close> through the handlers of \<^verbatim>\<open>web\<close>. With a session
  it gets a ticket, which opens a WebSocket of the \<^verbatim>\<open>transport\<close> hub. The browser manager (\<^verbatim>\<open>browser/mode.go\<close>) owns the browser
  that streams or the one that is being set up. A controller (\<^verbatim>\<open>browser/controller.go\<close>) keeps the tabs, reacts to events of the
  \<^verbatim>\<open>cdp\<close> client, and connects the media pipelines (\<^verbatim>\<open>media\<close>) and the input lanes to the clients. The governor
  (\<^verbatim>\<open>browser/adaptive.go\<close>) chooses the encoder's profile from the clients' reports.

  \<^bold>\<open>Conventions.\<close> A Go string is a \<^typ>\<open>string\<close>, a list of bytes. Fixed-width integers are words, so that \<^verbatim>\<open>uint64\<close> counters wrap; Go's
  \<^verbatim>\<open>int\<close> is \<^typ>\<open>int\<close> where it stays in range. A \<^verbatim>\<open>time.Time\<close> is a number of nanoseconds. A struct is a record, an error a value. A
  method is a function of the state; one that locks, unlocks and blocks is split at these points. Goroutines that run
  concurrently are a step relation or a run over a list of events in any order, so that a theorem about a run
  covers every interleaving. A Go map that is ranged over takes the order of the visit as an argument. Random values, the clock,
  the outcome of system calls, the answers of Chromium, and JSON, URL, RSA and hash functions are arguments. The
  closed examples that follow the theorems instantiate them.

  \<^bold>\<open>Theories.\<close> Each component is one theory of definitions and one or two of facts.

  \<^item> \<open>Surf_Prelude\<close>, \<open>Go_Text\<close>, \<open>Go_Float\<close>: words, big-endian integers, slices, time, buffered channels, maps; UTF-8, \<^verbatim>\<open>strings\<close> and
    \<^verbatim>\<open>strconv\<close>; binary64 arithmetic with rounding to even.
  \<^item> \<open>Wire_Frames\<close>: the media frames of \<^verbatim>\<open>protocol/protocol.go\<close> (\<^const>\<open>EncodeVideo\<close>, \<^const>\<open>StampSocketWrite\<close>) and their reading back.
  \<^item> \<open>Auth\<close>, \<open>Auth_Security\<close>, \<open>Auth_Limits\<close>: \<^verbatim>\<open>auth/auth.go\<close>. The record \<open>manager\<close> is \<^verbatim>\<open>Manager\<close>, every method a function, and
    \<^const>\<open>auth_run\<close> runs any sequence of calls. Shown: who can be in the registry, the limit of guesses, that a
    revocation is final, the session cookie, the rate limits, single use of tickets.
  \<^item> \<open>Lossy_Queue\<close>, \<open>Input_Lane\<close>: the contracts, as locales, of the bounded queues and of the input lanes. They are interpreted on
    the queues of the transport, the pipelines, the telemetry and both input lanes.
  \<^item> \<open>Transport_Hub\<close>, \<open>Transport_Delivery\<close>: \<^verbatim>\<open>transport/hub.go\<close>, the three lanes of a client, its write loop and the hub. Shown: text
    arrives in order, video can be decoded after any overflow, a pause is a boundary.
  \<^item> \<open>Video_Pipeline\<close>, \<open>Video_Delivery\<close>, \<open>Audio_Pipeline\<close>, \<open>Audio_Delivery\<close>, \<open>Audio_Signal\<close>: \<^verbatim>\<open>media/video.go\<close> and \<^verbatim>\<open>media/audio.go\<close>.
    Shown: subscribers get unbroken streams, an encoder is not abandoned, only the current capture publishes.
  \<^item> \<open>Telemetry\<close>, \<open>Telemetry_Facts\<close>: the histograms, rings and clock windows of \<^verbatim>\<open>telemetry/telemetry.go\<close>.
  \<^item> \<open>Stream_Governor\<close>, \<open>Governor_Control\<close>: \<^verbatim>\<open>browser/adaptive.go\<close>. Shown: profile changes are spaced, rest on evidence and
    reach the encoder, whatever the order of the clients.
  \<^item> \<open>Touch_Input\<close>, \<open>Touch_Contacts\<close>, \<open>Pointer_Input\<close>, \<open>Pointer_Buttons\<close>: \<^verbatim>\<open>browser/touch_input.go\<close>, \<^verbatim>\<open>browser/pointer_input.go\<close> and
    the input of \<^verbatim>\<open>browser/input.go\<close>. Shown: the touch events dispatched are a legal contact protocol, no button stays down.
  \<^item> \<open>Viewport\<close>: the sizes of \<^verbatim>\<open>browser/input.go\<close>; the capture settles on the size asked for.
  \<^item> \<open>Library_Store\<close>, \<open>Library_Facts\<close>: history and bookmarks, \<^verbatim>\<open>browser/store.go\<close>, with the two files; they survive restarts.
  \<^item> \<open>Clipboard\<close>, \<open>Clipboard_Facts\<close>: \<^verbatim>\<open>clipboard/controller.go\<close> as threads; a revision stands for one text.
  \<^item> \<open>Browser_Mode\<close>, \<open>Browser_Handoff\<close>: \<^verbatim>\<open>browser/mode.go\<close>; one browser at a time owns the profile, a request acts only on the state its
    sender saw.
  \<^item> \<open>Browser_Session\<close>, \<open>Session_Facts\<close>: \<^verbatim>\<open>browser/session.go\<close> and the session of \<^verbatim>\<open>browser/setup.go\<close>; the tabs survive a restart.
  \<^item> \<open>Browser_Tabs\<close>, \<open>Tab_Registry\<close>, \<open>Tab_Loading\<close>: \<^verbatim>\<open>browser/tabs.go\<close> with the events and commands that reach it. Goroutines are lists of
    actions, \<^const>\<open>tab_reach\<close> interleaves them. Shown: the maps of the controller agree, timers end only their own load.
  \<^item> \<open>Log_Store\<close>, \<open>Log_Facts\<close>: \<^verbatim>\<open>logstore/logstore.go\<close> with every failure of the file system; the files stay bounded, writing returns.
  \<^item> \<open>Api_Server\<close>, \<open>Api_Facts\<close>: \<^verbatim>\<open>web\<close>, the routes (\<^const>\<open>route\<close>) and handlers over the states of the registry, the hub, the logs, the
    browser manager and the clipboard. Shown: what a request may do with and without the administrator's token, that requests
    use the registry only through the calls of \<open>Auth\<close>, where sockets come from, that the compatibility checks agree, that a log
    stream mirrors the log, that clipboard requests account for every device.
  \<^item> \<open>Cdp_Client\<close>, \<open>Cdp_Facts\<close>: \<^verbatim>\<open>cdp\<close>, the DevTools connection as interleaved goroutines (\<^const>\<open>cdp_step\<close>), the launch and the closing of a
    browser. Shown: replies go to their calls, events arrive in order, a failed launch leaves nothing behind.
  \<^item> This theory: what the HTTP interface and the registry give together.

  \<^bold>\<open>Bounds.\<close> Counters that identify things (media epochs, generations of encoders, loads and captures, revisions of the
  clipboard, numbers of DevTools commands) are 64-bit words. The theorems that need them to be distinct bound the number
  of steps by \<open>2\<^sup>6\<^sup>2\<close> or \<open>2\<^sup>6\<^sup>3\<close>, far beyond what a process can do. Lists of events that drive a loop are finite and of any length;
  where a loop ends at a deadline, the end of the list is the deadline. The only loop without an obvious measure, the one of
  \<^verbatim>\<open>Writer.Write\<close>, is a \<open>partial_function\<close>, and it is proved to return. No other fuel is used.

  \<^bold>\<open>Assumptions named in the theorems.\<close> Chromium announces a target once and gives each its own identifier; the map of
  clients is visited in some order; concurrent calls on the registry during a signature check are calls of \<open>Auth\<close>.

  \<^bold>\<open>Not modelled.\<close> The capture extension and its relay (\<^verbatim>\<open>media/capture.go\<close>), downloads and uploads, JavaScript evaluated in
  pages (\<^verbatim>\<open>editable.go\<close>, \<^verbatim>\<open>select.go\<close>, most of \<^verbatim>\<open>features.go\<close> and \<^verbatim>\<open>verbs.go\<close>), user agents and Widevine: they relay what
  Chromium and pages say, which is arbitrary here. Processes, Chromium installations, certificates, discovery, tray, updates and the
  clipboards of the operating systems: system calls. The command line and the desktop window (\<^verbatim>\<open>cmd/surf\<close>): a user
  interface over the HTTP interface. TLS, HTTP headers other than the session cookie, logging and the byte copying of the
  tunnel. The clients, which are written in other languages: what they send is arbitrary input.
\<close>

section \<open>Pairing over HTTP\<close>

lemma api_run_Cons: "api_run cfg s (x # steps) = api_run cfg (fst (route cfg (fst x) (snd x) s)) steps"
  by (cases x) simp

lemma concat_split:
  "concat css = xs @ c # ys \<Longrightarrow> \<exists>j<length css. c \<in> set (css ! j) \<and> set xs \<subseteq> (\<Union>i\<le>j. set (css ! i))"
proof (induction css arbitrary: xs)
  case (Cons cs css)
  show ?case
  proof (cases "length xs < length cs")
    case True
    then have "cs = xs @ c # drop (Suc (length xs)) cs"
      using Cons.prems by (metis append_eq_append_conv_if concat.simps(2) id_take_nth_drop nth_append nth_append_length take_append append_eq_conv_conj less_imp_le_nat)
    then have "c \<in> set cs" "set xs \<subseteq> set cs"
      by (metis in_set_conv_decomp, metis Un_upper1 set_append)
    then show ?thesis
      by (intro exI [of _ 0]) auto
  next
    case False
    then obtain zs where zs: "xs = cs @ zs" "concat css = zs @ c # ys"
      using Cons.prems by (auto simp: append_eq_append_conv2 Cons_eq_append_conv not_less)
    obtain j where j: "j < length css" "c \<in> set (css ! j)" "set zs \<subseteq> (\<Union>i\<le>j. set (css ! i))"
      using Cons.IH [OF zs(2)] by blast
    have "set xs \<subseteq> (\<Union>i\<le>Suc j. set ((cs # css) ! i))"
      using j(3) unfolding zs(1) atMost_Suc_eq_insert_0 by auto
    then show ?thesis
      using j by (intro exI [of _ "Suc j"]) simp
  qed
qed simp

definition invitation :: "api_env \<times> http_request" where
  "invitation = (sample_env\<lparr>ev_json_text := \<lambda>_ _. Some []\<rparr>,
     (sample_request ''POST'' ''/admin/pairing/session'')\<lparr>rq_RemoteAddr := ''127.0.0.1'', rq_header := \<lambda>_. ''secret''\<rparr>)"

definition pairing_request :: "api_env \<times> http_request" where
  "pairing_request = (sample_env\<lparr>ev_json_pair := \<lambda>_. Some (''Phone'', ''K'', ''c'', [])\<rparr>, sample_request ''POST'' ''/pairing/request'')"

definition confirmation :: "api_env \<times> http_request" where
  "confirmation = (sample_env, sample_request ''POST'' ''/pairing/confirm/i'')"

definition fresh_server :: api_server where
  "fresh_server = sample_server\<lparr>sv_auth := New ''srv'' [1] []\<rparr>"

lemma pairing_run:
  "sv_auth (api_run sample_api fresh_server [invitation, pairing_request, confirmation]) =
   auth_run sample_std (New ''srv'' [1] []) [COpen 10 ''i'' ''c'' ''tk'', CAllowPair 10 ''10.0.0.9'', CRequest 10 ''i'' ''Phone'' ''K'' ''10.0.0.9'' ''c'' [], CConfirm True 10 ''i'']"
proof -
  have opened: "sv_auth (fst (route sample_api (fst invitation) (snd invitation) fresh_server)) = auth_step sample_std (New ''srv'' [1] []) (COpen 10 ''i'' ''c'' ''tk'')"
    (is "sv_auth (fst ?x) = ?m1")
    by (simp add: invitation_def route_def handleAdmin_def admin_route_def admin_open_pairing_def Let_def sample_request_def APIRoot_def isLoopback_def
        adminAuthorized_def sample_env_def sample_std_def sample_api_def fresh_server_def sample_server_def decodeJSON_def case_prod_unfold)
  have allowed: "snd (AllowPair sample_std 10 ''10.0.0.9'' ?m1)"
    by (simp add: AllowPair_def allowRate_def OpenPairing_def New_def Let_def MaxRateLimitPeers_def case_prod_unfold)
  have request: "sv_auth (fst (route sample_api (fst pairing_request) (snd pairing_request) s)) =
      auth_run sample_std ?m1 [CAllowPair 10 ''10.0.0.9'', CRequest 10 ''i'' ''Phone'' ''K'' ''10.0.0.9'' ''c'' []]" if "sv_auth s = ?m1" for s
    using allowed that
    by (simp add: pairing_request_def route_def handlePairRequest_def Let_def sample_request_def APIRoot_def sample_env_def decodeJSON_def case_prod_unfold
        split: sum.split)
  have confirm: "sv_auth (fst (route sample_api (fst confirmation) (snd confirmation) s)) = auth_step sample_std (sv_auth s) (CConfirm True 10 ''i'')" for s
    by (simp add: confirmation_def route_def handlePairConfirm_def Let_def sample_request_def APIRoot_def trim_prefix_def sample_env_def case_prod_unfold
        split: sum.split prod.split)
  show ?thesis
    using request [OF opened] confirm by (simp add: api_run_Cons)
qed

lemma paired_device:
  "mg_devices (sv_auth (api_run sample_api fresh_server [invitation, pairing_request, confirmation])) ''4b'' =
   Some \<lparr>dev_ID = ''4b'', dev_Name = sanitizeDeviceName ''Phone'', dev_PublicKey = ''K'', dev_PairedAt = 10, dev_LastSeen = 0\<rparr>"
  unfolding pairing_run
  by (simp add: sample_simps OpenPairing_def AllowPair_def RequestPair_def ConfirmPair_def New_def Let_def case_prod_unfold
      pruneLocked_def credential_matches_def saveDevicesLocked_def close_session_of_def)

text \<open>
  C2 (safety). A device that the server did not know when it started is paired only on the administrator's invitation: whatever requests arrive,
  if the device is in the registry afterwards, then a request from the loopback interface with the administrator's token opened a pairing
  window, and a later pairing request carried the device's public key and the very code or QR token drawn for that window.
\<close>
theorem pairing_needs_the_administrator:
  assumes "sv_auth s0 = New serverID secret registry" "\<forall>(env, r)\<in>set steps. ev_std env = std \<and> ev_others env = []"
    and "mg_devices (sv_auth s0) d = None" "mg_devices (sv_auth (api_run cfg s0 steps)) d = Some dev"
  shows "\<exists>i j env r env' r' name code qr. i \<le> j \<and> j < length steps \<and> steps ! i = (env, r) \<and> steps ! j = (env', r') \<and>
    admin_request cfg env r \<and> rq_Method r' = ''POST'' \<and> decodeJSON (ev_json_pair env') r' = Some (name, dev_PublicKey dev, code, qr) \<and>
    (code \<noteq> [] \<and> code = ev_code env \<or> qr \<noteq> [] \<and> qr = ev_secret env)"
proof -
  obtain css where css: "calls_permitted cfg s0 steps css" "sv_auth (api_run cfg s0 steps) = auth_run std (sv_auth s0) (concat css)"
    using run_calls [of steps std cfg s0] assms(2) by auto
  have "invited std (sv_auth s0) (concat css) d (dev_PublicKey dev)"
    using devices_invited [of "sv_auth s0" std "concat css" d dev] assms(1,3,4) css(2) by (auto simp: New_def device_kept_def)
  then obtain xs c ys p opener where inv: "concat css = xs @ c # ys" "request_by std (auth_run std (sv_auth s0) xs) c d (dev_PublicKey dev)"
    "mg_pairing (auth_run std (sv_auth s0) xs) = Some p" "opener \<in> set xs" "opened_by opener p"
    unfolding invited_def by blast
  obtain j where j: "j < length css" "c \<in> set (css ! j)" "set xs \<subseteq> (\<Union>i\<le>j. set (css ! i))"
    using concat_split [OF inv(1)] by blast
  obtain i where i: "i \<le> j" "opener \<in> set (css ! i)"
    using j(3) inv(4) by auto
  have len: "length css = length steps"
    using css(1) by (simp add: calls_permitted_def)
  have ok: "permitted cfg (fst (steps ! k)) (snd (steps ! k)) (api_run cfg s0 (take k steps)) x" if "k < length steps" "x \<in> set (css ! k)" for k x
  proof -
    have "ev_others (fst (steps ! k)) = []"
      using assms(2) nth_mem [OF that(1)] by auto
    then show ?thesis
      using css(1) that unfolding calls_permitted_def list_all_iff by (auto simp: case_prod_unfold)
  qed
  obtain t n name addr code qr where c: "c = CRequest t n name (dev_PublicKey dev) addr code qr" "credential_matches code qr p"
    using inv(2,3) by (auto simp: request_by_def credential_accepted_def split: auth_call.splits)
  obtain t' n' where opener: "opener = COpen t' n' (se_Code p) (se_QRToken p)"
    using inv(5) by (auto simp: opened_by_def split: auth_call.splits)
  have "permitted cfg (fst (steps ! j)) (snd (steps ! j)) (api_run cfg s0 (take j steps)) c"
    by (rule ok) (use j len in auto)
  then have request: "rq_Method (snd (steps ! j)) = ''POST''"
    "decodeJSON (ev_json_pair (fst (steps ! j))) (snd (steps ! j)) = Some (name, dev_PublicKey dev, code, qr)"
    by (simp_all add: c(1))
  have "permitted cfg (fst (steps ! i)) (snd (steps ! i)) (api_run cfg s0 (take i steps)) opener"
    by (rule ok) (use i j len in auto)
  then have admin: "admin_request cfg (fst (steps ! i)) (snd (steps ! i))" "se_Code p = ev_code (fst (steps ! i))"
    "se_QRToken p = ev_secret (fst (steps ! i))"
    by (simp_all add: opener)
  have "code \<noteq> [] \<and> code = ev_code (fst (steps ! i)) \<or> qr \<noteq> [] \<and> qr = ev_secret (fst (steps ! i))"
    using c(2) admin(2,3) by (auto simp: credential_matches_def)
  then show ?thesis
    using i(1) j(1) len admin(1) request by (metis prod.collapse)
qed

theorem pairing_needs_the_administrator_witness:
  "\<exists>i j env r env' r' name code qr. i \<le> j \<and> j < 3 \<and> [invitation, pairing_request, confirmation] ! i = (env, r) \<and>
     [invitation, pairing_request, confirmation] ! j = (env', r') \<and> admin_request sample_api env r \<and>
     decodeJSON (ev_json_pair env') r' = Some (name, ''K'', code, qr)"
proof -
  have "sv_auth fresh_server = New ''srv'' [1] []" "mg_devices (sv_auth fresh_server) ''4b'' = None"
    "\<forall>(env, r)\<in>set [invitation, pairing_request, confirmation]. ev_std env = sample_std \<and> ev_others env = []"
    by (simp_all add: fresh_server_def New_def invitation_def pairing_request_def confirmation_def sample_env_def)
  note found = pairing_needs_the_administrator [OF this(1,3,2) paired_device]
  have "length [invitation, pairing_request, confirmation] = 3" by simp
  with found show ?thesis
    unfolding device.select_convs by metis
qed

end
